(* ===== verification/JsNumber.thy ===== *)
theory JsNumber
  imports Complex_Main
begin

text \<open>
  The numbers of the program. Every JavaScript number is an IEEE 754 double;
  the backend computes fees, limits and balances with them, so the model keeps the
  rounding: a finite double is the rational number it denotes, and each operation
  rounds the exact result to 53 significant bits, ties to even, with gradual underflow
  and overflow to an infinity. The two zeros are identified (no modelled code observes
  the sign of a zero). The lemmas give the error of one rounding, its monotonicity, and
  the exactness of the decimal (stroop) arithmetic that the fee and escrow components
  rest on.
\<close>

section \<open>Rounding to 53 bits\<close>

fun blen :: "nat \<Rightarrow> nat" where
  "blen n = (if n = 0 then 0 else Suc (blen (n div 2)))"

declare blen.simps [simp del]

lemma blen_0 [simp]: "blen 0 = 0"
  by (simp add: blen.simps)

lemma blen_bounds: "0 < n \<Longrightarrow> 2 ^ (blen n - 1) \<le> n \<and> n < 2 ^ blen n"
proof (induction n rule: blen.induct)
  case (1 n)
  show ?case
  proof (cases "n div 2 = 0")
    case True
    with "1.prems" have "n = 1" by arith
    then show ?thesis by (simp add: blen.simps)
  next
    case False
    with "1.IH" "1.prems" have IH: "2 ^ (blen (n div 2) - 1) \<le> n div 2" "n div 2 < 2 ^ blen (n div 2)"
      by auto
    have pos: "0 < blen (n div 2)"
      using False by (subst blen.simps) simp
    have eq: "blen n = Suc (blen (n div 2))"
      using "1.prems" by (subst blen.simps) simp
    have "2 ^ blen (n div 2) = 2 * (2::nat) ^ (blen (n div 2) - 1)"
      using pos by (cases "blen (n div 2)") simp_all
    with IH have "2 ^ blen (n div 2) \<le> n" by linarith
    moreover have "n < 2 * 2 ^ blen (n div 2)"
      using IH(2) by linarith
    ultimately show ?thesis by (simp add: eq)
  qed
qed

lemma blen_pos: "0 < n \<Longrightarrow> 0 < blen n"
  by (subst blen.simps) simp

definition flog2 :: "rat \<Rightarrow> int" where
  "flog2 x = (let (a, b) = quotient_of x; k = int (blen (nat a)) - int (blen (nat b))
              in if 2 powi k \<le> x then k else k - 1)"

definition rne :: "rat \<Rightarrow> int" where
  "rne x = (let f = \<lfloor>x\<rfloor>; d = x - of_int f
            in if d < 1 / 2 then f else if 1 / 2 < d then f + 1 else if even f then f else f + 1)"

definition ulp_exp :: "rat \<Rightarrow> int" where
  "ulp_exp x = max (- 1074) (flog2 \<bar>x\<bar> - 52)"

definition rnd53 :: "rat \<Rightarrow> rat" where
  "rnd53 x = (if x = 0 then 0 else of_int (rne (x / 2 powi ulp_exp x)) * 2 powi ulp_exp x)"

lemma powi2_pos [simp]: "(0::rat) < 2 powi e"
  by (simp add: zero_less_power_int)

lemma powi2_nonzero [simp]: "(2::rat) powi e \<noteq> 0"
  by (simp add: power_int_not_zero)

lemma powi2_mono: "i \<le> j \<Longrightarrow> (2::rat) powi i \<le> 2 powi j"
  by (rule power_int_increasing) simp_all

lemma powi2_less_iff: "(2::rat) powi i < 2 powi j \<longleftrightarrow> i < j"
  by (metis linorder_not_less nle_le one_less_numeral_iff order_less_irrefl power_int_strict_increasing powi2_mono semiring_norm(76))

lemma powi2_add: "(2::rat) powi (i + j) = 2 powi i * 2 powi j"
  by (simp add: power_int_add)

lemma powi2_split:
  assumes "i \<le> k"
  shows "(2::rat) powi k = of_int (2 ^ nat (k - i)) * 2 powi i"
proof -
  have "(2::rat) powi k = 2 powi (k - i) * 2 powi i" by (simp flip: powi2_add)
  also have "(2::rat) powi (k - i) = of_int (2 ^ nat (k - i))"
    using assms by (simp add: power_int_def)
  finally show ?thesis .
qed

lemma powi2_nat: "(2::rat) powi int l = of_nat (2 ^ l)"
  by (simp add: power_int_def)

lemma powi2_pred: "0 < l \<Longrightarrow> (2::rat) powi (int l - 1) = of_nat (2 ^ (l - 1))"
  by (cases l) (simp_all add: power_int_def)

lemma flog2_bounds:
  assumes "0 < x"
  shows "2 powi flog2 x \<le> x \<and> x < 2 powi (flog2 x + 1)"
proof -
  obtain a b where q: "quotient_of x = (a, b)" by (cases "quotient_of x")
  have b: "0 < b" using quotient_of_denom_pos [OF q] .
  have x: "x = of_int a / of_int b" using quotient_of_div [OF q] .
  have a: "0 < a" using assms b by (simp add: x zero_less_divide_iff)
  define m n where "m = nat a" and "n = nat b"
  have mn: "0 < m" "0 < n" "a = int m" "b = int n" using a b by (simp_all add: m_def n_def)
  have bm: "2 ^ (blen m - 1) \<le> m" "m < 2 ^ blen m" using blen_bounds [OF mn(1)] by auto
  have bn: "2 ^ (blen n - 1) \<le> n" "n < 2 ^ blen n" using blen_bounds [OF mn(2)] by auto
  have xm: "x = of_nat m / of_nat n" by (simp add: x mn)
  have pm: "0 < blen m" and pn: "0 < blen n" using mn by (simp_all add: blen_pos)
  define k where "k = int (blen m) - int (blen n)"
  have m1: "(2::rat) powi (int (blen m) - 1) \<le> of_nat m"
    using of_nat_mono [OF bm(1), where 'a = rat] by (simp only: powi2_pred [OF pm])
  have m2: "of_nat m < (2::rat) powi int (blen m)"
    using of_nat_less_iff [where 'a = rat, THEN iffD2, OF bm(2)] by (simp only: powi2_nat)
  have n1: "(2::rat) powi (int (blen n) - 1) \<le> of_nat n"
    using of_nat_mono [OF bn(1), where 'a = rat] by (simp only: powi2_pred [OF pn])
  have n2: "of_nat n < (2::rat) powi int (blen n)"
    using of_nat_less_iff [where 'a = rat, THEN iffD2, OF bn(2)] by (simp only: powi2_nat)
  have up: "x < 2 powi (k + 1)"
  proof -
    have e: "(2::rat) powi (k + 1) * 2 powi (int (blen n) - 1) = 2 powi int (blen m)"
      by (simp add: k_def flip: powi2_add)
    have "of_nat m < (2::rat) powi (k + 1) * 2 powi (int (blen n) - 1)" using m2 by (simp only: e)
    also have "\<dots> \<le> 2 powi (k + 1) * of_nat n" using n1 by (simp add: mult_left_mono)
    finally show ?thesis using mn(2) by (simp add: xm field_simps)
  qed
  have lo: "2 powi (k - 1) \<le> x"
  proof -
    have e: "(2::rat) powi (k - 1) * 2 powi int (blen n) = 2 powi (int (blen m) - 1)"
      by (simp add: k_def flip: powi2_add del: power_int_of_nat)
    have "(2::rat) powi (k - 1) * of_nat n \<le> 2 powi (k - 1) * 2 powi int (blen n)"
      using n2 by (simp add: mult_left_mono)
    also have "\<dots> \<le> of_nat m" using m1 by (simp only: e)
    finally show ?thesis using mn(2) by (simp add: xm field_simps)
  qed
  have f: "flog2 x = (if 2 powi k \<le> x then k else k - 1)"
    by (simp add: flog2_def q k_def m_def n_def Let_def)
  show ?thesis using up lo by (simp add: f)
qed

lemma flog2_le: "0 < x \<Longrightarrow> x < 2 powi k \<Longrightarrow> flog2 x \<le> k - 1"
  using flog2_bounds [of x] powi2_less_iff [of "flog2 x" k] by fastforce

lemma rne_err: "\<bar>of_int (rne x) - x\<bar> \<le> 1 / 2"
  using of_int_floor_le [of x] floor_correct [of x]
  by (auto simp: rne_def Let_def abs_le_iff)

lemma rne_of_int [simp]: "rne (of_int n) = n"
  by (simp add: rne_def)

lemma rne_mono:
  assumes "x \<le> y"
  shows "rne x \<le> rne y"
proof (cases "\<lfloor>x\<rfloor> = \<lfloor>y\<rfloor>")
  case True
  then show ?thesis using assms by (auto simp: rne_def Let_def)
next
  case False
  then have "\<lfloor>x\<rfloor> + 1 \<le> \<lfloor>y\<rfloor>" using floor_mono [OF assms] by linarith
  moreover have "rne x \<le> \<lfloor>x\<rfloor> + 1" "\<lfloor>y\<rfloor> \<le> rne y" by (auto simp: rne_def Let_def)
  ultimately show ?thesis by linarith
qed

lemma rne_minus: "rne (- x) = - rne x"
proof (cases "x = of_int \<lfloor>x\<rfloor>")
  case True
  then have "rne (- x) = rne (of_int (- \<lfloor>x\<rfloor>))" by (metis of_int_minus)
  with True show ?thesis by (metis rne_of_int)
next
  case False
  then have f: "\<lfloor>- x\<rfloor> = - \<lfloor>x\<rfloor> - 1"
    using of_int_floor_le [of x] floor_correct [of x] by (intro floor_unique) (auto simp: less_le)
  show ?thesis by (auto simp: rne_def Let_def f)
qed

lemma rnd53_0 [simp]: "rnd53 0 = 0"
  by (simp add: rnd53_def)

lemma rnd53_err_ulp: "\<bar>rnd53 x - x\<bar> \<le> 2 powi (ulp_exp x - 1)"
proof (cases "x = 0")
  case False
  let ?u = "2 powi ulp_exp x :: rat"
  have "rnd53 x - x = (of_int (rne (x / ?u)) - x / ?u) * ?u"
    using False by (simp add: rnd53_def algebra_simps)
  then have "\<bar>rnd53 x - x\<bar> = \<bar>of_int (rne (x / ?u)) - x / ?u\<bar> * ?u"
    by (simp add: abs_mult)
  also have "\<dots> \<le> 1 / 2 * ?u"
    by (rule mult_right_mono [OF rne_err]) (simp add: less_imp_le)
  also have "\<dots> = 2 powi (ulp_exp x - 1)"
    by (simp add: power_int_diff)
  finally show ?thesis .
qed (simp add: less_imp_le)

text \<open>The rounding error below \<open>2 powi k\<close> is at most half a unit in the last place.\<close>

lemma rnd53_err:
  assumes "\<bar>x\<bar> < 2 powi k" and "- 1021 \<le> k"
  shows "\<bar>rnd53 x - x\<bar> \<le> 2 powi (k - 54)"
proof (cases "x = 0")
  case False
  then have "flog2 \<bar>x\<bar> \<le> k - 1" using flog2_le assms(1) by simp
  then have "ulp_exp x - 1 \<le> k - 54" using assms(2) by (simp add: ulp_exp_def)
  then show ?thesis using rnd53_err_ulp [of x] powi2_mono order_trans by blast
qed (simp add: less_imp_le)

lemma rnd53_minus [simp]: "rnd53 (- x) = - rnd53 x"
  by (simp add: rnd53_def ulp_exp_def rne_minus)

lemma rnd53_nonneg: "0 \<le> x \<Longrightarrow> 0 \<le> rnd53 x"
  using rne_mono [of 0 "x / 2 powi ulp_exp x"] rne_of_int [of 0]
  by (simp add: rnd53_def less_imp_le divide_nonneg_nonneg)

text \<open>A rational with at most 53 significant bits is a double: rounding keeps it.\<close>

lemma rnd53_exact:
  assumes "x = of_int m * 2 powi e" and "\<bar>m\<bar> < 2 ^ 53" and "- 1074 \<le> e"
  shows "rnd53 x = x"
proof (cases "x = 0")
  case False
  then have m: "m \<noteq> 0" using assms(1) by auto
  have ax: "\<bar>x\<bar> = of_int \<bar>m\<bar> * 2 powi e" by (simp add: assms(1) abs_mult)
  have "of_int \<bar>m\<bar> < (2::rat) powi 53"
    using of_int_less_iff [where 'a = rat, THEN iffD2, OF assms(2)] by simp
  then have "\<bar>x\<bar> < 2 powi 53 * 2 powi e" unfolding ax by (rule mult_strict_right_mono) simp
  then have "\<bar>x\<bar> < 2 powi (53 + e)" by (simp add: powi2_add)
  then have "flog2 \<bar>x\<bar> \<le> 52 + e" using False flog2_le [of "\<bar>x\<bar>" "53 + e"] by simp
  then have u: "ulp_exp x \<le> e" using assms(3) by (simp add: ulp_exp_def)
  define d where "d = nat (e - ulp_exp x)"
  have "(2::rat) powi e = of_int (2 ^ d) * 2 powi ulp_exp x"
    unfolding d_def by (rule powi2_split [OF u])
  then have "x = of_int (m * 2 ^ d) * 2 powi ulp_exp x" by (subst assms(1)) simp
  then have "x / 2 powi ulp_exp x = of_int (m * 2 ^ d)"
    by (metis nonzero_mult_div_cancel_right powi2_nonzero)
  then have "rne (x / 2 powi ulp_exp x) = m * 2 ^ d" by (simp only: rne_of_int)
  then have "rnd53 x = of_int (m * 2 ^ d) * 2 powi ulp_exp x" using False by (simp add: rnd53_def)
  also have "\<dots> = x" using \<open>x / 2 powi ulp_exp x = of_int (m * 2 ^ d)\<close>
    by (metis nonzero_eq_divide_eq powi2_nonzero)
  finally show ?thesis .
qed simp

lemma rnd53_of_int: "\<bar>m\<bar> < 2 ^ 53 \<Longrightarrow> rnd53 (of_int m) = of_int m"
  using rnd53_exact [of "of_int m" m 0] by simp

lemma rne_bound: "\<bar>y\<bar> \<le> of_int k \<Longrightarrow> \<bar>rne y\<bar> \<le> k"
  using rne_mono [of y "of_int k"] rne_mono [of "of_int (- k)" y] rne_of_int [of "- k"]
  by (simp add: abs_le_iff)

lemma rnd53_idem [simp]: "rnd53 (rnd53 x) = rnd53 x"
proof (cases "x = 0")
  case False
  define m where "m = rne (x / 2 powi ulp_exp x)"
  have r: "rnd53 x = of_int m * 2 powi ulp_exp x" using False by (simp add: rnd53_def m_def)
  have "\<bar>x\<bar> < 2 powi (flog2 \<bar>x\<bar> + 1)" using flog2_bounds [of "\<bar>x\<bar>"] False by simp
  also have "\<dots> \<le> 2 powi (ulp_exp x + 53)" by (rule powi2_mono) (simp add: ulp_exp_def)
  also have "\<dots> = of_int (2 ^ 53) * 2 powi ulp_exp x" by (simp add: powi2_add)
  finally have "\<bar>x\<bar> \<le> of_int (2 ^ 53) * 2 powi ulp_exp x" by simp
  then have "\<bar>x / 2 powi ulp_exp x\<bar> \<le> of_int (2 ^ 53)"
    by (simp only: abs_divide abs_of_pos [OF powi2_pos] pos_divide_le_eq [OF powi2_pos])
  then have m: "\<bar>m\<bar> \<le> 2 ^ 53" unfolding m_def by (rule rne_bound)
  show ?thesis
  proof (cases "\<bar>m\<bar> < 2 ^ 53")
    case True
    then show ?thesis using rnd53_exact [OF r True] by (simp add: ulp_exp_def)
  next
    case False
    define s :: int where "s = (if m < 0 then - 1 else 1)"
    have "m = s * 2 ^ 53" using m False by (auto simp: s_def)
    then have "rnd53 x = of_int s * 2 powi (ulp_exp x + 53)" by (simp add: r powi2_add)
    moreover have "\<bar>s\<bar> < 2 ^ 53" by (simp add: s_def)
    ultimately show ?thesis using rnd53_exact [of "rnd53 x" s "ulp_exp x + 53"] by (simp add: ulp_exp_def)
  qed
qed simp

text \<open>Rounding is monotone, so comparisons survive it.\<close>

lemma rnd53_le_powi:
  assumes "0 < x" and "x \<le> 2 powi k" and "ulp_exp x \<le> k"
  shows "rnd53 x \<le> 2 powi k"
proof -
  define d where "d = nat (k - ulp_exp x)"
  have k: "(2::rat) powi k = of_int (2 ^ d) * 2 powi ulp_exp x"
    unfolding d_def by (rule powi2_split [OF assms(3)])
  have "x / 2 powi ulp_exp x \<le> of_int (2 ^ d)"
    using assms(2) by (simp only: k pos_divide_le_eq powi2_pos)
  then have "rne (x / 2 powi ulp_exp x) \<le> 2 ^ d" by (metis rne_mono rne_of_int)
  then have "of_int (rne (x / 2 powi ulp_exp x)) * 2 powi ulp_exp x
      \<le> of_int (2 ^ d) * (2 powi ulp_exp x :: rat)"
    by (intro mult_right_mono) (simp_all add: less_imp_le del: of_int_power)
  then show ?thesis using assms(1) by (simp only: rnd53_def k) simp
qed

lemma rnd53_ge_powi:
  assumes "0 < x" and "2 powi k \<le> x" and "ulp_exp x \<le> k"
  shows "2 powi k \<le> rnd53 x"
proof -
  define d where "d = nat (k - ulp_exp x)"
  have k: "(2::rat) powi k = of_int (2 ^ d) * 2 powi ulp_exp x"
    unfolding d_def by (rule powi2_split [OF assms(3)])
  have "of_int (2 ^ d) \<le> x / 2 powi ulp_exp x"
    using assms(2) by (simp only: k pos_le_divide_eq powi2_pos)
  then have "2 ^ d \<le> rne (x / 2 powi ulp_exp x)" by (metis rne_mono rne_of_int)
  then have "of_int (2 ^ d) * (2 powi ulp_exp x :: rat)
      \<le> of_int (rne (x / 2 powi ulp_exp x)) * 2 powi ulp_exp x"
    by (intro mult_right_mono) (simp_all add: less_imp_le del: of_int_power)
  then show ?thesis using assms(1) by (simp only: rnd53_def k) simp
qed

lemma flog2_mono: "0 < x \<Longrightarrow> x \<le> y \<Longrightarrow> flog2 x \<le> flog2 y"
  using flog2_le [of x "flog2 y + 1"] flog2_bounds [of y] by force

lemma rnd53_mono_pos:
  assumes "0 < x" and "x \<le> y"
  shows "rnd53 x \<le> rnd53 y"
proof (cases "ulp_exp x = ulp_exp y")
  case True
  have "x / 2 powi ulp_exp x \<le> y / 2 powi ulp_exp x"
    using assms(2) by (intro divide_right_mono) (simp_all add: less_imp_le)
  then have "of_int (rne (x / 2 powi ulp_exp x)) * 2 powi ulp_exp x
      \<le> of_int (rne (y / 2 powi ulp_exp x)) * (2 powi ulp_exp x :: rat)"
    using rne_mono by (intro mult_right_mono) (simp_all add: less_imp_le)
  then show ?thesis using assms by (simp add: rnd53_def True)
next
  case False
  have y: "0 < y" using assms by linarith
  have "flog2 x \<le> flog2 y" using flog2_mono assms by blast
  with False have lt: "flog2 x < flog2 y" "- 1074 < flog2 y - 52" using assms y
    by (auto simp: ulp_exp_def max_def split: if_splits)
  have "x < 2 powi (flog2 x + 1)" using flog2_bounds assms(1) by blast
  also have "\<dots> \<le> 2 powi flog2 y" using lt by (intro powi2_mono) simp
  finally have 1: "rnd53 x \<le> 2 powi flog2 y"
    using assms(1) lt by (intro rnd53_le_powi) (auto simp: ulp_exp_def)
  have "2 powi flog2 y \<le> rnd53 y"
    using y lt flog2_bounds [OF y] by (intro rnd53_ge_powi) (auto simp: ulp_exp_def)
  with 1 show ?thesis by linarith
qed

lemma rnd53_mono:
  assumes "x \<le> y"
  shows "rnd53 x \<le> rnd53 y"
proof (cases "0 < x")
  case True
  then show ?thesis using assms rnd53_mono_pos by blast
next
  case x: False
  show ?thesis
  proof (cases "0 \<le> y")
    case True
    have "rnd53 x \<le> 0" using rnd53_nonneg [of "- x"] x by simp
    then show ?thesis using rnd53_nonneg [OF True] by linarith
  next
    case False
    then show ?thesis using rnd53_mono_pos [of "- y" "- x"] assms by simp
  qed
qed

text \<open>A certificate for one rounding: the significand and the exponent of the result.\<close>

lemma rnd53_cert:
  assumes "2 powi k \<le> x" and "x < 2 powi (k + 1)" and "- 1022 \<le> k"
    and "\<bar>x / 2 powi (k - 52) - of_int m\<bar> < 1 / 2"
  shows "rnd53 x = of_int m * 2 powi (k - 52)"
proof -
  have x: "0 < x" using assms(1) powi2_pos [of k] by linarith
  have "2 powi flog2 x < (2::rat) powi (k + 1)" and "(2::rat) powi k < 2 powi (flog2 x + 1)"
    using flog2_bounds [OF x] assms(1,2) by linarith+
  then have k: "flog2 x = k" by (simp add: powi2_less_iff)
  then have u: "ulp_exp x = k - 52" using x assms(3) by (simp add: ulp_exp_def)
  have "\<bar>of_int (rne (x / 2 powi (k - 52)) - m)\<bar> < (1::rat)"
    using rne_err [of "x / 2 powi (k - 52)"] assms(4) unfolding of_int_diff by linarith
  then have "rne (x / 2 powi (k - 52)) = m" by linarith
  with x u show ?thesis by (simp add: rnd53_def)
qed

section \<open>Numbers with infinities and NaN\<close>

datatype jsnum = NaN | PosInf | NegInf | Fin rat

definition mk :: "rat \<Rightarrow> jsnum" where
  "mk x = (let r = rnd53 x in
     if 2 ^ 1024 \<le> r then PosInf else if r \<le> - (2 ^ 1024) then NegInf else Fin r)"

fun jneg :: "jsnum \<Rightarrow> jsnum" where
  "jneg NaN = NaN"
| "jneg PosInf = NegInf"
| "jneg NegInf = PosInf"
| "jneg (Fin x) = Fin (- x)"

fun jadd :: "jsnum \<Rightarrow> jsnum \<Rightarrow> jsnum" where
  "jadd NaN _ = NaN"
| "jadd _ NaN = NaN"
| "jadd PosInf NegInf = NaN"
| "jadd NegInf PosInf = NaN"
| "jadd PosInf _ = PosInf"
| "jadd NegInf _ = NegInf"
| "jadd _ PosInf = PosInf"
| "jadd _ NegInf = NegInf"
| "jadd (Fin x) (Fin y) = mk (x + y)"

definition jsub :: "jsnum \<Rightarrow> jsnum \<Rightarrow> jsnum" where
  "jsub x y = jadd x (jneg y)"

definition jinf :: "rat \<Rightarrow> jsnum" where
  "jinf s = (if s = 0 then NaN else if 0 < s then PosInf else NegInf)"

fun jmul :: "jsnum \<Rightarrow> jsnum \<Rightarrow> jsnum" where
  "jmul NaN _ = NaN"
| "jmul _ NaN = NaN"
| "jmul (Fin x) (Fin y) = mk (x * y)"
| "jmul (Fin x) PosInf = jinf x"
| "jmul (Fin x) NegInf = jinf (- x)"
| "jmul PosInf (Fin y) = jinf y"
| "jmul NegInf (Fin y) = jinf (- y)"
| "jmul PosInf PosInf = PosInf"
| "jmul PosInf NegInf = NegInf"
| "jmul NegInf PosInf = NegInf"
| "jmul NegInf NegInf = PosInf"

text \<open>Division by a zero is only by the positive zero of the program's constants.\<close>

fun jdiv :: "jsnum \<Rightarrow> jsnum \<Rightarrow> jsnum" where
  "jdiv NaN _ = NaN"
| "jdiv _ NaN = NaN"
| "jdiv (Fin x) (Fin y) = (if y = 0 then jinf x else mk (x / y))"
| "jdiv (Fin _) _ = Fin 0"
| "jdiv PosInf (Fin y) = (if 0 \<le> y then PosInf else NegInf)"
| "jdiv NegInf (Fin y) = (if 0 \<le> y then NegInf else PosInf)"
| "jdiv _ _ = NaN"

fun jlt :: "jsnum \<Rightarrow> jsnum \<Rightarrow> bool" where
  "jlt NaN _ = False"
| "jlt _ NaN = False"
| "jlt (Fin x) (Fin y) = (x < y)"
| "jlt NegInf y = (y \<noteq> NegInf)"
| "jlt x NegInf = False"
| "jlt x PosInf = (x \<noteq> PosInf)"
| "jlt PosInf _ = False"

definition jle :: "jsnum \<Rightarrow> jsnum \<Rightarrow> bool" where
  "jle x y = (jlt x y \<or> (x = y \<and> x \<noteq> NaN))"

definition jmin :: "jsnum \<Rightarrow> jsnum \<Rightarrow> jsnum" where
  "jmin x y = (if x = NaN \<or> y = NaN then NaN else if jlt y x then y else x)"

definition jmax :: "jsnum \<Rightarrow> jsnum \<Rightarrow> jsnum" where
  "jmax x y = (if x = NaN \<or> y = NaN then NaN else if jlt x y then y else x)"

fun is_finite :: "jsnum \<Rightarrow> bool" where
  "is_finite (Fin _) = True"
| "is_finite _ = False"

text \<open>\<open>Math.floor\<close> and \<open>Math.ceil\<close>: the floor of a double is a double.\<close>

fun jfloor :: "jsnum \<Rightarrow> jsnum" where
  "jfloor (Fin x) = Fin (of_int \<lfloor>x\<rfloor>)"
| "jfloor x = x"

fun jceil :: "jsnum \<Rightarrow> jsnum" where
  "jceil (Fin x) = Fin (of_int \<lceil>x\<rceil>)"
| "jceil x = x"

text \<open>\<open>x || d\<close> on numbers: NaN and zero are falsy.\<close>

definition jor :: "jsnum \<Rightarrow> jsnum \<Rightarrow> jsnum" where
  "jor x d = (if x = NaN \<or> x = Fin 0 then d else x)"

lemma jlt_irrefl [simp]: "\<not> jlt x x"
  by (cases x) simp_all

lemma jlt_trans: "jlt x y \<Longrightarrow> jlt y z \<Longrightarrow> jlt x z"
  by (cases x; cases y; cases z) auto

lemma jle_Fin [simp]: "jle (Fin x) (Fin y) \<longleftrightarrow> x \<le> y"
  by (auto simp: jle_def)

lemma jmin_Fin [simp]: "jmin (Fin x) (Fin y) = Fin (min x y)"
  by (simp add: jmin_def min_def)

lemma jmax_Fin [simp]: "jmax (Fin x) (Fin y) = Fin (max x y)"
  by (simp add: jmax_def max_def)

lemma jmin_PosInf [simp]: "jmin (Fin x) PosInf = Fin x"
  by (simp add: jmin_def)

section \<open>Decimals: stroops, toFixed and parsing\<close>

text \<open>
  Amounts have seven decimals (one stroop is \<open>10 ^ -7\<close>). \<open>stroops n\<close> is the double a decimal
  string of \<open>n\<close> stroops denotes, as \<open>parseFloat\<close> and \<open>Number\<close> round it.
  \<open>fixed d x\<close> is the integer of \<open>x.toFixed(d)\<close> read without its point: the nearest one, the larger
  of two.
\<close>

definition stroops :: "int \<Rightarrow> jsnum" where
  "stroops n = mk (of_int n / 10 ^ 7)"

definition fixed :: "nat \<Rightarrow> rat \<Rightarrow> int" where
  "fixed d x = (if x < 0 then - \<lfloor>- x * 10 ^ d + 1 / 2\<rfloor> else \<lfloor>x * 10 ^ d + 1 / 2\<rfloor>)"

fun to_fixed7 :: "jsnum \<Rightarrow> jsnum" where
  "to_fixed7 (Fin x) = (if \<bar>x\<bar> < 10 ^ 21 then stroops (fixed 7 x) else Fin x)"
| "to_fixed7 x = x"

section \<open>Exactness of stroop arithmetic\<close>

text \<open>
  Below \<open>2 ^ 28\<close> units (some 268 million) a double is within \<open>2 ^ -26\<close> of its decimal, so two
  roundings and a subtraction stay within half a stroop and \<open>toFixed(7)\<close> recovers the exact
  stroop count.
\<close>

definition money :: "int \<Rightarrow> bool" where
  "money n \<longleftrightarrow> \<bar>n\<bar> < 2 ^ 28 * 10 ^ 7"

definition dbl :: "int \<Rightarrow> rat" where
  "dbl n = rnd53 (of_int n / 10 ^ 7)"

lemma rnd53_powi: "- 1022 \<le> k \<Longrightarrow> rnd53 (2 powi k) = 2 powi k"
  using rnd53_exact [of "2 powi k" "2 ^ 52" "k - 52"]
  by (simp add: power_int_diff)

lemma rnd53_bound: "\<bar>x\<bar> \<le> 2 powi k \<Longrightarrow> - 1022 \<le> k \<Longrightarrow> \<bar>rnd53 x\<bar> \<le> 2 powi k"
  using rnd53_mono [of x "2 powi k"] rnd53_mono [of "- x" "2 powi k"] rnd53_powi [of k]
  by (simp add: abs_le_iff)

lemma mk_Fin:
  assumes "\<bar>x\<bar> \<le> 2 ^ 1000"
  shows "mk x = Fin (rnd53 x)"
proof -
  have "\<bar>rnd53 x\<bar> \<le> 2 powi 1000" using assms by (intro rnd53_bound) simp_all
  moreover have "(2::rat) powi 1000 < 2 powi 1024" by (simp add: powi2_less_iff del: power_int_numeral)
  ultimately have "\<bar>rnd53 x\<bar> < 2 powi 1024" by linarith
  then have "\<not> 2 powi 1024 \<le> rnd53 x" "\<not> rnd53 x \<le> - (2 powi 1024)" by linarith+
  then have "\<not> 2 ^ 1024 \<le> rnd53 x" "\<not> rnd53 x \<le> - (2 ^ 1024)"
    by (simp_all only: power_int_numeral not_False_eq_True)
  then show ?thesis by (simp only: mk_def Let_def if_False)
qed

lemma mk_int:
  assumes "\<bar>m\<bar> < 2 ^ 53"
  shows "mk (of_int m) = Fin (of_int m)"
proof -
  have "\<bar>of_int m :: rat\<bar> \<le> of_int (2 ^ 53)" using assms by (simp only: of_int_abs [symmetric] of_int_le_iff)
  also have "(of_int (2 ^ 53) :: rat) = 2 ^ 53" by simp
  also have "(2::rat) ^ 53 \<le> 2 ^ 1000" by (rule power_increasing) simp_all
  finally show ?thesis by (simp only: mk_Fin rnd53_of_int [OF assms])
qed

lemma money_rat: "money n \<longleftrightarrow> \<bar>of_int n / 10 ^ 7 :: rat\<bar> < 2 ^ 28"
proof -
  have "money n \<longleftrightarrow> of_int \<bar>n\<bar> < (of_int (2 ^ 28 * 10 ^ 7) :: rat)"
    by (simp only: money_def of_int_less_iff)
  then show ?thesis by (simp add: field_simps)
qed

lemma dbl_err: "money n \<Longrightarrow> \<bar>dbl n - of_int n / 10 ^ 7\<bar> \<le> 1 / 2 ^ 26"
  using rnd53_err [of "of_int n / 10 ^ 7" 28]
  by (simp add: money_rat dbl_def power_int_def power_one_over inverse_eq_divide)

lemma stroops_dbl:
  assumes "money n"
  shows "stroops n = Fin (dbl n)"
proof -
  have "\<bar>of_int n / 10 ^ 7 :: rat\<bar> < 2 ^ 28" using assms by (simp only: money_rat)
  also have "(2::rat) ^ 28 \<le> 2 ^ 1000" by (rule power_increasing) simp_all
  finally show ?thesis unfolding stroops_def dbl_def by (intro mk_Fin) (rule less_imp_le)
qed

lemma fixed_near:
  assumes "\<bar>x - of_int n / 10 ^ 7\<bar> < 1 / (2 * 10 ^ 7)"
  shows "fixed 7 x = n"
proof -
  have *: "- (1 / 2) < x * 10 ^ 7 - of_int n" "x * 10 ^ 7 - of_int n < 1 / 2"
    using abs_less_iff [THEN iffD1, OF assms] by simp_all
  then have "\<lfloor>x * 10 ^ 7 + 1 / 2\<rfloor> = n" "\<lfloor>- x * 10 ^ 7 + 1 / 2\<rfloor> = - n"
    by (intro floor_unique; simp)+
  then show ?thesis unfolding fixed_def by simp
qed

lemma fixed_mono:
  assumes "x \<le> y"
  shows "fixed d x \<le> fixed d y"
proof -
  have m: "a * 10 ^ d \<le> b * 10 ^ d" if "a \<le> b" for a b :: rat
    using that by (simp add: mult_right_mono)
  show ?thesis
  proof (cases "x < 0 \<and> 0 \<le> y")
    case True
    have "0 \<le> - x * 10 ^ d + 1 / 2" "0 \<le> y * 10 ^ d + 1 / 2"
      using m [of 0 "- x"] m [of 0 y] True by simp_all
    then have "0 \<le> \<lfloor>- x * 10 ^ d + 1 / 2\<rfloor>" "0 \<le> \<lfloor>y * 10 ^ d + 1 / 2\<rfloor>"
      by (simp_all only: zero_le_floor)
    moreover have "fixed d x = - \<lfloor>- x * 10 ^ d + 1 / 2\<rfloor>" "fixed d y = \<lfloor>y * 10 ^ d + 1 / 2\<rfloor>"
      using True by (simp_all add: fixed_def)
    ultimately show ?thesis by linarith
  next
    case False
    have "\<lfloor>- y * 10 ^ d + 1 / 2\<rfloor> \<le> \<lfloor>- x * 10 ^ d + 1 / 2\<rfloor>"
      using m [of "- y" "- x"] assms by (intro floor_mono) simp
    moreover have "\<lfloor>x * 10 ^ d + 1 / 2\<rfloor> \<le> \<lfloor>y * 10 ^ d + 1 / 2\<rfloor>"
      using m [OF assms] by (intro floor_mono) simp
    ultimately show ?thesis using False assms by (auto simp: fixed_def)
  qed
qed

lemma fixed_dbl: "money n \<Longrightarrow> fixed 7 (dbl n) = n"
  using dbl_err [of n] by (intro fixed_near) simp

lemma dbl_0 [simp]: "dbl 0 = 0"
  by (simp add: dbl_def)

lemma dbl_mono: "m \<le> n \<Longrightarrow> dbl m \<le> dbl n"
  unfolding dbl_def by (intro rnd53_mono divide_right_mono) simp_all

lemma dbl_less_iff: "money m \<Longrightarrow> money n \<Longrightarrow> dbl m < dbl n \<longleftrightarrow> m < n"
  by (metis dbl_mono fixed_dbl linorder_not_less nle_le order_less_le)

lemma dbl_le_iff: "money m \<Longrightarrow> money n \<Longrightarrow> dbl m \<le> dbl n \<longleftrightarrow> m \<le> n"
  using dbl_less_iff [of n m] by (simp flip: linorder_not_less)

lemma dbl_abs_le: "money n \<Longrightarrow> \<bar>dbl n\<bar> \<le> 2 ^ 28"
  using rnd53_bound [of "of_int n / 10 ^ 7" 28] by (simp add: money_rat dbl_def)

lemma to_fixed7_Fin: "\<bar>x\<bar> \<le> 2 ^ 30 \<Longrightarrow> to_fixed7 (Fin x) = stroops (fixed 7 x)"
  by simp

lemma to_fixed7_stroops: "money n \<Longrightarrow> to_fixed7 (stroops n) = stroops n"
  using dbl_abs_le [of n] by (simp add: stroops_dbl fixed_dbl)

lemma rnd_add_near:
  assumes "money a" and "money b" and "money (a + b)"
  shows "\<bar>rnd53 (dbl a + dbl b) - of_int (a + b) / 10 ^ 7\<bar> < 1 / (2 * 10 ^ 7)"
proof -
  let ?s = "dbl a + dbl b"
  have e: "\<bar>?s - of_int (a + b) / 10 ^ 7\<bar> \<le> 1 / 2 ^ 25"
    using dbl_err [OF assms(1)] dbl_err [OF assms(2)]
    unfolding of_int_add add_divide_distrib abs_le_iff by simp
  have lim: "\<bar>a + b\<bar> \<le> 2 ^ 28 * 10 ^ 7 - 1" using assms(3) by (simp add: money_def)
  have "of_int \<bar>a + b\<bar> \<le> (of_int (2 ^ 28 * 10 ^ 7 - 1) :: rat)"
    using lim by (simp only: of_int_le_iff)
  then have r: "\<bar>of_int (a + b) / 10 ^ 7 :: rat\<bar> \<le> 2 ^ 28 - 1 / 10 ^ 7" by (simp add: field_simps)
  have "\<bar>s\<bar> < 2 powi 28" if "\<bar>s - q\<bar> \<le> 1 / 2 ^ 25" "\<bar>q\<bar> \<le> 2 ^ 28 - 1 / 10 ^ 7" for s q :: rat
    using that by (simp add: abs_if split: if_splits)
  from this [OF e r] have "\<bar>?s\<bar> < 2 powi 28" .
  then have "\<bar>rnd53 ?s - ?s\<bar> \<le> 1 / 2 ^ 26"
    using rnd53_err [of ?s 28] by (simp add: power_int_def power_one_over inverse_eq_divide)
  moreover have "\<bar>r - q\<bar> < 1 / (2 * 10 ^ 7)" if "\<bar>s - q\<bar> \<le> 1 / 2 ^ 25" "\<bar>r - s\<bar> \<le> 1 / 2 ^ 26" for r s q :: rat
    using that by (simp add: abs_if split: if_splits)
  ultimately show ?thesis using e by blast
qed

lemma jadd_stroops:
  assumes "money a" and "money b" and "money (a + b)"
  shows "jadd (stroops a) (stroops b) = Fin (rnd53 (dbl a + dbl b))"
    and "to_fixed7 (jadd (stroops a) (stroops b)) = stroops (a + b)"
proof -
  have "\<bar>dbl a + dbl b\<bar> \<le> 2 powi 29"
    using dbl_abs_le [OF assms(1)] dbl_abs_le [OF assms(2)] by simp
  moreover have "(2::rat) powi 29 \<le> 2 powi 1000" by (rule powi2_mono) simp
  ultimately have "\<bar>dbl a + dbl b\<bar> \<le> 2 ^ 1000" by (simp only: power_int_numeral)
  then show 1: "jadd (stroops a) (stroops b) = Fin (rnd53 (dbl a + dbl b))"
    by (simp only: stroops_dbl assms jadd.simps mk_Fin)
  have "\<bar>rnd53 (dbl a + dbl b)\<bar> \<le> 2 powi 29"
    using \<open>\<bar>dbl a + dbl b\<bar> \<le> 2 powi 29\<close> by (rule rnd53_bound) simp
  then show "to_fixed7 (jadd (stroops a) (stroops b)) = stroops (a + b)"
    using fixed_near [OF rnd_add_near [OF assms]] by (simp add: 1)
qed

lemma money_minus [simp]: "money (- n) = money n"
  by (simp add: money_def)

lemma dbl_minus [simp]: "dbl (- n) = - dbl n"
  by (simp add: dbl_def)

lemma jneg_stroops: "money n \<Longrightarrow> jneg (stroops n) = stroops (- n)"
  by (simp add: stroops_dbl)

lemma jsub_stroops:
  assumes "money a" and "money b" and "money (a - b)"
  shows "jsub (stroops a) (stroops b) = Fin (rnd53 (dbl a - dbl b))"
    and "to_fixed7 (jsub (stroops a) (stroops b)) = stroops (a - b)"
  using jadd_stroops [of a "- b"] assms by (simp_all add: jsub_def jneg_stroops)

lemma money_le: "0 \<le> a \<Longrightarrow> a \<le> b \<Longrightarrow> money b \<Longrightarrow> money a"
  by (simp add: money_def)

end
