(* ===== verification/Prelude.thy ===== *)
theory Prelude
  imports JsNumber
begin

text \<open>
  The shared vocabulary of the development: JSON values, JavaScript errors, the outcome of
  an Express handler, and the procedures the handlers are made of. A procedure takes the
  state and returns an error or a value with the new state; \<open>throw\<close>, \<open>catch\<close> and the early
  returns of the source are branches of it. The weakest precondition \<open>wp\<close> of a procedure is
  computed by simplification (collection \<open>wps\<close>), and \<open>keeps\<close> lifts a state invariant through
  the procedure constructors (collection \<open>keep\<close>).
\<close>

section \<open>Values, errors, outcomes\<close>

datatype json = JNull | JBool bool | JNum jsnum | JStr string | JArr "json list"
  | JObj "(string \<times> json) list"

text \<open>An error object: its name, message, and the fields the code attaches to it.\<close>

record jserr =
  err_name :: string
  err_message :: string
  err_status :: "nat option"
  err_code :: "string option"
  err_payload :: "(string \<times> json) list"

definition mkError :: "string \<Rightarrow> jserr" where
  "mkError m = \<lparr>err_name = ''Error'', err_message = m, err_status = None, err_code = None,
     err_payload = []\<rparr>"

definition withStatus :: "nat \<Rightarrow> jserr \<Rightarrow> jserr" where
  "withStatus s e = e\<lparr>err_status := Some s\<rparr>"

definition withPayload :: "(string \<times> json) list \<Rightarrow> jserr \<Rightarrow> jserr" where
  "withPayload p e = e\<lparr>err_payload := p\<rparr>"

definition typeError :: "string \<Rightarrow> jserr" where
  "typeError m = (mkError m)\<lparr>err_name := ''TypeError''\<rparr>"

definition referenceError :: "string \<Rightarrow> jserr" where
  "referenceError m = (mkError m)\<lparr>err_name := ''ReferenceError''\<rparr>"

text \<open>What a handler ends with: a response, \<open>next()\<close>, or \<open>next(err)\<close>.\<close>

datatype outcome = Reply nat json | Next | NextErr jserr

definition jerr :: "string \<Rightarrow> json" where
  "jerr m = JObj [(''error'', JStr m)]"

definition jerrc :: "string \<Rightarrow> string \<Rightarrow> json" where
  "jerrc m c = JObj [(''error'', JStr m), (''code'', JStr c)]"

fun status_of :: "outcome \<Rightarrow> nat option" where
  "status_of (Reply s _) = Some s"
| "status_of _ = None"

section \<open>Procedures\<close>

type_synonym ('w, 'a) proc = "'w \<Rightarrow> (jserr + 'a) \<times> 'w"

definition ret :: "'a \<Rightarrow> ('w, 'a) proc" where
  "ret x = (\<lambda>w. (Inr x, w))"

definition throw :: "jserr \<Rightarrow> ('w, 'a) proc" where
  "throw e = (\<lambda>w. (Inl e, w))"

definition bnd :: "('w, 'a) proc \<Rightarrow> ('a \<Rightarrow> ('w, 'b) proc) \<Rightarrow> ('w, 'b) proc" where
  "bnd m k = (\<lambda>w. case m w of (Inl e, w') \<Rightarrow> (Inl e, w') | (Inr x, w') \<Rightarrow> k x w')"

definition andThen :: "('w, 'a) proc \<Rightarrow> ('w, 'b) proc \<Rightarrow> ('w, 'b) proc" where
  "andThen m n = bnd m (\<lambda>_. n)"

definition catch :: "('w, 'a) proc \<Rightarrow> (jserr \<Rightarrow> ('w, 'a) proc) \<Rightarrow> ('w, 'a) proc" where
  "catch m h = (\<lambda>w. case m w of (Inl e, w') \<Rightarrow> h e w' | (Inr x, w') \<Rightarrow> (Inr x, w'))"

text \<open>\<open>m.catch(() => {})\<close>: the errors of \<open>m\<close> are dropped, its effects stay.\<close>

definition ignore :: "('w, 'a) proc \<Rightarrow> ('w, unit) proc" where
  "ignore m = catch (bnd m (\<lambda>_. ret ())) (\<lambda>_. ret ())"

definition gets :: "('w \<Rightarrow> 'a) \<Rightarrow> ('w, 'a) proc" where
  "gets f = (\<lambda>w. (Inr (f w), w))"

definition modify :: "('w \<Rightarrow> 'w) \<Rightarrow> ('w, unit) proc" where
  "modify f = (\<lambda>w. (Inr (), f w))"

text \<open>A pure step that may throw.\<close>

definition lift :: "jserr + 'a \<Rightarrow> ('w, 'a) proc" where
  "lift r = (\<lambda>w. (r, w))"

text \<open>\<open>try { ... } catch (err) { next(err) }\<close> around a whole handler.\<close>

definition handler :: "('w, outcome) proc \<Rightarrow> ('w, outcome) proc" where
  "handler m = catch m (\<lambda>e. ret (NextErr e))"

fun forEach :: "'a list \<Rightarrow> ('a \<Rightarrow> ('w, unit) proc) \<Rightarrow> ('w, unit) proc" where
  "forEach [] f = ret ()"
| "forEach (x # xs) f = andThen (f x) (forEach xs f)"

lemma bnd_lift: "bnd (lift (Inr m)) k = k m"
  by (simp add: bnd_def lift_def)

lemma bnd_ret: "bnd m ret = m"
  by (simp add: bnd_def ret_def fun_eq_iff split: prod.split sum.split)

section \<open>Weakest preconditions\<close>

named_theorems wps \<open>weakest precondition of each procedure constructor\<close>
named_theorems keep \<open>invariants through the procedure constructors\<close>

definition wp :: "('w, 'a) proc \<Rightarrow> ('a \<Rightarrow> 'w \<Rightarrow> bool) \<Rightarrow> (jserr \<Rightarrow> 'w \<Rightarrow> bool) \<Rightarrow> 'w \<Rightarrow> bool" where
  "wp m Q E w = (case m w of (Inl e, w') \<Rightarrow> E e w' | (Inr x, w') \<Rightarrow> Q x w')"

lemma wp_ret [wps]: "wp (ret x) Q E = Q x"
  by (simp add: wp_def ret_def fun_eq_iff)

lemma wp_throw [wps]: "wp (throw e) Q E = E e"
  by (simp add: wp_def throw_def fun_eq_iff)

lemma wp_bnd [wps]: "wp (bnd m k) Q E = wp m (\<lambda>x. wp (k x) Q E) E"
  by (simp add: wp_def bnd_def fun_eq_iff split: prod.splits sum.splits)

lemma wp_andThen [wps]: "wp (andThen m n) Q E = wp m (\<lambda>_. wp n Q E) E"
  by (simp add: andThen_def wp_bnd)

lemma wp_catch [wps]: "wp (catch m h) Q E = wp m Q (\<lambda>e. wp (h e) Q E)"
  by (simp add: wp_def catch_def fun_eq_iff split: prod.splits sum.splits)

lemma wp_ignore [wps]: "wp (ignore m) Q E = wp m (\<lambda>_. Q ()) (\<lambda>_. Q ())"
  by (simp add: ignore_def wps)

lemma wp_gets [wps]: "wp (gets f) Q E = (\<lambda>w. Q (f w) w)"
  by (simp add: wp_def gets_def fun_eq_iff)

lemma wp_modify [wps]: "wp (modify f) Q E = (\<lambda>w. Q () (f w))"
  by (simp add: wp_def modify_def fun_eq_iff)

lemma wp_lift [wps]: "wp (lift r) Q E = (case r of Inl e \<Rightarrow> E e | Inr x \<Rightarrow> Q x)"
  by (simp add: wp_def lift_def fun_eq_iff split: sum.splits)

lemma wp_handler [wps]: "wp (handler m) Q E = wp m Q (\<lambda>e. Q (NextErr e))"
  by (simp add: handler_def wps)

lemma wp_if [wps]: "wp (if b then m else n) Q E = (if b then wp m Q E else wp n Q E)"
  by simp

lemma wp_case_option [wps]:
  "wp (case v of None \<Rightarrow> m | Some x \<Rightarrow> k x) Q E = (case v of None \<Rightarrow> wp m Q E | Some x \<Rightarrow> wp (k x) Q E)"
  by (cases v) simp_all

lemma wp_case_list [wps]:
  "wp (case v of [] \<Rightarrow> m | x # xs \<Rightarrow> k x xs) Q E = (case v of [] \<Rightarrow> wp m Q E | x # xs \<Rightarrow> wp (k x xs) Q E)"
  by (cases v) simp_all

lemma wp_case_sum [wps]:
  "wp (case v of Inl x \<Rightarrow> m x | Inr x \<Rightarrow> k x) Q E = (case v of Inl x \<Rightarrow> wp (m x) Q E | Inr x \<Rightarrow> wp (k x) Q E)"
  by (cases v) simp_all

lemma wp_case_prod [wps]:
  "wp (case p of (x, y) \<Rightarrow> k x y) Q E = (case p of (x, y) \<Rightarrow> wp (k x y) Q E)"
  by (cases p) simp

lemma wp_mono:
  assumes "wp m Q E w" and "\<And>x w. Q x w \<Longrightarrow> Q' x w" and "\<And>e w. E e w \<Longrightarrow> E' e w"
  shows "wp m Q' E' w"
  using assms by (auto simp: wp_def split: prod.splits sum.splits)

lemma wp_result: "wp m (\<lambda>x v. (Inr x, v) = r) (\<lambda>e v. (Inl e, v) = r) w \<longleftrightarrow> m w = r"
  by (auto simp: wp_def split: prod.splits sum.splits)

text \<open>A loop, with an invariant over the elements done.\<close>

lemma wp_forEach:
  assumes "I [] w" and "\<And>d x v. I d v \<Longrightarrow> x \<in> set xs \<Longrightarrow> wp (f x) (\<lambda>_. I (d @ [x])) E v"
  shows "wp (forEach xs f) (\<lambda>_. I xs) E w"
proof -
  have "wp (forEach ys f) (\<lambda>_. I (d @ ys)) E v" if "I d v" "set ys \<subseteq> set xs" for d ys v
    using that
  proof (induction ys arbitrary: d v)
    case (Cons y ys)
    show ?case unfolding forEach.simps wp_andThen
      by (rule wp_mono [OF assms(2) [OF Cons.prems(1)]]) (use Cons.IH [of "d @ [y]"] Cons.prems in auto)
  qed (simp add: wps)
  from this [OF assms(1), of xs] show ?thesis by simp
qed

text \<open>Reading a run off its weakest precondition.\<close>

lemma wp_run: "wp m Q E w \<Longrightarrow> m w = (Inr x, w') \<Longrightarrow> Q x w'"
  by (simp add: wp_def)

lemma wp_run_err: "wp m Q E w \<Longrightarrow> m w = (Inl e, w') \<Longrightarrow> E e w'"
  by (simp add: wp_def)

lemma handler_total: "\<exists>o'. fst (handler m w) = Inr o'"
  by (auto simp: handler_def catch_def ret_def split: prod.splits sum.splits)

section \<open>Invariants\<close>

definition keeps :: "('w \<Rightarrow> bool) \<Rightarrow> ('w, 'a) proc \<Rightarrow> bool" where
  "keeps I m \<longleftrightarrow> (\<forall>w. I w \<longrightarrow> I (snd (m w)))"

lemma keepsI: "(\<And>w. I w \<Longrightarrow> I (snd (m w))) \<Longrightarrow> keeps I m"
  by (simp add: keeps_def)

lemma keepsD: "keeps I m \<Longrightarrow> I w \<Longrightarrow> m w = (r, w') \<Longrightarrow> I w'"
  by (metis keeps_def snd_conv)

lemma wp_snd: "wp m (\<lambda>_. I) (\<lambda>_. I) w = I (snd (m w))"
  by (simp add: wp_def split: prod.split sum.split)

lemma keeps_wp: "keeps I m \<longleftrightarrow> (\<forall>w. I w \<longrightarrow> wp m (\<lambda>_. I) (\<lambda>_. I) w)"
  by (simp add: keeps_def wp_snd)

lemma wp_keeps:
  assumes "keeps I m" "I c" "\<And>x c'. I c' \<Longrightarrow> Q x c'" "\<And>e c'. I c' \<Longrightarrow> E e c'"
  shows "wp m Q E c"
  by (rule wp_mono [OF assms(1) [unfolded keeps_wp, rule_format, OF assms(2)]]) (fact assms(3,4))+

lemma keeps_ret [keep]: "keeps I (ret x)"
  by (simp add: keeps_def ret_def)

lemma keeps_throw [keep]: "keeps I (throw e)"
  by (simp add: keeps_def throw_def)

lemma keeps_lift [keep]: "keeps I (lift r)"
  by (simp add: keeps_def lift_def)

lemma keeps_gets [keep]: "keeps I (gets f)"
  by (simp add: keeps_def gets_def)

lemma keeps_modify: "(\<And>w. I w \<Longrightarrow> I (f w)) \<Longrightarrow> keeps I (modify f)"
  by (simp add: keeps_def modify_def)

lemma keeps_bnd [keep]: "keeps I m \<Longrightarrow> (\<And>x. keeps I (k x)) \<Longrightarrow> keeps I (bnd m k)"
  by (auto simp: keeps_wp wps elim!: wp_mono)

lemma keeps_andThen [keep]: "keeps I m \<Longrightarrow> keeps I n \<Longrightarrow> keeps I (andThen m n)"
  by (simp add: andThen_def keep)

lemma keeps_catch [keep]: "keeps I m \<Longrightarrow> (\<And>e. keeps I (h e)) \<Longrightarrow> keeps I (catch m h)"
  by (auto simp: keeps_wp wps elim!: wp_mono)

lemma keeps_ignore [keep]: "keeps I m \<Longrightarrow> keeps I (ignore m)"
  by (simp add: ignore_def keep)

lemma keeps_handler [keep]: "keeps I m \<Longrightarrow> keeps I (handler m)"
  by (simp add: handler_def keep)

lemma keeps_if [keep]: "keeps I m \<Longrightarrow> keeps I n \<Longrightarrow> keeps I (if b then m else n)"
  by simp

lemma keeps_forEach [keep]: "(\<And>x. keeps I (f x)) \<Longrightarrow> keeps I (forEach xs f)"
  by (induction xs) (auto intro: keep)

lemma keeps_case_option [keep]:
  "keeps I m \<Longrightarrow> (\<And>x. keeps I (k x)) \<Longrightarrow> keeps I (case v of None \<Rightarrow> m | Some x \<Rightarrow> k x)"
  by (cases v) auto

lemma keeps_case_list [keep]:
  "keeps I m \<Longrightarrow> (\<And>x xs. keeps I (k x xs)) \<Longrightarrow> keeps I (case v of [] \<Rightarrow> m | x # xs \<Rightarrow> k x xs)"
  by (cases v) auto

lemma keeps_case_sum [keep]:
  "(\<And>x. keeps I (m x)) \<Longrightarrow> (\<And>x. keeps I (k x)) \<Longrightarrow> keeps I (case v of Inl x \<Rightarrow> m x | Inr x \<Rightarrow> k x)"
  by (cases v) auto

lemma keeps_case_prod [keep]: "(\<And>x y. keeps I (k x y)) \<Longrightarrow> keeps I (case p of (x, y) \<Rightarrow> k x y)"
  by (cases p) auto

lemma keeps_Let [keep]: "(\<And>x. keeps I (k x)) \<Longrightarrow> keeps I (let x = v in k x)"
  by (simp add: Let_def)

section \<open>Lists as tables\<close>

text \<open>\<open>rows[0]\<close>, and \<open>UPDATE ... SET f WHERE p\<close>.\<close>

definition first_row :: "'a list \<Rightarrow> 'a option" where
  "first_row rs = (case rs of [] \<Rightarrow> None | r # _ \<Rightarrow> Some r)"

definition update_where :: "('a \<Rightarrow> bool) \<Rightarrow> ('a \<Rightarrow> 'a) \<Rightarrow> 'a list \<Rightarrow> 'a list" where
  "update_where p f rs = map (\<lambda>r. if p r then f r else r) rs"

lemma first_row_Nil [simp]: "first_row [] = None"
  by (simp add: first_row_def)

lemma first_row_Cons [simp]: "first_row (r # rs) = Some r"
  by (simp add: first_row_def)

lemma first_row_Some: "first_row rs = Some r \<Longrightarrow> r \<in> set rs"
  by (cases rs) auto

lemma first_row_filter: "first_row (filter p rs) = Some r \<Longrightarrow> r \<in> set rs \<and> p r"
  using first_row_Some [of "filter p rs" r] by simp

lemma first_row_None: "first_row rs = None \<longleftrightarrow> rs = []"
  by (cases rs) auto

lemma find_SomeD: "find p xs = Some x \<Longrightarrow> x \<in> set xs \<and> p x"
  by (induction xs) (auto split: if_splits)

lemma set_update_where: "set (update_where p f rs) = {if p r then f r else r |r. r \<in> set rs}"
  by (auto simp: update_where_def)

lemma find_update_where:
  assumes "\<And>r. key (f r) = key r"
  shows "find (\<lambda>r. key r = i) (update_where (\<lambda>r. key r = j) f rs)
    = map_option (\<lambda>r. if key r = j then f r else r) (find (\<lambda>r. key r = i) rs)"
  using assms by (induction rs) (auto simp: update_where_def)

lemma length_filter_update_where:
  "(\<And>x. x \<in> set xs \<Longrightarrow> p x \<Longrightarrow> q (f x) = q x) \<Longrightarrow> length (filter q (update_where p f xs)) = length (filter q xs)"
  by (induction xs) (auto simp: update_where_def)

lemma sum_update_where:
  "distinct (map key xs) \<Longrightarrow> x \<in> set xs \<Longrightarrow> key x = i \<Longrightarrow>
   sum_list (map g (update_where (\<lambda>y. key y = i) f xs)) + g x = sum_list (map g xs) + (g (f x) :: nat)"
proof (induction xs)
  case (Cons y ys)
  have "update_where (\<lambda>y. key y = i) f ys = ys" if "i \<notin> key ` set ys"
    using that by (auto simp: update_where_def intro!: map_idI)
  then show ?case using Cons by (cases "x = y") (auto simp: update_where_def image_iff)
qed simp

lemma list_all_update_where: "list_all P rs \<Longrightarrow> (\<And>x. P x \<Longrightarrow> P (f x)) \<Longrightarrow> list_all P (update_where p f rs)"
  by (induction rs) (auto simp: update_where_def)

lemma in_update_where: "r \<in> set rs \<Longrightarrow> p r \<Longrightarrow> f r \<in> set (update_where p f rs)"
  by (induction rs) (auto simp: update_where_def)

lemma filter_update_where_drop:
  "(\<And>r. p r \<Longrightarrow> \<not> q (f r)) \<Longrightarrow> filter q (update_where p f rs) = filter (\<lambda>r. q r \<and> \<not> p r) rs"
  by (induction rs) (auto simp: update_where_def)

lemma filter_update_where_none:
  "(\<And>r. p r \<Longrightarrow> \<not> q (f r)) \<Longrightarrow> (\<And>r. q r \<Longrightarrow> p r) \<Longrightarrow> filter q (update_where p f rs) = []"
  by (induction rs) (auto simp: update_where_def)

lemma length_update_where [simp]: "length (update_where p f rs) = length rs"
  by (simp add: update_where_def)

section \<open>Strings\<close>

text \<open>
  A string is the list of its code units; the code units the source distinguishes are
  ASCII. \<open>trim\<close> removes the white space of Latin-1 (tab to carriage return, space, no-break space).
\<close>

definition is_space :: "char \<Rightarrow> bool" where
  "is_space c = (let n = (of_char c :: nat) in (9 \<le> n \<and> n \<le> 13) \<or> n = 32 \<or> n = 160)"

definition is_digit :: "char \<Rightarrow> bool" where
  "is_digit c = (let n = (of_char c :: nat) in 48 \<le> n \<and> n \<le> 57)"

definition digit_val :: "char \<Rightarrow> int" where
  "digit_val c = int (of_char c) - 48"

definition trim :: "string \<Rightarrow> string" where
  "trim s = rev (dropWhile is_space (rev (dropWhile is_space s)))"

definition lower_char :: "char \<Rightarrow> char" where
  "lower_char c = (let n = (of_char c :: nat) in if 65 \<le> n \<and> n \<le> 90 then char_of (n + 32) else c)"

definition toLowerCase :: "string \<Rightarrow> string" where
  "toLowerCase s = map lower_char s"

text \<open>The value of a digit string: \<open>BigInt(s)\<close>, and \<open>parseInt\<close> on its digits.\<close>

definition digits_val :: "string \<Rightarrow> int" where
  "digits_val s = foldl (\<lambda>n c. 10 * n + digit_val c) 0 s"

fun show_nat :: "nat \<Rightarrow> string" where
  "show_nat n = (if n < 10 then [char_of (48 + n)] else show_nat (n div 10) @ [char_of (48 + n mod 10)])"

declare show_nat.simps [simp del]

definition show_int :: "int \<Rightarrow> string" where
  "show_int n = (if n < 0 then ''-'' @ show_nat (nat (- n)) else show_nat (nat n))"

text \<open>The text of a \<open>NUMERIC(20,7)\<close> value.\<close>

definition dec7_text :: "int \<Rightarrow> string" where
  "dec7_text n = (let m = nat \<bar>n\<bar>; f = show_nat (m mod 10 ^ 7)
     in (if n < 0 then ''-'' else []) @ show_nat (m div 10 ^ 7) @ ''.'' @ replicate (7 - length f) (CHR ''0'') @ f)"

lemma digits_val_snoc: "digits_val (s @ [c]) = 10 * digits_val s + digit_val c"
  by (simp add: digits_val_def)

lemma digits_val_append: "digits_val (s @ t) = digits_val s * 10 ^ length t + digits_val t"
proof (induction t rule: rev_induct)
  case (snoc c t)
  then show ?case
    using digits_val_snoc [of "s @ t" c] digits_val_snoc [of t c] by (simp add: algebra_simps)
qed (simp add: digits_val_def)

lemma digits_val_Nil [simp]: "digits_val [] = 0"
  by (simp add: digits_val_def)

lemma digits_val_single [simp]: "digits_val [c] = digit_val c"
  by (simp add: digits_val_def)

lemma digit_char: "d < 10 \<Longrightarrow> is_digit (char_of (48 + d)) \<and> digit_val (char_of (48 + d)) = int d"
  by (simp add: is_digit_def digit_val_def of_char_of Let_def)

lemma show_nat_eval:
  "n < 10 \<Longrightarrow> show_nat n = [char_of (48 + n)]"
  "10 \<le> n \<Longrightarrow> show_nat n = show_nat (n div 10) @ [char_of (48 + n mod 10)]"
  by (subst show_nat.simps, simp)+

lemma show_nat_digits: "list_all is_digit (show_nat n)"
proof (induction n rule: show_nat.induct)
  case (1 n)
  then show ?case by (subst show_nat.simps) (simp add: digit_char)
qed

lemma show_nat_val: "digits_val (show_nat n) = int n"
proof (induction n rule: show_nat.induct)
  case (1 n)
  show ?case
  proof (cases "n < 10")
    case True
    then show ?thesis by (subst show_nat.simps) (simp add: digit_char)
  next
    case False
    then have "digits_val (show_nat n) = int (n div 10) * 10 + int (n mod 10)"
      using "1.IH" by (subst show_nat.simps) (simp add: digits_val_append digit_char)
    moreover have "int (n div 10) * 10 + int (n mod 10) = int n"
      by (simp add: zdiv_int zmod_int)
    ultimately show ?thesis by simp
  qed
qed

lemma show_nat_nonempty: "show_nat n \<noteq> []"
  by (subst show_nat.simps) simp

lemma length_show_nat: "n < 10 ^ Suc k \<Longrightarrow> length (show_nat n) \<le> Suc k"
proof (induction k arbitrary: n)
  case (Suc k)
  show ?case
  proof (cases "n < 10")
    case False
    have "length (show_nat (n div 10)) \<le> Suc k" by (rule Suc.IH) (use Suc.prems in \<open>simp add: div_less_iff_less_mult\<close>)
    then show ?thesis using False by (simp add: show_nat_eval)
  qed (simp add: show_nat_eval)
qed (simp add: show_nat_eval)

lemma digits_val_zeros: "digits_val (replicate k (CHR ''0'') @ s) = digits_val s"
proof -
  have "digits_val (replicate k (CHR ''0'')) = 0"
    by (induction k) (simp_all add: replicate_append_same [symmetric] digits_val_snoc digit_val_def)
  then show ?thesis by (simp add: digits_val_append)
qed

text \<open>The two parts of a decimal text.\<close>

lemma dec7_text_parts:
  assumes "0 \<le> n"
  shows "\<exists>a b. dec7_text n = a @ ''.'' @ b \<and> list_all is_digit a \<and> a \<noteq> [] \<and> list_all is_digit b \<and> length b = 7 \<and>
    digits_val a * 10 ^ 7 + digits_val b = n"
proof -
  define m where "m = nat n"
  define a where "a = show_nat (m div 10 ^ 7)"
  define f where "f = show_nat (m mod 10 ^ 7)"
  define b where "b = replicate (7 - length f) (CHR ''0'') @ f"
  have t: "dec7_text n = a @ ''.'' @ b" using assms by (simp add: dec7_text_def Let_def m_def a_def f_def b_def)
  have "length f \<le> 7" unfolding f_def using length_show_nat [of "m mod 10 ^ 7" 6] by simp
  then have lb: "length b = 7" by (simp add: b_def)
  have db: "list_all is_digit b" using show_nat_digits [of "m mod 10 ^ 7"]
    by (auto simp: b_def f_def list_all_iff is_digit_def)
  have da: "list_all is_digit a" "a \<noteq> []" by (simp_all add: a_def show_nat_digits show_nat_nonempty)
  have "digits_val b = int (m mod 10 ^ 7)" "digits_val a = int (m div 10 ^ 7)"
    by (simp_all add: b_def digits_val_zeros a_def f_def show_nat_val)
  moreover have "int (m div 10 ^ 7) * 10000000 + int (m mod 10 ^ 7) = n"
    using assms by (simp add: m_def zdiv_int zmod_int)
  ultimately have "digits_val a * 10 ^ 7 + digits_val b = n" by simp
  then show ?thesis using t da db lb by blast
qed

end
