(* ===== verification/World.thy ===== *)
theory World
  imports Prelude "HOL-Library.AList"
begin

text \<open>
  The state the backend works on: the PostgreSQL tables (records of the columns the modelled
  code reads or writes, after \<^verbatim>\<open>database/migrations\<close>), the Redis store and the in-process maps
  that replace it, the Stellar calls that took effect, and the messages sent out. Amounts in
  a \<open>NUMERIC(20,7)\<close> column are integers of stroops; times are milliseconds.
  The script \<open>faults\<close> says which of the coming database or Redis calls fail, so every theorem over an
  arbitrary state covers every pattern of failures.
\<close>

section \<open>Tables\<close>

record user =
  u_id :: string
  u_email :: string
  u_full_name :: string
  u_role :: string
  u_kyc_status :: string
  u_kyc_identity :: "(string \<times> string \<times> string) option"
  u_kyc_submitted :: "int option"
  u_kyc_expiry :: "int option"
  u_kyc_reminders :: "(string \<times> string) list"
  u_phone_verified :: bool
  u_suspended :: bool
  u_suspension_reason :: "string option"
  u_referral_code :: "string option"
  u_referred_by :: "string option"

record wallet =
  w_id :: string
  w_user :: string
  w_public_key :: string
  w_secret :: string
  w_default :: bool
  w_created :: int

record transaction =
  t_id :: string
  t_sender :: string
  t_recipient :: string
  t_amount :: int
  t_asset :: string
  t_status :: string
  t_created :: int
  t_fee_amount :: int

record agent =
  ag_user :: string
  ag_wallet :: string
  ag_status :: string

record escrow =
  e_id :: string
  e_contract_id :: string
  e_sender :: string
  e_recipient :: string
  e_agent :: string
  e_amount :: int
  e_asset :: string
  e_fee_bps :: int
  e_status :: string
  e_tx_hash :: string
  e_confirm_tx_hash :: "string option"
  e_created :: int
  e_released :: int
  e_confirmed :: "int option"

record fee_config =
  fc_id :: int
  fc_type :: string
  fc_asset :: string
  fc_bps :: int
  fc_max :: int
  fc_min :: int
  fc_active :: bool
  fc_by :: string
  fc_created :: int
  fc_from :: int
  fc_reminder :: "int option"

datatype rule_params = VelocityParams jsnum jsnum | MaxUsdParams jsnum

record fraud_rule =
  fr_name :: string
  fr_type :: string
  fr_params :: rule_params
  fr_active :: bool
  fr_mode :: string

record fraud_check =
  fk_rule :: string
  fk_type :: string
  fk_outcome :: string
  fk_wallet :: string
  fk_mode :: string
  fk_would_block :: bool
  fk_created :: int

record fraud_block =
  fb_wallet :: string
  fb_reason :: string
  fb_amount :: string
  fb_asset :: string

record channel_account =
  ca_id :: string
  ca_address :: string
  ca_secret :: string
  ca_available :: bool
  ca_last_used :: "int option"

record referral_reward =
  rr_id :: string
  rr_referrer :: string
  rr_referee :: string
  rr_amount :: int
  rr_status :: string
  rr_payment :: string
  rr_created :: int

record idem_row =
  ik_key :: string
  ik_user :: string
  ik_hash :: string
  ik_status :: nat
  ik_response :: json
  ik_created :: int

record dispute =
  dp_id :: string
  dp_contract_id :: string
  dp_sender :: string
  dp_recipient :: string
  dp_amount :: int
  dp_asset :: string
  dp_status :: string
  dp_ticket :: "int option"
  dp_escrow :: "string option"
  dp_open_hash :: string
  dp_resolve_hash :: "string option"
  dp_deadline :: int
  dp_created :: int

record evidence_row =
  ev_dispute :: string
  ev_uploader :: string
  ev_path :: string
  ev_hash :: string
  ev_description :: "string option"
  ev_uploaded :: int

record ticket =
  tk_id :: int
  tk_user :: string
  tk_transaction :: "string option"
  tk_type :: string
  tk_description :: string
  tk_status :: string
  tk_created :: int

record pay_channel =
  pc_id :: string
  pc_user :: string
  pc_sender :: string
  pc_recipient :: string
  pc_asset :: string
  pc_funding :: int
  pc_sender_balance :: int
  pc_recipient_balance :: int
  pc_closing_xdr :: string
  pc_settlement :: "string option"
  pc_status :: string
  pc_created :: int

record mint_job =
  mj_id :: string
  mj_user :: string
  mj_wallet :: string
  mj_amount :: int
  mj_asset :: string
  mj_status :: string
  mj_retries :: nat
  mj_hash :: "string option"
  mj_error :: "string option"
  mj_created :: int
  mj_completed :: "int option"

record points_row =
  pt_user :: string
  pt_wallet :: string
  pt_event :: string
  pt_points :: int
  pt_transaction :: "string option"
  pt_hash :: "string option"
  pt_created :: int

record referral_credit =
  rc_user :: string
  rc_referred :: string
  rc_bps :: int
  rc_used :: bool
  rc_expires :: int

text \<open>
  The columns of \<open>users\<close> that only the authentication reads, kept beside the rows by user id; a token or code and its
  expiry are written and cleared together. Then the tables of the refresh tokens, backup codes and password resets.
\<close>

record login_cols =
  lg_password :: string
  lg_email_verified :: bool
  lg_verification :: "(string \<times> int) option"
  lg_phone :: "string option"
  lg_otp :: "(string \<times> int) option"
  lg_pending :: "(string \<times> string \<times> int) option"
  lg_totp_secret :: "string option"
  lg_totp_enabled :: bool
  lg_pin :: "string option"
  lg_failed :: nat
  lg_last_failed :: "int option"
  lg_locked :: "int option"
  lg_onboarded :: bool

record refresh_row =
  rf_id :: string
  rf_user :: string
  rf_hash :: string
  rf_expires :: int
  rf_family :: string
  rf_revoked :: bool
  rf_revoked_at :: "int option"
  rf_replaced :: "string option"

record backup_row =
  bk_id :: string
  bk_user :: string
  bk_hash :: string
  bk_used :: "int option"

record reset_row =
  rs_id :: string
  rs_user :: string
  rs_hash :: string
  rs_expires :: int
  rs_used :: "int option"

record contact =
  ct_id :: string
  ct_user :: string
  ct_name :: string
  ct_wallet :: string
  ct_notes :: "string option"
  ct_memo_required :: bool
  ct_default_memo :: "string option"
  ct_tags :: "string list"
  ct_created :: int

record pay_request =
  pq_id :: string
  pq_requester :: string
  pq_wallet :: string
  pq_amount :: int
  pq_asset :: string
  pq_memo :: "string option"
  pq_expires :: int
  pq_claimed :: bool
  pq_hash :: "string option"
  pq_status :: string
  pq_created :: int

record vault =
  sv_id :: string
  sv_user :: string
  sv_amount :: int
  sv_asset :: string
  sv_days :: int
  sv_unlock :: int
  sv_status :: string
  sv_early :: bool
  sv_penalty :: int
  sv_withdrawn :: "int option"
  sv_created :: int

record audit_row =
  al_user :: "string option"
  al_action :: string
  al_data :: json

record database =
  users :: "user list"
  wallets :: "wallet list"
  transactions :: "transaction list"
  agents :: "agent list"
  escrows :: "escrow list"
  fee_configs :: "fee_config list"
  fraud_rules :: "fraud_rule list"
  fraud_checks :: "fraud_check list"
  fraud_blocks :: "fraud_block list"
  channels :: "channel_account list"
  rewards :: "referral_reward list"
  idem_rows :: "idem_row list"
  audit_rows :: "audit_row list"
  disputes :: "dispute list"
  evidence_rows :: "evidence_row list"
  tickets :: "ticket list"
  pay_channels :: "pay_channel list"
  mint_jobs :: "mint_job list"
  points_rows :: "points_row list"
  credits :: "referral_credit list"
  logins :: "string \<Rightarrow> login_cols"
  refresh_rows :: "refresh_row list"
  backup_rows :: "backup_row list"
  reset_rows :: "reset_row list"
  contacts :: "contact list"
  pay_requests :: "pay_request list"
  archived_requests :: "pay_request list"
  vaults :: "vault list"

section \<open>The world\<close>

text \<open>
  The cache keeps JSON texts; the model keeps the value each parses to.
\<close>

datatype cval = CJson json | CFee fee_config | CRules "fraud_rule list"
  | CResponse nat json string

text \<open>The contract calls; the first argument is the key that signs.\<close>

datatype chain_call =
    CreateEscrow string string string int int
  | ConfirmPayout string string
  | CancelEscrow string string
  | MintPoints string string int
  | DepositFee string int string string
  | RevokeKyc string string nat
  | AttestKyc string string nat string int
  | FundAccounts "string list"
  | OpenDispute string string string int
  | SubmitEvidence string string string
  | ResolveDispute string string bool
  | RedeemTier string string int
  | SettleChannel string string string jsnum
  | CloseChannel string
  | RegisterBusiness string string

datatype effect = Webhook string string json | Email string string json
  | Cookie string string | ClearCookie string | Sms string string | Disconnect string
  | Notification string string json | Push string json | Alert string string

record world =
  db :: database
  now :: int
  faults :: "bool list"
  redis_on :: bool
  redis :: "(string \<times> cval \<times> int) list"
  memory :: "string \<Rightarrow> (cval \<times> int) option"
  one_time :: "string \<Rightarrow> int option"
  last_rules :: "fraud_rule list option"
  chain_log :: "chain_call list"
  outbox :: "effect list"
  aml_tally :: "nat \<times> nat"

definition fresh_login :: login_cols where
  "fresh_login = \<lparr>lg_password = [], lg_email_verified = False, lg_verification = None, lg_phone = None, lg_otp = None,
     lg_pending = None, lg_totp_secret = None, lg_totp_enabled = False, lg_pin = None, lg_failed = 0,
     lg_last_failed = None, lg_locked = None, lg_onboarded = False\<rparr>"

definition empty_db :: database where
  "empty_db = \<lparr>users = [], wallets = [], transactions = [], agents = [], escrows = [], fee_configs = [],
     fraud_rules = [], fraud_checks = [], fraud_blocks = [], channels = [], rewards = [], idem_rows = [],
     audit_rows = [], disputes = [], evidence_rows = [], tickets = [], pay_channels = [],
     mint_jobs = [], points_rows = [], credits = [],
     logins = (\<lambda>_. fresh_login), refresh_rows = [], backup_rows = [], reset_rows = [],
     contacts = [], pay_requests = [], archived_requests = [], vaults = []\<rparr>"

definition init_world :: world where
  "init_world = \<lparr>db = empty_db, now = 0, faults = [], redis_on = False, redis = [],
     memory = Map.empty, one_time = Map.empty, last_rules = None, chain_log = [], outbox = [],
     aml_tally = (0, 0)\<rparr>"

section \<open>Failing calls\<close>

definition faulty :: "world \<Rightarrow> bool" where
  "faulty w = (case faults w of [] \<Rightarrow> False | b # _ \<Rightarrow> b)"

definition ticked :: "world \<Rightarrow> world" where
  "ticked w = w\<lparr>faults := tl (faults w)\<rparr>"

definition dbError :: jserr where
  "dbError = mkError ''Connection terminated unexpectedly''"

definition tick :: "(world, unit) proc" where
  "tick = (\<lambda>w. (if faulty w then Inl dbError else Inr (), ticked w))"

definition select :: "(world \<Rightarrow> 'a) \<Rightarrow> (world, 'a) proc" where
  "select f = andThen tick (gets f)"

definition exec :: "(world \<Rightarrow> database) \<Rightarrow> (world, unit) proc" where
  "exec f = andThen tick (modify (\<lambda>w. w\<lparr>db := f w\<rparr>))"

text \<open>A statement that the database rejects (a constraint, an unknown column) leaves it unchanged.\<close>

definition execE :: "(world \<Rightarrow> jserr + database) \<Rightarrow> (world, unit) proc" where
  "execE f = andThen tick (bnd (gets f) (\<lambda>r. case r of
     Inl e \<Rightarrow> throw e | Inr d \<Rightarrow> modify (\<lambda>w. w\<lparr>db := d\<rparr>)))"

definition uniqueViolation :: jserr where
  "uniqueViolation = (mkError ''duplicate key value violates unique constraint'')\<lparr>err_code := Some ''23505''\<rparr>"

definition foreignKeyViolation :: jserr where
  "foreignKeyViolation = (mkError ''insert or update violates foreign key constraint'')\<lparr>err_code := Some ''23503''\<rparr>"

definition undefinedColumn :: "string \<Rightarrow> jserr" where
  "undefinedColumn c = (mkError (''column '' @ c @ '' does not exist''))\<lparr>err_code := Some ''42703''\<rparr>"

text \<open>
  \<open>const client = await db.pool.connect(); try { BEGIN; m; COMMIT } catch (err) { ROLLBACK; throw err }\<close>:
  the checkout, \<open>BEGIN\<close> and \<open>COMMIT\<close> may fail; \<open>commit\<close> holds the checks deferred to the commit.
  Every error after the checkout restores the tables of the beginning.
\<close>

definition transaction :: "(database \<Rightarrow> jserr option) \<Rightarrow> (world, 'a) proc \<Rightarrow> (world, 'a) proc" where
  "transaction commit m = andThen tick (bnd (gets db) (\<lambda>d0.
     catch
       (andThen tick (bnd m (\<lambda>x. andThen tick (bnd (gets (\<lambda>w. commit (db w))) (\<lambda>c.
          case c of None \<Rightarrow> ret x | Some e \<Rightarrow> throw e)))))
       (\<lambda>e. andThen (modify (\<lambda>w. w\<lparr>db := d0\<rparr>)) (andThen tick (throw e)))))"

text \<open>The same on a connection that was taken before.\<close>

definition begun :: "(world, 'a) proc \<Rightarrow> (world, 'a) proc" where
  "begun m = bnd (gets db) (\<lambda>d0. catch (andThen tick (bnd m (\<lambda>x. andThen tick (ret x))))
     (\<lambda>e. andThen (modify (\<lambda>w. w\<lparr>db := d0\<rparr>)) (andThen (ignore tick) (throw e))))"

definition emit :: "effect \<Rightarrow> (world, unit) proc" where
  "emit x = modify (\<lambda>w. w\<lparr>outbox := outbox w @ [x]\<rparr>)"

lemma ticked_sel [simp]:
  "db (ticked w) = db w" "now (ticked w) = now w" "redis_on (ticked w) = redis_on w"
  "redis (ticked w) = redis w" "memory (ticked w) = memory w" "one_time (ticked w) = one_time w"
  "last_rules (ticked w) = last_rules w" "chain_log (ticked w) = chain_log w"
  "outbox (ticked w) = outbox w" "aml_tally (ticked w) = aml_tally w"
  by (simp_all add: ticked_def)

lemma no_faults [simp]: "faults w = [] \<Longrightarrow> ticked w = w" "faults w = [] \<Longrightarrow> \<not> faulty w"
  by (simp_all add: ticked_def faulty_def)

lemma faulty_upd [simp]:
  "faulty (w\<lparr>db := d\<rparr>) = faulty w" "faulty (w\<lparr>chain_log := c\<rparr>) = faulty w"
  "faulty (w\<lparr>outbox := x\<rparr>) = faulty w" "faulty (w\<lparr>redis := r\<rparr>) = faulty w"
  "faulty (w\<lparr>memory := m\<rparr>) = faulty w" "faulty (w\<lparr>one_time := o1\<rparr>) = faulty w"
  "faulty (w\<lparr>last_rules := l\<rparr>) = faulty w" "faulty (w\<lparr>now := t\<rparr>) = faulty w"
  "faulty (w\<lparr>aml_tally := y\<rparr>) = faulty w"
  by (simp_all add: faulty_def)

lemma wp_tick [wps]: "wp tick Q E = (\<lambda>w. if faulty w then E dbError (ticked w) else Q () (ticked w))"
  by (simp add: wp_def tick_def fun_eq_iff)

lemma wp_select [wps]:
  "wp (select f) Q E = (\<lambda>w. if faulty w then E dbError (ticked w) else Q (f (ticked w)) (ticked w))"
  by (simp add: select_def wps)

lemma wp_exec [wps]:
  "wp (exec f) Q E = (\<lambda>w. if faulty w then E dbError (ticked w)
     else Q () ((ticked w)\<lparr>db := f (ticked w)\<rparr>))"
  by (simp add: exec_def wps)

lemma wp_execE [wps]:
  "wp (execE f) Q E = (\<lambda>w. if faulty w then E dbError (ticked w)
     else (case f (ticked w) of Inl e \<Rightarrow> E e (ticked w) | Inr d \<Rightarrow> Q () ((ticked w)\<lparr>db := d\<rparr>)))"
  by (auto simp: execE_def wps fun_eq_iff split: sum.split)

lemma wp_emit [wps]: "wp (emit x) Q E = (\<lambda>w. Q () (w\<lparr>outbox := outbox w @ [x]\<rparr>))"
  by (simp add: emit_def wps)

text \<open>Atomicity: a transaction that ends in an error leaves every table as it was.\<close>

lemma transaction_atomic:
  assumes "transaction commit m w = (Inl e, w')"
  shows "db w' = db w"
proof -
  have "wp (transaction commit m) (\<lambda>_ _. True) (\<lambda>_ v. db v = db w) w"
    unfolding transaction_def wps by (auto simp: wp_def split: prod.split sum.split option.split)
  then show ?thesis using assms by (rule wp_run_err)
qed

text \<open>An invariant of the tables, of the calls and of the messages.\<close>

definition keeps_db :: "(database \<Rightarrow> bool) \<Rightarrow> (world, 'a) proc \<Rightarrow> bool" where
  "keeps_db I m \<longleftrightarrow> keeps (\<lambda>w. I (db w)) m"

lemma keeps_tick [keep]: "keeps (\<lambda>w. I (db w)) tick"
  by (simp add: keeps_def tick_def)

lemma keeps_select [keep]: "keeps (\<lambda>w. I (db w)) (select f)"
  by (simp add: select_def keep)

lemma keeps_exec: "(\<And>w. I (db w) \<Longrightarrow> I (f w)) \<Longrightarrow> keeps (\<lambda>w. I (db w)) (exec f)"
  by (auto simp: exec_def intro!: keep keeps_modify)

lemma keeps_execE:
  "(\<And>w d. I (db w) \<Longrightarrow> f w = Inr d \<Longrightarrow> I d) \<Longrightarrow> keeps (\<lambda>w. I (db w)) (execE f)"
  unfolding keeps_wp wps by (auto split: sum.splits) (metis ticked_sel(1))

lemma keeps_emit [keep]: "keeps (\<lambda>w. I (db w)) (emit x)"
  by (simp add: emit_def keeps_def modify_def)

lemma keeps_transaction:
  assumes "keeps (\<lambda>w. I (db w)) m"
  shows "keeps (\<lambda>w. I (db w)) (transaction commit m)"
proof (rule keepsI)
  fix w :: world assume I: "I (db w)"
  obtain r w' where run: "transaction commit m w = (r, w')" by fastforce
  have "wp (transaction commit m) (\<lambda>_ v. I (db v)) (\<lambda>_ v. I (db v)) w"
    unfolding transaction_def wps
    using I assms [unfolded keeps_wp, rule_format, of "ticked (ticked w)"]
    by (auto simp: wps elim!: wp_mono split: option.splits)
  then show "I (db (snd (transaction commit m w)))" by (simp add: wp_snd)
qed

text \<open>The commit check establishes what it checks; an error restores what held before.\<close>

lemma keeps_transaction_commit:
  assumes "\<And>d. commit d = None \<Longrightarrow> I d"
  shows "keeps (\<lambda>w. I (db w)) (transaction commit m)"
proof (rule keepsI)
  fix w :: world assume I: "I (db w)"
  have "wp (transaction commit m) (\<lambda>_ v. I (db v)) (\<lambda>_ v. I (db v)) w"
    unfolding transaction_def wps using I assms
    by (auto simp: wp_def wps split: prod.split sum.split option.split)
  then show "I (db (snd (transaction commit m w)))" by (simp add: wp_snd)
qed

text \<open>An invariant of the tables and the chain: the calls outlive the transaction that made them.\<close>

lemma wp_transaction:
  assumes "I (db w) (chain_log w)"
    and "\<And>v. db v = db w \<Longrightarrow> chain_log v = chain_log w \<Longrightarrow>
      wp m (\<lambda>x u. Q x (db u) (chain_log u) \<and> I (db w) (chain_log u)) (\<lambda>_ u. I (db w) (chain_log u)) v"
  shows "wp (transaction (\<lambda>_. None) m) (\<lambda>x v. Q x (db v) (chain_log v)) (\<lambda>_ v. I (db v) (chain_log v)) w"
  unfolding transaction_def
  by (simp add: wps assms(1)) (auto intro: wp_mono [OF assms(2) [of "ticked (ticked w)"]])

lemmas typed_transaction = wp_transaction [where Q = "\<lambda>_. I" and I = I for I]

section \<open>Tables with a primary key\<close>

text \<open>
  What the components rely on when they work on a table: writing the rows and reading them back agrees. The
  lemmas say what an update of one row and an insert do to a property of all rows.
\<close>

locale table =
  fixes rows :: "database \<Rightarrow> 'r list" and put :: "'r list \<Rightarrow> database \<Rightarrow> database" and key :: "'r \<Rightarrow> 'k"
  assumes rows_put: "rows (put rs d) = rs"
begin

lemma unique: "distinct (map key (rows d)) \<Longrightarrow> x \<in> set (rows d) \<Longrightarrow> y \<in> set (rows d) \<Longrightarrow> key x = key y \<Longrightarrow> x = y"
  unfolding distinct_map by (blast dest: inj_onD)

lemma update_keeps:
  assumes "distinct (map key (rows d))" and "list_all P (rows d)" and "r \<in> set (rows d)" and "key r = i" and "P (f r)"
  shows "list_all P (rows (put (update_where (\<lambda>x. key x = i) f (rows d)) d))"
    and "f r \<in> set (rows (put (update_where (\<lambda>x. key x = i) f (rows d)) d))"
proof -
  have all: "P (if key x = i then f x else x)" if "x \<in> set (rows d)" for x
  proof (cases "key x = i")
    case True
    then have "x = r" using unique [OF assms(1) that assms(3)] assms(4) by simp
    then show ?thesis using assms(4,5) by simp
  next
    case False
    then show ?thesis using that assms(2) by (simp add: list_all_iff)
  qed
  show "list_all P (rows (put (update_where (\<lambda>x. key x = i) f (rows d)) d))"
    unfolding rows_put update_where_def list_all_iff set_map
    by (rule ballI, erule imageE) (simp only: all)
  have "(if key r = i then f r else r) \<in> set (rows (put (update_where (\<lambda>x. key x = i) f (rows d)) d))"
    unfolding rows_put update_where_def set_map using assms(3) by (rule imageI)
  then show "f r \<in> set (rows (put (update_where (\<lambda>x. key x = i) f (rows d)) d))" using assms(4) by simp
qed

lemma update_column:
  "(\<And>x. g (f x) = g x) \<Longrightarrow> map g (rows (put (update_where p f (rows d)) d)) = map g (rows d)"
  by (simp add: rows_put update_where_def)

lemma insert_keeps:
  assumes "distinct (map key (rows d))" and "list_all P (rows d)" and "key r \<notin> set (map key (rows d))" and "P r"
  shows "distinct (map key (rows (put (rows d @ [r]) d)))" and "list_all P (rows (put (rows d @ [r]) d))"
  using assms by (simp_all add: rows_put)

end

interpretation dispute_table: table disputes "\<lambda>rs d. d\<lparr>disputes := rs\<rparr>" dp_id
  by unfold_locales simp

interpretation channel_table: table pay_channels "\<lambda>rs d. d\<lparr>pay_channels := rs\<rparr>" pc_id
  by unfold_locales simp

interpretation job_table: table mint_jobs "\<lambda>rs d. d\<lparr>mint_jobs := rs\<rparr>" mj_id
  by unfold_locales simp

interpretation request_table: table pay_requests "\<lambda>rs d. d\<lparr>pay_requests := rs\<rparr>" pq_id
  by unfold_locales simp

interpretation reward_table: table rewards "\<lambda>rs d. d\<lparr>rewards := rs\<rparr>" rr_id
  by unfold_locales simp

section \<open>Columns\<close>

text \<open>
  The columns the migrations give the tables some query asks more of; a statement that names another
  column of them is refused by the database.
\<close>

definition table_columns :: "string \<Rightarrow> string list" where
  "table_columns t =
     (if t = ''transactions'' then [''id'', ''sender_wallet'', ''recipient_wallet'', ''amount'', ''asset'', ''memo'', ''tx_hash'',
        ''status'', ''created_at'', ''memo_type'', ''claimable_balance_id'', ''private_note'', ''request_id'',
        ''is_encrypted'', ''encrypted_memo'', ''ledger_close_time'', ''confirmed_at'', ''source'', ''fee_amount'',
        ''fee_breakdown'', ''confirmation_expires_at'']
      else if t = ''agents'' then [''id'', ''user_id'', ''wallet_address'', ''status'', ''country'', ''created_at'', ''approved_at'']
      else if t = ''agent_escrows'' then [''id'', ''contract_escrow_id'', ''sender_wallet'', ''recipient_wallet'',
        ''agent_wallet'', ''amount'', ''asset'', ''fee_bps'', ''status'', ''tx_hash'', ''confirm_tx_hash'', ''created_at'',
        ''released_amount'', ''confirmed_at'']
      else if t = ''fraud_blocks'' then [''id'', ''wallet_address'', ''reason'', ''amount'', ''asset'', ''created_at'']
      else [])"

text \<open>\<open>unknown t cs\<close>: the error of a statement that names the columns \<open>cs\<close> of the table \<open>t\<close>, if any.\<close>

definition unknown :: "string \<Rightarrow> string list \<Rightarrow> jserr option" where
  "unknown t cs = map_option undefinedColumn (find (\<lambda>c. c \<notin> set (table_columns t)) cs)"

definition selectCols :: "string \<Rightarrow> string list \<Rightarrow> (world \<Rightarrow> 'a) \<Rightarrow> (world, 'a) proc" where
  "selectCols t cs f = andThen tick (case unknown t cs of Some e \<Rightarrow> throw e | None \<Rightarrow> gets f)"

definition execCols :: "string \<Rightarrow> string list \<Rightarrow> (world \<Rightarrow> database) \<Rightarrow> (world, unit) proc" where
  "execCols t cs f = execE (\<lambda>w. case unknown t cs of Some e \<Rightarrow> Inl e | None \<Rightarrow> Inr (f w))"

section \<open>Queries the components share\<close>

text \<open>\<open>ORDER BY is_default DESC, created_at ASC LIMIT 1\<close>.\<close>

definition default_wallet :: "database \<Rightarrow> string \<Rightarrow> wallet option" where
  "default_wallet d uid = first_row
     (sort_key (\<lambda>w. if w_default w then 0 else (1::nat)) (sort_key w_created
       (filter (\<lambda>w. w_user w = uid) (wallets d))))"

definition wallet_by_key :: "database \<Rightarrow> string \<Rightarrow> wallet option" where
  "wallet_by_key d pk = find (\<lambda>w. w_public_key w = pk) (wallets d)"

definition user_by_id :: "database \<Rightarrow> string \<Rightarrow> user option" where
  "user_by_id d uid = find (\<lambda>u. u_id u = uid) (users d)"

text \<open>\<open>users u JOIN wallets w ON w.user_id = u.id WHERE w.public_key = pk LIMIT 1\<close>.\<close>

definition user_of_wallet :: "database \<Rightarrow> string \<Rightarrow> user option" where
  "user_of_wallet d pk = (case wallet_by_key d pk of None \<Rightarrow> None | Some w \<Rightarrow> user_by_id d (w_user w))"

lemma default_wallet_Some: "default_wallet d uid = Some w \<Longrightarrow> w \<in> set (wallets d) \<and> w_user w = uid"
  unfolding default_wallet_def by (drule first_row_Some) simp

lemma wallet_by_key_Some: "wallet_by_key d pk = Some w \<Longrightarrow> w \<in> set (wallets d) \<and> w_public_key w = pk"
  by (auto simp: wallet_by_key_def find_Some_iff)

text \<open>\<open>req.user\<close> behind the authentication: the token's claims and the role of the users table.\<close>

record req_user =
  usr_id :: string
  usr_role :: string
  usr_wallet :: "string option"

definition wallets_of :: "database \<Rightarrow> string \<Rightarrow> string list" where
  "wallets_of d uid = map w_public_key (filter (\<lambda>w. w_user w = uid) (wallets d))"

section \<open>The audit log\<close>

text \<open>\<open>services/audit.js\<close>: the insert fails silently.\<close>

definition audit_log :: "string option \<Rightarrow> string \<Rightarrow> json \<Rightarrow> (world, unit) proc" where
  "audit_log uid action data = ignore (exec (\<lambda>w. (db w)\<lparr>audit_rows := audit_rows (db w) @
     [\<lparr>al_user = uid, al_action = action, al_data = data\<rparr>]\<rparr>))"

lemma wp_audit_log [wps]:
  "wp (audit_log uid a x) Q E = (\<lambda>w. if faulty w then Q () (ticked w)
     else Q () ((ticked w)\<lparr>db := (db w)\<lparr>audit_rows := audit_rows (db w) @
       [\<lparr>al_user = uid, al_action = a, al_data = x\<rparr>]\<rparr>\<rparr>))"
  by (simp add: audit_log_def wps)

end
