(* ===== verification/Cache.thy ===== *)
theory Cache
  imports World
begin

text \<open>
  \<^verbatim>\<open>utils/cache.js\<close>: a key-value store with expiry over Redis, or over an in-process map when
  \<^verbatim>\<open>REDIS_URL\<close> is unset, and its single-use keys (\<open>setIfAbsent\<close>). The two stores meet one interface,
  the locale \<open>expiring_store\<close>; what a client may rely on is proved there once.
\<close>

section \<open>The stores\<close>

definition live :: "int \<Rightarrow> ('v \<times> int) option \<Rightarrow> 'v option" where
  "live t e = (case e of None \<Rightarrow> None | Some (v, x) \<Rightarrow> if x \<le> t then None else Some v)"

lemma live_None [simp]: "live t None = None"
  by (simp add: live_def)

definition expire :: "int \<Rightarrow> (string \<Rightarrow> ('v \<times> int) option) \<Rightarrow> string \<Rightarrow> string \<Rightarrow> ('v \<times> int) option" where
  "expire t m k = (if live t (m k) = None then m(k := None) else m)"

text \<open>The in-process map: \<open>memGet\<close> drops an expired entry, \<open>memSet\<close> stores the expiry.\<close>

definition memGet :: "string \<Rightarrow> (world, cval option) proc" where
  "memGet k = bnd (gets (\<lambda>w. live (now w) (memory w k)))
     (\<lambda>v. andThen (modify (\<lambda>w. w\<lparr>memory := expire (now w) (memory w) k\<rparr>)) (ret v))"

definition memSet :: "string \<Rightarrow> cval \<Rightarrow> int \<Rightarrow> (world, unit) proc" where
  "memSet k v ttl = modify (\<lambda>w. w\<lparr>memory := (memory w)(k \<mapsto> (v, now w + ttl * 1000))\<rparr>)"

text \<open>The Redis commands the module sends: \<open>GET\<close>, \<open>SET EX\<close>, \<open>DEL\<close>, \<open>SET EX NX\<close>.\<close>

definition redisGet :: "string \<Rightarrow> (world, cval option) proc" where
  "redisGet k = select (\<lambda>w. live (now w) (map_of (redis w) k))"

definition redisSet :: "string \<Rightarrow> cval \<Rightarrow> int \<Rightarrow> (world, unit) proc" where
  "redisSet k v ttl = andThen tick
     (modify (\<lambda>w. w\<lparr>redis := AList.update k (v, now w + ttl * 1000) (redis w)\<rparr>))"

definition redisDel :: "string \<Rightarrow> (world, unit) proc" where
  "redisDel k = andThen tick (modify (\<lambda>w. w\<lparr>redis := AList.delete k (redis w)\<rparr>))"

definition redisSetNX :: "string \<Rightarrow> cval \<Rightarrow> int \<Rightarrow> (world, bool) proc" where
  "redisSetNX k v ttl = andThen tick (bnd (gets (\<lambda>w. live (now w) (map_of (redis w) k)))
     (\<lambda>e. case e of
        Some _ \<Rightarrow> ret False
      | None \<Rightarrow> andThen (modify (\<lambda>w. w\<lparr>redis := AList.update k (v, now w + ttl * 1000) (redis w)\<rparr>)) (ret True)))"

section \<open>The operations\<close>

definition getStrict :: "string \<Rightarrow> (world, cval option) proc" where
  "getStrict k = bnd (gets redis_on) (\<lambda>r. if r then redisGet k else memGet k)"

definition cacheGet :: "string \<Rightarrow> (world, cval option) proc" where
  "cacheGet k = bnd (gets redis_on) (\<lambda>r.
     if r then catch (redisGet k) (\<lambda>_. ret None) else memGet k)"

definition cacheSet :: "string \<Rightarrow> cval \<Rightarrow> int \<Rightarrow> (world, unit) proc" where
  "cacheSet k v ttl = bnd (gets redis_on) (\<lambda>r.
     if r then catch (redisSet k v ttl) (\<lambda>_. ret ()) else memSet k v ttl)"

definition cacheDel :: "string \<Rightarrow> (world, unit) proc" where
  "cacheDel k = bnd (gets redis_on) (\<lambda>r.
     if r then catch (redisDel k) (\<lambda>_. ret ())
     else modify (\<lambda>w. w\<lparr>memory := (memory w)(k := None)\<rparr>))"

text \<open>
  \<open>setIfAbsent\<close>: without Redis every expired single-use key is purged, then the key is
  claimed unless it is held; a Redis failure counts as held.
\<close>

definition setIfAbsent :: "string \<Rightarrow> string \<Rightarrow> int \<Rightarrow> (world, bool) proc" where
  "setIfAbsent k v ttl = bnd (gets redis_on) (\<lambda>r.
     if r then catch (redisSetNX k (CJson (JStr v)) ttl) (\<lambda>_. ret False)
     else
       andThen (modify (\<lambda>w. w\<lparr>one_time := (\<lambda>j. case one_time w j of None \<Rightarrow> None
                     | Some x \<Rightarrow> if x \<le> now w then None else Some x)\<rparr>))
         (bnd (gets (\<lambda>w. one_time w k)) (\<lambda>e. case e of
            Some _ \<Rightarrow> ret False
          | None \<Rightarrow> andThen (modify (\<lambda>w. w\<lparr>one_time := (one_time w)(k \<mapsto> now w + ttl * 1000)\<rparr>)) (ret True))))"

text \<open>
  Glob patterns: \<open>*\<close> any run of characters, \<open>?\<close> one; as in the anchored regular expression
  of \<open>memDelPattern\<close>, neither matches a line break.
\<close>

definition line_char :: "char \<Rightarrow> bool" where
  "line_char c = (let n = (of_char c :: nat) in n \<noteq> 10 \<and> n \<noteq> 13)"

fun glob :: "string \<Rightarrow> string \<Rightarrow> bool" where
  "glob [] s = (s = [])"
| "glob (p # ps) [] = (p = CHR ''*'' \<and> glob ps [])"
| "glob (p # ps) (c # s) =
     (if p = CHR ''*'' then glob ps (c # s) \<or> (line_char c \<and> glob (p # ps) s)
      else (p = CHR ''?'' \<and> line_char c \<or> p = c \<and> p \<noteq> CHR ''?'') \<and> glob ps s)"

definition memDelPattern :: "string \<Rightarrow> (world, unit) proc" where
  "memDelPattern p = modify (\<lambda>w. w\<lparr>memory := (\<lambda>k. if glob p k then None else memory w k)\<rparr>)"

definition delPattern :: "string \<Rightarrow> (world, unit) proc" where
  "delPattern p = bnd (gets redis_on) (\<lambda>r.
     if r then catch (andThen tick (modify (\<lambda>w. w\<lparr>redis := filter (\<lambda>(k, _). \<not> glob p k) (redis w)\<rparr>)))
                (\<lambda>_. ret ())
     else memDelPattern p)"

text \<open>\<open>redis.keys(pattern)\<close>: the live keys that match.\<close>

definition redisKeys :: "string \<Rightarrow> (world, string list) proc" where
  "redisKeys p = select (\<lambda>w. map fst (filter (\<lambda>(k, e). glob p k \<and> now w < snd e) (redis w)))"

section \<open>The interface\<close>

text \<open>
  A store with expiry: what \<open>look\<close> returns after a \<open>put\<close>, a \<open>drop\<close> and the passing of time.
\<close>

locale expiring_store =
  fixes look :: "'s \<Rightarrow> string \<Rightarrow> 'v option"
    and put :: "string \<Rightarrow> 'v \<Rightarrow> int \<Rightarrow> 's \<Rightarrow> 's"
    and drop_key :: "string \<Rightarrow> 's \<Rightarrow> 's"
    and wait :: "int \<Rightarrow> 's \<Rightarrow> 's"
  assumes look_put: "0 \<le> d \<Longrightarrow> look (wait d (put k v ttl s)) k = (if d < ttl * 1000 then Some v else None)"
    and look_put_other: "j \<noteq> k \<Longrightarrow> look (put k v ttl s) j = look s j"
    and look_drop: "look (drop_key k s) j = (if j = k then None else look s j)"
    and wait_None: "0 \<le> d \<Longrightarrow> look s k = None \<Longrightarrow> look (wait d s) k = None"
    and wait_wait: "wait d (wait e s) = wait (d + e) s"
    and wait_0: "wait 0 s = s"
    and wait_put: "wait d (drop_key k s) = drop_key k (wait d s)"
begin

text \<open>The claim of a single-use key.\<close>

definition claim :: "string \<Rightarrow> 'v \<Rightarrow> int \<Rightarrow> 's \<Rightarrow> bool \<times> 's" where
  "claim k v ttl s = (case look s k of Some _ \<Rightarrow> (False, s) | None \<Rightarrow> (True, put k v ttl s))"

lemma claim_once:
  assumes "0 \<le> d" and "d < ttl * 1000" and "claim k v ttl s = (True, s')"
  shows "fst (claim k u ttl' (wait d s')) = False"
  using assms look_put [of d k v ttl s]
  by (auto simp: claim_def split: option.splits)

lemma claim_again:
  assumes "0 \<le> d" and "ttl * 1000 \<le> d" and "claim k v ttl s = (True, s')"
  shows "fst (claim k u ttl' (wait d s')) = True"
  using assms look_put [of d k v ttl s]
  by (auto simp: claim_def split: option.splits)

lemma look_put_now: "0 < ttl \<Longrightarrow> look (put k v ttl s) k = Some v"
  using look_put [of 0 k v ttl s] by (simp add: wait_0)

end

definition wait_ms :: "int \<Rightarrow> world \<Rightarrow> world" where
  "wait_ms d w = w\<lparr>now := now w + d\<rparr>"

interpretation mem: expiring_store "\<lambda>w k. live (now w) (memory w k)"
  "\<lambda>k v ttl w. w\<lparr>memory := (memory w)(k \<mapsto> (v, now w + ttl * 1000))\<rparr>"
  "\<lambda>k w. w\<lparr>memory := (memory w)(k := None)\<rparr>" wait_ms
  by unfold_locales (auto simp: live_def wait_ms_def split: option.splits)

interpretation red: expiring_store "\<lambda>w k. live (now w) (map_of (redis w) k)"
  "\<lambda>k v ttl w. w\<lparr>redis := AList.update k (v, now w + ttl * 1000) (redis w)\<rparr>"
  "\<lambda>k w. w\<lparr>redis := AList.delete k (redis w)\<rparr>" wait_ms
  by unfold_locales (auto simp: live_def wait_ms_def update_conv' delete_conv' split: option.splits)

interpretation once: expiring_store "\<lambda>w k. live (now w) (map_option (\<lambda>x. ((), x)) (one_time w k))"
  "\<lambda>k v ttl w. w\<lparr>one_time := (one_time w)(k \<mapsto> now w + ttl * 1000)\<rparr>"
  "\<lambda>k w. w\<lparr>one_time := (one_time w)(k := None)\<rparr>" wait_ms
  by unfold_locales (auto simp: live_def wait_ms_def split: option.splits)

section \<open>The operations keep the tables\<close>

lemma keeps_cacheGet [keep]: "keeps (\<lambda>w. I (db w)) (cacheGet k)"
  unfolding keeps_wp cacheGet_def redisGet_def memGet_def wps by (simp add: wps)

lemma keeps_cacheSet [keep]: "keeps (\<lambda>w. I (db w)) (cacheSet k v t)"
  unfolding keeps_wp cacheSet_def redisSet_def memSet_def wps by (simp add: wps)

lemma keeps_cacheDel [keep]: "keeps (\<lambda>w. I (db w)) (cacheDel k)"
  unfolding keeps_wp cacheDel_def redisDel_def wps by (simp add: wps)

lemma keeps_setIfAbsent [keep]: "keeps (\<lambda>w. I (db w)) (setIfAbsent k v t)"
  unfolding keeps_wp setIfAbsent_def redisSetNX_def wps by (simp add: wps split: option.splits)

text \<open>
  What a reader of the cache sees: an entry is returned only if it was stored and has not
  expired, whatever fails.
\<close>

definition cached :: "world \<Rightarrow> string \<Rightarrow> cval option" where
  "cached w k = (if redis_on w then live (now w) (map_of (redis w) k) else live (now w) (memory w k))"

lemma wp_cacheGet:
  assumes "\<And>v w'. v = None \<or> v = cached w k \<Longrightarrow> db w' = db w \<Longrightarrow> now w' = now w \<Longrightarrow>
      chain_log w' = chain_log w \<Longrightarrow> outbox w' = outbox w \<Longrightarrow> redis_on w' = redis_on w \<Longrightarrow>
      last_rules w' = last_rules w \<Longrightarrow> (faults w = [] \<longrightarrow> faults w' = [] \<and> v = cached w k) \<Longrightarrow> Q v w'"
  shows "wp (cacheGet k) Q E w"
proof (cases "redis_on w")
  case True
  then show ?thesis
    using assms [of None "ticked w"] assms [of "cached w k" "ticked w"]
    by (auto simp: cacheGet_def redisGet_def wps cached_def faulty_def ticked_def split: list.splits)
next
  case False
  then show ?thesis
    using assms [of "cached w k" "w\<lparr>memory := expire (now w) (memory w) k\<rparr>"]
    by (simp add: cacheGet_def memGet_def wps cached_def)
qed

text \<open>Without failures: a write is seen at once, a delete removes its key only.\<close>

definition calm :: "world \<Rightarrow> world \<Rightarrow> bool" where
  "calm w w' \<longleftrightarrow> faults w' = [] \<and> db w' = db w \<and> now w' = now w \<and> redis_on w' = redis_on w
     \<and> chain_log w' = chain_log w \<and> outbox w' = outbox w"

lemma calm_trans: "calm w v \<Longrightarrow> calm v u \<Longrightarrow> calm w u"
  by (simp add: calm_def)

lemma calm_refl: "faults w = [] \<Longrightarrow> calm w w"
  by (simp add: calm_def)

lemma calm_wp_cacheSet:
  assumes "faults w = []" and "0 < ttl"
    and "\<And>w'. calm w w' \<Longrightarrow> cached w' = (cached w)(k \<mapsto> v) \<Longrightarrow> Q () w'"
  shows "wp (cacheSet k v ttl) Q E w"
proof (cases "redis_on w")
  case True
  show ?thesis
    using assms(1,2) True
    by (auto simp: cacheSet_def redisSet_def wps calm_def cached_def fun_eq_iff update_conv' live_def
        intro!: assms(3))
next
  case False
  show ?thesis
    using assms(1,2) False
    by (auto simp: cacheSet_def memSet_def wps calm_def cached_def fun_eq_iff live_def intro!: assms(3))
qed

lemma calm_wp_cacheDel:
  assumes "faults w = []"
    and "\<And>w'. calm w w' \<Longrightarrow> cached w' = (cached w)(k := None) \<Longrightarrow> Q () w'"
  shows "wp (cacheDel k) Q E w"
proof (cases "redis_on w")
  case True
  show ?thesis
    using assms(1) True
    by (auto simp: cacheDel_def redisDel_def wps calm_def cached_def fun_eq_iff delete_conv' live_def intro!: assms(2))
next
  case False
  show ?thesis
    using assms(1) False
    by (auto simp: cacheDel_def wps calm_def cached_def fun_eq_iff live_def intro!: assms(2))
qed

lemma calm_wp_cacheGet:
  assumes "faults w = []" and "\<And>w'. calm w w' \<Longrightarrow> cached w' = cached w \<Longrightarrow> Q (cached w k) w'"
  shows "wp (cacheGet k) Q E w"
proof (cases "redis_on w")
  case True
  show ?thesis
    using assms(1) True assms(2) [OF calm_refl [OF assms(1)]]
    by (simp add: cacheGet_def redisGet_def wps cached_def)
next
  case False
  show ?thesis
    using assms(1) False assms(2) [of "w\<lparr>memory := expire (now w) (memory w) k\<rparr>"]
    by (cases "live (now w) (memory w k)") (simp_all add: cacheGet_def memGet_def wps calm_def cached_def expire_def fun_eq_iff)
qed

end
