(* ===== verification/FeeConfig.thy ===== *)
theory FeeConfig
  imports Cache
begin

text \<open>
  \<^verbatim>\<open>services/feeConfigService.js\<close>, its controller and \<^verbatim>\<open>jobs/activateScheduledFeeConfigs.js\<close>: the
  versioned fee schedules, one active row per fee type and asset, read through the cache.
  The table's constraint \<^verbatim>\<open>UNIQUE (fee_type, asset_code, is_active) DEFERRABLE INITIALLY DEFERRED\<close> is
  the \<open>commit\<close> check of every transaction on it.
\<close>

section \<open>Amounts as the service sees them\<close>

text \<open>
  A JSON number of a request, or the text the driver returns for a \<^verbatim>\<open>NUMERIC(20,7)\<close> column. \<open>>\<close>
  compares two texts by their characters, anything else as numbers.
\<close>

datatype amount = ANum jsnum | ADec int

fun str_less :: "string \<Rightarrow> string \<Rightarrow> bool" where
  "str_less _ [] = False"
| "str_less [] (_ # _) = True"
| "str_less (a # as) (b # bs) = ((of_char a :: nat) < of_char b \<or> a = b \<and> str_less as bs)"

fun amount_num :: "amount \<Rightarrow> jsnum" where
  "amount_num (ANum x) = x"
| "amount_num (ADec n) = stroops n"

fun amount_gt :: "amount \<Rightarrow> amount \<Rightarrow> bool" where
  "amount_gt (ADec a) (ADec b) = str_less (dec7_text b) (dec7_text a)"
| "amount_gt x y = jlt (amount_num y) (amount_num x)"

text \<open>What an \<open>INSERT\<close> stores; \<open>pg\<close> is the driver's and the database's conversion of a number.\<close>

fun to_numeric :: "(jsnum \<Rightarrow> int) \<Rightarrow> amount \<Rightarrow> int" where
  "to_numeric pg (ANum x) = pg x"
| "to_numeric pg (ADec n) = n"

section \<open>The table\<close>

definition pair_of :: "fee_config \<Rightarrow> string \<times> string" where
  "pair_of r = (fc_type r, fc_asset r)"

definition fee_unique :: "database \<Rightarrow> bool" where
  "fee_unique d \<longleftrightarrow> distinct (map (\<lambda>r. (pair_of r, fc_active r)) (fee_configs d))"

definition fee_commit :: "database \<Rightarrow> jserr option" where
  "fee_commit d = (if fee_unique d then None else Some uniqueViolation)"

definition in_effect :: "int \<Rightarrow> string \<Rightarrow> string \<Rightarrow> fee_config \<Rightarrow> bool" where
  "in_effect t ty a r \<longleftrightarrow> fc_type r = ty \<and> fc_asset r = a \<and> fc_active r \<and> fc_from r \<le> t"

text \<open>\<open>... ORDER BY effective_from DESC LIMIT 1\<close>.\<close>

definition active_config :: "int \<Rightarrow> database \<Rightarrow> string \<Rightarrow> string \<Rightarrow> fee_config option" where
  "active_config t d ty a = first_row (sort_key (\<lambda>r. - fc_from r) (filter (in_effect t ty a) (fee_configs d)))"

definition deactivate :: "string \<Rightarrow> string \<Rightarrow> database \<Rightarrow> database" where
  "deactivate ty a d = d\<lparr>fee_configs := update_where (\<lambda>r. fc_type r = ty \<and> fc_asset r = a \<and> fc_active r)
     (\<lambda>r. r\<lparr>fc_active := False\<rparr>) (fee_configs d)\<rparr>"

definition next_fee_id :: "database \<Rightarrow> int" where
  "next_fee_id d = 1 + foldl max 0 (map fc_id (fee_configs d))"

section \<open>Reading through the cache\<close>

definition cacheKey :: "string \<Rightarrow> string \<Rightarrow> string" where
  "cacheKey ty a = ''fee_config:active:'' @ ty @ '':'' @ a"

definition CACHE_TTL :: int where
  "CACHE_TTL = 300"

definition getActiveConfig :: "string \<Rightarrow> string \<Rightarrow> (world, fee_config option) proc" where
  "getActiveConfig ty a =
     bnd (cacheGet (cacheKey ty a)) (\<lambda>c. case c of
       Some (CFee r) \<Rightarrow> ret (Some r)
     | _ \<Rightarrow> bnd (select (\<lambda>w. active_config (now w) (db w) ty a)) (\<lambda>r. case r of
         Some r \<Rightarrow> andThen (cacheSet (cacheKey ty a) (CFee r) CACHE_TTL) (ret (Some r))
       | None \<Rightarrow> ret None))"

definition grouped :: "fee_config list \<Rightarrow> (string \<times> fee_config) list" where
  "grouped rows = fold (\<lambda>r. AList.update (cacheKey (fc_type r) (fc_asset r)) r) rows []"

definition refreshCache :: "(world, unit) proc" where
  "refreshCache =
     bnd (select (\<lambda>w. filter (\<lambda>r. fc_active r \<and> fc_from r \<le> now w) (fee_configs (db w)))) (\<lambda>rows.
     let g = grouped rows in
     bnd (bnd (gets redis_on) (\<lambda>r. if r then catch (redisKeys ''fee_config:active:*'') (\<lambda>_. ret []) else ret []))
       (\<lambda>keys. andThen (forEach g (\<lambda>(k, r). cacheSet k (CFee r) CACHE_TTL))
         (forEach (filter (\<lambda>k. k \<notin> fst ` set g) keys) cacheDel)))"

definition listAllConfigs :: "(world, fee_config list) proc" where
  "listAllConfigs = select (\<lambda>w. sort_key (\<lambda>r. - fc_created r) (fee_configs (db w)))"

definition getHistory :: "(world, fee_config list) proc" where
  "getHistory = select (\<lambda>w. sort_key (\<lambda>r. - fc_created r) (fee_configs (db w)))"

section \<open>Creating and patching\<close>

definition too_high :: jserr where
  "too_high = mkError ''fee_bps must not exceed 1000 (10% max)''"

definition min_over_max :: jserr where
  "min_over_max = mkError ''min_fee_usdc must not exceed max_fee_usdc''"

definition insert_config :: "fee_config \<Rightarrow> database \<Rightarrow> database" where
  "insert_config r d = d\<lparr>fee_configs := fee_configs d @ [r]\<rparr>"

text \<open>After the commit: refresh the cache, write the audit row; an error there still runs \<open>ROLLBACK\<close> and is rethrown.\<close>

definition after_commit :: "string \<Rightarrow> string \<Rightarrow> fee_config \<Rightarrow> (world, fee_config) proc" where
  "after_commit uid action r = catch
     (andThen refreshCache (andThen (audit_log (Some uid) action (JNum (Fin (of_int (fc_id r))))) (ret r)))
     (\<lambda>e. andThen tick (throw e))"

definition createConfig :: "(jsnum \<Rightarrow> int) \<Rightarrow> string \<Rightarrow> string \<Rightarrow> int \<Rightarrow> amount \<Rightarrow> amount \<Rightarrow> int option \<Rightarrow> string
    \<Rightarrow> (world, fee_config) proc" where
  "createConfig pg feeType assetCode feeBps maxFee minFee effectiveFrom createdBy =
     (if 1000 < feeBps then throw too_high
      else if amount_gt minFee maxFee then throw min_over_max
      else bnd (gets now) (\<lambda>t.
        let from = (case effectiveFrom of None \<Rightarrow> t | Some f \<Rightarrow> f); active = (from \<le> t) in
        bnd (transaction fee_commit
          (andThen (if active then exec (\<lambda>w. deactivate feeType assetCode (db w)) else ret ())
            (bnd (gets (\<lambda>w. \<lparr>fc_id = next_fee_id (db w), fc_type = feeType, fc_asset = assetCode, fc_bps = feeBps,
                 fc_max = to_numeric pg maxFee, fc_min = to_numeric pg minFee, fc_active = active,
                 fc_by = createdBy, fc_created = t, fc_from = from, fc_reminder = None\<rparr>))
              (\<lambda>r. andThen (exec (\<lambda>w. insert_config r (db w))) (ret r)))))
          (after_commit createdBy ''fee_config_created'')))"

record fee_updates =
  up_type :: "string option"
  up_asset :: "string option"
  up_bps :: "int option"
  up_max :: "amount option"
  up_min :: "amount option"
  up_from :: "int option"

definition orElse :: "'a option \<Rightarrow> 'a \<Rightarrow> 'a" where
  "orElse x d = (case x of None \<Rightarrow> d | Some v \<Rightarrow> v)"

definition patchConfig :: "(jsnum \<Rightarrow> int) \<Rightarrow> int \<Rightarrow> fee_updates \<Rightarrow> string \<Rightarrow> (world, fee_config) proc" where
  "patchConfig pg i u createdBy =
     bnd (select (\<lambda>w. find (\<lambda>r. fc_id r = i) (fee_configs (db w)))) (\<lambda>row. case row of
       None \<Rightarrow> throw (mkError ''Fee configuration not found'')
     | Some old \<Rightarrow>
         let ty = orElse (up_type u) (fc_type old); a = orElse (up_asset u) (fc_asset old);
             bps = orElse (up_bps u) (fc_bps old);
             mx = orElse (up_max u) (ADec (fc_max old)); mn = orElse (up_min u) (ADec (fc_min old)) in
         if 1000 < bps then throw too_high
         else if amount_gt mn mx then throw min_over_max
         else bnd (gets now) (\<lambda>t.
           bnd (transaction fee_commit
             (andThen (exec (\<lambda>w. deactivate ty a (db w)))
             (andThen (exec (\<lambda>w. (db w)\<lparr>fee_configs := update_where (\<lambda>r. fc_id r = i)
                 (\<lambda>r. r\<lparr>fc_active := False\<rparr>) (fee_configs (db w))\<rparr>))
               (bnd (gets (\<lambda>w. \<lparr>fc_id = next_fee_id (db w), fc_type = ty, fc_asset = a, fc_bps = bps,
                   fc_max = to_numeric pg mx, fc_min = to_numeric pg mn, fc_active = True,
                   fc_by = createdBy, fc_created = t, fc_from = orElse (up_from u) t, fc_reminder = None\<rparr>))
                 (\<lambda>r. andThen (exec (\<lambda>w. insert_config r (db w))) (ret r))))))
             (after_commit createdBy ''fee_config_updated'')))"

section \<open>The activation job\<close>

text \<open>One entry per pair that has a due inactive row: the latest row in effect of the pair.\<close>

definition due_rows :: "int \<Rightarrow> database \<Rightarrow> fee_config list" where
  "due_rows t d = sort_key fc_created (filter (\<lambda>r. \<not> fc_active r \<and> fc_from r \<le> t) (fee_configs d))"

definition latest_row :: "int \<Rightarrow> database \<Rightarrow> string \<times> string \<Rightarrow> fee_config option" where
  "latest_row t d p = first_row (sort_key (\<lambda>r. - fc_from r)
     (filter (\<lambda>r. pair_of r = p \<and> fc_from r \<le> t) (fee_configs d)))"

fun collect_activations :: "fee_config list \<Rightarrow> (string \<times> string) list \<Rightarrow> (int \<times> string \<times> string) list
    \<Rightarrow> (world, (int \<times> string \<times> string) list) proc" where
  "collect_activations [] seen acc = ret acc"
| "collect_activations (r # rs) seen acc =
     (if pair_of r \<in> set seen then collect_activations rs seen acc
      else bnd (select (\<lambda>w. latest_row (now w) (db w) (pair_of r))) (\<lambda>l.
        collect_activations rs (pair_of r # seen)
          (case l of None \<Rightarrow> acc | Some x \<Rightarrow> acc @ [(fc_id x, fc_type r, fc_asset r)])))"

definition activate_one :: "int \<times> string \<times> string \<Rightarrow> (world, unit) proc" where
  "activate_one x = (case x of (i, ty, a) \<Rightarrow>
     andThen (exec (\<lambda>w. deactivate ty a (db w)))
       (exec (\<lambda>w. (db w)\<lparr>fee_configs := update_where (\<lambda>r. fc_id r = i)
          (\<lambda>r. r\<lparr>fc_active := True\<rparr>) (fee_configs (db w))\<rparr>)))"

definition activateScheduledFeeConfigs :: "(world, unit) proc" where
  "activateScheduledFeeConfigs =
     bnd (select (\<lambda>w. due_rows (now w) (db w))) (\<lambda>due.
     if due = [] then ret ()
     else bnd (collect_activations due [] []) (\<lambda>items.
       if items = [] then ret ()
       else andThen (transaction fee_commit (forEach items activate_one))
         (catch (andThen refreshCache
             (forEach items (\<lambda>x. audit_log None ''fee_config_activated'' (JNum (Fin (of_int (fst x)))))))
           (\<lambda>e. andThen tick (throw e)))))"

text \<open>The reminder job's queries (\<open>findConfigsDueForReminder\<close>, \<open>markReminderSent\<close>).\<close>

definition findConfigsDueForReminder :: "int \<Rightarrow> (world, fee_config list) proc" where
  "findConfigsDueForReminder h = select (\<lambda>w. sort_key fc_from (filter
     (\<lambda>r. \<not> fc_active r \<and> now w < fc_from r \<and> fc_from r \<le> now w + h * 3600000 \<and> fc_reminder r = None)
     (fee_configs (db w))))"

definition markReminderSent :: "int \<Rightarrow> (world, unit) proc" where
  "markReminderSent i = exec (\<lambda>w. (db w)\<lparr>fee_configs := update_where (\<lambda>r. fc_id r = i)
     (\<lambda>r. r\<lparr>fc_reminder := Some (now w)\<rparr>) (fee_configs (db w))\<rparr>)"

definition notify_admin :: "fee_config \<Rightarrow> user \<Rightarrow> (world, unit) proc" where
  "notify_admin r u = ignore (andThen tick (emit (Notification (u_id u) ''fee_config_reminder''
     (JNum (Fin (of_int (fc_id r)))))))"

definition remindScheduledFeeConfigs :: "int \<Rightarrow> (world, unit) proc" where
  "remindScheduledFeeConfigs h = bnd (findConfigsDueForReminder h) (\<lambda>due.
     if due = [] then ret ()
     else bnd (select (\<lambda>w. filter (\<lambda>u. u_role u = ''admin'') (users (db w)))) (\<lambda>admins.
       forEach due (\<lambda>r. andThen (forEach admins (notify_admin r)) (markReminderSent (fc_id r)))))"

section \<open>The preview\<close>

text \<open>
  \<open>fees_of\<close> is the loop over the rows, on the numbers \<open>parseFloat(..) || 0\<close> reads.
\<close>

definition simulated_fee :: "jsnum \<Rightarrow> jsnum \<Rightarrow> jsnum \<Rightarrow> jsnum \<Rightarrow> jsnum" where
  "simulated_fee feeBps maxFee minFee amt = jmax minFee (jmin maxFee (jdiv (jmul amt feeBps) (Fin 10000)))"

fun fees_of :: "jsnum \<Rightarrow> jsnum \<Rightarrow> jsnum \<Rightarrow> (jsnum \<times> jsnum) list \<Rightarrow> jsnum \<times> jsnum \<times> jsnum \<Rightarrow> jsnum \<times> jsnum \<times> jsnum" where
  "fees_of bps mx mn [] acc = acc"
| "fees_of bps mx mn ((amt, fee) # rows) (volume, actual, simulated) =
     fees_of bps mx mn rows (jadd volume amt, jadd actual fee, jadd simulated (simulated_fee bps mx mn amt))"

text \<open>\<open>lookback\<close> is \<open>parseInt(lookbackDays, 10)\<close>.\<close>

definition previewFeeConfig :: "string \<Rightarrow> string \<Rightarrow> int \<Rightarrow> amount \<Rightarrow> amount \<Rightarrow> jsnum \<Rightarrow> (world, json) proc" where
  "previewFeeConfig feeType assetCode feeBps maxFee minFee lookback =
     (if 1000 < feeBps then throw too_high
      else if amount_gt minFee maxFee then throw min_over_max
      else bnd (gets now) (\<lambda>t.
        let days = jmin (jmax (jor lookback (Fin 7)) (Fin 1)) (Fin 90);
            from = (case days of Fin d \<Rightarrow> t - \<lfloor>d\<rfloor> * 86400000 | _ \<Rightarrow> t) in
        bnd (selectCols ''transactions'' [''amount'', ''fee_amount'', ''created_at'', ''status'', ''asset_code'']
          (\<lambda>w. map (\<lambda>r. (stroops (t_amount r), stroops (t_fee_amount r)))
            (filter (\<lambda>r. from \<le> t_created r \<and> t_status r = ''completed'' \<and> t_asset r = assetCode) (transactions (db w)))))
          (\<lambda>rows. case fees_of (Fin (of_int feeBps)) (amount_num maxFee) (amount_num minFee) rows (Fin 0, Fin 0, Fin 0) of
            (volume, actual, simulated) \<Rightarrow> ret (JObj
              [(''fee_type'', JStr feeType), (''asset_code'', JStr assetCode),
               (''proposed'', JObj [(''fee_bps'', JNum (Fin (of_int feeBps))), (''max_fee_usdc'', JNum (amount_num maxFee)),
                  (''min_fee_usdc'', JNum (amount_num minFee))]),
               (''window_days'', JNum days), (''transaction_count'', JNum (Fin (of_nat (length rows)))),
               (''volume_total'', JNum volume), (''actual_fee_revenue'', JNum actual),
               (''simulated_fee_revenue'', JNum simulated), (''estimated_delta'', JNum (jsub simulated actual))]))))"

section \<open>The controller\<close>

text \<open>\<open>err.message.includes(s)\<close>.\<close>

fun starts_with :: "string \<Rightarrow> string \<Rightarrow> bool" where
  "starts_with [] _ = True"
| "starts_with (p # ps) [] = False"
| "starts_with (p # ps) (c # cs) = (p = c \<and> starts_with ps cs)"

fun str_includes :: "string \<Rightarrow> string \<Rightarrow> bool" where
  "str_includes [] p = (p = [])"
| "str_includes (c # cs) p = (starts_with p (c # cs) \<or> str_includes cs p)"

definition config_json :: "fee_config \<Rightarrow> json" where
  "config_json r = JObj [(''id'', JNum (Fin (of_int (fc_id r)))), (''fee_type'', JStr (fc_type r)),
     (''asset_code'', JStr (fc_asset r)), (''fee_bps'', JNum (Fin (of_int (fc_bps r)))),
     (''max_fee_usdc'', JStr (dec7_text (fc_max r))), (''min_fee_usdc'', JStr (dec7_text (fc_min r))),
     (''is_active'', JBool (fc_active r))]"

definition createFeeConfig :: "(jsnum \<Rightarrow> int) \<Rightarrow> string \<Rightarrow> string \<Rightarrow> int \<Rightarrow> amount \<Rightarrow> amount \<Rightarrow> int option \<Rightarrow> string
    \<Rightarrow> (world, outcome) proc" where
  "createFeeConfig pg ty a bps mx mn from uid = catch
     (bnd (createConfig pg ty a bps mx mn from uid) (\<lambda>r. ret (Reply 201 (config_json r))))
     (\<lambda>e. ret (if str_includes (err_message e) ''must not exceed'' then Reply 400 (jerr (err_message e)) else NextErr e))"

definition updateFeeConfig :: "(jsnum \<Rightarrow> int) \<Rightarrow> int \<Rightarrow> fee_updates \<Rightarrow> string \<Rightarrow> (world, outcome) proc" where
  "updateFeeConfig pg i u uid = catch
     (bnd (patchConfig pg i u uid) (\<lambda>r. ret (Reply 200 (config_json r))))
     (\<lambda>e. ret (if err_message e = ''Fee configuration not found'' then Reply 404 (jerr (err_message e))
       else if str_includes (err_message e) ''must not exceed'' then Reply 400 (jerr (err_message e)) else NextErr e))"

definition listConfigs :: "(world, outcome) proc" where
  "listConfigs = handler (bnd listAllConfigs (\<lambda>rs. ret (Reply 200 (JArr (map config_json rs)))))"

definition listHistory :: "(world, outcome) proc" where
  "listHistory = handler (bnd getHistory (\<lambda>rs. ret (Reply 200 (JArr (map config_json rs)))))"

definition previewFeeConfigChange :: "string \<Rightarrow> string \<Rightarrow> int \<Rightarrow> amount \<Rightarrow> amount \<Rightarrow> jsnum \<Rightarrow> (world, outcome) proc" where
  "previewFeeConfigChange ty a bps mx mn lookback = catch
     (bnd (previewFeeConfig ty a bps mx mn lookback) (\<lambda>p. ret (Reply 200 p)))
     (\<lambda>e. ret (if str_includes (err_message e) ''must not exceed'' then Reply 400 (jerr (err_message e)) else NextErr e))"

section \<open>One active schedule per pair\<close>

definition rows_of :: "string \<times> string \<Rightarrow> database \<Rightarrow> fee_config list" where
  "rows_of p d = filter (\<lambda>r. pair_of r = p) (fee_configs d)"

lemma fee_commit_None: "fee_commit d = None \<Longrightarrow> fee_unique d"
  by (simp add: fee_commit_def split: if_splits)

lemma keeps_forEach_cacheSet [keep]: "keeps (\<lambda>w. I (db w)) (forEach g (\<lambda>(k, r). cacheSet k (f r) t))"
  by (rule keeps_forEach) (auto intro: keep split: prod.split)

lemma keeps_redisKeys [keep]: "keeps (\<lambda>w. I (db w)) (redisKeys p)"
  by (simp add: redisKeys_def keep)

lemma keeps_refreshCache [keep]: "keeps (\<lambda>w. I (db w)) refreshCache"
  unfolding refreshCache_def Let_def by (intro keep)

lemma keeps_audit_log:
  assumes "\<And>d a. I d \<Longrightarrow> I (d\<lparr>audit_rows := a\<rparr>)"
  shows "keeps (\<lambda>w. I (db w)) (audit_log u a x)"
  unfolding audit_log_def using assms by (auto intro!: keep keeps_exec)

lemma keeps_after_commit:
  assumes "\<And>d a. I d \<Longrightarrow> I (d\<lparr>audit_rows := a\<rparr>)"
  shows "keeps (\<lambda>w. I (db w)) (after_commit u a r)"
  unfolding after_commit_def by (intro keep keeps_audit_log assms)

lemma fee_unique_audit [simp]: "fee_unique (d\<lparr>audit_rows := a\<rparr>) = fee_unique d"
  by (simp add: fee_unique_def)

lemma keeps_fee_txn [keep]: "keeps (\<lambda>w. fee_unique (db w)) (transaction fee_commit m)"
  by (rule keeps_transaction_commit) (rule fee_commit_None)

lemma keeps_fee_after [keep]: "keeps (\<lambda>w. fee_unique (db w)) (after_commit u a r)"
  by (rule keeps_after_commit) simp

lemma keeps_fee_audit [keep]: "keeps (\<lambda>w. fee_unique (db w)) (audit_log u a x)"
  by (rule keeps_audit_log) simp

lemma keeps_createConfig: "keeps (\<lambda>w. fee_unique (db w)) (createConfig pg ty a bps mx mn from uid)"
  unfolding createConfig_def Let_def
  by (intro keep)

lemma keeps_patchConfig: "keeps (\<lambda>w. fee_unique (db w)) (patchConfig pg i u uid)"
  unfolding patchConfig_def Let_def
  by (intro keep)

lemma keeps_collect [keep]: "keeps (\<lambda>w. I (db w)) (collect_activations rs seen acc)"
  by (induction rs seen acc rule: collect_activations.induct) (auto intro: keep)

lemma keeps_activateScheduled: "keeps (\<lambda>w. fee_unique (db w)) activateScheduledFeeConfigs"
  unfolding activateScheduledFeeConfigs_def
  by (intro keep)

lemma distinct_map_pair_le2:
  assumes "distinct (map (\<lambda>r. (f r, g r :: bool)) rs)"
  shows "length (filter (\<lambda>r. f r = p) rs) \<le> 2"
proof -
  let ?l = "map g (filter (\<lambda>r. f r = p) rs)"
  have "distinct (map (\<lambda>r. (f r, g r)) (filter (\<lambda>r. f r = p) rs))"
    using assms by (rule distinct_map_filter)
  then have "distinct ?l" by (auto simp: distinct_map inj_on_def)
  then have "length ?l = card (set ?l)" by (simp only: distinct_card)
  also have "\<dots> \<le> card (UNIV :: bool set)" by (rule card_mono) simp_all
  finally show ?thesis by (simp add: card_UNIV_bool)
qed

lemma rows_of_le2: "fee_unique d \<Longrightarrow> length (rows_of p d) \<le> 2"
  unfolding fee_unique_def rows_of_def by (rule distinct_map_pair_le2)

lemma rows_of_deactivate [simp]: "length (rows_of p (deactivate ty a d)) = length (rows_of p d)"
proof -
  have "map pair_of (fee_configs (deactivate ty a d)) = map pair_of (fee_configs d)"
    by (auto simp: deactivate_def update_where_def pair_of_def)
  then have "length (filter ((=) p) (map pair_of (fee_configs (deactivate ty a d))))
      = length (filter ((=) p) (map pair_of (fee_configs d)))" by simp
  then show ?thesis by (simp add: rows_of_def filter_map comp_def eq_commute)
qed

lemma rows_of_insert [simp]:
  "rows_of p (insert_config r d) = rows_of p d @ (if pair_of r = p then [r] else [])"
  by (simp add: rows_of_def insert_config_def)

text \<open>
  The constraint leaves room for one active and one inactive row of a pair, so the
  third schedule of a pair is refused by the commit, whatever its start.
\<close>

lemma createConfig_third:
  assumes "length (rows_of (ty, a) (db w)) = 2"
  shows "wp (createConfig pg ty a bps mx mn from uid) (\<lambda>_ _. False)
           (\<lambda>_ v. fee_configs (db v) = fee_configs (db w)) w"
proof -
  have *: "fee_commit (insert_config r d) \<noteq> None"
    if "pair_of r = (ty, a)" "length (rows_of (ty, a) d) = 2" for r d
  proof
    assume "fee_commit (insert_config r d) = None"
    then have "fee_unique (insert_config r d)" by (rule fee_commit_None)
    from rows_of_le2 [OF this, of "(ty, a)"] that show False by simp
  qed
  show ?thesis
    unfolding createConfig_def transaction_def Let_def wps using assms
    by (auto simp: wps pair_of_def * split: option.splits)
qed

text \<open>A read of the schedule changes no table and nothing on the chain, whatever fails.\<close>

lemma wp_getActiveConfig:
  assumes "\<And>c v. db v = db w \<Longrightarrow> chain_log v = chain_log w \<Longrightarrow> now v = now w \<Longrightarrow> Q c v"
    and "\<And>e v. db v = db w \<Longrightarrow> chain_log v = chain_log w \<Longrightarrow> now v = now w \<Longrightarrow> E e v"
  shows "wp (getActiveConfig ty a) Q E w"
  unfolding getActiveConfig_def wp_bnd
  by (rule wp_cacheGet)
     (auto simp: wps cacheSet_def redisSet_def memSet_def split: option.splits cval.splits intro!: assms)

section \<open>Readers see a new schedule\<close>

lemma map_of_grouped:
  assumes "r \<in> set rows"
    and "\<And>s. s \<in> set rows \<Longrightarrow> cacheKey (fc_type s) (fc_asset s) = cacheKey (fc_type r) (fc_asset r) \<Longrightarrow> s = r"
  shows "map_of (grouped rows) (cacheKey (fc_type r) (fc_asset r)) = Some r"
  using assms
proof (induction rows rule: rev_induct)
  case (snoc x rows)
  then show ?case by (cases "x = r") (auto simp: grouped_def update_conv')
qed simp

lemma distinct_grouped: "distinct (map fst (grouped rows))"
  unfolding grouped_def
  by (induction rows rule: rev_induct) (simp_all add: distinct_update)

lemma calm_wp_set_all:
  assumes "faults w = []" and "distinct (map fst g)"
    and "\<And>w'. calm w w' \<Longrightarrow> (\<And>k r. map_of g k = Some r \<Longrightarrow> cached w' k = Some (CFee r)) \<Longrightarrow> Q () w'"
  shows "wp (forEach g (\<lambda>(k, r). cacheSet k (CFee r) CACHE_TTL)) Q E w"
proof -
  have "wp (forEach g (\<lambda>(k, r). cacheSet k (CFee r) CACHE_TTL))
      (\<lambda>_ v. calm w v \<and> (\<forall>k. cached v k = (case map_of g k of Some r \<Rightarrow> Some (CFee r) | None \<Rightarrow> cached w k))) E w"
    using assms(1,2)
  proof (induction g arbitrary: w)
    case (Cons x g)
    obtain k r where x: "x = (k, r)" by (cases x)
    show ?case unfolding x forEach.simps wps prod.case
    proof (rule calm_wp_cacheSet)
      fix w' assume w': "calm w w'" "cached w' = (cached w)(k \<mapsto> CFee r)"
      then have "faults w' = []" by (simp add: calm_def)
      have none: "map_of g k = None" using Cons.prems x by (simp add: map_of_eq_None_iff)
      from Cons.IH [OF \<open>faults w' = []\<close>] Cons.prems
      have "wp (forEach g (\<lambda>(k, r). cacheSet k (CFee r) CACHE_TTL))
        (\<lambda>_ v. calm w' v \<and> (\<forall>k. cached v k = (case map_of g k of Some r \<Rightarrow> Some (CFee r) | None \<Rightarrow> cached w' k))) E w'"
        by simp
      then show "wp (forEach g (\<lambda>(k, r). cacheSet k (CFee r) CACHE_TTL))
        (\<lambda>_ v. calm w v \<and> (\<forall>j. cached v j = (case map_of ((k, r) # g) j of Some r \<Rightarrow> Some (CFee r) | None \<Rightarrow> cached w j))) E w'"
        by (rule wp_mono) (use w' none in \<open>auto intro: calm_trans split: option.splits\<close>)
    qed (use Cons.prems in \<open>simp_all add: CACHE_TTL_def\<close>)
  qed (simp add: wps calm_refl)
  then show ?thesis by (rule wp_mono) (auto intro: assms(3))
qed

lemma calm_wp_del_all:
  assumes "faults w = []"
    and "\<And>w'. calm w w' \<Longrightarrow> (\<And>k. k \<notin> set ks \<Longrightarrow> cached w' k = cached w k) \<Longrightarrow> Q () w'"
  shows "wp (forEach ks cacheDel) Q E w"
proof -
  have "wp (forEach ks cacheDel) (\<lambda>_ v. calm w v \<and> (\<forall>k. k \<notin> set ks \<longrightarrow> cached v k = cached w k)) E w"
    using assms(1)
  proof (induction ks arbitrary: w)
    case (Cons x ks)
    show ?case unfolding forEach.simps wps
    proof (rule calm_wp_cacheDel)
      fix w' assume w': "calm w w'" "cached w' = (cached w)(x := None)"
      then have "faults w' = []" by (simp add: calm_def)
      from Cons.IH [OF this] show "wp (forEach ks cacheDel)
        (\<lambda>_ v. calm w v \<and> (\<forall>k. k \<notin> set (x # ks) \<longrightarrow> cached v k = cached w k)) E w'"
        by (rule wp_mono) (use w' in \<open>auto simp: calm_trans\<close>)
    qed (use Cons.prems in simp)
  qed (simp add: wps calm_refl)
  then show ?thesis by (rule wp_mono) (auto intro: assms(2))
qed

text \<open>After a refresh the cache agrees with every row in effect.\<close>

lemma calm_wp_refreshCache:
  assumes "faults w = []"
    and "\<And>w'. calm w w' \<Longrightarrow> (\<And>k r. map_of (grouped (filter (\<lambda>r. fc_active r \<and> fc_from r \<le> now w) (fee_configs (db w)))) k
        = Some r \<Longrightarrow> cached w' k = Some (CFee r)) \<Longrightarrow> Q () w'"
  shows "wp refreshCache Q E w"
proof -
  let ?g = "grouped (filter (\<lambda>r. fc_active r \<and> fc_from r \<le> now w) (fee_configs (db w)))"
  have *: "wp (andThen (forEach ?g (\<lambda>(k, r). cacheSet k (CFee r) CACHE_TTL))
      (forEach (filter (\<lambda>k. k \<notin> fst ` set ?g) keys) cacheDel)) Q E w" for keys
    unfolding wps
  proof (rule calm_wp_set_all [OF assms(1) distinct_grouped])
    fix w' assume w': "calm w w'" "\<And>k r. map_of ?g k = Some r \<Longrightarrow> cached w' k = Some (CFee r)"
    then have f: "faults w' = []" by (simp add: calm_def)
    show "wp (forEach (filter (\<lambda>k. k \<notin> fst ` set ?g) keys) cacheDel) Q E w'"
    proof (rule calm_wp_del_all [OF f])
      fix v assume v: "calm w' v"
        "\<And>k. k \<notin> set (filter (\<lambda>k. k \<notin> fst ` set ?g) keys) \<Longrightarrow> cached v k = cached w' k"
      show "Q () v"
      proof (rule assms(2))
        show "calm w v" using w'(1) v(1) by (rule calm_trans)
        fix k r assume k: "map_of ?g k = Some r"
        then have "k \<in> fst ` set ?g" by (metis domI dom_map_of_conv_image_fst)
        then show "cached v k = Some (CFee r)" using v(2) w'(2) k by simp
      qed
    qed
  qed
  from * * [of "[]"] show ?thesis
    using assms(1) by (simp add: refreshCache_def wps redisKeys_def Let_def)
qed

text \<open>
  A created schedule that starts at once: with a free inactive slot and no failure the creation
  succeeds, the new row is the only active one of its pair, and every reader gets it.
\<close>

lemma deactivate_keys:
  "map (\<lambda>r. (pair_of r, fc_active r)) (fee_configs (deactivate ty a d))
   = map (\<lambda>r. (pair_of r, fc_active r \<and> pair_of r \<noteq> (ty, a))) (fee_configs d)"
  by (auto simp: deactivate_def update_where_def pair_of_def)

lemma fee_unique_created:
  assumes "fee_unique d" and "\<And>r. r \<in> set (fee_configs d) \<Longrightarrow> pair_of r = (ty, a) \<Longrightarrow> fc_active r"
    and "pair_of x = (ty, a)" and "fc_active x"
  shows "fee_unique (insert_config x (deactivate ty a d))"
proof -
  have inj: "inj_on (\<lambda>r. (pair_of r, fc_active r)) (set (fee_configs d))" and dist: "distinct (fee_configs d)"
    using assms(1) by (simp_all add: fee_unique_def distinct_map)
  have "inj_on (\<lambda>r. (pair_of r, fc_active r \<and> pair_of r \<noteq> (ty, a))) (set (fee_configs d))"
  proof (rule inj_onI)
    fix r s assume rs: "r \<in> set (fee_configs d)" "s \<in> set (fee_configs d)"
      and eq: "(pair_of r, fc_active r \<and> pair_of r \<noteq> (ty, a)) = (pair_of s, fc_active s \<and> pair_of s \<noteq> (ty, a))"
    have p: "pair_of r = pair_of s" using eq by simp
    have "fc_active r = fc_active s"
      using assms(2) [OF rs(1)] assms(2) [OF rs(2)] eq p by (cases "pair_of s = (ty, a)") simp_all
    with p show "r = s" using inj_onD [OF inj _ rs] by simp
  qed
  then show ?thesis using dist assms(3,4)
    by (simp add: fee_unique_def insert_config_def deactivate_keys distinct_map image_iff)
qed

definition key_safe :: "database \<Rightarrow> bool" where
  "key_safe d \<longleftrightarrow> (\<forall>r \<in> set (fee_configs d). CHR '':'' \<notin> set (fc_type r))"

lemma cacheKey_inj:
  assumes "cacheKey t1 a1 = cacheKey t2 a2" and "CHR '':'' \<notin> set t1" and "CHR '':'' \<notin> set t2"
  shows "t1 = t2 \<and> a1 = a2"
proof -
  have "t1 @ '':'' @ a1 = t2 @ '':'' @ a2" using assms(1) by (simp add: cacheKey_def)
  then have "takeWhile (\<lambda>c. c \<noteq> CHR '':'') (t1 @ '':'' @ a1) = takeWhile (\<lambda>c. c \<noteq> CHR '':'') (t2 @ '':'' @ a2)"
    by simp
  then have "t1 = t2" using assms(2,3) by (subst (asm) (1 2) takeWhile_append2) auto
  then show ?thesis using assms(1) by (simp add: cacheKey_def)
qed

lemma unique_active:
  "fee_unique d \<Longrightarrow> r \<in> set (fee_configs d) \<Longrightarrow> s \<in> set (fee_configs d) \<Longrightarrow> pair_of r = pair_of s \<Longrightarrow>
   fc_active r = fc_active s \<Longrightarrow> r = s"
  by (auto simp: fee_unique_def distinct_map inj_on_def)

lemma calm_create_read:
  assumes nf: "faults w = []" and u: "fee_unique (db w)" and k: "key_safe (db w)" "CHR '':'' \<notin> set ty"
    and slot: "\<And>r. r \<in> set (fee_configs (db w)) \<Longrightarrow> pair_of r = (ty, a) \<Longrightarrow> fc_active r"
    and ok: "bps \<le> 1000" "\<not> amount_gt mn mx"
  shows "wp (bnd (createConfig pg ty a bps mx mn None uid) (\<lambda>r. bnd (getActiveConfig ty a) (\<lambda>c. ret (r, c))))
    (\<lambda>(r, c) v. c = Some r \<and> fc_bps r = bps \<and> pair_of r = (ty, a)
       \<and> filter fc_active (rows_of (ty, a) (db v)) = [r]) (\<lambda>_ _. False) w"
proof -
  define x where "x = \<lparr>fc_id = next_fee_id (deactivate ty a (db w)), fc_type = ty, fc_asset = a, fc_bps = bps,
     fc_max = to_numeric pg mx, fc_min = to_numeric pg mn, fc_active = True,
     fc_by = uid, fc_created = now w, fc_from = now w, fc_reminder = None\<rparr>"
  have x: "pair_of x = (ty, a)" "fc_active x" "fc_type x = ty" "fc_asset x = a" "fc_from x = now w" "fc_bps x = bps"
    by (simp_all add: x_def pair_of_def)
  define d where "d = insert_config x (deactivate ty a (db w))"
  define w1 where "w1 = w\<lparr>db := d\<rparr>"
  have ud: "fee_unique d" unfolding d_def by (rule fee_unique_created [OF u slot x(1,2)])
  have fd: "fee_commit d = None" using ud by (simp add: fee_commit_def)
  have xin: "x \<in> set (fee_configs d)" by (simp add: d_def insert_config_def)
  have safe: "CHR '':'' \<notin> set (fc_type r)" if "r \<in> set (fee_configs d)" for r
    using that k x(3) by (auto simp: d_def insert_config_def deactivate_def set_update_where key_safe_def split: if_splits)
  let ?rows = "filter (\<lambda>r. fc_active r \<and> fc_from r \<le> now w1) (fee_configs (db w1))"
  have g: "map_of (grouped ?rows) (cacheKey ty a) = Some x"
  proof -
    have "x \<in> set ?rows" using xin x by (simp add: w1_def)
    moreover have "s = x" if "s \<in> set ?rows" "cacheKey (fc_type s) (fc_asset s) = cacheKey (fc_type x) (fc_asset x)" for s
    proof -
      have s: "s \<in> set (fee_configs d)" "fc_active s" using that(1) by (simp_all add: w1_def)
      then show "s = x" using cacheKey_inj [OF that(2) safe safe] xin unique_active [OF ud s(1) xin] x(2)
        by (simp add: pair_of_def)
    qed
    ultimately show ?thesis using map_of_grouped [of x ?rows] x by simp
  qed
  have single: "filter fc_active (rows_of (ty, a) d) = [x]"
    using x by (auto simp: d_def insert_config_def deactivate_def rows_of_def update_where_def pair_of_def filter_empty_conv)
  have read: "wp (bnd (getActiveConfig ty a) (\<lambda>c. ret (x, c)))
      (\<lambda>(r, c) v. c = Some r \<and> fc_bps r = bps \<and> pair_of r = (ty, a) \<and> filter fc_active (rows_of (ty, a) (db v)) = [r])
      (\<lambda>_ _. False) v"
    if v: "faults v = []" "cached v (cacheKey ty a) = Some (CFee x)" "fee_configs (db v) = fee_configs d" for v
    unfolding getActiveConfig_def wps
    by (rule calm_wp_cacheGet [OF v(1)]) (use v single x in \<open>simp add: wps calm_def rows_of_def\<close>)
  have post: "wp (after_commit uid act x) (\<lambda>r v. r = x \<and> faults v = [] \<and>
      cached v (cacheKey ty a) = Some (CFee x) \<and> fee_configs (db v) = fee_configs d) (\<lambda>_ _. False) w1" for act
    unfolding after_commit_def wps
    by (rule calm_wp_refreshCache) (use nf g in \<open>auto simp: w1_def calm_def wps cached_def\<close>)
  have "wp (createConfig pg ty a bps mx mn None uid) (\<lambda>r v. r = x \<and> faults v = [] \<and>
      cached v (cacheKey ty a) = Some (CFee x) \<and> fee_configs (db v) = fee_configs d) (\<lambda>_ _. False) w"
    using nf ok fd post [of "''fee_config_created''"]
    by (simp add: createConfig_def transaction_def wps Let_def d_def [symmetric] x_def [symmetric] w1_def)
  then show ?thesis unfolding wps by (rule wp_mono) (use read in \<open>auto simp: wps\<close>)
qed

section \<open>Properties\<close>

text \<open>The administrators' requests and the activation job in any order, at any time, under any failures.\<close>

inductive fee_run :: "(jsnum \<Rightarrow> int) \<Rightarrow> world \<Rightarrow> world \<Rightarrow> bool" for pg w0 where
  start: "fee_run pg w0 w0"
| create: "fee_run pg w0 w \<Longrightarrow> createFeeConfig pg ty a bps mx mn from uid w = (r, w') \<Longrightarrow> fee_run pg w0 w'"
| patch: "fee_run pg w0 w \<Longrightarrow> updateFeeConfig pg i u uid w = (r, w') \<Longrightarrow> fee_run pg w0 w'"
| job: "fee_run pg w0 w \<Longrightarrow> activateScheduledFeeConfigs w = (s, w') \<Longrightarrow> fee_run pg w0 w'"
| environment: "fee_run pg w0 w \<Longrightarrow> 0 \<le> d \<Longrightarrow> fee_run pg w0 ((wait_ms d w)\<lparr>faults := f\<rparr>)"

inductive_cases fee_run_cases: "fee_run pg w0 w"

lemma fee_run_unique: "fee_run pg w0 w \<Longrightarrow> fee_unique (db w0) \<Longrightarrow> fee_unique (db w)"
proof (induction rule: fee_run.induct)
  case (create w ty a bps mx mn t0 uid r w')
  have "keeps (\<lambda>w. fee_unique (db w)) (createFeeConfig pg ty a bps mx mn t0 uid)"
    unfolding createFeeConfig_def by (intro keep keeps_createConfig)
  then show ?case using create by (blast dest: keepsD)
next
  case (patch w i u uid r w')
  have "keeps (\<lambda>w. fee_unique (db w)) (updateFeeConfig pg i u uid)"
    unfolding updateFeeConfig_def by (intro keep keeps_patchConfig)
  then show ?case using patch by (blast dest: keepsD)
next
  case (job w s w')
  then show ?case using keepsD [OF keeps_activateScheduled, of w s w'] by simp
qed (simp_all add: wait_ms_def)



text \<open>
  The deferred constraint counts inactive schedules too: once a pair has two schedules every
  request for another one fails and leaves the schedules unchanged, whatever it asks for.
\<close>

theorem third_schedule_refused:
  assumes "length (rows_of (ty, a) (db w)) = 2"
  shows "wp (createFeeConfig pg ty a bps mx mn from uid)
    (\<lambda>o' v. status_of o' \<noteq> Some 201 \<and> fee_configs (db v) = fee_configs (db w)) (\<lambda>_ _. False) w"
proof -
  have "wp (createConfig pg ty a bps mx mn from uid) (\<lambda>_ _. False)
      (\<lambda>e v. wp (ret (if str_includes (err_message e) ''must not exceed'' then Reply 400 (jerr (err_message e)) else NextErr e))
        (\<lambda>o' v. status_of o' \<noteq> Some 201 \<and> fee_configs (db v) = fee_configs (db w)) (\<lambda>_ _. False) v) w"
    by (rule wp_mono [OF createConfig_third [OF assms]]) (simp_all add: wps)
  then show ?thesis unfolding createFeeConfig_def wp_catch wp_bnd by (rule wp_mono) simp_all
qed

definition two_schedules :: world where
  "two_schedules = (let r = \<lparr>fc_id = 1, fc_type = ''platform'', fc_asset = ''XLM'', fc_bps = 100, fc_max = 500000000,
      fc_min = 1000000, fc_active = False, fc_by = ''admin'', fc_created = 0, fc_from = 0, fc_reminder = None\<rparr> in
    init_world\<lparr>db := empty_db\<lparr>fee_configs := [r, r\<lparr>fc_id := 2, fc_active := True\<rparr>]\<rparr>\<rparr>)"

lemma third_schedule_refused_witness:
  "wp (createFeeConfig (\<lambda>_. 0) ''platform'' ''XLM'' 200 (ADec 50) (ADec 1) None ''admin'')
    (\<lambda>o' v. status_of o' \<noteq> Some 201 \<and> fee_configs (db v) = fee_configs (db two_schedules)) (\<lambda>_ _. False) two_schedules"
  by (rule third_schedule_refused) (simp add: two_schedules_def Let_def rows_of_def pair_of_def)

text \<open>
  with a free slot and no failure, a schedule that starts at once is created, is the only active
  one of its pair, and is what the next reader of the pair gets, from the cache or the table.
\<close>

theorem create_then_read:
  assumes "faults w = []" and "fee_unique (db w)" and "key_safe (db w)" "CHR '':'' \<notin> set ty"
    and "\<And>r. r \<in> set (fee_configs (db w)) \<Longrightarrow> pair_of r = (ty, a) \<Longrightarrow> fc_active r"
    and "bps \<le> 1000" "\<not> amount_gt mn mx"
  shows "wp (bnd (createConfig pg ty a bps mx mn None uid) (\<lambda>r. bnd (getActiveConfig ty a) (\<lambda>c. ret (r, c))))
    (\<lambda>(r, c) v. c = Some r \<and> fc_bps r = bps \<and> pair_of r = (ty, a)
       \<and> filter fc_active (rows_of (ty, a) (db v)) = [r]) (\<lambda>_ _. False) w"
  using assms by (rule calm_create_read)

lemma create_then_read_witness:
  "wp (bnd (createConfig (\<lambda>_. 0) ''platform'' ''XLM'' 250 (ANum (Fin 50)) (ANum (Fin 1)) None ''admin'')
      (\<lambda>r. bnd (getActiveConfig ''platform'' ''XLM'') (\<lambda>c. ret (r, c))))
    (\<lambda>(r, c) v. c = Some r \<and> fc_bps r = 250 \<and> pair_of r = (''platform'', ''XLM'')
       \<and> filter fc_active (rows_of (''platform'', ''XLM'') (db v)) = [r]) (\<lambda>_ _. False) init_world"
  by (rule create_then_read) (simp_all add: init_world_def empty_db_def fee_unique_def key_safe_def)

text \<open>
  a patch that leaves both limits as stored compares their decimal texts: a schedule with a
  minimum of 2 and a maximum of 10 can no longer be patched without sending a limit.
\<close>

theorem patch_compares_texts:
  assumes "faults w = []" and "find (\<lambda>r. fc_id r = i) (fee_configs (db w)) = Some old"
    and "fc_min old = 20000000" and "fc_max old = 100000000"
    and "up_max u = None" and "up_min u = None" and "\<And>b. up_bps u = Some b \<Longrightarrow> b \<le> 1000" and "fc_bps old \<le> 1000"
  shows "updateFeeConfig pg i u uid w = (Inr (Reply 400 (jerr (err_message min_over_max))), w)"
proof -
  have gt: "amount_gt (ADec 20000000) (ADec 100000000)"
    by (simp add: dec7_text_def show_nat_eval)
  have b: "\<not> 1000 < orElse (up_bps u) (fc_bps old)"
    using assms(7,8) by (cases "up_bps u") (auto simp: orElse_def not_less)
  have "wp (updateFeeConfig pg i u uid) (\<lambda>o' v. (Inr o', v) = (Inr (Reply 400 (jerr (err_message min_over_max))), w))
      (\<lambda>e v. (Inl e, v) = (Inr (Reply 400 (jerr (err_message min_over_max))), w)) w"
    using assms(1-6) gt b
    by (simp add: updateFeeConfig_def patchConfig_def wps Let_def orElse_def min_over_max_def mkError_def)
  then show ?thesis by (rule wp_result [THEN iffD1])
qed

definition narrow_config :: fee_config where
  "narrow_config = \<lparr>fc_id = 1, fc_type = ''platform'', fc_asset = ''XLM'', fc_bps = 100,
     fc_max = 100000000, fc_min = 20000000, fc_active = True, fc_by = ''admin'', fc_created = 0, fc_from = 0,
     fc_reminder = None\<rparr>"

lemma patch_compares_texts_witness:
  "let w = init_world\<lparr>db := empty_db\<lparr>fee_configs := [narrow_config]\<rparr>\<rparr>;
       u = \<lparr>up_type = None, up_asset = None, up_bps = Some 150, up_max = None, up_min = None, up_from = None\<rparr>
   in updateFeeConfig (\<lambda>_. 0) 1 u ''admin'' w = (Inr (Reply 400 (jerr (err_message min_over_max))), w)"
  unfolding Let_def
  by (rule patch_compares_texts [where old = narrow_config]) (simp_all add: narrow_config_def init_world_def)

text \<open>
  The preview of a schedule never answers with a simulation: it refuses its arguments or fails,
  because its query names a column the transactions table does not have.
\<close>

theorem preview_always_fails:
  "status_of (case fst (previewFeeConfigChange ty a bps mx mn lookback w) of Inr o' \<Rightarrow> o' | Inl _ \<Rightarrow> Next) \<noteq> Some 200"
proof -
  have "wp (previewFeeConfigChange ty a bps mx mn lookback) (\<lambda>o' _. status_of o' \<noteq> Some 200) (\<lambda>_ _. False) w"
    by (simp add: previewFeeConfigChange_def previewFeeConfig_def selectCols_def unknown_def table_columns_def wps Let_def)
  then show ?thesis by (auto simp: wp_def split: prod.splits sum.splits)
qed

end
