(* ===== verification/Soroban.thy ===== *)
theory Soroban
  imports World
begin

text \<open>
  \<^verbatim>\<open>config/soroban.js\<close> and the submission sequence the contract services share: prepare, send,
  poll until the transaction leaves the pending state. The RPC server and the network are the
  record \<open>soroban\<close>: whether a submission is applied is theirs to decide, and the client may not
  learn it. \<open>honest\<close> is what the client relies on: a status \<^verbatim>\<open>SUCCESS\<close> is only reported for an applied
  transaction, a refusal or a failure only for one that is not.
\<close>

record soroban =
  sb_decrypt :: "string \<Rightarrow> jserr + string"
  sb_prepare :: "chain_call list \<Rightarrow> chain_call \<Rightarrow> jserr option"
  sb_send :: "chain_call list \<Rightarrow> chain_call \<Rightarrow> jserr + (string \<times> string)"
  sb_applied :: "chain_call list \<Rightarrow> chain_call \<Rightarrow> bool"
  sb_status :: "chain_call list \<Rightarrow> chain_call \<Rightarrow> int \<Rightarrow> nat \<times> (jserr + (string \<times> string))"

section \<open>The poller\<close>

definition txTimeout :: "string \<Rightarrow> int \<Rightarrow> jserr" where
  "txTimeout hash timeoutMs = \<lparr>err_name = ''TxTimeoutError'', err_message = ''Soroban transaction '' @ hash @
     '' not confirmed within '' @ show_int timeoutMs @ ''ms'', err_status = Some 504, err_code = Some ''TX_TIMEOUT'',
     err_payload = [(''hash'', JStr hash)]\<rparr>"

definition unsettled :: "string \<Rightarrow> bool" where
  "unsettled st \<longleftrightarrow> st = ''PENDING'' \<or> st = ''NOT_FOUND''"

text \<open>
  One turn: wait, at least the millisecond \<open>setTimeout\<close> rounds up to, then ask; the answer
  comes \<open>fst (get t)\<close> milliseconds late. \<open>get\<close> gives the status and return value, or the error of the request.
\<close>

function poll :: "(int \<Rightarrow> nat \<times> (jserr + (string \<times> string))) \<Rightarrow> jserr \<Rightarrow> int \<Rightarrow> int \<Rightarrow> int
    \<Rightarrow> (jserr + (string \<times> string)) \<times> int" where
  "poll get timeout deadline delay t =
     (if deadline - t \<le> 0 then (Inl timeout, t)
      else let t' = t + max 1 (min delay (deadline - t)); (late, r) = get t' in
        (case r of
           Inl e \<Rightarrow> (Inl e, t' + int late)
         | Inr (st, v) \<Rightarrow> if unsettled st then poll get timeout deadline (min (delay * 3 div 2) 5000) (t' + int late)
             else (Inr (st, v), t' + int late)))"
  by pat_completeness auto
termination
  by (relation "measure (\<lambda>(get, timeout, deadline, delay, t). nat (deadline - t))") auto

declare poll.simps [simp del]

definition waitForSorobanTx :: "(int \<Rightarrow> nat \<times> (jserr + (string \<times> string))) \<Rightarrow> string \<Rightarrow> string \<Rightarrow> int
    \<Rightarrow> (world, string \<times> string) proc" where
  "waitForSorobanTx get status hash timeoutMs =
     (if status = ''TRY_AGAIN_LATER''
      then throw (withStatus 503 ((mkError ''Soroban RPC busy, try again later'')\<lparr>err_code := Some ''TRY_AGAIN_LATER''\<rparr>))
      else (\<lambda>w. case poll get (txTimeout hash timeoutMs) (now w + timeoutMs) 1000 (now w) of
        (r, t) \<Rightarrow> (r, w\<lparr>now := t\<rparr>)))"

section \<open>Submitting a contract call\<close>

text \<open>
  \<open>submitCall rpc wrap name timeoutMs key call\<close>: decrypt the key, prepare, send, wait; \<open>wrap\<close> is what a service adds to
  its own errors. The result is the return value and the hash.
\<close>

definition submitCall :: "soroban \<Rightarrow> (jserr \<Rightarrow> jserr) \<Rightarrow> string \<Rightarrow> int \<Rightarrow> string \<Rightarrow> (string \<Rightarrow> chain_call)
    \<Rightarrow> (world, string \<times> string) proc" where
  "submitCall rpc wrap name timeoutMs enc call =
     bnd (lift (sb_decrypt rpc enc)) (\<lambda>key. bnd (gets chain_log) (\<lambda>log. let c = call key in
       (case sb_prepare rpc log c of
          Some e \<Rightarrow> throw e
        | None \<Rightarrow> andThen (modify (\<lambda>w. if sb_applied rpc log c then w\<lparr>chain_log := log @ [c]\<rparr> else w))
            (case sb_send rpc log c of
               Inl e \<Rightarrow> throw e
             | Inr (status, hash) \<Rightarrow>
                 if status = ''ERROR'' then throw (wrap (mkError (name @ '' failed: '' @ hash)))
                 else bnd (waitForSorobanTx (sb_status rpc log c) status hash timeoutMs) (\<lambda>(st, v).
                   if st \<noteq> ''SUCCESS'' then throw (wrap (mkError (''Transaction failed: '' @ st)))
                   else ret (v, hash))))))"

definition honest :: "soroban \<Rightarrow> bool" where
  "honest rpc \<longleftrightarrow> (\<forall>log c t v. snd (sb_status rpc log c t) = Inr (''SUCCESS'', v) \<longrightarrow> sb_applied rpc log c)"

lemma poll_end: "deadline \<le> t \<Longrightarrow> poll get timeout deadline delay t = (Inl timeout, t)"
  by (subst poll.simps) simp

lemma poll_step:
  "t < deadline \<Longrightarrow> get (t + max 1 (min delay (deadline - t))) = (late, r) \<Longrightarrow>
   poll get timeout deadline delay t = (case r of Inl e \<Rightarrow> (Inl e, t + max 1 (min delay (deadline - t)) + int late)
     | Inr (st, v) \<Rightarrow> if unsettled st
         then poll get timeout deadline (min (delay * 3 div 2) 5000) (t + max 1 (min delay (deadline - t)) + int late)
         else (Inr (st, v), t + max 1 (min delay (deadline - t)) + int late))"
  by (subst poll.simps) (simp add: Let_def split: sum.split)

text \<open>One turn of the poller as a case rule.\<close>

lemma poll_induct [case_names timeout failed settled again]:
  assumes "\<And>delay t. deadline \<le> t \<Longrightarrow> P delay t"
    and "\<And>delay t e late. t < deadline \<Longrightarrow> get (t + max 1 (min delay (deadline - t))) = (late, Inl e) \<Longrightarrow> P delay t"
    and "\<And>delay t st v late. t < deadline \<Longrightarrow> get (t + max 1 (min delay (deadline - t))) = (late, Inr (st, v)) \<Longrightarrow>
        \<not> unsettled st \<Longrightarrow> P delay t"
    and "\<And>delay t st v late. t < deadline \<Longrightarrow> get (t + max 1 (min delay (deadline - t))) = (late, Inr (st, v)) \<Longrightarrow>
        unsettled st \<Longrightarrow> P (min (delay * 3 div 2) 5000) (t + max 1 (min delay (deadline - t)) + int late) \<Longrightarrow> P delay t"
  shows "P delay (t :: int)"
proof (induction "nat (deadline - t)" arbitrary: delay t rule: less_induct)
  case less
  show ?case
  proof (cases "deadline \<le> t")
    case False
    obtain late r where g: "get (t + max 1 (min delay (deadline - t))) = (late, r)" by fastforce
    show ?thesis
    proof (cases r)
      case (Inr x)
      obtain st v where x: "x = (st, v)" by (cases x)
      have "P (min (delay * 3 div 2) 5000) (t + max 1 (min delay (deadline - t)) + int late)"
        by (rule less) (use False in simp)
      then show ?thesis using assms(3) assms(4) False g Inr x by (cases "unsettled st") (auto simp: not_le)
    qed (use assms(2) False g in auto)
  qed (rule assms(1))
qed

lemma poll_result:
  "poll get timeout deadline delay t = (Inr (st, v), t') \<Longrightarrow> \<exists>s. snd (get s) = Inr (st, v) \<and> \<not> unsettled st"
proof (induction delay t rule: poll_induct [where get = get and deadline = deadline])
  case (settled delay t st' v' late)
  then show ?case by (auto simp: poll_step intro!: exI [of _ "t + max 1 (min delay (deadline - t))"])
qed (simp_all add: poll_end poll_step)

lemma poll_time: "t \<le> snd (poll get timeout deadline delay t)"
proof (induction delay t rule: poll_induct [where get = get and deadline = deadline])
  case (again delay t st v late)
  have "1 \<le> max 1 (min delay (deadline - t))" by simp
  then have "t \<le> t + max 1 (min delay (deadline - t)) + int late" by linarith
  from order_trans [OF this again(4)] show ?case using again(1-3) by (simp add: poll_step)
qed (simp_all add: poll_end poll_step)

lemma wp_waitForSorobanTx:
  assumes "\<And>st v t s. now w \<le> t \<Longrightarrow> snd (get s) = Inr (st, v) \<Longrightarrow> Q (st, v) (w\<lparr>now := t\<rparr>)"
    and "\<And>e t. now w \<le> t \<Longrightarrow> E e (w\<lparr>now := t\<rparr>)"
  shows "wp (waitForSorobanTx get status hash timeoutMs) Q E w"
proof -
  obtain r t where p: "poll get (txTimeout hash timeoutMs) (now w + timeoutMs) 1000 (now w) = (r, t)" by fastforce
  have t: "now w \<le> t" using poll_time [of "now w" get] p by (metis snd_conv)
  have "Q x (w\<lparr>now := t\<rparr>)" if "r = Inr x" for x
    using poll_result [of get "txTimeout hash timeoutMs" "now w + timeoutMs" 1000 "now w" "fst x" "snd x" t] p that t assms(1)
    by (metis prod.collapse)
  then show ?thesis
    using assms(2) [OF t] assms(2) [of "now w"] p
    by (auto simp: waitForSorobanTx_def wp_def throw_def split: sum.split)
qed

text \<open>
  A submission leaves the tables alone; when it succeeds under an honest network, exactly its
  call was added to the chain; when it fails, that call may or may not have been.
\<close>

lemma wp_submitCall_gen:
  assumes Q: "\<And>v t hash key s. now w \<le> t \<Longrightarrow> sb_decrypt rpc enc = Inr key \<Longrightarrow>
      snd (sb_status rpc (chain_log w) (call key) s) = Inr (''SUCCESS'', v) \<Longrightarrow>
      Q (v, hash) ((if sb_applied rpc (chain_log w) (call key) then w\<lparr>chain_log := chain_log w @ [call key]\<rparr> else w)\<lparr>now := t\<rparr>)"
    and E: "\<And>e t. now w \<le> t \<Longrightarrow> E e (w\<lparr>now := t\<rparr>)"
      "\<And>e t key. now w \<le> t \<Longrightarrow> sb_decrypt rpc enc = Inr key \<Longrightarrow> E e (w\<lparr>chain_log := chain_log w @ [call key], now := t\<rparr>)"
  shows "wp (submitCall rpc wrap name timeoutMs enc call) Q E w"
proof (cases "sb_decrypt rpc enc")
  case (Inr key)
  let ?c = "call key" let ?log = "chain_log w"
  let ?w = "if sb_applied rpc ?log ?c then w\<lparr>chain_log := ?log @ [?c]\<rparr> else w"
  have E': "E e (?w\<lparr>now := t\<rparr>)" if "now w \<le> t" for e t using E that Inr by simp
  have E0: "E e ?w" for e using E' [of "now w" e] by (cases "sb_applied rpc ?log ?c") simp_all
  have n: "now ?w = now w" by simp
  note Q' = Q [OF _ Inr]
  have "wp (case sb_send rpc ?log ?c of
               Inl e \<Rightarrow> throw e
             | Inr (status, hash) \<Rightarrow>
                 if status = ''ERROR'' then throw (wrap (mkError (name @ '' failed: '' @ hash)))
                 else bnd (waitForSorobanTx (sb_status rpc ?log ?c) status hash timeoutMs) (\<lambda>(st, v).
                   if st \<noteq> ''SUCCESS'' then throw (wrap (mkError (''Transaction failed: '' @ st)))
                   else ret (v, hash))) Q E ?w"
  proof (cases "sb_send rpc ?log ?c")
    case (Inr s)
    obtain status hash where s: "s = (status, hash)" by (cases s)
    have "wp (waitForSorobanTx (sb_status rpc ?log ?c) status hash timeoutMs)
        (\<lambda>x. wp (case x of (st, v) \<Rightarrow> if st \<noteq> ''SUCCESS'' then throw (wrap (mkError (''Transaction failed: '' @ st)))
                   else ret (v, hash)) Q E) E ?w"
    proof (rule wp_waitForSorobanTx)
      fix st v t s assume "now ?w \<le> t" "snd (sb_status rpc ?log ?c s) = Inr (st, v)"
      then show "wp (case (st, v) of (st, v) \<Rightarrow> if st \<noteq> ''SUCCESS'' then throw (wrap (mkError (''Transaction failed: '' @ st)))
          else ret (v, hash)) Q E (?w\<lparr>now := t\<rparr>)"
        using Q' [of t s v hash] E' [of t] unfolding n by (simp add: wp_throw wp_ret)
    qed (simp only: n E')
    then show ?thesis using Inr s E0 by (simp add: wp_bnd wp_throw wp_if)
  qed (simp add: wps E0)
  then show ?thesis using Inr E0 E(1) [of "now w"] by (simp add: submitCall_def wps Let_def split: option.split)
qed (use E(1) [of "now w"] in \<open>simp add: submitCall_def wps\<close>)

lemma wp_submitCall:
  assumes "honest rpc"
    and "\<And>v t hash key. now w \<le> t \<Longrightarrow> sb_decrypt rpc enc = Inr key \<Longrightarrow>
      Q (v, hash) (w\<lparr>chain_log := chain_log w @ [call key], now := t\<rparr>)"
    and "\<And>e t. now w \<le> t \<Longrightarrow> E e (w\<lparr>now := t\<rparr>)"
    and "\<And>e t key. now w \<le> t \<Longrightarrow> sb_decrypt rpc enc = Inr key \<Longrightarrow> E e (w\<lparr>chain_log := chain_log w @ [call key], now := t\<rparr>)"
  shows "wp (submitCall rpc wrap name timeoutMs enc call) Q E w"
  by (rule wp_submitCall_gen) (use assms in \<open>auto simp: honest_def\<close>)

text \<open>Whatever the network reports: the tables stay, and at most the one call is added to the chain.\<close>

lemma wp_submitCall_any:
  assumes "\<And>x t. now w \<le> t \<Longrightarrow> Q x (w\<lparr>now := t\<rparr>)"
    and "\<And>x t key. now w \<le> t \<Longrightarrow> sb_decrypt rpc enc = Inr key \<Longrightarrow> Q x (w\<lparr>chain_log := chain_log w @ [call key], now := t\<rparr>)"
    and "\<And>e t. now w \<le> t \<Longrightarrow> E e (w\<lparr>now := t\<rparr>)"
    and "\<And>e t key. now w \<le> t \<Longrightarrow> sb_decrypt rpc enc = Inr key \<Longrightarrow> E e (w\<lparr>chain_log := chain_log w @ [call key], now := t\<rparr>)"
  shows "wp (submitCall rpc wrap name timeoutMs enc call) Q E w"
  by (rule wp_submitCall_gen) (use assms in auto)

text \<open>A submission that is prepared and that the network applies is on the chain, whatever the client is told.\<close>

lemma wp_submitCall_applied:
  assumes "sb_decrypt rpc enc = Inr key" and "sb_prepare rpc (chain_log w) (call key) = None"
    and "sb_applied rpc (chain_log w) (call key)"
  shows "wp (submitCall rpc wrap name timeoutMs enc call) (\<lambda>_ v. chain_log v = chain_log w @ [call key])
    (\<lambda>_ v. chain_log v = chain_log w @ [call key]) w"
  unfolding submitCall_def wp_bnd wp_lift wp_gets assms Let_def
  by (auto simp: assms wps split: sum.split intro!: wp_waitForSorobanTx)

definition good_rpc :: soroban where
  "good_rpc = \<lparr>sb_decrypt = Inr, sb_prepare = (\<lambda>_ _. None), sb_send = (\<lambda>_ _. Inr (''PENDING'', ''h1'')),
     sb_applied = (\<lambda>_ _. True), sb_status = (\<lambda>_ _ _. (0, Inr (''SUCCESS'', ''7'')))\<rparr>"

lemma good_rpc_honest: "honest good_rpc"
  by (simp add: honest_def good_rpc_def)

lemma keeps_submitCall [keep]: "keeps (\<lambda>w. I (db w)) (submitCall rpc wrap name timeoutMs enc call)"
  unfolding keeps_wp by (intro allI impI wp_submitCall_any) simp_all



end
