(* ===== verification/Fees.thy ===== *)
theory Fees
  imports FeeConfig Soroban
begin

text \<open>
  \<^verbatim>\<open>services/fees.js\<close> and the guards of \<^verbatim>\<open>services/feeDistributor.js\<close>: how much of a payment the
  platform keeps, and what it deposits on chain. The arithmetic is that of the IEEE doubles of
  \<^verbatim>\<open>JsNumber\<close>; the theorems say that on amounts below 2^28 units it is exact to the stroop.
\<close>

section \<open>The breakdown\<close>

record breakdown =
  gross_amount :: jsnum
  platform_fee_bps :: jsnum
  platform_fee_amount :: jsnum
  net_amount :: jsnum
  gross_amount_usdc :: jsnum
  platform_fee_usdc :: jsnum
  stellar_base_fee_xlm :: "jsnum option"
  net_amount_usdc :: jsnum
  bd_asset :: string

text \<open>\<open>feeCharged\<close> is what \<open>parseInt(feeCharged, 10)\<close> gives, \<open>None\<close> for null.\<close>

definition stellar_fee :: "jsnum option \<Rightarrow> jsnum option" where
  "stellar_fee feeCharged = map_option (\<lambda>n. to_fixed7 (jdiv n (Fin 10000000))) feeCharged"

definition breakdown_of :: "jsnum \<Rightarrow> string \<Rightarrow> jsnum option \<Rightarrow> jsnum \<Rightarrow> jsnum \<Rightarrow> jsnum \<Rightarrow> breakdown" where
  "breakdown_of gross asset feeCharged feeBps minFee maxFee =
     (let platformFee = to_fixed7 (jmin (jmin gross maxFee) (jmax minFee (jdiv (jmul gross feeBps) (Fin 10000))));
          netAmount = to_fixed7 (jsub gross platformFee) in
      \<lparr>gross_amount = to_fixed7 gross, platform_fee_bps = feeBps, platform_fee_amount = platformFee,
       net_amount = netAmount, gross_amount_usdc = to_fixed7 gross, platform_fee_usdc = platformFee,
       stellar_base_fee_xlm = stellar_fee feeCharged, net_amount_usdc = netAmount, bd_asset = asset\<rparr>)"

definition fee_limits :: "int \<Rightarrow> fee_config option \<Rightarrow> jsnum \<times> jsnum \<times> jsnum" where
  "fee_limits fallback c = (case c of
     None \<Rightarrow> (Fin (of_int fallback), Fin 0, PosInf)
   | Some r \<Rightarrow> (Fin (of_int (fc_bps r)), stroops (fc_min r), stroops (fc_max r)))"

definition buildFeeBreakdown :: "int \<Rightarrow> jsnum \<Rightarrow> string \<Rightarrow> jsnum option \<Rightarrow> (world, breakdown) proc" where
  "buildFeeBreakdown fallback gross asset feeCharged =
     bnd (catch (bnd (getActiveConfig ''platform'' asset) (\<lambda>c. ret (fee_limits fallback c)))
            (\<lambda>_. ret (fee_limits fallback None)))
       (\<lambda>(feeBps, minFee, maxFee). ret (breakdown_of gross asset feeCharged feeBps minFee maxFee))"

definition withStellarFee :: "breakdown \<Rightarrow> jsnum option \<Rightarrow> breakdown" where
  "withStellarFee b feeCharged = b\<lparr>stellar_base_fee_xlm := stellar_fee feeCharged\<rparr>"

section \<open>The deposit\<close>

record fee_env =
  contract_configured :: bool
  service_key :: string

definition MAX_DEPOSIT_AMOUNT_STROOPS :: int where
  "MAX_DEPOSIT_AMOUNT_STROOPS = 10000000000000"

definition depositFee :: "fee_env \<Rightarrow> soroban \<Rightarrow> int \<Rightarrow> string \<Rightarrow> string \<Rightarrow> (world, string) proc" where
  "depositFee env rpc feeAmount tokenId source =
     (if \<not> contract_configured env then throw (mkError ''FEE_DISTRIBUTOR_CONTRACT_ID is not configured'')
      else if tokenId = [] then throw (mkError ''tokenId is required'')
      else if feeAmount \<le> 0 then throw (mkError ''feeAmount must be positive'')
      else if MAX_DEPOSIT_AMOUNT_STROOPS < feeAmount then throw (mkError (''feeAmount '' @ show_int feeAmount @
        '' exceeds maximum deposit limit of '' @ show_int MAX_DEPOSIT_AMOUNT_STROOPS @ '' stroops. Check for a decimal-precision or unit mismatch in the caller.''))
      else if service_key env = [] then throw (mkError ''SERVICE_ENCRYPTED_SECRET_KEY is not configured'')
      else bnd (submitCall rpc id ''deposit_fee'' 60000 (service_key env) (\<lambda>key. DepositFee key feeAmount tokenId source))
        (\<lambda>(v, hash). ret hash))"

text \<open>\<open>contract_of\<close> is \<open>getAssetContractAddress\<close>: the SDK's contract id of an asset, or its error.\<close>

definition collectPlatformFee :: "fee_env \<Rightarrow> soroban \<Rightarrow> (string \<Rightarrow> jserr + string) \<Rightarrow> breakdown option \<Rightarrow> string
    \<Rightarrow> (world, unit) proc" where
  "collectPlatformFee env rpc contract_of feeBreakdown source = (case feeBreakdown of
     None \<Rightarrow> ret ()
   | Some b \<Rightarrow>
       let feeAmount = platform_fee_amount b in
       if bd_asset b = [] \<or> \<not> is_finite feeAmount \<or> jle feeAmount (Fin 0) then ret ()
       else (case jfloor (jmul feeAmount (Fin 10000000)) of
         Fin x \<Rightarrow> if x \<le> 0 then ret ()
           else ignore (bnd (lift (contract_of (bd_asset b))) (\<lambda>token. depositFee env rpc \<lfloor>x\<rfloor> token source))
       | _ \<Rightarrow> ret ()))"

section \<open>Exact to the stroop\<close>

text \<open>The fee is the clamped value rounded to a stroop, and the net amount what is left.\<close>

lemma stroops_nonneg_le:
  assumes "money n" and "0 \<le> x" and "x \<le> dbl n"
  shows "0 \<le> fixed 7 x \<and> fixed 7 x \<le> n"
proof -
  have "fixed 7 x \<le> fixed 7 (dbl n)" using assms(3) by (rule fixed_mono)
  moreover have "fixed 7 0 \<le> fixed 7 x" using assms(2) by (rule fixed_mono)
  moreover have "fixed 7 (0 :: rat) = 0" by (simp add: fixed_def floor_eq_iff)
  ultimately show ?thesis using assms(1) by (simp add: fixed_dbl)
qed

lemma raw_fee_Fin:
  assumes "money n" and "0 \<le> n" and "0 \<le> b" and "b \<le> 10000"
  shows "jdiv (jmul (stroops n) (Fin (of_int b))) (Fin 10000) = Fin (rnd53 (rnd53 (dbl n * of_int b) / 10000))"
    and "0 \<le> rnd53 (rnd53 (dbl n * of_int b) / 10000)"
proof -
  have n0: "0 \<le> dbl n" using dbl_mono [of 0 n] assms(2) by simp
  have b: "(of_int b :: rat) \<le> 10000" using assms(4) by (metis of_int_le_iff of_int_numeral)
  have "dbl n * of_int b \<le> 2 ^ 28 * 2 ^ 14"
    using dbl_abs_le [OF assms(1)] n0 b assms(3) by (intro mult_mono) simp_all
  then have p: "\<bar>dbl n * of_int b\<bar> \<le> 2 powi 42" using n0 assms(3) by (simp add: power_int_def)
  have r: "\<bar>rnd53 (dbl n * of_int b)\<bar> \<le> 2 powi 42" by (rule rnd53_bound [OF p]) simp
  have f1: "jmul (stroops n) (Fin (of_int b)) = Fin (rnd53 (dbl n * of_int b))"
    using p by (simp add: stroops_dbl assms(1) mk_Fin power_int_def)
  have "\<bar>rnd53 (dbl n * of_int b) / 10000\<bar> \<le> 2 ^ 1000"
    using r by (simp add: power_int_def abs_le_iff)
  then show "jdiv (jmul (stroops n) (Fin (of_int b))) (Fin 10000) = Fin (rnd53 (rnd53 (dbl n * of_int b) / 10000))"
    by (simp add: f1 mk_Fin)
  show "0 \<le> rnd53 (rnd53 (dbl n * of_int b) / 10000)"
    using n0 assms(3) by (intro rnd53_nonneg) (simp add: rnd53_nonneg)
qed

definition split_exactly :: "int \<Rightarrow> breakdown \<Rightarrow> int \<Rightarrow> bool" where
  "split_exactly n b F \<longleftrightarrow> 0 \<le> F \<and> F \<le> n \<and> gross_amount b = stroops n \<and>
     platform_fee_amount b = stroops F \<and> net_amount b = stroops (n - F)"

lemma breakdown_of_clamped:
  assumes n: "money n" "0 \<le> n" and x: "0 \<le> x" "x \<le> dbl n"
    and fee: "jmin (jmin (stroops n) mx) (jmax mn (jdiv (jmul (stroops n) bps) (Fin 10000))) = Fin x"
  shows "split_exactly n (breakdown_of (stroops n) a fc bps mn mx) (fixed 7 x)"
proof -
  have F: "0 \<le> fixed 7 x" "fixed 7 x \<le> n" using stroops_nonneg_le [OF n(1) x] by simp_all
  have "x \<le> 2 ^ 28" using x dbl_abs_le [OF n(1)] by simp
  then have "to_fixed7 (Fin x) = stroops (fixed 7 x)" using x by (intro to_fixed7_Fin) simp
  moreover have "to_fixed7 (jsub (stroops n) (stroops (fixed 7 x))) = stroops (n - fixed 7 x)"
    using F n by (intro jsub_stroops money_le [of "fixed 7 x" n] money_le [of "n - fixed 7 x" n]) simp_all
  ultimately show ?thesis
    using F n(1) fee by (simp add: split_exactly_def breakdown_of_def Let_def to_fixed7_stroops)
qed

definition sane_config :: "fee_config \<Rightarrow> bool" where
  "sane_config r \<longleftrightarrow> 0 \<le> fc_bps r \<and> fc_bps r \<le> 1000 \<and> 0 \<le> fc_min r \<and> money (fc_min r) \<and> 0 \<le> fc_max r \<and> money (fc_max r)"

lemma dbl_nonneg: "0 \<le> n \<Longrightarrow> 0 \<le> dbl n"
  using dbl_mono [of 0 n] by simp

lemma breakdown_split:
  assumes "money n" "0 \<le> n" "0 \<le> fallback" "fallback \<le> 10000" "\<And>r. c = Some r \<Longrightarrow> sane_config r"
    and "fee_limits fallback c = (bps, mn, mx)"
  shows "\<exists>F. split_exactly n (breakdown_of (stroops n) a fc bps mn mx) F
           \<and> (\<forall>r. c = Some r \<longrightarrow> F \<le> fc_max r)"
proof (cases c)
  case None
  let ?q = "rnd53 (rnd53 (dbl n * of_int fallback) / 10000)"
  have l: "bps = Fin (of_int fallback)" "mn = Fin 0" "mx = PosInf" using assms(6) None by (simp_all add: fee_limits_def)
  have "split_exactly n (breakdown_of (stroops n) a fc bps mn mx) (fixed 7 (min (dbl n) (max 0 ?q)))"
    by (rule breakdown_of_clamped)
       (use assms(1-4) in \<open>simp_all add: l raw_fee_Fin dbl_nonneg stroops_dbl [symmetric] del: jdiv.simps jmul.simps,
          simp_all add: stroops_dbl\<close>)
  with None show ?thesis by auto
next
  case (Some r)
  let ?q = "rnd53 (rnd53 (dbl n * of_int (fc_bps r)) / 10000)"
  have s: "sane_config r" using assms(5) Some by simp
  have l: "bps = Fin (of_int (fc_bps r))" "mn = Fin (dbl (fc_min r))" "mx = Fin (dbl (fc_max r))"
    using assms(6) Some s by (simp_all add: fee_limits_def sane_config_def stroops_dbl)
  let ?x = "min (min (dbl n) (dbl (fc_max r))) (max (dbl (fc_min r)) ?q)"
  have q: "jdiv (jmul (stroops n) bps) (Fin 10000) = Fin ?q"
    unfolding l by (rule raw_fee_Fin) (use assms(1,2) s in \<open>simp_all add: sane_config_def\<close>)
  have x: "0 \<le> ?x" "?x \<le> dbl n" "?x \<le> dbl (fc_max r)"
    using s assms(2) by (simp_all add: sane_config_def dbl_nonneg le_max_iff_disj min_le_iff_disj)
  have "split_exactly n (breakdown_of (stroops n) a fc bps mn mx) (fixed 7 ?x)"
    by (rule breakdown_of_clamped [OF assms(1,2) x(1,2)])
       (unfold q, use assms(1) in \<open>simp add: l stroops_dbl\<close>)
  moreover have "fixed 7 ?x \<le> fc_max r"
    using stroops_nonneg_le [OF _ x(1,3)] s by (simp add: sane_config_def)
  ultimately show ?thesis using Some by auto
qed

text \<open>Rounding commutes with the clamps, so the fee is the clamped rate, each within a stroop of the real one.\<close>

lemma fixed_clamp:
  assumes "money n" and "money mn" and "money mx"
  shows "fixed 7 (min (min (dbl n) (dbl mx)) (max (dbl mn) q)) = min (min n mx) (max mn (fixed 7 q))"
proof -
  have m: "mono (fixed 7)" by (rule monoI) (rule fixed_mono)
  show ?thesis using assms by (simp add: min_of_mono [OF m, symmetric] max_of_mono [OF m, symmetric] fixed_dbl)
qed

lemma fixed_err:
  assumes "0 \<le> x"
  shows "\<bar>of_int (fixed 7 x) - x * 10 ^ 7\<bar> \<le> 1 / 2"
proof -
  have "fixed 7 x = \<lfloor>x * 10 ^ 7 + 1 / 2\<rfloor>" using assms by (simp add: fixed_def)
  then show ?thesis using floor_correct [of "x * 10 ^ 7 + 1 / 2"] by linarith
qed

lemma rate_err:
  assumes "money n" and "0 \<le> n" and "0 \<le> b" and "b \<le> 1000"
  shows "\<bar>10000 * fixed 7 (rnd53 (rnd53 (dbl n * of_int b) / 10000)) - n * b\<bar> < 10000"
proof -
  define p where "p = dbl n * of_int b"
  define q where "q = rnd53 p / 10000"
  have n0: "0 \<le> dbl n" and nb: "dbl n \<le> 2 ^ 28" using dbl_nonneg [OF assms(2)] dbl_abs_le [OF assms(1)] by simp_all
  have b: "0 \<le> (of_int b :: rat)" "(of_int b :: rat) \<le> 1000" using assms(3,4) by (simp, metis of_int_le_iff of_int_numeral)
  have p0: "0 \<le> p" using n0 b by (simp add: p_def)
  have "p \<le> 2 ^ 28 * 1000" unfolding p_def using n0 nb b by (intro mult_mono) simp_all
  then have e1: "\<bar>rnd53 p - p\<bar> \<le> 1 / 2 ^ 16" using rnd53_err [of p 38] p0
    by (simp add: power_int_def power_one_over inverse_eq_divide)
  have rp: "0 \<le> rnd53 p" using p0 by (rule rnd53_nonneg)
  have "rnd53 p \<le> 2 ^ 28 * 1000 + 1" using abs_le_D1 [OF e1] \<open>p \<le> 2 ^ 28 * 1000\<close> by simp
  then have "\<bar>q\<bar> < 2 powi 25" using rp by (simp add: q_def power_int_def)
  then have e2: "\<bar>rnd53 q - q\<bar> \<le> 1 / 2 ^ 29" using rnd53_err [of q 25]
    by (simp add: power_int_def power_one_over inverse_eq_divide)
  have "\<bar>p - of_int n / 10 ^ 7 * of_int b\<bar> \<le> 1 / 2 ^ 26 * 1000"
  proof -
    have "\<bar>dbl n - of_int n / 10 ^ 7\<bar> * of_int b \<le> 1 / 2 ^ 26 * 1000"
      using dbl_err [OF assms(1)] b by (intro mult_mono) simp_all
    moreover have "p - of_int n / 10 ^ 7 * of_int b = (dbl n - of_int n / 10 ^ 7) * of_int b"
      by (simp add: p_def algebra_simps)
    ultimately show ?thesis using b by (simp add: abs_mult)
  qed
  then have e0: "\<bar>p - of_int n * of_int b / 10 ^ 7\<bar> \<le> 1 / 2 ^ 26 * 1000" by simp
  have q0: "0 \<le> rnd53 q" using rp by (intro rnd53_nonneg) (simp add: q_def)
  note e3 = fixed_err [OF q0]
  have "\<bar>10000 * of_int (fixed 7 (rnd53 q)) - of_int n * of_int b\<bar> < (10000 :: rat)"
    using abs_le_D1 [OF e0] abs_le_D2 [OF e0] abs_le_D1 [OF e1] abs_le_D2 [OF e1] abs_le_D1 [OF e2] abs_le_D2 [OF e2]
      abs_le_D1 [OF e3] abs_le_D2 [OF e3] 
    unfolding abs_less_iff q_def by (simp_all add: field_simps)
  then have "\<bar>of_int (10000 * fixed 7 (rnd53 q) - n * b)\<bar> < (of_int 10000 :: rat)" by simp
  then show ?thesis unfolding q_def p_def by (simp only: of_int_abs [symmetric] of_int_less_iff)
qed

section \<open>Properties\<close>

lemma wp_getActiveConfig_sane:
  assumes "\<And>r. r \<in> set (fee_configs (db w)) \<Longrightarrow> sane_config r"
    and "\<And>r. cached w (cacheKey ty a) = Some (CFee r) \<Longrightarrow> sane_config r"
    and "\<And>c v. db v = db w \<Longrightarrow> (\<And>r. c = Some r \<Longrightarrow> sane_config r) \<Longrightarrow> Q c v"
    and "\<And>e v. db v = db w \<Longrightarrow> E e v"
  shows "wp (getActiveConfig ty a) Q E w"
  unfolding getActiveConfig_def wp_bnd
proof (rule wp_cacheGet)
  fix v and w' :: world assume v: "v = None \<or> v = cached w (cacheKey ty a)" "db w' = db w"
  have r: "sane_config r" if "active_config t (db w) ty a = Some r" for t r
    using that assms(1) by (auto simp: active_config_def dest!: first_row_Some)
  have d: "wp (case c of None \<Rightarrow> ret None | Some r \<Rightarrow> andThen (cacheSet (cacheKey ty a) (CFee r) CACHE_TTL) (ret (Some r))) Q E u"
    if "db u = db w" "\<And>r. c = Some r \<Longrightarrow> sane_config r" for c u
    using that assms(3,4) by (auto simp: cacheSet_def redisSet_def memSet_def wps split: option.splits)
  show "wp (case v of Some (CFee r) \<Rightarrow> ret (Some r) | _ \<Rightarrow> bnd (select (\<lambda>w. active_config (now w) (db w) ty a)) (\<lambda>r. case r of
         Some r \<Rightarrow> andThen (cacheSet (cacheKey ty a) (CFee r) CACHE_TTL) (ret (Some r)) | None \<Rightarrow> ret None)) Q E w'"
    using v assms(4) r d by (auto simp: wps split: option.splits cval.splits intro!: assms(3) dest: assms(2) [OF sym])
qed

lemma rate_split:
  assumes "money n" "0 \<le> n" "sane_config r"
  shows "\<exists>k. \<bar>10000 * k - n * fc_bps r\<bar> < 10000 \<and>
    split_exactly n (breakdown_of (stroops n) a fc (Fin (of_int (fc_bps r))) (stroops (fc_min r)) (stroops (fc_max r)))
      (min (min n (fc_max r)) (max (fc_min r) k))"
proof -
  let ?q = "rnd53 (rnd53 (dbl n * of_int (fc_bps r)) / 10000)"
  let ?x = "min (min (dbl n) (dbl (fc_max r))) (max (dbl (fc_min r)) ?q)"
  have s: "0 \<le> fc_bps r" "fc_bps r \<le> 1000" "0 \<le> fc_min r" "money (fc_min r)" "0 \<le> fc_max r" "money (fc_max r)"
    using assms(3) by (simp_all add: sane_config_def)
  have q: "jdiv (jmul (stroops n) (Fin (of_int (fc_bps r)))) (Fin 10000) = Fin ?q"
    by (rule raw_fee_Fin) (use assms(1,2) s in simp_all)
  have x: "0 \<le> ?x" "?x \<le> dbl n"
    using s assms(2) by (simp_all add: dbl_nonneg le_max_iff_disj min_le_iff_disj)
  have "split_exactly n (breakdown_of (stroops n) a fc (Fin (of_int (fc_bps r))) (stroops (fc_min r)) (stroops (fc_max r))) (fixed 7 ?x)"
    by (rule breakdown_of_clamped [OF assms(1,2) x]) (unfold q, use assms(1) s in \<open>simp add: stroops_dbl\<close>)
  then show ?thesis
    using rate_err [OF assms(1,2) s(1,2)] fixed_clamp [OF assms(1) s(4,6)] by auto
qed

text \<open>
  C1: whatever fails, a breakdown of a payment of \<open>n\<close> stroops (below 2^28 units) is returned; its
  fee and net amount are stroop amounts that add up to the gross exactly, and neither is negative.
\<close>

theorem buildFeeBreakdown_conserves:
  assumes "money n" and "0 \<le> n" and "0 \<le> fallback" and "fallback \<le> 10000"
    and "\<And>r. r \<in> set (fee_configs (db w)) \<Longrightarrow> sane_config r"
    and "\<And>r. cached w (cacheKey ''platform'' a) = Some (CFee r) \<Longrightarrow> sane_config r"
  shows "wp (buildFeeBreakdown fallback (stroops n) a fc)
    (\<lambda>b v. db v = db w \<and> (\<exists>F. split_exactly n b F)) (\<lambda>_ _. False) w"
proof -
  have H: "wp (case fee_limits fallback c of (bps, mn, mx) \<Rightarrow> ret (breakdown_of (stroops n) a fc bps mn mx))
      (\<lambda>b v. db v = db w \<and> (\<exists>F. split_exactly n b F)) (\<lambda>_ _. False) v"
    if v: "db v = db w" and sane: "\<And>r. c = Some r \<Longrightarrow> sane_config r" for c v
  proof -
    obtain bps mn mx where l: "fee_limits fallback c = (bps, mn, mx)" using prod_cases3 by blast
    obtain F where "split_exactly n (breakdown_of (stroops n) a fc bps mn mx) F"
      using breakdown_split [OF assms(1-4) sane l] by blast
    then show ?thesis using v by (auto simp: l wps)
  qed
  show ?thesis
    unfolding buildFeeBreakdown_def wp_bnd wp_catch wp_ret
    by (rule wp_getActiveConfig_sane [OF assms(5,6)]) (auto intro: H)
qed

lemma buildFeeBreakdown_conserves_witness:
  "wp (buildFeeBreakdown 250 (stroops 123456789) ''XLM'' None)
    (\<lambda>b v. db v = db init_world \<and> (\<exists>F. split_exactly 123456789 b F)) (\<lambda>_ _. False) init_world"
  by (rule buildFeeBreakdown_conserves) (simp_all add: money_def init_world_def empty_db_def cached_def)

text \<open>
  C34: under a configured schedule the fee is the rate of the schedule, clamped to its limits and
  to the gross, and the rate is within one stroop of the real one.
\<close>

theorem breakdown_rate:
  assumes "money n" and "0 \<le> n" and "sane_config r"
  shows "\<exists>k. \<bar>10000 * k - n * fc_bps r\<bar> < 10000 \<and>
    (case fee_limits fallback (Some r) of (bps, mn, mx) \<Rightarrow>
      split_exactly n (breakdown_of (stroops n) a fc bps mn mx) (min (min n (fc_max r)) (max (fc_min r) k)))"
  using rate_split [OF assms] by (simp add: fee_limits_def)

definition sample_config :: fee_config where
  "sample_config = \<lparr>fc_id = 1, fc_type = ''platform'', fc_asset = ''USDC'', fc_bps = 150, fc_max = 500000000,
     fc_min = 1000000, fc_active = True, fc_by = ''admin'', fc_created = 0, fc_from = 0, fc_reminder = None\<rparr>"

lemma breakdown_rate_witness:
  "\<exists>k. \<bar>10000 * k - 2000000000 * fc_bps sample_config\<bar> < 10000 \<and>
    (case fee_limits 250 (Some sample_config) of (bps, mn, mx) \<Rightarrow>
      split_exactly 2000000000 (breakdown_of (stroops 2000000000) ''USDC'' None bps mn mx)
        (min (min 2000000000 (fc_max sample_config)) (max (fc_min sample_config) k)))"
  by (rule breakdown_rate) (simp_all add: money_def sane_config_def sample_config_def)

lemma floor_stroops:
  assumes "money F" and "0 \<le> F"
  shows "\<exists>k \<in> {F - 1, F}. jfloor (jmul (stroops F) (Fin 10000000)) = Fin (of_int k)"
proof -
  define p where "p = dbl F * 10000000"
  have p: "\<bar>p\<bar> \<le> 2 ^ 28 * 10000000" using dbl_abs_le [OF assms(1)] by (simp add: p_def abs_mult)
  then have "\<bar>p\<bar> < 2 powi 52" by (simp add: power_int_def)
  then have e: "\<bar>rnd53 p - p\<bar> \<le> 1 / 4" using rnd53_err [of p 52]
    by (simp add: power_int_def power_one_over inverse_eq_divide)
  have d: "\<bar>p - of_int F\<bar> \<le> 10000000 / 2 ^ 26"
    using dbl_err [OF assms(1)] unfolding p_def abs_le_iff by (simp add: field_simps)
  have f: "jmul (stroops F) (Fin 10000000) = Fin (rnd53 p)"
    using p assms(1) by (simp add: stroops_dbl mk_Fin p_def)
  have "\<lfloor>rnd53 p\<rfloor> = F - 1 \<or> \<lfloor>rnd53 p\<rfloor> = F"
    using abs_le_D1 [OF e] abs_le_D2 [OF e] abs_le_D1 [OF d] abs_le_D2 [OF d]
    by (simp add: floor_eq_iff) linarith
  then show ?thesis by (auto simp: f)
qed

text \<open>
  Collecting a fee of \<open>F\<close> stroops never fails, and the deposit it makes, if any, is of \<open>F\<close> or
  \<open>F - 1\<close> stroops: the floor of the double product may lose one stroop and no more.
\<close>

theorem collectPlatformFee_deposit:
  assumes "money F" and "0 \<le> F" and "platform_fee_amount b = stroops F"
  shows "wp (collectPlatformFee env rpc contract_of (Some b) src)
    (\<lambda>_ v. db v = db w \<and> (chain_log v = chain_log w \<or>
       (\<exists>key k t. k \<in> {F - 1, F} \<and> 0 < k \<and> chain_log v = chain_log w @ [DepositFee key k t src])))
    (\<lambda>_ _. False) w"
proof -
  obtain k where k: "k \<in> {F - 1, F}" "jfloor (jmul (stroops F) (Fin 10000000)) = Fin (of_int k)"
    using floor_stroops [OF assms(1,2)] by blast
  have d: "wp (depositFee env rpc k t src) (\<lambda>_. Q) (\<lambda>_. Q) w"
    if "\<And>u v. v = w\<lparr>now := u\<rparr> \<Longrightarrow> Q v" "\<And>key u v. v = w\<lparr>chain_log := chain_log w @ [DepositFee key k t src], now := u\<rparr> \<Longrightarrow> Q v"
    for t and Q :: "world \<Rightarrow> bool"
  proof -
    have "Q w" using that(1) [of w "now w"] by simp
    then show ?thesis unfolding depositFee_def wps
      by (auto simp: wps split: prod.split intro!: wp_submitCall_any that(1) [OF refl] that(2) [OF refl])
  qed
  show ?thesis
    unfolding collectPlatformFee_def Let_def option.case assms(3) k(2) jsnum.case wps
    by (auto simp: wps k(1) split: sum.split intro!: d) (use k(1) in auto)
qed

definition tiny_fee :: breakdown where
  "tiny_fee = breakdown_of (stroops 840) ''USDC'' None (Fin 250) (stroops 0) (stroops 500000000)"

definition sample_env :: fee_env where
  "sample_env = \<lparr>contract_configured = True, service_key = ''key'' \<rparr>"

lemma tiny_double: "rnd53 (21 / 10000000) = 4958484807013127 / 2 ^ 71"
  using rnd53_cert [of "- 19" "21 / 10000000" 4958484807013127] by (simp add: power_int_def power_divide)

lemma tiny_product: "rnd53 (4958484807013127 / 2 ^ 71 * 10000000) = 5910974510923775 / 2 ^ 48"
  using rnd53_cert [of 4 "4958484807013127 / 2 ^ 71 * 10000000" 5910974510923775]
  by (simp add: power_int_def power_divide)

text \<open>
  The loss occurs: the fee of a payment of 840 stroops is 21 stroops, and 20 are deposited.
\<close>

theorem tiny_fee_deposit:
  assumes "contract_of ''USDC'' = Inr token" and "token \<noteq> []" and "sb_decrypt rpc ''key'' = Inr key"
    and "sb_prepare rpc (chain_log w) (DepositFee key 20 token src) = None" and "sb_applied rpc (chain_log w) (DepositFee key 20 token src)"
  shows "platform_fee_amount tiny_fee = stroops 21 \<and>
    chain_log (snd (collectPlatformFee sample_env rpc contract_of (Some tiny_fee) src w))
      = chain_log w @ [DepositFee key 20 token src]"
proof -
  have "sane_config (sample_config\<lparr>fc_bps := 250, fc_min := 0\<rparr>)"
    by (simp add: sane_config_def sample_config_def money_def)
  from rate_split [OF _ _ this, of 840 "''USDC''" None] obtain k where
    k: "\<bar>10000 * k - 210000\<bar> < 10000" "split_exactly 840 tiny_fee (min (min 840 500000000) (max 0 k))"
    by (auto simp: money_def sample_config_def tiny_fee_def)
  from k(1) have "k = 21" by linarith
  with k(2) have fee: "platform_fee_amount tiny_fee = stroops 21" by (simp add: split_exactly_def)
  have asset: "bd_asset tiny_fee = ''USDC''" by (simp add: tiny_fee_def breakdown_of_def Let_def)
  have d: "stroops 21 = Fin (4958484807013127 / 2 ^ 71)"
    using tiny_double by (simp add: stroops_dbl money_def dbl_def)
  have "jmul (stroops 21) (Fin 10000000) = Fin (rnd53 (4958484807013127 / 2 ^ 71 * 10000000))"
    by (simp add: d mk_Fin)
  then have f: "jfloor (jmul (stroops 21) (Fin 10000000)) = Fin 20"
    unfolding tiny_product by (simp add: floor_eq_iff)
  have fin: "is_finite (stroops 21)" "\<not> jle (stroops 21) (Fin 0)"
    by (simp_all add: d)
  have "wp (collectPlatformFee sample_env rpc contract_of (Some tiny_fee) src)
      (\<lambda>_ v. chain_log v = chain_log w @ [DepositFee key 20 token src]) (\<lambda>_ _. False) w"
    using assms fee f fin asset
    by (auto simp: collectPlatformFee_def depositFee_def wps Let_def sample_env_def MAX_DEPOSIT_AMOUNT_STROOPS_def
        intro!: wp_mono [OF wp_submitCall_applied])
  then show ?thesis using fee by (auto simp: wp_def split: prod.splits sum.splits)
qed

lemma tiny_fee_deposit_witness:
  "platform_fee_amount tiny_fee = stroops 21 \<and>
    chain_log (snd (collectPlatformFee sample_env good_rpc (\<lambda>_. Inr ''C1'') (Some tiny_fee) ''G1'' init_world))
      = chain_log init_world @ [DepositFee ''key'' 20 ''C1'' ''G1'']"
  by (rule tiny_fee_deposit) (simp_all add: good_rpc_def)

lemma collectPlatformFee_deposit_witness:
  "wp (collectPlatformFee sample_env good_rpc (\<lambda>_. Inr ''C1'')
      (Some ((breakdown_of (Fin 0) ''USDC'' None (Fin 0) (Fin 0) PosInf)\<lparr>platform_fee_amount := stroops 1234567\<rparr>)) ''G1'')
    (\<lambda>_ v. db v = db init_world \<and> (chain_log v = chain_log init_world \<or>
       (\<exists>key k t. k \<in> {1234567 - 1, 1234567} \<and> 0 < k \<and> chain_log v = chain_log init_world @ [DepositFee key k t ''G1''])))
    (\<lambda>_ _. False) init_world"
  by (rule collectPlatformFee_deposit) (simp_all add: money_def)

end
