(* ===== verification/Escrow.thy ===== *)
theory Escrow
  imports FeeConfig Soroban
begin

text \<open>
  Agent payouts: \<^verbatim>\<open>controllers/agentEscrowController.js\<close> over \<^verbatim>\<open>services/agentEscrow.js\<close>. A sender locks
  USDC in the agent-escrow contract, the agent confirms the payout or the sender cancels; the table
  \<^verbatim>\<open>agent_escrows\<close> follows the chain. The theorems say when the two agree, and where they part.
\<close>

section \<open>Amounts\<close>

text \<open>\<open>/^\d+(\.\d{1,7})?$/\<close>: the whole and the fractional digits.\<close>

definition decimal_parts :: "string \<Rightarrow> (string \<times> string) option" where
  "decimal_parts s = (let whole = takeWhile is_digit s; rest = dropWhile is_digit s in
     if whole = [] then None
     else (case rest of
        [] \<Rightarrow> Some (whole, [])
      | c # ds \<Rightarrow> if c = CHR ''.'' \<and> list_all is_digit ds \<and> 1 \<le> length ds \<and> length ds \<le> 7 then Some (whole, ds) else None))"

definition amountToStroops :: "json \<Rightarrow> int option" where
  "amountToStroops amt = (case amt of
     JStr s \<Rightarrow> (case decimal_parts (trim s) of
        None \<Rightarrow> None
      | Some (whole, fraction) \<Rightarrow>
          let n = digits_val whole * 10000000 + digits_val (take 7 (fraction @ ''0000000'')) in
          if n \<le> 0 then None else Some n)
   | _ \<Rightarrow> None)"

section \<open>The contract calls\<close>

definition escrow_error :: "jserr \<Rightarrow> jserr" where
  "escrow_error e = withStatus 400 e"

definition createEscrow :: "soroban \<Rightarrow> int \<Rightarrow> string \<Rightarrow> string \<Rightarrow> string \<Rightarrow> int \<Rightarrow> int \<Rightarrow> (world, string \<times> string) proc" where
  "createEscrow rpc timeoutMs enc recipient agnt amt feeBps =
     submitCall rpc escrow_error ''create_escrow'' timeoutMs enc (\<lambda>key. CreateEscrow key recipient agnt amt feeBps)"

definition confirmPayout :: "soroban \<Rightarrow> int \<Rightarrow> string \<Rightarrow> string \<Rightarrow> (world, string) proc" where
  "confirmPayout rpc timeoutMs enc escrowId =
     bnd (submitCall rpc escrow_error ''confirm_payout'' timeoutMs enc (\<lambda>key. ConfirmPayout key escrowId)) (\<lambda>(v, hash). ret hash)"

definition cancelEscrow :: "soroban \<Rightarrow> int \<Rightarrow> string \<Rightarrow> string \<Rightarrow> (world, string) proc" where
  "cancelEscrow rpc timeoutMs enc escrowId =
     bnd (submitCall rpc escrow_error ''cancel_escrow'' timeoutMs enc (\<lambda>key. CancelEscrow key escrowId)) (\<lambda>(v, hash). ret hash)"

section \<open>Listing\<close>

definition escrow_json :: "escrow \<Rightarrow> json" where
  "escrow_json e = JObj [(''id'', JStr (e_id e)), (''contract_escrow_id'', JStr (e_contract_id e)),
     (''sender_wallet'', JStr (e_sender e)), (''recipient_wallet'', JStr (e_recipient e)), (''agent_wallet'', JStr (e_agent e)),
     (''amount'', JStr (dec7_text (e_amount e))), (''asset'', JStr (e_asset e)), (''fee_bps'', JNum (Fin (of_int (e_fee_bps e)))),
     (''status'', JStr (e_status e)), (''tx_hash'', JStr (e_tx_hash e)),
     (''confirm_tx_hash'', case e_confirm_tx_hash e of None \<Rightarrow> JNull | Some h \<Rightarrow> JStr h),
     (''created_at'', JNum (Fin (of_int (e_created e)))),
     (''confirmed_at'', case e_confirmed e of None \<Rightarrow> JNull | Some t \<Rightarrow> JNum (Fin (of_int t)))]"

definition ESCROW_STATUSES :: "string list" where
  "ESCROW_STATUSES = [''pending'', ''completed'', ''cancelled'']"

text \<open>\<open>Math.max(parseInt(page, 10) || 1, 1)\<close> and \<open>Math.min(Math.max(parseInt(limit, 10) || 20, 1), 100)\<close>; \<open>None\<close> is NaN.\<close>

definition page_number :: "int option \<Rightarrow> int" where
  "page_number p = max (case p of None \<Rightarrow> 1 | Some n \<Rightarrow> if n = 0 then 1 else n) 1"

definition page_limit :: "int option \<Rightarrow> int" where
  "page_limit l = min (max (case l of None \<Rightarrow> 20 | Some n \<Rightarrow> if n = 0 then 20 else n) 1) 100"

definition listed :: "string \<Rightarrow> string option \<Rightarrow> string list \<Rightarrow> database \<Rightarrow> escrow list" where
  "listed role status keys d = filter (\<lambda>e. (if role = ''agent'' then e_agent e else e_sender e) \<in> set keys
     \<and> (case status of None \<Rightarrow> True | Some s \<Rightarrow> e_status e = s)) (escrows d)"

definition page_of :: "int \<Rightarrow> int \<Rightarrow> escrow list \<Rightarrow> escrow list" where
  "page_of limit offset es = take (nat limit) (drop (nat offset) (sort_key (\<lambda>e. - e_created e) es))"

definition page_json :: "escrow list \<Rightarrow> int \<Rightarrow> int \<Rightarrow> nat \<Rightarrow> json" where
  "page_json es page limit n = JObj [(''escrows'', JArr (map escrow_json es)), (''page'', JNum (Fin (of_int page))),
     (''limit'', JNum (Fin (of_int limit))), (''total'', JNum (Fin (of_nat n)))]"

text \<open>An empty status counts as absent.\<close>

definition listEscrows :: "req_user \<Rightarrow> string \<Rightarrow> string option \<Rightarrow> int option \<Rightarrow> int option \<Rightarrow> (world, outcome) proc" where
  "listEscrows u role_param status_param page_param limit_param = handler (
     let role = (if role_param = ''agent'' then ''agent'' else ''sender'');
         status = (if status_param = Some [] then None else status_param) in
     if (case status of None \<Rightarrow> False | Some s \<Rightarrow> s \<notin> set ESCROW_STATUSES) then ret (Reply 400 (jerr ''Invalid status filter''))
     else let page = page_number page_param; limit = page_limit limit_param; offset = (page - 1) * limit in
       bnd (select (\<lambda>w. wallets_of (db w) (usr_id u))) (\<lambda>keys.
         if keys = [] then ret (Reply 200 (page_json [] page limit 0))
         else bnd (select (\<lambda>w. length (listed role status keys (db w)))) (\<lambda>n.
           bnd (select (\<lambda>w. page_of limit offset (listed role status keys (db w)))) (\<lambda>rows.
             ret (Reply 200 (page_json rows page limit n))))))"

section \<open>Creating\<close>

text \<open>
  The compliance checks of \<^verbatim>\<open>paymentController.js\<close> that the handler destructures from its exports; a name
  that is not exported is \<open>undefined\<close>, and calling it a type error.
\<close>

record compliance =
  co_ensureKyc :: "string \<Rightarrow> string \<Rightarrow> string \<Rightarrow> (world, unit) proc"
  co_estimateUSD :: "string \<Rightarrow> string \<Rightarrow> (world, jsnum) proc"
  co_amlRescreen :: "string \<Rightarrow> string \<Rightarrow> jsnum \<Rightarrow> (world, unit) proc"
  co_dailyLimit :: "string \<Rightarrow> string \<Rightarrow> (world, bool) proc"
  co_checkFraud :: "string \<Rightarrow> string \<Rightarrow> string \<Rightarrow> (world, string option) proc"
  co_logFraudBlock :: "string \<Rightarrow> string \<Rightarrow> string \<Rightarrow> string \<Rightarrow> (world, unit) proc"

definition payment_exports :: "string list" where
  "payment_exports = [''send'', ''sendBatch'', ''history'', ''findPath'', ''sendPath'', ''exportCSV'', ''estimateFee'',
     ''estimateFees'', ''getFeeStats'', ''getFeeRate'', ''findReceivePathHandler'', ''sendStrictReceivePath'',
     ''getPaymentById'', ''cancelPendingEscrow'', ''checkSufficientBalance'']"

definition imported :: "string list \<Rightarrow> string \<Rightarrow> (world, 'a) proc \<Rightarrow> (world, 'a) proc" where
  "imported exports name m = (if name \<in> set exports then m else throw (typeError (name @ '' is not a function'')))"

definition numericOverflow :: jserr where
  "numericOverflow = (mkError ''numeric field overflow'')\<lparr>err_code := Some ''22003''\<rparr>"

definition insert_escrow :: "escrow \<Rightarrow> database \<Rightarrow> jserr + database" where
  "insert_escrow e d = (if 10 ^ 20 \<le> \<bar>e_amount e\<bar> then Inl numericOverflow
     else if e_id e \<in> e_id ` set (escrows d) then Inl uniqueViolation
     else Inr (d\<lparr>escrows := escrows d @ [e]\<rparr>))"

text \<open>
  From the contract call on: the object literal lists \<open>amount\<close> and \<open>feeBps\<close> twice, and the last
  of each is what the contract gets.
\<close>

definition open_escrow :: "soroban \<Rightarrow> int \<Rightarrow> int \<Rightarrow> string \<Rightarrow> string \<Rightarrow> string \<Rightarrow> string \<Rightarrow> string \<Rightarrow> int \<Rightarrow> string \<Rightarrow> int
    \<Rightarrow> (world, outcome) proc" where
  "open_escrow rpc timeoutMs default_bps uuid public_key enc recipient agnt amountStroops asset feeBps =
     bnd (createEscrow rpc timeoutMs enc recipient agnt amountStroops default_bps) (\<lambda>(escrowId, txHash).
     andThen (execE (\<lambda>w. insert_escrow \<lparr>e_id = uuid, e_contract_id = escrowId, e_sender = public_key,
         e_recipient = recipient, e_agent = agnt, e_amount = amountStroops, e_asset = asset, e_fee_bps = feeBps,
         e_status = ''pending'', e_tx_hash = txHash, e_confirm_tx_hash = None, e_created = now w, e_released = 0,
         e_confirmed = None\<rparr> (db w)))
       (ret (Reply 201 (JObj [(''message'', JStr ''Escrow created''), (''escrow'', JObj [(''id'', JStr uuid),
          (''contract_escrow_id'', JStr escrowId), (''tx_hash'', JStr txHash), (''fee_bps'', JNum (Fin (of_int feeBps))),
          (''status'', JStr ''pending'')])]))))"

definition create :: "soroban \<Rightarrow> int \<Rightarrow> int \<Rightarrow> string list \<Rightarrow> compliance \<Rightarrow> string \<Rightarrow> req_user \<Rightarrow> string \<Rightarrow> string \<Rightarrow> json \<Rightarrow> string
    \<Rightarrow> (world, outcome) proc" where
  "create rpc timeoutMs default_bps exports co uuid u agent_wallet recipient_wallet amt asset = handler (
     if asset \<noteq> ''USDC'' then ret (Reply 400 (jerrc ''Unsupported asset. Only USDC is accepted.'' ''UNSUPPORTED_ASSET''))
     else (case amountToStroops amt of
       None \<Rightarrow> ret (Reply 400 (jerrc ''Invalid amount. Provide a positive decimal string with at most 7 decimal places.'' ''INVALID_AMOUNT''))
     | Some amountStroops \<Rightarrow>
       let text = (case amt of JStr s \<Rightarrow> s | _ \<Rightarrow> []) in
       bnd (select (\<lambda>w. find (\<lambda>a. ag_wallet a = agent_wallet \<and> ag_status a = ''approved'') (agents (db w)))) (\<lambda>agt. case agt of
         None \<Rightarrow> ret (Reply 400 (jerr ''Agent is not registered in the AfriPay network''))
       | Some _ \<Rightarrow> bnd (select (\<lambda>w. default_wallet (db w) (usr_id u))) (\<lambda>wal. case wal of
         None \<Rightarrow> ret (Reply 404 (jerr ''Wallet not found''))
       | Some wal \<Rightarrow> bnd (getActiveConfig ''escrow'' ''USDC'') (\<lambda>feeConfig.
         let feeBps = (case feeConfig of Some c \<Rightarrow> fc_bps c | None \<Rightarrow> default_bps); public_key = w_public_key wal in
         andThen (imported exports ''ensureKycIfNeeded'' (co_ensureKyc co (usr_id u) text asset))
         (bnd (imported exports ''estimateUSDValue'' (co_estimateUSD co text asset)) (\<lambda>estimatedUSD.
         andThen (imported exports ''amlRescreenForPayment'' (co_amlRescreen co (usr_id u) public_key estimatedUSD))
         (bnd (imported exports ''dailyLimitExceeded'' (co_dailyLimit co public_key text)) (\<lambda>overLimit.
         if overLimit then ret (Reply 400 (jerrc ''Daily send limit reached. Try again tomorrow.'' ''DAILY_LIMIT_EXCEEDED''))
         else bnd (imported exports ''checkFraud'' (co_checkFraud co public_key text asset)) (\<lambda>blocked. case blocked of
           Some reason \<Rightarrow> andThen (imported exports ''logFraudBlock'' (co_logFraudBlock co public_key reason text asset))
             (ret (Reply 429 (jerr reason)))
         | None \<Rightarrow> open_escrow rpc timeoutMs default_bps uuid public_key (w_secret wal) recipient_wallet agent_wallet
             amountStroops asset feeBps))))))))))"

section \<open>Confirming\<close>

definition escrow_by_id :: "database \<Rightarrow> string \<Rightarrow> escrow option" where
  "escrow_by_id d i = find (\<lambda>e. e_id e = i) (escrows d)"

definition set_escrow :: "string \<Rightarrow> (escrow \<Rightarrow> escrow) \<Rightarrow> database \<Rightarrow> database" where
  "set_escrow i f d = d\<lparr>escrows := update_where (\<lambda>e. e_id e = i) f (escrows d)\<rparr>"

definition confirm :: "soroban \<Rightarrow> int \<Rightarrow> req_user \<Rightarrow> string \<Rightarrow> (world, outcome) proc" where
  "confirm rpc timeoutMs u i = handler (
     if usr_role u \<noteq> ''agent'' then ret (Reply 403 (jerr ''Only agents can confirm payouts''))
     else bnd (select (\<lambda>w. escrow_by_id (db w) i)) (\<lambda>row. case row of
       None \<Rightarrow> ret (Reply 404 (jerr ''Escrow not found''))
     | Some e \<Rightarrow>
       if e_status e \<noteq> ''pending'' then ret (Reply 400 (jerr ''Escrow is not pending''))
       else bnd (select (\<lambda>w. default_wallet (db w) (usr_id u))) (\<lambda>own.
         if map_option w_public_key own \<noteq> Some (e_agent e)
         then ret (Reply 403 (jerr ''You are not the assigned agent for this escrow''))
         else bnd (select (\<lambda>w. wallet_by_key (db w) (e_agent e))) (\<lambda>wal. case wal of
           None \<Rightarrow> ret (Reply 403 (jerr ''Agent wallet not registered on this platform''))
         | Some wal \<Rightarrow>
           bnd (catch (bnd (confirmPayout rpc timeoutMs (w_secret wal) (e_contract_id e)) (\<lambda>h. ret (Inr h)))
                 (\<lambda>err. ret (Inl err))) (\<lambda>r. case r of
             Inl err \<Rightarrow> ret (Reply 502 (JObj [(''error'', JStr ''On-chain confirmation failed''), (''detail'', JStr (err_message err))]))
           | Inr txHash \<Rightarrow>
             andThen (execCols ''agent_escrows'' [''status'', ''confirm_tx_hash'', ''confirmed_at''] (\<lambda>w. set_escrow i
                 (\<lambda>e. e\<lparr>e_status := ''completed'', e_confirm_tx_hash := Some txHash, e_confirmed := Some (now w)\<rparr>) (db w)))
             (bnd (selectCols ''agents'' [''full_name'', ''wallet_address'']
                 (\<lambda>w. user_of_wallet (db w) (e_sender e))) (\<lambda>sender.
               andThen (case sender of None \<Rightarrow> ret () | Some s \<Rightarrow> emit (Email (u_email s) ''agent_escrow_delivered'' (JStr (dec7_text (e_amount e)))))
               (andThen (audit_log (Some (usr_id u)) ''agent_escrow_confirmed'' (JObj [(''escrow_id'', JStr i), (''agent_id'', JStr (usr_id u)), (''tx_hash'', JStr txHash)]))
               (ret (Reply 200 (JObj [(''message'', JStr ''Payout confirmed''), (''tx_hash'', JStr txHash)])))))))))))"

section \<open>Cancelling\<close>

definition CANCEL_WINDOW :: int where
  "CANCEL_WINDOW = 48 * 60 * 60 * 1000"

text \<open>
  The table has no \<open>expires_at\<close>, so the window counts from the creation. The update names the column
  \<open>cancelled_at\<close>, and \<open>webhook\<close> is not bound in the module.
\<close>

definition cancel :: "soroban \<Rightarrow> int \<Rightarrow> req_user \<Rightarrow> string \<Rightarrow> (world, outcome) proc" where
  "cancel rpc timeoutMs u i = handler (
     bnd (select (\<lambda>w. escrow_by_id (db w) i)) (\<lambda>row. case row of
       None \<Rightarrow> ret (Reply 404 (jerr ''Escrow not found''))
     | Some e \<Rightarrow>
       if e_status e \<noteq> ''pending'' then ret (Reply 400 (jerr ''Only pending escrows can be cancelled''))
       else bnd (select (\<lambda>w. find (\<lambda>wal. w_user wal = usr_id u \<and> w_public_key wal = e_sender e) (wallets (db w)))) (\<lambda>wal. case wal of
         None \<Rightarrow> ret (Reply 403 (jerr ''Only the sender can cancel this escrow''))
       | Some wal \<Rightarrow> bnd (gets now) (\<lambda>t. let expiresAt = e_created e + CANCEL_WINDOW in
         if t < expiresAt
         then ret (Reply 403 (JObj [(''error'', JStr ''CANCEL_TOO_EARLY''),
                (''message'', JStr ''You cannot cancel this payment until 48 hours after creation.''),
                (''cancel_available_at'', JNum (Fin (of_int expiresAt)))]))
         else bnd (catch (bnd (cancelEscrow rpc timeoutMs (w_secret wal) (e_contract_id e)) (\<lambda>h. ret (Inr h)))
               (\<lambda>err. ret (Inl err))) (\<lambda>r. case r of
           Inl err \<Rightarrow> ret (Reply 502 (jerr ''On-chain cancellation failed. Please try again later.''))
         | Inr txHash \<Rightarrow>
           andThen (execCols ''agent_escrows'' [''status'', ''cancelled_at'', ''confirm_tx_hash''] (\<lambda>w. set_escrow i
               (\<lambda>e. e\<lparr>e_status := ''cancelled'', e_confirm_tx_hash := Some txHash\<rparr>) (db w)))
           (andThen (ignore (bnd (select (\<lambda>w. user_of_wallet (db w) (e_sender e))) (\<lambda>s. case s of
               None \<Rightarrow> ret () | Some s \<Rightarrow> emit (Email (u_email s) ''escrow_cancelled'' (JStr (dec7_text (e_amount e)))))))
           (andThen (audit_log (Some (usr_id u)) ''escrow_cancelled'' (JObj [(''escrow_id'', JStr i),
               (''contract_escrow_id'', JStr (e_contract_id e)), (''stellar_tx_hash'', JStr txHash)]))
           (throw (referenceError ''webhook is not defined'')))))))))"

section \<open>Partial release\<close>

text \<open>\<open>amt\<close> is \<open>parseFloat(req.body.amount)\<close>; \<open>pg\<close> the value the database stores for a number.\<close>

definition release_body :: "(jsnum \<Rightarrow> int) \<Rightarrow> req_user \<Rightarrow> string \<Rightarrow> jsnum \<Rightarrow> database \<Rightarrow> (world, outcome) proc" where
  "release_body pg u i amt d0 =
     andThen tick (bnd (select (\<lambda>w. escrow_by_id (db w) i)) (\<lambda>row.
       let rollback = (\<lambda>o'. andThen tick (andThen (modify (\<lambda>w. w\<lparr>db := d0\<rparr>)) (ret o'))) in
       (case row of
         None \<Rightarrow> rollback (Reply 404 (jerr ''Escrow not found''))
       | Some e \<Rightarrow>
         if e_status e \<noteq> ''pending'' then rollback (Reply 400 (jerr ''Escrow is not pending''))
         else if Some (e_sender e) \<noteq> usr_wallet u then rollback (Reply 403 (jerr ''Only the sender can release funds''))
         else let total' = stroops (e_amount e); released = stroops (e_released e); remaining = jsub total' released in
           if jlt remaining amt then rollback (Reply 400 (jerr ''Amount exceeds remaining escrow balance''))
           else let fee = jdiv (jmul amt (Fin (of_int (e_fee_bps e)))) (Fin 10000); netAmount = jsub amt fee;
                    newReleased = jadd released amt in
             andThen (exec (\<lambda>w. set_escrow i (\<lambda>e. e\<lparr>e_released := pg newReleased\<rparr>) (db w)))
             (andThen tick
             (ret (Reply 200 (JObj [(''message'', JStr ''Partial release recorded''), (''released_amount'', JNum newReleased),
               (''remaining'', JNum (jsub total' newReleased)), (''fee'', JNum fee), (''net_amount'', JNum netAmount)])))))))"

definition partialRelease :: "(jsnum \<Rightarrow> int) \<Rightarrow> req_user \<Rightarrow> string \<Rightarrow> jsnum \<Rightarrow> (world, outcome) proc" where
  "partialRelease pg u i amt =
     (if \<not> is_finite amt \<or> jle amt (Fin 0) then ret (Reply 400 (jerr ''Amount must be greater than 0''))
      else andThen tick (bnd (gets db) (\<lambda>d0. catch (release_body pg u i amt d0)
        (\<lambda>err. andThen (modify (\<lambda>w. w\<lparr>db := d0\<rparr>)) (andThen tick (ret (NextErr err)))))))"

section \<open>Fetching\<close>

definition getEscrow :: "req_user \<Rightarrow> string \<Rightarrow> (world, outcome) proc" where
  "getEscrow u i = handler (
     bnd (select (\<lambda>w. escrow_by_id (db w) i)) (\<lambda>row. case row of
       None \<Rightarrow> ret (Reply 404 (jerr ''Escrow not found''))
     | Some e \<Rightarrow> bnd (select (\<lambda>w. wallets_of (db w) (usr_id u))) (\<lambda>keys.
         if e_sender e \<in> set keys \<or> e_agent e \<in> set keys \<or> e_recipient e \<in> set keys
         then ret (Reply 200 (JObj [(''escrow'', escrow_json e)]))
         else ret (Reply 404 (jerr ''Escrow not found'')))))"

section \<open>Amounts are exact\<close>

lemma digit_not_space: "is_digit c \<Longrightarrow> \<not> is_space c"
  by (auto simp: is_digit_def is_space_def Let_def)

lemma trim_id:
  assumes "s \<noteq> []" and "\<not> is_space (hd s)" and "\<not> is_space (last s)"
  shows "trim s = s"
proof -
  have "dropWhile is_space s = s" using assms(1,2) by (cases s) simp_all
  moreover have "dropWhile is_space (rev s) = rev s" using assms(1,3) by (cases s rule: rev_cases) simp_all
  ultimately show ?thesis by (simp add: trim_def)
qed

lemma decimal_parts_text:
  assumes "list_all is_digit a" and "a \<noteq> []" and "list_all is_digit b" and "length b = 7"
  shows "decimal_parts (a @ ''.'' @ b) = Some (a, b)"
proof -
  have dot: "\<not> is_digit (CHR ''.'')" by (simp add: is_digit_def)
  have "takeWhile is_digit (a @ ''.'' @ b) = a" "dropWhile is_digit (a @ ''.'' @ b) = ''.'' @ b"
    using assms(1) dot by (simp_all add: list_all_iff)
  then show ?thesis using assms by (simp add: decimal_parts_def Let_def)
qed



lemma amountToStroops_pos: "amountToStroops j = Some n \<Longrightarrow> 0 < n"
  by (auto simp: amountToStroops_def Let_def split: json.splits option.splits prod.splits if_splits)

section \<open>Reading\<close>

lemma chunks: "concat (map (\<lambda>i. take m (drop (i * m) xs)) [0..<k]) = take (k * m) xs"
proof (induction k)
  case (Suc k)
  then show ?case using take_add [of "k * m" m xs] by (simp add: add.commute)
qed simp

text \<open>
  The pages 1 to k of a listing, one after the other, are its first k * limit escrows from the
  newest on: no escrow is skipped and none comes twice.
\<close>

theorem pages_partition:
  assumes "1 \<le> limit"
  shows "concat (map (\<lambda>i. page_of limit ((page_number (Some (int (Suc i))) - 1) * limit) es) [0..<k])
    = take (k * nat limit) (sort_key (\<lambda>e. - e_created e) es)"
proof -
  have "nat ((page_number (Some (int (Suc i))) - 1) * limit) = i * nat limit" for i
    using assms by (simp add: page_number_def nat_mult_distrib)
  then have "page_of limit ((page_number (Some (int (Suc i))) - 1) * limit) es
      = take (nat limit) (drop (i * nat limit) (sort_key (\<lambda>e. - e_created e) es))" for i
    by (simp add: page_of_def)
  then show ?thesis using chunks [of "nat limit" "sort_key (\<lambda>e. - e_created e) es" k] by presburger
qed

definition sample_escrow :: escrow where
  "sample_escrow = \<lparr>e_id = ''e1'', e_contract_id = ''7'', e_sender = ''GS'', e_recipient = ''GR'', e_agent = ''GA'',
     e_amount = 1000000000, e_asset = ''USDC'', e_fee_bps = 250, e_status = ''pending'', e_tx_hash = ''h0'',
     e_confirm_tx_hash = None, e_created = 0, e_released = 0, e_confirmed = None\<rparr>"

lemma pages_partition_witness:
  "concat (map (\<lambda>i. page_of 2 ((page_number (Some (int (Suc i))) - 1) * 2) [sample_escrow, sample_escrow\<lparr>e_created := 5\<rparr>]) [0..<3])
    = take (3 * nat 2) (sort_key (\<lambda>e. - e_created e) [sample_escrow, sample_escrow\<lparr>e_created := 5\<rparr>])"
  by (rule pages_partition) simp

lemma page_limit_bounds: "1 \<le> page_limit l \<and> page_limit l \<le> 100"
  by (simp add: page_limit_def split: option.split)

text \<open>
  a listing never fails but for the database, changes nothing, and shows at most a hundred
  escrows, each funded from (or assigned to) a wallet of the caller and in the status asked for.
\<close>

theorem listEscrows_scoped:
  "wp (listEscrows u role st p l)
    (\<lambda>o' v. db v = db w \<and> (status_of o' = Some 200 \<longrightarrow> (\<exists>rows page limit n. o' = Reply 200 (page_json rows page limit n) \<and>
       length rows \<le> 100 \<and> (\<forall>e \<in> set rows. e \<in> set (escrows (db w)) \<and>
         (if role = ''agent'' then e_agent e else e_sender e) \<in> set (wallets_of (db w) (usr_id u)) \<and>
         (\<forall>s. st = Some s \<and> s \<noteq> [] \<longrightarrow> e_status e = s)))))
    (\<lambda>_ _. False) w"
proof -
  have rows: "length (page_of (page_limit l) x es) \<le> 100" "set (page_of (page_limit l) x es) \<subseteq> set es" for x es
    using page_limit_bounds [of l] by (auto simp: page_of_def min_def dest!: in_set_takeD in_set_dropD)
  show ?thesis
    unfolding listEscrows_def Let_def
    using rows(1) by (auto simp: wps listed_def split: option.splits dest!: subsetD [OF rows(2)]; fastforce simp: listed_def dest!: subsetD [OF rows(2)])
qed

text \<open>
  an escrow is shown only to a caller one of whose wallets is its sender, agent or recipient;
  anyone else gets the very answer an unknown id gets.
\<close>

theorem getEscrow_parties_only:
  "wp (getEscrow u i)
    (\<lambda>o' v. db v = db w \<and> (case o' of
       Reply c b \<Rightarrow> (case escrow_by_id (db w) i of
          Some e \<Rightarrow> if {e_sender e, e_agent e, e_recipient e} \<inter> set (wallets_of (db w) (usr_id u)) = {}
            then (c, b) = (404, jerr ''Escrow not found'') else (c, b) = (200, JObj [(''escrow'', escrow_json e)])
        | None \<Rightarrow> (c, b) = (404, jerr ''Escrow not found''))
     | Next \<Rightarrow> False | NextErr e \<Rightarrow> e = dbError)) (\<lambda>_ _. False) w"
  unfolding getEscrow_def by (auto simp: wps split: option.splits)

lemma listEscrows_scoped_witness:
  "wp (listEscrows \<lparr>usr_id = ''u'', usr_role = ''user'', usr_wallet = None\<rparr> ''sender'' (Some ''pending'') None None)
    (\<lambda>o' v. db v = db init_world \<and> (status_of o' = Some 200 \<longrightarrow> (\<exists>rows page limit n. o' = Reply 200 (page_json rows page limit n) \<and>
       length rows \<le> 100 \<and> (\<forall>e \<in> set rows. e \<in> set (escrows (db init_world)) \<and>
         (if ''sender'' = ''agent'' then e_agent e else e_sender e) \<in> set (wallets_of (db init_world) (usr_id \<lparr>usr_id = ''u'', usr_role = ''user'', usr_wallet = None\<rparr>)) \<and>
         (\<forall>s. Some ''pending'' = Some s \<and> s \<noteq> [] \<longrightarrow> e_status e = s)))))
    (\<lambda>_ _. False) init_world"
  by (rule listEscrows_scoped)

section \<open>The table and the chain\<close>

lemma wp_create:
  assumes "\<And>o' v. status_of o' \<noteq> Some 201 \<Longrightarrow> db v = db w \<Longrightarrow> chain_log v = chain_log w \<Longrightarrow> Q o' v"
  shows "wp (create rpc timeoutMs default_bps payment_exports co uuid u agent_wallet recipient_wallet amt asset) Q E w"
  unfolding create_def Let_def
  by (auto simp: wps imported_def payment_exports_def split: option.splits intro!: wp_getActiveConfig assms)

text \<open>
  With the exports \<^verbatim>\<open>paymentController.js\<close> has, no request creates an escrow: the first compliance check
  it calls is undefined, so nothing reaches the chain or the table.
\<close>

theorem create_never_succeeds:
  "wp (create rpc timeoutMs default_bps payment_exports co uuid u agent_wallet recipient_wallet amt asset)
    (\<lambda>o' v. status_of o' \<noteq> Some 201 \<and> db v = db w \<and> chain_log v = chain_log w) (\<lambda>_ _. False) w"
  by (rule wp_create) simp_all

text \<open>
  Past the checks, an escrow that is created locks the requested stroops on the chain and in the
  table, but with the default fee on the chain and the configured one in the table and the reply.
\<close>

theorem open_escrow_fees_diverge:
  assumes "honest rpc"
  shows "wp (open_escrow rpc timeoutMs default_bps uuid public_key enc recipient agnt n asset feeBps)
    (\<lambda>o' v. \<exists>key e. status_of o' = Some 201 \<and> escrows (db v) = escrows (db w) @ [e] \<and> e_amount e = n \<and> e_fee_bps e = feeBps
        \<and> e_status e = ''pending'' \<and> chain_log v = chain_log w @ [CreateEscrow key recipient agnt n default_bps])
    (\<lambda>_ v. db v = db w) w"
  unfolding open_escrow_def createEscrow_def wp_bnd
  by (rule wp_submitCall [OF assms]) (auto simp: wps insert_escrow_def split: if_splits)

lemma open_escrow_fees_diverge_witness:
  "wp (open_escrow good_rpc 30000 250 ''e1'' ''GS'' ''key'' ''GR'' ''GA'' 1000000000 ''USDC'' 100)
    (\<lambda>o' v. \<exists>key e. status_of o' = Some 201 \<and> escrows (db v) = escrows (db init_world) @ [e] \<and> e_amount e = 1000000000 \<and> e_fee_bps e = 100
        \<and> e_status e = ''pending'' \<and> chain_log v = chain_log init_world @ [CreateEscrow key ''GR'' ''GA'' 1000000000 250])
    (\<lambda>_ v. db v = db init_world) init_world"
  by (rule open_escrow_fees_diverge) (rule good_rpc_honest)

text \<open>The update of a confirmation, as the invariant sees it.\<close>

definition completed_by :: "string \<Rightarrow> int \<Rightarrow> escrow \<Rightarrow> escrow" where
  "completed_by hash t e = e\<lparr>e_status := ''completed'', e_confirm_tx_hash := Some hash, e_confirmed := Some t\<rparr>"

lemma wp_confirm:
  assumes "honest rpc"
    and "\<And>o' v. db v = db w \<Longrightarrow> set (chain_log w) \<subseteq> set (chain_log v) \<Longrightarrow> status_of o' \<noteq> Some 200 \<Longrightarrow> Q o' v"
    and "\<And>o' v e key h t. escrow_by_id (db w) i = Some e \<Longrightarrow> e_status e = ''pending'' \<Longrightarrow>
      chain_log v = chain_log w @ [ConfirmPayout key (e_contract_id e)] \<Longrightarrow>
      db v = set_escrow i (completed_by h t) (db w) \<Longrightarrow> status_of o' \<noteq> Some 200 \<Longrightarrow> Q o' v"
  shows "wp (confirm rpc timeoutMs u i) Q E w"
  unfolding confirm_def confirmPayout_def
  by (auto simp: wps execCols_def selectCols_def unknown_def table_columns_def
      split: option.splits intro!: wp_submitCall [OF assms(1)]
      intro: assms(2) assms(3) [unfolded completed_by_def [abs_def]])

lemma wp_cancel:
  assumes "honest rpc"
  shows "wp (cancel rpc timeoutMs u i)
    (\<lambda>o' v. status_of o' \<noteq> Some 200 \<and> db v = db w \<and>
       (chain_log v = chain_log w \<or> (\<exists>e key. escrow_by_id (db w) i = Some e \<and> e_status e = ''pending''
          \<and> e_sender e \<in> set (wallets_of (db w) (usr_id u)) \<and> e_created e + CANCEL_WINDOW \<le> now w
          \<and> chain_log v = chain_log w @ [CancelEscrow key (e_contract_id e)])))
    (\<lambda>_ _. False) w"
  unfolding cancel_def cancelEscrow_def Let_def
  by (auto simp: wps execCols_def selectCols_def unknown_def table_columns_def wallets_of_def find_Some_iff not_less
      split: option.splits intro!: wp_submitCall [OF assms]; force)

text \<open>
  Cancelling never records anything: the update names a column the table lacks, so whatever
  happens on the chain the row stays as it was, and no request is answered with success.
\<close>

theorem cancel_never_recorded:
  assumes "honest rpc"
  shows "wp (cancel rpc timeoutMs u i)
    (\<lambda>o' v. status_of o' \<noteq> Some 200 \<and> db v = db w \<and>
       (chain_log v = chain_log w \<or> (\<exists>e key. escrow_by_id (db w) i = Some e \<and> e_status e = ''pending''
          \<and> e_sender e \<in> set (wallets_of (db w) (usr_id u)) \<and> e_created e + CANCEL_WINDOW \<le> now w
          \<and> chain_log v = chain_log w @ [CancelEscrow key (e_contract_id e)])))
    (\<lambda>_ _. False) w"
  by (rule wp_cancel [OF assms])

lemma cancel_never_recorded_witness:
  "let w = init_world\<lparr>db := empty_db\<lparr>escrows := [sample_escrow]\<rparr>, now := 200000000\<rparr> in
   wp (cancel good_rpc 30000 \<lparr>usr_id = ''u'', usr_role = ''user'', usr_wallet = None\<rparr> ''e1'')
    (\<lambda>o' v. status_of o' \<noteq> Some 200 \<and> db v = db w \<and>
       (chain_log v = chain_log w \<or> (\<exists>e key. escrow_by_id (db w) ''e1'' = Some e \<and> e_status e = ''pending''
          \<and> e_sender e \<in> set (wallets_of (db w) (usr_id \<lparr>usr_id = ''u'', usr_role = ''user'', usr_wallet = None\<rparr>)) \<and> e_created e + CANCEL_WINDOW \<le> now w
          \<and> chain_log v = chain_log w @ [CancelEscrow key (e_contract_id e)])))
    (\<lambda>_ _. False) w"
  unfolding Let_def by (rule cancel_never_recorded) (rule good_rpc_honest)

text \<open>
  And it does happen: once the window is over, a cancellation the network applies refunds the
  sender on the chain while the row still says pending, so it can be asked for again.
\<close>

theorem cancel_diverges:
  assumes "faults w = []" and "escrow_by_id (db w) i = Some e" and "e_status e = ''pending''"
    and "find (\<lambda>wal. w_user wal = usr_id u \<and> w_public_key wal = e_sender e) (wallets (db w)) = Some wal"
    and "e_created e + CANCEL_WINDOW \<le> now w"
    and "sb_decrypt rpc (w_secret wal) = Inr key"
    and "sb_prepare rpc (chain_log w) (CancelEscrow key (e_contract_id e)) = None"
    and "sb_applied rpc (chain_log w) (CancelEscrow key (e_contract_id e))"
  shows "wp (cancel rpc timeoutMs u i)
    (\<lambda>o' v. status_of o' \<noteq> Some 200 \<and> escrow_by_id (db v) i = Some e \<and> e_status e = ''pending''
       \<and> chain_log v = chain_log w @ [CancelEscrow key (e_contract_id e)]) (\<lambda>_ _. False) w"
proof -
  let ?Q = "\<lambda>v. chain_log v = chain_log w @ [CancelEscrow key (e_contract_id e)] \<and> db v = db w"
  have s: "wp (submitCall rpc escrow_error ''cancel_escrow'' timeoutMs (w_secret wal) (\<lambda>key. CancelEscrow key (e_contract_id e)))
      (\<lambda>_. ?Q) (\<lambda>_. ?Q) w"
    using wp_submitCall_applied [of rpc "w_secret wal" key w "\<lambda>key. CancelEscrow key (e_contract_id e)" escrow_error "''cancel_escrow''" timeoutMs]
      keeps_submitCall [of "\<lambda>d. d = db w" rpc escrow_error "''cancel_escrow''" timeoutMs "w_secret wal" "\<lambda>key. CancelEscrow key (e_contract_id e)"] assms(6-8)
    by (auto simp: keeps_def wp_def split: prod.splits sum.splits)
  show ?thesis
    unfolding cancel_def cancelEscrow_def Let_def using assms(1-5)
    by (auto simp: wps execCols_def unknown_def table_columns_def split: option.splits intro!: wp_mono [OF s])
qed

lemma cancel_diverges_witness:
  "let wal = \<lparr>w_id = ''w1'', w_user = ''u'', w_public_key = ''GS'', w_secret = ''k'', w_default = True, w_created = 0\<rparr>;
       w = init_world\<lparr>db := empty_db\<lparr>escrows := [sample_escrow], wallets := [wal]\<rparr>, now := 200000000\<rparr> in
   wp (cancel good_rpc 30000 \<lparr>usr_id = ''u'', usr_role = ''user'', usr_wallet = None\<rparr> ''e1'')
    (\<lambda>o' v. status_of o' \<noteq> Some 200 \<and> escrow_by_id (db v) ''e1'' = Some sample_escrow \<and> e_status sample_escrow = ''pending''
       \<and> chain_log v = chain_log w @ [CancelEscrow ''k'' (e_contract_id sample_escrow)]) (\<lambda>_ _. False) w"
  unfolding Let_def
  by (rule cancel_diverges [where wal = "\<lparr>w_id = ''w1'', w_user = ''u'', w_public_key = ''GS'', w_secret = ''k'', w_default = True, w_created = 0\<rparr>"])
     (simp_all add: init_world_def escrow_by_id_def sample_escrow_def CANCEL_WINDOW_def good_rpc_def)

text \<open>The moments a release may end in: nothing recorded, or the guarded update.\<close>

definition released :: "(jsnum \<Rightarrow> int) \<Rightarrow> req_user \<Rightarrow> string \<Rightarrow> jsnum \<Rightarrow> world \<Rightarrow> world \<Rightarrow> bool" where
  "released pg u i amt w v \<longleftrightarrow> (\<exists>e. escrow_by_id (db w) i = Some e \<and> e_status e = ''pending'' \<and> usr_wallet u = Some (e_sender e) \<and>
      is_finite amt \<and> \<not> jle amt (Fin 0) \<and> \<not> jlt (jsub (stroops (e_amount e)) (stroops (e_released e))) amt \<and>
      db v = set_escrow i (\<lambda>e'. e'\<lparr>e_released := pg (jadd (stroops (e_released e)) amt)\<rparr>) (db w))"

lemma wp_partialRelease:
  "wp (partialRelease pg u i amt) (\<lambda>o' v. chain_log v = chain_log w \<and>
      (if status_of o' = Some 200 then released pg u i amt w v else db v = db w))
    (\<lambda>_ v. chain_log v = chain_log w \<and> db v = db w) w"
proof -
  let ?Q = "\<lambda>o' v. chain_log v = chain_log w \<and> (if status_of o' = Some 200 then released pg u i amt w v else db v = db w)"
  have b: "wp (release_body pg u i amt (db w)) ?Q (\<lambda>_ v. chain_log v = chain_log w) v"
    if "is_finite amt" "\<not> jle amt (Fin 0)" "db v = db w" "chain_log v = chain_log w" for v
    using that unfolding release_body_def Let_def
    by (simp add: wps released_def split: option.split)
  show ?thesis
    unfolding partialRelease_def
    by (auto simp: wps intro!: wp_mono [OF b])
qed

text \<open>What the driver and the database make of a double: monotone, and exact near an amount of stroops.\<close>

definition stores :: "(jsnum \<Rightarrow> int) \<Rightarrow> bool" where
  "stores pg \<longleftrightarrow> (\<forall>x y. x \<le> y \<longrightarrow> pg (Fin x) \<le> pg (Fin y)) \<and>
     (\<forall>n x. money n \<and> \<bar>x - of_int n / 10 ^ 7\<bar> \<le> 1 / (4 * 10 ^ 7) \<longrightarrow> pg (Fin x) = n)"

definition escrow_ok :: "escrow \<Rightarrow> bool" where
  "escrow_ok e \<longleftrightarrow> e_amount e < 2 ^ 26 * 10 ^ 7 \<and> 0 \<le> e_released e \<and> e_released e \<le> e_amount e"

lemma fixed7_stores: "stores (\<lambda>x. case x of Fin r \<Rightarrow> fixed 7 r | _ \<Rightarrow> 0)"
  unfolding stores_def by (auto intro!: fixed_mono fixed_near simp: field_simps)

text \<open>An amount not above the remaining double keeps the sum within the stroop of the total.\<close>

lemma release_bound:
  assumes "T < 2 ^ 26 * 10 ^ 7" and "0 \<le> R" and "R \<le> T" and "x \<le> rnd53 (dbl T - dbl R)" and "0 \<le> x"
  shows "rnd53 (dbl R + x) \<le> of_int T / 10 ^ 7 + 1 / (4 * 10 ^ 7)" and "\<bar>dbl R + x\<bar> \<le> 2 ^ 1000" and "dbl R \<le> rnd53 (dbl R + x)"
proof -
  have "of_int T < (of_int (2 ^ 26 * 10 ^ 7) :: rat)" using assms(1) by (simp only: of_int_less_iff)
  then have t: "\<bar>of_int T / 10 ^ 7 :: rat\<bar> < 2 powi 26" using assms(2,3) by (simp add: power_int_def)
  from rnd53_err [OF t] have e0: "\<bar>dbl T - of_int T / 10 ^ 7\<bar> \<le> 1 / 2 ^ 28"
    by (simp add: dbl_def power_int_def power_one_over inverse_eq_divide)
  have T: "dbl T \<le> 2 ^ 26" using rnd53_bound [of "of_int T / 10 ^ 7" 26] t by (simp add: dbl_def power_int_def)
  have d: "0 \<le> dbl R" "dbl R \<le> dbl T" using dbl_mono [of 0 R] dbl_mono [of R T] assms(2,3) by simp_all
  have "\<bar>dbl T - dbl R\<bar> < 2 powi 27" using d T by (simp add: power_int_def)
  from rnd53_err [OF this] have e1: "\<bar>rnd53 (dbl T - dbl R) - (dbl T - dbl R)\<bar> \<le> 1 / 2 ^ 27"
    by (simp add: power_int_def power_one_over inverse_eq_divide)
  have "\<bar>dbl R + rnd53 (dbl T - dbl R)\<bar> < 2 powi 27"
    using d T abs_le_D1 [OF e1] abs_le_D2 [OF e1] by (simp add: power_int_def abs_less_iff)
  from rnd53_err [OF this] have e2: "\<bar>rnd53 (dbl R + rnd53 (dbl T - dbl R)) - (dbl R + rnd53 (dbl T - dbl R))\<bar> \<le> 1 / 2 ^ 27"
    by (simp add: power_int_def power_one_over inverse_eq_divide)
  have "rnd53 (dbl R + x) \<le> rnd53 (dbl R + rnd53 (dbl T - dbl R))" using assms(4) by (intro rnd53_mono) simp
  then show "rnd53 (dbl R + x) \<le> of_int T / 10 ^ 7 + 1 / (4 * 10 ^ 7)"
    using abs_le_D1 [OF e1] abs_le_D1 [OF e2] abs_le_D1 [OF e0] by simp
  show "\<bar>dbl R + x\<bar> \<le> 2 ^ 1000" using assms(4,5) d T abs_le_D1 [OF e1] by simp
  have "rnd53 (dbl R) \<le> rnd53 (dbl R + x)" using assms(5) by (intro rnd53_mono) simp
  then show "dbl R \<le> rnd53 (dbl R + x)" by (simp add: dbl_def rnd53_idem)
qed

lemma release_keeps_ok:
  assumes "stores pg" and "escrow_ok e" and "is_finite amt" and "\<not> jle amt (Fin 0)"
    and "\<not> jlt (jsub (stroops (e_amount e)) (stroops (e_released e))) amt"
  shows "escrow_ok (e\<lparr>e_released := pg (jadd (stroops (e_released e)) amt)\<rparr>)"
proof -
  define T R where "T = e_amount e" and "R = e_released e"
  obtain x where x: "amt = Fin x" using assms(3) by (cases amt) simp_all
  have TR: "T < 2 ^ 26 * 10 ^ 7" "0 \<le> R" "R \<le> T" using assms(2) by (simp_all add: escrow_ok_def T_def R_def)
  have m: "money T" "money R" "money (T - R)" using TR by (simp_all add: money_def)
  have x0: "0 \<le> x" using assms(4) x by simp
  have le: "x \<le> rnd53 (dbl T - dbl R)"
    using assms(5) x jsub_stroops(1) [OF m] by (simp add: T_def R_def not_less)
  note b = release_bound [OF TR le x0]
  have add: "jadd (stroops R) amt = Fin (rnd53 (dbl R + x))" using m x b(2) by (simp add: stroops_dbl mk_Fin)
  have mono: "pg (Fin a) \<le> pg (Fin c)" if "a \<le> c" for a c using assms(1) that by (simp add: stores_def)
  have near: "pg (Fin a) = n" if "money n" "\<bar>a - of_int n / 10 ^ 7\<bar> \<le> 1 / (4 * 10 ^ 7)" for a n
    using assms(1) that unfolding stores_def by blast
  have "pg (Fin (rnd53 (dbl R + x))) \<le> pg (Fin (of_int T / 10 ^ 7 + 1 / (4 * 10 ^ 7)))" by (rule mono) (rule b(1))
  also have "\<dots> = T" by (rule near [OF m(1)]) simp
  finally have up: "pg (Fin (rnd53 (dbl R + x))) \<le> T" .
  have "0 \<le> rnd53 (dbl R + x)" using b(3) dbl_mono [of 0 R] TR(2) by simp
  then have "pg (Fin 0) \<le> pg (Fin (rnd53 (dbl R + x)))" by (rule mono)
  moreover have "pg (Fin 0) = 0" by (rule near) (simp_all add: money_def)
  ultimately show ?thesis using up TR add by (simp add: escrow_ok_def T_def R_def)
qed

text \<open>
  C13: partial releases never pay out more than an escrow holds: whatever the amounts asked for and
  whatever fails, the released total of every escrow stays between 0 and its amount.
\<close>

theorem partialRelease_bounded:
  assumes "stores pg" and "\<And>e. e \<in> set (escrows (db w)) \<Longrightarrow> escrow_ok e" and "distinct (map e_id (escrows (db w)))"
  shows "wp (partialRelease pg u i amt) (\<lambda>_ v. list_all escrow_ok (escrows (db v)))
    (\<lambda>_ v. list_all escrow_ok (escrows (db v))) w"
proof (rule wp_mono [OF wp_partialRelease])
  fix o' v assume a: "chain_log v = chain_log w \<and> (if status_of o' = Some 200 then released pg u i amt w v else db v = db w)"
  show "list_all escrow_ok (escrows (db v))"
  proof (cases "status_of o' = Some 200")
    case True
    then obtain e where e: "escrow_by_id (db w) i = Some e" "is_finite amt" "\<not> jle amt (Fin 0)"
        "\<not> jlt (jsub (stroops (e_amount e)) (stroops (e_released e))) amt"
        "db v = set_escrow i (\<lambda>e'. e'\<lparr>e_released := pg (jadd (stroops (e_released e)) amt)\<rparr>) (db w)"
      using a by (auto simp: released_def)
    have ein: "e \<in> set (escrows (db w))" using e(1) by (auto simp: escrow_by_id_def find_Some_iff)
    have ok: "escrow_ok (e'\<lparr>e_released := pg (jadd (stroops (e_released e)) amt)\<rparr>)" if "e' \<in> set (escrows (db w))" "e_id e' = i" for e'
    proof -
      have "e_id e = i" using e(1) by (auto simp: escrow_by_id_def find_Some_iff)
      then have "e' = e" using assms(3) ein that by (auto simp: distinct_map inj_on_def)
      then show ?thesis using release_keeps_ok [OF assms(1) assms(2) [OF ein] e(2-4)] by simp
    qed
    show ?thesis using assms(2) ok e(5) by (auto simp: list_all_iff set_escrow_def set_update_where)
  qed (use a assms(2) in \<open>auto simp: list_all_iff\<close>)
qed (use assms(2) in \<open>auto simp: list_all_iff\<close>)

lemma partialRelease_bounded_witness:
  "let pg = (\<lambda>x. case x of Fin r \<Rightarrow> fixed 7 r | _ \<Rightarrow> 0); w = init_world\<lparr>db := empty_db\<lparr>escrows := [sample_escrow]\<rparr>\<rparr>;
       u = \<lparr>usr_id = ''u'', usr_role = ''user'', usr_wallet = Some ''GS''\<rparr> in
   wp (partialRelease pg u ''e1'' (stroops 250000000)) (\<lambda>_ v. list_all escrow_ok (escrows (db v)))
    (\<lambda>_ v. list_all escrow_ok (escrows (db v))) w"
  unfolding Let_def
  by (rule partialRelease_bounded) (simp_all add: fixed7_stores escrow_ok_def sample_escrow_def)

text \<open>
  The roles the users table admits (its check constraint), and a request behind the authentication:
  the role is the one of the table, and the tokens the server signs carry no wallet.
\<close>

definition roles_ok :: "database \<Rightarrow> bool" where
  "roles_ok d \<longleftrightarrow> (\<forall>x \<in> set (users d). u_role x \<in> {''user'', ''admin''})"

definition authenticated :: "database \<Rightarrow> req_user \<Rightarrow> bool" where
  "authenticated d u \<longleftrightarrow> (\<exists>x \<in> set (users d). u_id x = usr_id u \<and> u_role x = usr_role u) \<and> usr_wallet u = None"


definition sample_user :: user where
  "sample_user = \<lparr>u_id = ''u'', u_email = ''a@b.c'', u_full_name = ''A'', u_role = ''user'', u_kyc_status = ''unverified'',
     u_kyc_identity = None, u_kyc_submitted = None, u_kyc_expiry = None, u_kyc_reminders = [], u_phone_verified = True, u_suspended = False,
     u_suspension_reason = None, u_referral_code = None, u_referred_by = None\<rparr>"


section \<open>Every history\<close>

text \<open>The operations of the component in any order, by anyone, under any failures and delays.\<close>

inductive escrow_run :: "soroban \<Rightarrow> (jsnum \<Rightarrow> int) \<Rightarrow> world \<Rightarrow> world \<Rightarrow> bool" for rpc pg w0 where
  start: "escrow_run rpc pg w0 w0"
| opened: "escrow_run rpc pg w0 w \<Longrightarrow> open_escrow rpc t b uuid pk enc rcp agt n asset bps w = (r, w') \<Longrightarrow> escrow_run rpc pg w0 w'"
| created: "escrow_run rpc pg w0 w \<Longrightarrow> create rpc t b payment_exports co uuid u agt rcp amt asset w = (r, w') \<Longrightarrow> escrow_run rpc pg w0 w'"
| confirmed: "escrow_run rpc pg w0 w \<Longrightarrow> confirm rpc t u i w = (r, w') \<Longrightarrow> escrow_run rpc pg w0 w'"
| cancelled: "escrow_run rpc pg w0 w \<Longrightarrow> cancel rpc t u i w = (r, w') \<Longrightarrow> escrow_run rpc pg w0 w'"
| released: "escrow_run rpc pg w0 w \<Longrightarrow> partialRelease pg u i amt w = (r, w') \<Longrightarrow> escrow_run rpc pg w0 w'"
| environment: "escrow_run rpc pg w0 w \<Longrightarrow> 0 \<le> d \<Longrightarrow> escrow_run rpc pg w0 ((wait_ms d w)\<lparr>faults := f\<rparr>)"

definition settled :: "world \<Rightarrow> bool" where
  "settled w \<longleftrightarrow> distinct (map e_id (escrows (db w))) \<and> (\<forall>e \<in> set (escrows (db w)). e_status e = ''pending'' \<or>
     e_status e = ''completed'' \<and> (\<exists>key. ConfirmPayout key (e_contract_id e) \<in> set (chain_log w)))"

lemma settled_mono: "settled w \<Longrightarrow> escrows (db v) = escrows (db w) \<Longrightarrow> set (chain_log w) \<subseteq> set (chain_log v) \<Longrightarrow> settled v"
  by (simp add: settled_def) blast

lemma map_id_set_escrow:
  "(\<And>e. e_id (f e) = e_id e) \<Longrightarrow> map e_id (escrows (set_escrow i f d)) = map e_id (escrows d)"
  by (simp add: set_escrow_def update_where_def)

text \<open>An update that keeps the contract id and the status, or that is covered by a call of the log.\<close>

lemma settled_update:
  assumes "settled w" and "escrow_by_id (db w) i = Some e" and "db v = set_escrow i f (db w)"
    and "set (chain_log w) \<subseteq> set (chain_log v)" and "\<And>e. e_id (f e) = e_id e \<and> e_contract_id (f e) = e_contract_id e"
    and "(\<forall>e. e_status (f e) = e_status e) \<or> e_status (f e) = ''completed'' \<and> (\<exists>key. ConfirmPayout key (e_contract_id e) \<in> set (chain_log v))"
  shows "settled v"
proof -
  have "distinct (map e_id (escrows (db v)))"
    using assms(1,3,5) by (simp add: settled_def map_id_set_escrow)
  moreover have "e_status x = ''pending'' \<or> e_status x = ''completed'' \<and> (\<exists>key. ConfirmPayout key (e_contract_id x) \<in> set (chain_log v))"
    if x: "x \<in> set (escrows (db v))" for x
  proof -
    obtain y where y: "y \<in> set (escrows (db w))" "x = (if e_id y = i then f y else y)"
      using x assms(3) by (auto simp: set_escrow_def set_update_where)
    have old: "e_status y = ''pending'' \<or> e_status y = ''completed'' \<and> (\<exists>key. ConfirmPayout key (e_contract_id y) \<in> set (chain_log v))"
      using assms(1,4) y(1) unfolding settled_def by blast
    show ?thesis
    proof (cases "e_id y = i")
      case True
      have e: "e \<in> set (escrows (db w))" "e_id e = i" using assms(2) by (auto simp: escrow_by_id_def find_Some_iff)
      then have "y = e" using assms(1) y(1) True by (auto simp: settled_def distinct_map inj_on_def)
      then show ?thesis using assms(5,6) y(2) True old by auto
    qed (use old y(2) in simp)
  qed
  ultimately show ?thesis by (simp add: settled_def)
qed

lemma wp_keeps_settled:
  assumes "wp m (\<lambda>_. settled) (\<lambda>_. settled) w" and "m w = (r, w')"
  shows "settled w'"
  using assms by (cases r) (simp_all add: wp_def)

lemma settled_open:
  assumes "honest rpc" and "settled w"
  shows "wp (open_escrow rpc t b uuid pk enc rcp agt n asset bps) (\<lambda>_. settled) (\<lambda>_. settled) w"
  unfolding open_escrow_def createEscrow_def wp_bnd
  by (rule wp_submitCall [OF assms(1)])
     (use assms(2) in \<open>auto simp: wps insert_escrow_def settled_def split: if_splits\<close>)

lemma settled_confirm:
  assumes "honest rpc" and "settled w"
  shows "wp (confirm rpc t u i) (\<lambda>_. settled) (\<lambda>_. settled) w"
proof (rule wp_confirm [OF assms(1)])
  fix v :: world and e key h t'
  assume a: "escrow_by_id (db w) i = Some e" "chain_log v = chain_log w @ [ConfirmPayout key (e_contract_id e)]"
    "db v = set_escrow i (completed_by h t') (db w)"
  show "settled v"
    by (rule settled_update [OF assms(2) a(1,3)]) (use a(2) in \<open>auto simp: completed_by_def\<close>)
qed (use assms(2) in \<open>auto elim: settled_mono\<close>)

lemma settled_cancel:
  assumes "honest rpc" and "settled w"
  shows "wp (cancel rpc t u i) (\<lambda>_. settled) (\<lambda>_. settled) w"
  by (rule wp_mono [OF wp_cancel [OF assms(1)]]) (use assms(2) in \<open>auto elim: settled_mono\<close>)

lemma settled_release:
  assumes "settled w"
  shows "wp (partialRelease pg u i amt) (\<lambda>_. settled) (\<lambda>_. settled) w"
  by (rule wp_mono [OF wp_partialRelease])
     (use assms in \<open>auto simp: released_def split: if_splits elim: settled_mono settled_update\<close>)

lemma settled_run:
  assumes "escrow_run rpc pg w0 w" and "honest rpc" and "settled w0"
  shows "settled w"
  using assms
proof (induction rule: escrow_run.induct)
  case (opened w t b uuid pk enc rcp agt n asset bps r w')
  then show ?case using wp_keeps_settled [OF settled_open] by blast
next
  case (created w t b co uuid u agt rcp amt asset r w')
  have "settled w" using created by blast
  then have "wp (create rpc t b payment_exports co uuid u agt rcp amt asset) (\<lambda>_. settled) (\<lambda>_. settled) w"
    by (intro wp_create) (auto elim: settled_mono)
  then show ?case using created(2) by (rule wp_keeps_settled)
next
  case (confirmed w t u i r w')
  then show ?case using wp_keeps_settled [OF settled_confirm] by blast
next
  case (cancelled w t u i r w')
  then show ?case using wp_keeps_settled [OF settled_cancel] by blast
next
  case (released w u i amt r w')
  then show ?case using wp_keeps_settled [OF settled_release] by blast
next
  case (environment w d f)
  then show ?case by (simp add: settled_def wait_ms_def)
qed simp

text \<open>
  C3: over every history of the operations, by anyone and under any failures, an escrow of the table
  is pending or completed, and it is completed only if its payout was confirmed on the chain.
\<close>

theorem completed_only_after_confirmation:
  assumes "escrow_run rpc pg w0 w" and "honest rpc" and "escrows (db w0) = []" and "e \<in> set (escrows (db w))"
  shows "e_status e = ''pending'' \<or> e_status e = ''completed'' \<and> (\<exists>key. ConfirmPayout key (e_contract_id e) \<in> set (chain_log w))"
proof -
  have "settled w" by (rule settled_run [OF assms(1,2)]) (simp add: settled_def assms(3))
  then show ?thesis using assms(4) by (auto simp: settled_def)
qed

lemma completed_only_after_confirmation_witness:
  "let u = \<lparr>usr_id = ''ua'', usr_role = ''agent'', usr_wallet = None\<rparr>;
       w1 = snd (open_escrow good_rpc 30000 250 ''e1'' ''GS'' ''k'' ''GR'' ''GA'' 1000000000 ''USDC'' 250 init_world);
       w2 = snd (confirm good_rpc 30000 u ''e1'' w1)
   in list_all (\<lambda>e. e_status e = ''pending'' \<or>
     e_status e = ''completed'' \<and> (\<exists>key. ConfirmPayout key (e_contract_id e) \<in> set (chain_log w2))) (escrows (db w2))"
  unfolding Let_def list_all_iff
  by (intro ballI, rule completed_only_after_confirmation [OF escrow_run.confirmed [OF escrow_run.opened
      [OF escrow_run.start prod.collapse [symmetric]] prod.collapse [symmetric]] good_rpc_honest])
     (simp_all add: init_world_def empty_db_def)

end
