(* ===== verification/Fraud.thy ===== *)
theory Fraud
  imports Cache Fees
begin

text \<open>
  \<^verbatim>\<open>services/fraudDetection.js\<close>: the rule engine payments are screened by. Rules come from the cache, the
  table, or the last set that was loaded; shadow rules are evaluated and logged but never block.
  The specification \<open>first_block\<close> says which rule decides; the theorems relate the engine to it.
\<close>

section \<open>Rules\<close>

record fraud_env =
  xlm_usd_rate :: jsnum
  fail_closed_threshold :: jsnum
  daily_limit_usd :: jsnum
  window_hours :: int
  max_tx :: int

text \<open>A message is kept as its template and arguments.\<close>

datatype fraud_message = TooMany jsnum jsnum | OverSingle jsnum jsnum | OverDaily jsnum jsnum

text \<open>\<open>parseFloat(amount) || 0\<close>, priced by the asset.\<close>

definition toUsd :: "fraud_env \<Rightarrow> jsnum \<Rightarrow> string \<Rightarrow> jsnum" where
  "toUsd env amt asset = (let n = jor amt (Fin 0) in
     if asset = ''USDC'' then n else if asset = ''XLM'' then jmul n (xlm_usd_rate env) else Fin 0)"

definition RULES_CACHE_KEY :: string where
  "RULES_CACHE_KEY = ''fraud:rules''"

definition RULES_CACHE_TTL :: int where
  "RULES_CACHE_TTL = 300"

definition set_last_rules :: "fraud_rule list \<Rightarrow> (world, unit) proc" where
  "set_last_rules rs = modify (\<lambda>w. w\<lparr>last_rules := Some rs\<rparr>)"

definition active_rules :: "database \<Rightarrow> fraud_rule list" where
  "active_rules d = filter fr_active (fraud_rules d)"

definition loadRules :: "(world, fraud_rule list) proc" where
  "loadRules = bnd (cacheGet RULES_CACHE_KEY) (\<lambda>c. case c of
       Some (CRules rs) \<Rightarrow> andThen (set_last_rules rs) (ret rs)
     | _ \<Rightarrow> bnd (select (\<lambda>w. active_rules (db w))) (\<lambda>rs.
         andThen (set_last_rules rs) (andThen (cacheSet RULES_CACHE_KEY (CRules rs) RULES_CACHE_TTL) (ret rs))))"

definition invalidateRulesCache :: "(world, unit) proc" where
  "invalidateRulesCache = cacheDel RULES_CACHE_KEY"

section \<open>Evaluators\<close>

definition sent_within :: "jsnum \<Rightarrow> int \<Rightarrow> transaction \<Rightarrow> bool" where
  "sent_within minutes t r \<longleftrightarrow> jlt (jsub (Fin (of_int t)) (jmul minutes (Fin 60000))) (Fin (of_int (t_created r)))"

definition velocity_count :: "string \<Rightarrow> jsnum \<Rightarrow> int \<Rightarrow> database \<Rightarrow> nat" where
  "velocity_count wlt minutes t d = length (filter (\<lambda>r. t_sender r = wlt \<and> sent_within minutes t r
     \<and> t_status r \<noteq> ''failed'' \<and> t_status r \<noteq> ''cancelled'') (transactions d))"

text \<open>\<open>SUM(amount)\<close> over every asset.\<close>

definition sent_total :: "string \<Rightarrow> int \<Rightarrow> database \<Rightarrow> int" where
  "sent_total wlt t d = sum_list (map t_amount (filter (\<lambda>r. t_sender r = wlt \<and> t - 24 * 3600000 < t_created r
     \<and> t_status r \<noteq> ''cancelled'') (transactions d)))"

definition eval_velocity :: "rule_params \<Rightarrow> nat \<Rightarrow> (fraud_message \<times> jsnum option) option" where
  "eval_velocity p n = (case p of
     VelocityParams mx minutes \<Rightarrow> if jle mx (Fin (of_nat n)) then Some (TooMany mx minutes, Some (jmul minutes (Fin 60))) else None
   | MaxUsdParams _ \<Rightarrow> None)"

definition eval_amount :: "fraud_env \<Rightarrow> rule_params \<Rightarrow> jsnum \<Rightarrow> string \<Rightarrow> (fraud_message \<times> jsnum option) option" where
  "eval_amount env p amt asset = (case p of
     MaxUsdParams mx \<Rightarrow> let usd = toUsd env amt asset in if jlt mx usd then Some (OverSingle usd mx, None) else None
   | VelocityParams _ _ \<Rightarrow> None)"

definition eval_daily :: "fraud_env \<Rightarrow> rule_params \<Rightarrow> int \<Rightarrow> jsnum \<Rightarrow> string \<Rightarrow> (fraud_message \<times> jsnum option) option" where
  "eval_daily env p sent amt asset = (case p of
     MaxUsdParams mx \<Rightarrow> let usd = jadd (toUsd env (stroops sent) asset) (toUsd env amt asset) in
       if jlt mx usd then Some (OverDaily mx usd, None) else None
   | VelocityParams _ _ \<Rightarrow> None)"

definition rule_minutes :: "rule_params \<Rightarrow> jsnum" where
  "rule_minutes p = (case p of VelocityParams _ m \<Rightarrow> m | MaxUsdParams _ \<Rightarrow> NaN)"

text \<open>\<open>None\<close>: no evaluator for the type. An evaluator queries, then decides.\<close>

definition evaluator :: "fraud_env \<Rightarrow> fraud_rule \<Rightarrow> string \<Rightarrow> jsnum \<Rightarrow> string
    \<Rightarrow> (world, (fraud_message \<times> jsnum option) option) proc option" where
  "evaluator env rule wlt amt asset =
     (if fr_type rule = ''velocity'' then Some (bnd (select (\<lambda>w. velocity_count wlt (rule_minutes (fr_params rule)) (now w) (db w)))
        (\<lambda>n. ret (eval_velocity (fr_params rule) n)))
      else if fr_type rule = ''amount'' then Some (ret (eval_amount env (fr_params rule) amt asset))
      else if fr_type rule = ''daily_limit'' then Some (bnd (select (\<lambda>w. sent_total wlt (now w) (db w)))
        (\<lambda>n. ret (eval_daily env (fr_params rule) n amt asset)))
      else None)"

section \<open>The check\<close>

record fraud_verdict =
  fv_rule :: string
  fv_type :: string
  fv_message :: fraud_message
  fv_retry :: "jsnum option"

definition log_check :: "fraud_rule \<Rightarrow> string \<Rightarrow> bool \<Rightarrow> (world, unit) proc" where
  "log_check rule wlt triggered = ignore (exec (\<lambda>w. (db w)\<lparr>fraud_checks := fraud_checks (db w) @
     [\<lparr>fk_rule = fr_name rule, fk_type = fr_type rule,
       fk_outcome = (if fr_mode rule = ''shadow'' then (if triggered then ''shadow_blocked'' else ''shadow_passed'')
         else if triggered then ''blocked'' else ''passed''),
       fk_wallet = wlt, fk_mode = (if fr_mode rule = [] then ''active'' else fr_mode rule), fk_would_block = triggered,
       fk_created = now w\<rparr>]\<rparr>))"

fun check_rules :: "fraud_env \<Rightarrow> string \<Rightarrow> jsnum \<Rightarrow> string \<Rightarrow> fraud_rule list \<Rightarrow> (world, fraud_verdict option) proc" where
  "check_rules env wlt amt asset [] = ret None"
| "check_rules env wlt amt asset (rule # rules) =
     (case evaluator env rule wlt amt asset of
        None \<Rightarrow> check_rules env wlt amt asset rules
      | Some ev \<Rightarrow> bnd (catch (bnd ev (\<lambda>r. ret (Some r))) (\<lambda>_. ret None)) (\<lambda>res. case res of
          None \<Rightarrow> check_rules env wlt amt asset rules
        | Some None \<Rightarrow> andThen (log_check rule wlt False) (check_rules env wlt amt asset rules)
        | Some (Some (msg, retry)) \<Rightarrow> andThen (log_check rule wlt True)
            (if fr_mode rule = ''shadow'' then check_rules env wlt amt asset rules
             else ret (Some \<lparr>fv_rule = fr_name rule, fv_type = fr_type rule, fv_message = msg, fv_retry = retry\<rparr>))))"

definition unavailable :: jserr where
  "unavailable = withStatus 503 (mkError ''Fraud screening is temporarily unavailable. Please try again later.'')"

definition checkFraud :: "fraud_env \<Rightarrow> string \<Rightarrow> jsnum \<Rightarrow> string \<Rightarrow> (world, fraud_verdict option) proc" where
  "checkFraud env wlt amt asset =
     bnd (catch (bnd loadRules (\<lambda>rs. ret (Some rs))) (\<lambda>_. gets last_rules)) (\<lambda>rules. case rules of
       Some rs \<Rightarrow> check_rules env wlt amt asset rs
     | None \<Rightarrow> if jlt (fail_closed_threshold env) (toUsd env amt asset) then throw unavailable else ret None)"

section \<open>The older checks and the report\<close>

definition checkVelocity :: "fraud_env \<Rightarrow> string \<Rightarrow> (world, bool) proc" where
  "checkVelocity env wlt = bnd (select (\<lambda>w. length (filter (\<lambda>r. t_sender r = wlt
       \<and> now w - window_hours env * 3600000 < t_created r \<and> t_status r \<noteq> ''failed'' \<and> t_status r \<noteq> ''cancelled'') (transactions (db w)))))
     (\<lambda>n. ret (max_tx env \<le> int n))"

definition checkDailyLimit :: "fraud_env \<Rightarrow> string \<Rightarrow> jsnum \<Rightarrow> string \<Rightarrow> (world, bool) proc" where
  "checkDailyLimit env wlt amt asset = bnd (select (\<lambda>w. sum_list (map t_amount (filter (\<lambda>r. t_sender r = wlt
       \<and> now w - window_hours env * 3600000 < t_created r) (transactions (db w))))))
     (\<lambda>sent. ret (jlt (daily_limit_usd env) (jadd (toUsd env (stroops sent) asset) (toUsd env amt asset))))"

text \<open>The insert names the column \<open>rule\<close>.\<close>

definition logFraudBlock :: "string \<Rightarrow> string \<Rightarrow> string \<Rightarrow> string \<Rightarrow> (world, unit) proc" where
  "logFraudBlock wlt reason amt asset = execCols ''fraud_blocks'' [''wallet_address'', ''reason'', ''rule'', ''amount'', ''asset'']
     (\<lambda>w. (db w)\<lparr>fraud_blocks := fraud_blocks (db w) @ [\<lparr>fb_wallet = wlt, fb_reason = reason, fb_amount = amt, fb_asset = asset\<rparr>]\<rparr>)"

record shadow_row =
  sr_name :: string
  sr_block :: nat
  sr_pass :: nat
  sr_all :: nat
  sr_rate :: jsnum

fun insert_name :: "string \<Rightarrow> string list \<Rightarrow> string list" where
  "insert_name n [] = [n]"
| "insert_name n (m # ms) = (if n = m then m # ms else if str_less n m then n # m # ms else m # insert_name n ms)"

definition shadow_report :: "fraud_check list \<Rightarrow> shadow_row list" where
  "shadow_report cs = map (\<lambda>n. let rows = filter (\<lambda>c. fk_rule c = n) cs; b = length (filter fk_would_block rows) in
     \<lparr>sr_name = n, sr_block = b, sr_pass = length (filter (\<lambda>c. \<not> fk_would_block c) rows), sr_all = length rows,
      sr_rate = jdiv (Fin (of_nat b)) (Fin (of_nat (length rows)))\<rparr>) (foldr (\<lambda>c. insert_name (fk_rule c)) cs [])"

definition getShadowRuleReport :: "int \<Rightarrow> (world, shadow_row list) proc" where
  "getShadowRuleReport days = bnd (select (\<lambda>w. filter (\<lambda>c. fk_mode c = ''shadow'' \<and> now w - days * 86400000 < fk_created c)
     (fraud_checks (db w)))) (\<lambda>cs. ret (shadow_report cs))"

section \<open>What decides\<close>

definition rule_triggers :: "fraud_env \<Rightarrow> int \<Rightarrow> database \<Rightarrow> string \<Rightarrow> jsnum \<Rightarrow> string \<Rightarrow> fraud_rule
    \<Rightarrow> (fraud_message \<times> jsnum option) option" where
  "rule_triggers env t d wlt amt asset rule =
     (if fr_type rule = ''velocity'' then eval_velocity (fr_params rule) (velocity_count wlt (rule_minutes (fr_params rule)) t d)
      else if fr_type rule = ''amount'' then eval_amount env (fr_params rule) amt asset
      else if fr_type rule = ''daily_limit'' then eval_daily env (fr_params rule) (sent_total wlt t d) amt asset
      else None)"

definition blocks :: "fraud_env \<Rightarrow> int \<Rightarrow> database \<Rightarrow> string \<Rightarrow> jsnum \<Rightarrow> string \<Rightarrow> fraud_rule \<Rightarrow> bool" where
  "blocks env t d wlt amt asset rule \<longleftrightarrow> fr_mode rule \<noteq> ''shadow'' \<and> rule_triggers env t d wlt amt asset rule \<noteq> None"

definition first_block :: "fraud_env \<Rightarrow> int \<Rightarrow> database \<Rightarrow> string \<Rightarrow> jsnum \<Rightarrow> string \<Rightarrow> fraud_rule list \<Rightarrow> string option" where
  "first_block env t d wlt amt asset rules = map_option fr_name (find (blocks env t d wlt amt asset) rules)"

lemma rule_triggers_cong:
  "transactions d = transactions d' \<Longrightarrow> rule_triggers env t d = rule_triggers env t d'"
  by (simp add: rule_triggers_def velocity_count_def sent_total_def fun_eq_iff)

text \<open>One evaluation: what the rule triggers, or nothing when its query fails.\<close>

lemma wp_evaluator:
  assumes "evaluator env rule wlt amt asset = Some ev"
  shows "wp ev (\<lambda>r v. r = rule_triggers env (now w) (db w) wlt amt asset rule \<and> (v = w \<or> v = ticked w)) (\<lambda>_ v. v = ticked w \<and> faulty w) w"
  using assms by (auto simp: evaluator_def rule_triggers_def wps split: if_splits)

lemma wp_log_check:
  assumes "\<And>v. transactions (db v) = transactions (db w) \<Longrightarrow> now v = now w \<Longrightarrow> (faults w = [] \<longrightarrow> faults v = []) \<Longrightarrow> Q () v"
  shows "wp (log_check rule wlt b) Q E w"
  unfolding log_check_def by (auto simp: wps intro!: assms)

text \<open>What a run over a list of rules may answer; \<open>ok\<close> when nothing can fail.\<close>

definition decided :: "bool \<Rightarrow> fraud_env \<Rightarrow> int \<Rightarrow> database \<Rightarrow> string \<Rightarrow> jsnum \<Rightarrow> string \<Rightarrow> fraud_rule list \<Rightarrow> fraud_verdict option \<Rightarrow> bool" where
  "decided ok env t d wlt amt asset rules r \<longleftrightarrow>
     (\<forall>x. r = Some x \<longrightarrow> (\<exists>rule \<in> set rules. fv_rule x = fr_name rule \<and> blocks env t d wlt amt asset rule)) \<and>
     (ok \<longrightarrow> map_option fv_rule r = first_block env t d wlt amt asset rules)"

lemma decided_Nil: "decided ok env t d wlt amt asset [] None"
  by (simp add: decided_def first_block_def)

lemma decided_skip:
  "decided ok' env t d wlt amt asset rules r \<Longrightarrow> (ok \<Longrightarrow> ok' \<and> \<not> blocks env t d wlt amt asset rule) \<Longrightarrow>
   decided ok env t d wlt amt asset (rule # rules) r"
  by (auto simp: decided_def first_block_def)

lemma decided_hit:
  "blocks env t d wlt amt asset rule \<Longrightarrow> fv_rule x = fr_name rule \<Longrightarrow> decided ok env t d wlt amt asset (rule # rules) (Some x)"
  by (simp add: decided_def first_block_def)

lemma check_rules_spec:
  assumes "transactions (db v) = transactions (db w)" and "now v = now w"
  shows "wp (check_rules env wlt amt asset rules)
    (\<lambda>r u. decided (faults v = []) env (now w) (db w) wlt amt asset rules r) (\<lambda>_ _. False) v"
  using assms
proof (induction rules arbitrary: v)
  case (Cons rule rules)
  note trig = rule_triggers_cong [OF Cons.prems(1), of env "now w"]
  have skip: "wp (check_rules env wlt amt asset rules) (\<lambda>r _. decided (faults v = []) env (now w) (db w) wlt amt asset (rule # rules) r) (\<lambda>_ _. False) u"
    if "transactions (db u) = transactions (db w)" "now u = now w" "faults v = [] \<longrightarrow> faults u = [] \<and> \<not> blocks env (now w) (db w) wlt amt asset rule"
    for u
    by (rule wp_mono [OF Cons.IH [OF that(1,2)]]) (use that(3) in \<open>auto elim: decided_skip\<close>)
  show ?case
  proof (cases "evaluator env rule wlt amt asset")
    case None
    then have "\<not> blocks env (now w) (db w) wlt amt asset rule"
      by (auto simp: evaluator_def blocks_def rule_triggers_def split: if_splits)
    then show ?thesis using None skip [OF Cons.prems] by simp
  next
    case (Some ev)
    let ?k = "\<lambda>res. case res of None \<Rightarrow> check_rules env wlt amt asset rules
        | Some None \<Rightarrow> andThen (log_check rule wlt False) (check_rules env wlt amt asset rules)
        | Some (Some (msg, retry)) \<Rightarrow> andThen (log_check rule wlt True)
            (if fr_mode rule = ''shadow'' then check_rules env wlt amt asset rules
             else ret (Some \<lparr>fv_rule = fr_name rule, fv_type = fr_type rule, fv_message = msg, fv_retry = retry\<rparr>))"
    let ?Q = "\<lambda>r (_ :: world). decided (faults v = []) env (now w) (db w) wlt amt asset (rule # rules) r"
    have ok: "wp (?k (Some r)) ?Q (\<lambda>_ _. False) u"
      if r: "r = rule_triggers env (now w) (db w) wlt amt asset rule" and u: "transactions (db u) = transactions (db w)" "now u = now w" "faults v = [] \<longrightarrow> faults u = []"
      for r u
    proof (cases r)
      case None
      then have "\<not> blocks env (now w) (db w) wlt amt asset rule" using r by (simp add: blocks_def)
      then show ?thesis using None u by (simp add: wp_andThen) (auto intro!: wp_log_check skip)
    next
      case (Some p)
      obtain msg retry where p: "p = (msg, retry)" by (cases p)
      show ?thesis
      proof (cases "fr_mode rule = ''shadow''")
        case True
        then have "\<not> blocks env (now w) (db w) wlt amt asset rule" by (simp add: blocks_def)
        then show ?thesis using Some p True u by (simp add: wp_andThen) (auto intro!: wp_log_check skip)
      next
        case False
        then have "blocks env (now w) (db w) wlt amt asset rule" using Some r by (simp add: blocks_def)
        then show ?thesis using Some p False by (simp add: wp_andThen wp_ret) (auto intro!: wp_log_check decided_hit)
      qed
    qed
    have t: "rule_triggers env (now v) (db v) wlt amt asset rule = rule_triggers env (now w) (db w) wlt amt asset rule"
      using trig Cons.prems(2) by simp
    have eq: "check_rules env wlt amt asset (rule # rules) = bnd (catch (bnd ev (\<lambda>r. ret (Some r))) (\<lambda>_. ret None)) ?k"
      by (simp add: Some)
    show ?thesis
      unfolding eq wp_bnd wp_catch wp_ret
    proof (rule wp_mono [OF wp_evaluator [OF Some]])
      fix r u assume "r = rule_triggers env (now v) (db v) wlt amt asset rule \<and> (u = v \<or> u = ticked v)"
      then show "wp (?k (Some r)) ?Q (\<lambda>_ _. False) u" using Cons.prems t by (intro ok) (auto simp: ticked_def)
    next
      fix e u assume "u = ticked v \<and> faulty v"
      then show "wp (?k None) ?Q (\<lambda>_ _. False) u" using Cons.prems by (simp add: skip) (auto intro!: skip)
    qed
  qed
qed (simp add: wps decided_Nil)

section \<open>Properties\<close>

definition rules_known :: "world \<Rightarrow> fraud_rule set" where
  "rules_known w = set (active_rules (db w))
     \<union> (case cached w RULES_CACHE_KEY of Some (CRules rs) \<Rightarrow> set rs | _ \<Rightarrow> {})
     \<union> (case last_rules w of Some rs \<Rightarrow> set rs | None \<Rightarrow> {})"

lemma wp_loadRules:
  assumes "\<And>rs v. db v = db w \<Longrightarrow> now v = now w \<Longrightarrow> set rs \<subseteq> rules_known w \<Longrightarrow> Q rs v"
    and "\<And>e v. db v = db w \<Longrightarrow> now v = now w \<Longrightarrow> last_rules v = last_rules w \<Longrightarrow> E e v"
  shows "wp loadRules Q E w"
  unfolding loadRules_def wp_bnd
proof (rule wp_cacheGet)
  fix c and v :: world
  assume v: "c = None \<or> c = cached w RULES_CACHE_KEY" "db v = db w" "now v = now w" "last_rules v = last_rules w"
  have hit: "set rs \<subseteq> rules_known w" if "c = Some (CRules rs)" for rs
    using v(1) that unfolding rules_known_def by (cases "cached w RULES_CACHE_KEY") auto
  have table: "set (active_rules (db w)) \<subseteq> rules_known w" by (auto simp: rules_known_def)
  show "wp (case c of Some (CRules rs) \<Rightarrow> andThen (set_last_rules rs) (ret rs)
     | _ \<Rightarrow> bnd (select (\<lambda>w. active_rules (db w))) (\<lambda>rs.
         andThen (set_last_rules rs) (andThen (cacheSet RULES_CACHE_KEY (CRules rs) RULES_CACHE_TTL) (ret rs)))) Q E v"
    using v hit table
    by (auto simp: wps set_last_rules_def cacheSet_def redisSet_def memSet_def split: option.split cval.split intro!: assms)
qed

text \<open>
  under any failures a payment is blocked only by a known rule that is not in shadow mode and
  that triggers on the payments of the table; the check fails only when no rule was ever loaded and
  the payment is above the threshold, and then no such payment passes.
\<close>

theorem checkFraud_sound:
  "wp (checkFraud env wlt amt asset)
    (\<lambda>r v. case r of Some x \<Rightarrow> \<exists>rule \<in> rules_known w. fv_rule x = fr_name rule \<and> blocks env (now w) (db w) wlt amt asset rule
       | None \<Rightarrow> True)
    (\<lambda>e v. e = unavailable \<and> last_rules w = None \<and> jlt (fail_closed_threshold env) (toUsd env amt asset)) w"
proof -
  let ?Q = "\<lambda>r v. case r of Some x \<Rightarrow> \<exists>rule \<in> rules_known w. fv_rule x = fr_name rule \<and> blocks env (now w) (db w) wlt amt asset rule
       | None \<Rightarrow> True"
  have run: "wp (check_rules env wlt amt asset rs) ?Q E v"
    if "db v = db w" "now v = now w" "set rs \<subseteq> rules_known w" for rs v E
  proof (rule wp_mono [OF check_rules_spec [of v w]])
    fix r u assume d: "decided (faults v = []) env (now w) (db w) wlt amt asset rs r"
    show "?Q r u"
    proof (cases r)
      case (Some x)
      then obtain rule where "rule \<in> set rs" "fv_rule x = fr_name rule" "blocks env (now w) (db w) wlt amt asset rule"
        using d by (auto simp: decided_def)
      then show ?thesis using Some that(3) by auto
    qed simp
  qed (use that in simp_all)
  have last: "last_rules w = Some rs \<Longrightarrow> set rs \<subseteq> rules_known w" for rs by (auto simp: rules_known_def)
  show ?thesis
    unfolding checkFraud_def wp_bnd wp_catch wp_ret wp_gets option.case
    by (rule wp_loadRules) (use last in \<open>auto simp: wps split: option.split intro!: run\<close>)
qed

lemma checkFraud_spec:
  assumes "faults w = []"
  shows "wp (checkFraud env wlt amt asset)
    (\<lambda>r _. map_option fv_rule r = first_block env (now w) (db w) wlt amt asset
       (case cached w RULES_CACHE_KEY of Some (CRules rs) \<Rightarrow> rs | _ \<Rightarrow> active_rules (db w))) (\<lambda>_ _. False) w"
proof -
  let ?Q = "\<lambda>rs r (_ :: world). map_option fv_rule r = first_block env (now w) (db w) wlt amt asset rs"
  have run: "wp (check_rules env wlt amt asset rs) (?Q rs) (\<lambda>_ _. False) v"
    if "db v = db w" "now v = now w" "faults v = []" for rs v
    by (rule wp_mono [OF check_rules_spec [of v w]]) (use that in \<open>auto simp: decided_def\<close>)
  show ?thesis
    unfolding checkFraud_def loadRules_def wp_bnd wp_catch
    by (rule wp_cacheGet)
       (use assms in \<open>auto simp: wps set_last_rules_def cacheSet_def redisSet_def memSet_def
         split: option.split cval.split intro!: run\<close>)
qed

text \<open>
  C12: without failures the verdict is that of the specification: the first rule in force, in order,
  that is not in shadow mode and triggers decides; otherwise the payment passes.
\<close>

theorem checkFraud_first_block:
  assumes "faults w = []"
  shows "wp (checkFraud env wlt amt asset)
    (\<lambda>r _. map_option fv_rule r = first_block env (now w) (db w) wlt amt asset
       (case cached w RULES_CACHE_KEY of Some (CRules rs) \<Rightarrow> rs | _ \<Rightarrow> active_rules (db w))) (\<lambda>_ _. False) w"
  using assms by (rule checkFraud_spec)

lemma checkFraud_first_block_witness:
  "let env = \<lparr>xlm_usd_rate = Fin (1 / 16), fail_closed_threshold = Fin 1000, daily_limit_usd = Fin 1000, window_hours = 24, max_tx = 30\<rparr> in
   wp (checkFraud env ''GS'' (Fin 5) ''USDC'')
    (\<lambda>r _. map_option fv_rule r = first_block env (now init_world) (db init_world) ''GS'' (Fin 5) ''USDC''
       (case cached init_world RULES_CACHE_KEY of Some (CRules rs) \<Rightarrow> rs | _ \<Rightarrow> active_rules (db init_world))) (\<lambda>_ _. False) init_world"
  unfolding Let_def by (rule checkFraud_first_block) (simp add: init_world_def)

lemma quarter_value: "mk 5625 = Fin 5625" "mk (1 / 16) = Fin (1 / 16)" "mk (90001 / 16) = Fin (90001 / 16)" "mk 90001 = Fin 90001"
  using rnd53_exact [of "5625" 5625 0] rnd53_exact [of "1 / 16" 1 "- 4"] rnd53_exact [of "90001 / 16" 90001 "- 4"]
    rnd53_exact [of 90001 90001 0]
  by (simp_all add: mk_Fin power_int_def power_one_over)

lemma sent_90000: "stroops 900000000000 = Fin 90000"
  using rnd53_exact [of 90000 90000 0] by (simp add: stroops_def mk_Fin)

text \<open>
  The daily limit sums the amounts of every asset and prices the sum as the asset being sent: a
  wallet that sent 90000 USDC today is blocked from sending 1 USDC more, but may send XLM.
\<close>

theorem daily_limit_by_asset:
  assumes "faults w = []" and "cached w RULES_CACHE_KEY = None" and "active_rules (db w) = [rule]"
    and "fr_type rule = ''daily_limit''" and "fr_params rule = MaxUsdParams (Fin 10000)" and "fr_mode rule = ''active''"
    and "sent_total wlt (now w) (db w) = 900000000000" and "xlm_usd_rate env = Fin (1 / 16)"
  shows "wp (checkFraud env wlt (Fin 1) ''USDC'') (\<lambda>r _. map_option fv_rule r = Some (fr_name rule)) (\<lambda>_ _. False) w
    \<and> wp (checkFraud env wlt (Fin 1) ''XLM'') (\<lambda>r _. r = None) (\<lambda>_ _. False) w"
proof -
  have spec: "wp (checkFraud env wlt (Fin 1) asset) (\<lambda>r _. map_option fv_rule r = first_block env (now w) (db w) wlt (Fin 1) asset [rule]) (\<lambda>_ _. False) w"
    for asset
    using checkFraud_spec [OF assms(1), of env wlt "Fin 1" asset] assms(2,3) by simp
  have "first_block env (now w) (db w) wlt (Fin 1) ''USDC'' [rule] = Some (fr_name rule)"
    using assms(4-8) by (simp add: first_block_def blocks_def rule_triggers_def eval_daily_def toUsd_def jor_def sent_90000 quarter_value Let_def)
  moreover have "first_block env (now w) (db w) wlt (Fin 1) ''XLM'' [rule] = None"
    using assms(4-8) by (simp add: first_block_def blocks_def rule_triggers_def eval_daily_def toUsd_def jor_def sent_90000 quarter_value Let_def)
  ultimately show ?thesis using spec [of "''USDC''"] spec [of "''XLM''"] by simp
qed

definition daily_rule :: fraud_rule where
  "daily_rule = \<lparr>fr_name = ''default_daily_limit'', fr_type = ''daily_limit'', fr_params = MaxUsdParams (Fin 10000), fr_active = True, fr_mode = ''active''\<rparr>"

lemma daily_limit_by_asset_witness:
  "let w = init_world\<lparr>db := empty_db\<lparr>fraud_rules := [daily_rule], transactions := [\<lparr>t_id = ''t1'', t_sender = ''GS'', t_recipient = ''GR'',
         t_amount = 900000000000, t_asset = ''USDC'', t_status = ''completed'', t_created = 0, t_fee_amount = 0\<rparr>]\<rparr>\<rparr>;
       env = \<lparr>xlm_usd_rate = Fin (1 / 16), fail_closed_threshold = Fin 1000, daily_limit_usd = Fin 1000, window_hours = 24, max_tx = 30\<rparr> in
   wp (checkFraud env ''GS'' (Fin 1) ''USDC'') (\<lambda>r _. map_option fv_rule r = Some (fr_name daily_rule)) (\<lambda>_ _. False) w
    \<and> wp (checkFraud env ''GS'' (Fin 1) ''XLM'') (\<lambda>r _. r = None) (\<lambda>_ _. False) w"
  unfolding Let_def
  by (rule daily_limit_by_asset)
     (simp_all add: init_world_def cached_def active_rules_def daily_rule_def sent_total_def)

text \<open>
  A block is never recorded: the insert names a column \<open>rule\<close> the table does not have.
\<close>

theorem logFraudBlock_never_records:
  "wp (logFraudBlock wlt reason amt asset) (\<lambda>_ _. False) (\<lambda>_ v. db v = db w) w"
  by (simp add: logFraudBlock_def execCols_def unknown_def table_columns_def wps)

end
