(* ===== verification/JsText.thy ===== *)
theory JsText
  imports Prelude
begin

text \<open>
  Text and dynamic values as the source reads them: \<open>Number\<close>, \<open>parseFloat\<close> and \<open>parseInt\<close> of a string, truth
  values and fields of JSON values.
\<close>

section \<open>Numbers in texts\<close>

definition ch_dot :: char where "ch_dot = CHR ''.''"

text \<open>An exponent part, if there is one: its value and the rest.\<close>

definition exponent :: "string \<Rightarrow> int \<times> string" where
  "exponent s = (case s of
     c # t \<Rightarrow> if c = CHR ''e'' \<or> c = CHR ''E'' then
         let (neg, u) = (case t of d # u \<Rightarrow> if d = CHR ''-'' then (True, u) else if d = CHR ''+'' then (False, u) else (False, t) | [] \<Rightarrow> (False, t));
             ds = takeWhile is_digit u in
         if ds = [] then (0, s) else (if neg then - digits_val ds else digits_val ds, dropWhile is_digit u)
       else (0, s)
   | [] \<Rightarrow> (0, s))"

text \<open>The longest unsigned decimal literal a text starts with.\<close>

definition decimal_prefix :: "string \<Rightarrow> (rat \<times> string) option" where
  "decimal_prefix s =
     (let a = takeWhile is_digit s; r = dropWhile is_digit s;
          (b, r') = (case r of c # t \<Rightarrow> if c = ch_dot \<and> (a \<noteq> [] \<or> takeWhile is_digit t \<noteq> []) then (takeWhile is_digit t, dropWhile is_digit t) else ([], r)
            | [] \<Rightarrow> ([], r)) in
      if a = [] \<and> b = [] then None
      else let (e, rest) = exponent r' in
        Some (of_int (digits_val (a @ b)) * 10 powi (e - int (length b)), rest))"

definition unsign :: "string \<Rightarrow> bool \<times> string" where
  "unsign s = (case s of c # t \<Rightarrow> if c = CHR ''-'' then (True, t) else if c = CHR ''+'' then (False, t) else (False, s) | [] \<Rightarrow> (False, s))"

definition signed :: "bool \<Rightarrow> jsnum \<Rightarrow> jsnum" where
  "signed neg x = (if neg then jneg x else x)"

definition radix_digit :: "char \<Rightarrow> nat option" where
  "radix_digit c = (let n = (of_char (lower_char c) :: nat) in
     if 48 \<le> n \<and> n \<le> 57 then Some (n - 48) else if 97 \<le> n \<and> n \<le> 102 then Some (n - 87) else None)"

definition radix_literal :: "nat \<Rightarrow> string \<Rightarrow> jsnum" where
  "radix_literal b s = (if s \<noteq> [] \<and> list_all (\<lambda>c. case radix_digit c of Some d \<Rightarrow> d < b | None \<Rightarrow> False) s
     then mk (of_int (foldl (\<lambda>n c. int b * n + int (case radix_digit c of Some d \<Rightarrow> d | None \<Rightarrow> 0)) 0 s)) else NaN)"

text \<open>\<open>Number(s)\<close>.\<close>

definition toNumber :: "string \<Rightarrow> jsnum" where
  "toNumber str =
     (let s = trim str; (neg, u) = unsign s; p = toLowerCase (take 2 s) in
      if s = [] then Fin 0
      else if p = ''0x'' then radix_literal 16 (drop 2 s)
      else if p = ''0o'' then radix_literal 8 (drop 2 s)
      else if p = ''0b'' then radix_literal 2 (drop 2 s)
      else if u = ''Infinity'' then signed neg PosInf
      else (case decimal_prefix u of Some (x, []) \<Rightarrow> signed neg (mk x) | _ \<Rightarrow> NaN))"

text \<open>\<open>parseFloat(s)\<close>: the longest literal after the white space.\<close>

definition parseFloat :: "string \<Rightarrow> jsnum" where
  "parseFloat str =
     (let (neg, u) = unsign (dropWhile is_space str) in
      if take 8 u = ''Infinity'' then signed neg PosInf
      else (case decimal_prefix u of Some (x, _) \<Rightarrow> signed neg (mk x) | None \<Rightarrow> NaN))"

text \<open>\<open>parseInt(s, 10)\<close>.\<close>

definition parseInt :: "string \<Rightarrow> jsnum" where
  "parseInt str =
     (let (neg, u) = unsign (dropWhile is_space str); ds = takeWhile is_digit u in
      if ds = [] then NaN else signed neg (mk (of_int (digits_val ds))))"

text \<open>\<open>s.split(c)\<close> for a single character.\<close>

fun split_on :: "char \<Rightarrow> string \<Rightarrow> string list" where
  "split_on c [] = [[]]"
| "split_on c (x # xs) = (if x = c then [] # split_on c xs else (case split_on c xs of p # ps \<Rightarrow> (x # p) # ps | [] \<Rightarrow> [[x]]))"

section \<open>JSON values\<close>

text \<open>\<open>None\<close> is \<open>undefined\<close>; reading a field of \<open>null\<close> or \<open>undefined\<close> throws, which the source guards against.\<close>

definition field :: "json option \<Rightarrow> string \<Rightarrow> json option" where
  "field v k = (case v of Some (JObj fs) \<Rightarrow> map_of (rev fs) k | _ \<Rightarrow> None)"

fun truthy :: "json option \<Rightarrow> bool" where
  "truthy None = False"
| "truthy (Some JNull) = False"
| "truthy (Some (JBool b)) = b"
| "truthy (Some (JNum x)) = (x \<noteq> NaN \<and> x \<noteq> Fin 0)"
| "truthy (Some (JStr s)) = (s \<noteq> [])"
| "truthy (Some _) = True"

definition jor_val :: "json option \<Rightarrow> json option \<Rightarrow> json option" where
  "jor_val a b = (if truthy a then a else b)"

definition jand_val :: "json option \<Rightarrow> json option \<Rightarrow> json option" where
  "jand_val a b = (if truthy a then b else a)"

text \<open>\<open>Number(v)\<close>; an array or an object that is not a single primitive is NaN.\<close>

fun json_number :: "json option \<Rightarrow> jsnum" where
  "json_number None = NaN"
| "json_number (Some JNull) = Fin 0"
| "json_number (Some (JBool b)) = Fin (if b then 1 else 0)"
| "json_number (Some (JNum x)) = x"
| "json_number (Some (JStr s)) = toNumber s"
| "json_number (Some (JArr [])) = Fin 0"
| "json_number (Some (JArr [JNum x])) = x"
| "json_number (Some (JArr [JStr s])) = toNumber s"
| "json_number (Some (JArr [JNull])) = Fin 0"
| "json_number (Some _) = NaN"

definition json_string :: "json option \<Rightarrow> string option" where
  "json_string v = (case v of Some (JStr s) \<Rightarrow> Some s | _ \<Rightarrow> None)"

text \<open>\<open>BigInt(x)\<close> throws for a number that is no integer.\<close>

fun toBigInt :: "jsnum \<Rightarrow> jserr + int" where
  "toBigInt (Fin x) = (if of_int \<lfloor>x\<rfloor> = x then Inr \<lfloor>x\<rfloor> else Inl ((mkError ''The number cannot be converted to a BigInt'')\<lparr>err_name := ''RangeError''\<rparr>))"
| "toBigInt _ = Inl ((mkError ''The number cannot be converted to a BigInt'')\<lparr>err_name := ''RangeError''\<rparr>)"

section \<open>Decimal columns\<close>

text \<open>What PostgreSQL makes of a text for a \<open>NUMERIC(20,7)\<close> column: stroops, halves away from zero.\<close>

definition numeric_error :: jserr where
  "numeric_error = (mkError ''invalid input syntax for type numeric'')\<lparr>err_code := Some ''22P02''\<rparr>"

definition numeric_20_7 :: "string \<Rightarrow> jserr + int" where
  "numeric_20_7 s = (let (neg, u) = unsign (trim s) in case decimal_prefix u of
     Some (x, []) \<Rightarrow> let n = \<lfloor>x * 10 ^ 7 + 1 / 2\<rfloor> in
       if 10 ^ 20 \<le> n then Inl ((mkError ''numeric field overflow'')\<lparr>err_code := Some ''22003''\<rparr>) else Inr (if neg then - n else n)
   | _ \<Rightarrow> Inl numeric_error)"

lemma digits_val_nonneg: "list_all is_digit s \<Longrightarrow> 0 \<le> digits_val s"
proof (induction s rule: rev_induct)
  case (snoc c s)
  then show ?case by (auto simp: digits_val_snoc is_digit_def digit_val_def Let_def)
qed simp

lemma takeWhile_digits [simp]: "list_all is_digit (takeWhile is_digit s)"
  by (auto simp: list_all_iff dest: set_takeWhileD)

lemma decimal_prefix_nonneg:
  assumes "decimal_prefix s = Some (x, r)"
  shows "0 \<le> x"
proof -
  let ?a = "takeWhile is_digit s"
  have "(\<exists>k. x = of_int (digits_val ?a) * 10 powi k) \<or> (\<exists>b k. x = of_int (digits_val (?a @ takeWhile is_digit b)) * 10 powi k)"
    using assms by (fastforce simp: decimal_prefix_def Let_def split: if_splits prod.splits list.splits)
  then show ?thesis using digits_val_nonneg [of ?a] digits_val_nonneg [of "?a @ takeWhile is_digit _"] by auto
qed

lemma numeric_20_7_bound:
  assumes "numeric_20_7 s = Inr n"
  shows "\<bar>n\<bar> < 10 ^ 20"
proof -
  obtain x k where "decimal_prefix (snd (unsign (trim s))) = Some (x, [])" and k: "k = \<lfloor>x * 10 ^ 7 + 1 / 2\<rfloor>" "k < 10 ^ 20" "n = k \<or> n = - k"
    using assms by (auto simp: numeric_20_7_def Let_def split: prod.splits option.splits list.splits if_splits)
  then have "0 \<le> k" using decimal_prefix_nonneg [of _ x "[]"] by (auto simp: zero_le_floor)
  then show ?thesis using k by auto
qed

section \<open>Decimal texts read back\<close>

lemma digit_cases: "is_digit c \<Longrightarrow> \<not> is_space c \<and> c \<noteq> CHR ''-'' \<and> c \<noteq> CHR ''+'' \<and> c \<noteq> CHR ''I''"
  by (auto simp: is_digit_def is_space_def Let_def)

lemma parseFloat_digits: "is_digit d \<Longrightarrow> parseFloat (d # t) = (case decimal_prefix (d # t) of Some (x, _) \<Rightarrow> mk x | None \<Rightarrow> NaN)"
  using digit_cases [of d] by (auto simp: parseFloat_def unsign_def signed_def split: option.split)

lemma parseFloat_dec7:
  assumes "0 \<le> n"
  shows "parseFloat (dec7_text n) = stroops n"
proof -
  obtain a b where t: "dec7_text n = a @ ''.'' @ b" and a: "list_all is_digit a" "a \<noteq> []" and b: "list_all is_digit b" "length b = 7"
    and n: "digits_val a * 10 ^ 7 + digits_val b = n"
    using dec7_text_parts [OF assms] by auto
  obtain d u where d: "a = d # u" "is_digit d" using a by (cases a) auto
  have dot: "\<not> is_digit (CHR ''.'')" by (simp add: is_digit_def)
  have whole: "takeWhile is_digit (a @ ''.'' @ b) = a" "dropWhile is_digit (a @ ''.'' @ b) = ''.'' @ b"
    using a(1) dot by (simp_all add: list_all_iff)
  have part: "takeWhile is_digit b = b" "dropWhile is_digit b = []" using b(1) by (simp_all add: list_all_iff)
  have "digits_val (a @ b) = n" using n b(2) by (simp add: digits_val_append)
  then have "decimal_prefix (a @ ''.'' @ b) = Some (of_int n * 10 powi (0 - 7), [])"
    using a(2) b(2) by (simp only: decimal_prefix_def whole Let_def) (simp add: ch_dot_def part exponent_def)
  then show ?thesis
    using parseFloat_digits [OF d(2), of "u @ ''.'' @ b"] by (simp add: t d(1) stroops_def power_int_def power_one_over)
qed

section \<open>Dates\<close>

text \<open>\<open>toISOString\<close> of a time in milliseconds, for the years 0 to 9999.\<close>

definition civil :: "int \<Rightarrow> int \<times> int \<times> int" where
  "civil days = (let z = days + 719468; era = z div 146097; doe = z mod 146097;
     yoe = (doe - doe div 1460 + doe div 36524 - doe div 146096) div 365;
     doy = doe - (365 * yoe + yoe div 4 - yoe div 100); mp = (5 * doy + 2) div 153;
     m = (if mp < 10 then mp + 3 else mp - 9)
     in (yoe + era * 400 + (if m \<le> 2 then 1 else 0), m, doy - (153 * mp + 2) div 5 + 1))"

definition padded :: "nat \<Rightarrow> int \<Rightarrow> string" where
  "padded k n = (let s = show_int n in replicate (k - length s) (CHR ''0'') @ s)"

definition toISOString :: "int \<Rightarrow> string" where
  "toISOString t = (let (y, m, d) = civil (t div 86400000); r = t mod 86400000 in
     padded 4 y @ ''-'' @ padded 2 m @ ''-'' @ padded 2 d @ ''T'' @ padded 2 (r div 3600000) @ '':'' @
     padded 2 (r div 60000 mod 60) @ '':'' @ padded 2 (r div 1000 mod 60) @ ''.'' @ padded 3 (r mod 1000) @ ''Z'')"

end
