(* ===== verification/Compliance.thy ===== *)
theory Compliance
  imports Soroban JsText
begin

text \<open>
  Identity and sanctions checks: \<^verbatim>\<open>services/amlScreening.js\<close>, \<^verbatim>\<open>controllers/kycController.js\<close>,
  \<^verbatim>\<open>services/kycAttestation.js\<close> and \<^verbatim>\<open>jobs/kycExpiryJob.js\<close>. The provider's HTTP interface is the parameter
  \<open>post\<close>: the parsed answer to a request, or an error.
\<close>

section \<open>Screening\<close>

record aml_env =
  ae_provider :: string
  ae_api_key :: string
  ae_api_secret :: string
  ae_api_url :: string
  ae_high_risk :: jsnum

definition aml_provider :: "aml_env \<Rightarrow> string" where
  "aml_provider env = toLowerCase (trim (ae_provider env))"

definition isAmlConfigured :: "aml_env \<Rightarrow> bool" where
  "isAmlConfigured env =
     (if ae_api_key env = [] then False
      else if aml_provider env = ''complyadvantage'' then True
      else if aml_provider env = ''elliptic'' then ae_api_secret env \<noteq> []
      else False)"

record aml_result =
  ar_screened :: bool
  ar_status :: string
  ar_risk_level :: "json option"
  ar_provider :: "string option"
  ar_reference :: "json option"
  ar_screened_at :: int
  ar_error :: "string option"

definition notScreenedResult :: "string option \<Rightarrow> int \<Rightarrow> aml_result" where
  "notScreenedResult provider t = \<lparr>ar_screened = False, ar_status = ''not_screened'', ar_risk_level = None, ar_provider = provider,
     ar_reference = None, ar_screened_at = t, ar_error = None\<rparr>"

text \<open>The counters behind the coverage gauge: attempts and screenings.\<close>

definition recordAmlMetric :: "aml_result \<Rightarrow> (world, unit) proc" where
  "recordAmlMetric r = modify (\<lambda>w. w\<lparr>aml_tally := (Suc (fst (aml_tally w)), snd (aml_tally w) + (if ar_screened r then 1 else 0))\<rparr>)"

definition FLAGGED_MATCH_STATUSES :: "string list" where
  "FLAGGED_MATCH_STATUSES = [''true_positive'', ''potential_match'']"

definition HIGH_SEVERITIES :: "string list" where
  "HIGH_SEVERITIES = [''high'', ''critical'', ''severe'']"

text \<open>A provider's answer, reduced: status, risk level, reference.\<close>

definition parseComplyAdvantageResponse :: "json option \<Rightarrow> string \<times> json option \<times> json option" where
  "parseComplyAdvantageResponse payload =
     (let content = field payload ''content'';
          data = jor_val (jor_val (jand_val (jand_val payload content) (field content ''data'')) payload) (Some (JObj []));
          totalHits = json_number (jor_val (field data ''total_hits'') (Some (JNum (Fin 0))));
          flagged = jlt (Fin 0) totalHits \<or> (case json_string (field data ''match_status'') of Some s \<Rightarrow> s \<in> set FLAGGED_MATCH_STATUSES | None \<Rightarrow> False);
          ident = field data ''id'' in
      (if flagged then ''flagged'' else ''clear'',
       jor_val (field data ''risk_level'') (Some (JStr (if flagged then ''high'' else ''low''))),
       if ident \<noteq> None \<and> ident \<noteq> Some JNull then ident else (if truthy (field data ''ref'') then field data ''ref'' else None)))"

definition parseEllipticResponse :: "json option \<Rightarrow> aml_env \<Rightarrow> string \<times> json option \<times> json option" where
  "parseEllipticResponse payload env =
     (let riskScore = json_number (jand_val payload (field payload ''risk_score''));
          riskRules = (case jand_val payload (field payload ''risk_rules'') of Some (JArr rs) \<Rightarrow> rs | _ \<Rightarrow> []);
          highSeverity = list_ex (\<lambda>r. case json_string (field (Some r) ''severity'') of
            Some s \<Rightarrow> toLowerCase s \<in> set HIGH_SEVERITIES | None \<Rightarrow> False) riskRules;
          flagged = (is_finite riskScore \<and> jle (ae_high_risk env) riskScore) \<or> highSeverity in
      (if flagged then ''flagged'' else ''clear'', Some (JStr (if flagged then ''high'' else ''low'')),
       if truthy payload \<and> truthy (field payload ''id'') then field payload ''id'' else None))"

type_synonym post = "string \<Rightarrow> json \<Rightarrow> jserr + json"

definition client_ref :: "string option \<Rightarrow> string \<Rightarrow> json" where
  "client_ref uid wlt = JStr (case uid of Some u \<Rightarrow> if u = [] then wlt else ''afripay-'' @ u | None \<Rightarrow> wlt)"

definition screenComplyAdvantage :: "aml_env \<Rightarrow> post \<Rightarrow> string \<Rightarrow> string option \<Rightarrow> string option \<Rightarrow> jserr + (string \<times> json option \<times> json option)" where
  "screenComplyAdvantage env post wlt uid full_name =
     (let baseUrl = (if trim (ae_api_url env) = [] then ''https://api.complyadvantage.com'' else trim (ae_api_url env));
          searchTerm = (case full_name of Some n \<Rightarrow> if trim n = [] then wlt else trim n | None \<Rightarrow> wlt) in
      case post (baseUrl @ ''/searches'') (JObj [(''search_term'', JStr searchTerm), (''client_ref'', client_ref uid wlt),
          (''exact_match'', JBool True), (''fuzziness'', JNum (Fin 0)), (''filters'', JObj [(''types'', JArr [JStr ''sanction''])])]) of
        Inl e \<Rightarrow> Inl e | Inr payload \<Rightarrow> Inr (parseComplyAdvantageResponse (Some payload)))"

definition screenElliptic :: "aml_env \<Rightarrow> post \<Rightarrow> string \<Rightarrow> string option \<Rightarrow> jserr + (string \<times> json option \<times> json option)" where
  "screenElliptic env post wlt uid =
     (let baseUrl = (if trim (ae_api_url env) = [] then ''https://aml-api.elliptic.co'' else trim (ae_api_url env)) in
      case post (baseUrl @ ''/v2/wallet/synchronous'') (JObj [(''subject'', JObj [(''asset'', JStr ''holistic''), (''blockchain'', JStr ''holistic''),
          (''type'', JStr ''address''), (''hash'', JStr wlt)]), (''type'', JStr ''wallet_exposure''), (''customer_reference'', client_ref uid wlt)]) of
        Inl e \<Rightarrow> Inl e | Inr payload \<Rightarrow> Inr (parseEllipticResponse (Some payload) env))"

definition aml_outcome :: "aml_env \<Rightarrow> post \<Rightarrow> string \<Rightarrow> string option \<Rightarrow> string option \<Rightarrow> int \<Rightarrow> aml_result" where
  "aml_outcome env post wlt uid full_name t =
     (if \<not> isAmlConfigured env then notScreenedResult None t
      else if trim wlt = [] then (notScreenedResult (Some (aml_provider env)) t)\<lparr>ar_status := ''error'', ar_error := Some ''missing_wallet_address''\<rparr>
      else (case (if aml_provider env = ''elliptic'' then screenElliptic env post (trim wlt) uid
            else screenComplyAdvantage env post (trim wlt) uid full_name) of
        Inr (status, risk, reference) \<Rightarrow> \<lparr>ar_screened = True, ar_status = status, ar_risk_level = risk, ar_provider = Some (aml_provider env),
          ar_reference = reference, ar_screened_at = t, ar_error = None\<rparr>
      | Inl e \<Rightarrow> (notScreenedResult (Some (aml_provider env)) t)\<lparr>ar_status := ''error'', ar_error := Some (err_message e)\<rparr>))"

definition amlScreen :: "aml_env \<Rightarrow> post \<Rightarrow> string \<Rightarrow> string option \<Rightarrow> string option \<Rightarrow> (world, aml_result) proc" where
  "amlScreen env post wlt uid full_name = bnd (gets now) (\<lambda>t. let result = aml_outcome env post wlt uid full_name t in
     andThen (recordAmlMetric result) (ret result))"

section \<open>The gate on payments\<close>

definition AML_RESCREEN_THRESHOLD_USD :: jsnum where
  "AML_RESCREEN_THRESHOLD_USD = Fin 1000"

definition blocked_payment :: "nat \<Rightarrow> string \<Rightarrow> string option \<Rightarrow> jserr" where
  "blocked_payment s m code = withStatus s ((mkError (''Payment blocked: '' @ m))\<lparr>err_payload :=
     (case code of None \<Rightarrow> [] | Some c \<Rightarrow> [(''code'', JStr c)])\<rparr>)"

definition amlRescreenForPayment :: "aml_env \<Rightarrow> post \<Rightarrow> string \<Rightarrow> string \<Rightarrow> jsnum \<Rightarrow> (world, aml_result option) proc" where
  "amlRescreenForPayment env post uid wlt amountUsd =
     (if jlt amountUsd AML_RESCREEN_THRESHOLD_USD then ret None
      else bnd (amlScreen env post wlt (Some uid) None) (\<lambda>r.
        let note = (\<lambda>action. audit_log (Some uid) action (JObj [(''walletAddress'', JStr wlt), (''amountUsd'', JNum amountUsd), (''status'', JStr (ar_status r))])) in
        if ar_status r = ''flagged'' then andThen (note ''aml_payment_flagged'')
          (throw (blocked_payment 403 ''wallet flagged by AML screening.'' None))
        else if ar_status r = ''not_screened'' then andThen (note ''aml_payment_not_screened'')
          (throw (blocked_payment 403 ''AML screening is not configured for high-value transactions.'' (Some ''AML_SCREENING_UNAVAILABLE'')))
        else if ar_status r = ''error'' then andThen (note ''aml_payment_screening_error'')
          (throw (blocked_payment 503 ''AML screening provider error. Please try again later.'' (Some ''AML_SCREENING_ERROR'')))
        else ret (Some r)))"

section \<open>Submitting documents\<close>

definition ALLOWED_ID_TYPES :: "string list" where
  "ALLOWED_ID_TYPES = [''national_id'', ''passport'', ''drivers_license'', ''voters_card'']"

record kyc_form =
  kf_id_type :: "string option"
  kf_id_number :: "string option"
  kf_birth :: "string option"
  kf_expiry :: "string option"
  kf_file :: "(string \<times> string) option"

text \<open>\<open>slice(-4)\<close>.\<close>

definition last4 :: "string \<Rightarrow> string" where
  "last4 s = drop (length s - 4) s"

definition set_user :: "string \<Rightarrow> (user \<Rightarrow> user) \<Rightarrow> database \<Rightarrow> database" where
  "set_user uid f d = d\<lparr>users := update_where (\<lambda>u. u_id u = uid) f (users d)\<rparr>"

text \<open>The screening of the user's wallet after the submission is stored, and the answer.\<close>

definition screen_submission :: "aml_env \<Rightarrow> post \<Rightarrow> string \<Rightarrow> (world, outcome) proc" where
  "screen_submission env post uid =
     bnd (select (\<lambda>w. find (\<lambda>wal. w_user wal = uid) (wallets (db w)))) (\<lambda>wal.
       let done = ret (Reply 200 (JObj [(''message'', JStr ''KYC submitted successfully. Your application is under review.''), (''kyc_status'', JStr ''pending'')])) in
       (case wal of
         None \<Rightarrow> done
       | Some wal \<Rightarrow>
         let wlt = w_public_key wal in
         if wlt = [] then done
         else bnd (amlScreen env post wlt (Some uid) None) (\<lambda>r.
           let note = (\<lambda>action. audit_log (Some uid) action (JObj [(''walletAddress'', JStr wlt), (''status'', JStr (ar_status r))])) in
           if ar_status r = ''flagged'' then andThen (note ''aml_flagged'') (ret (Reply 403 (jerr ''Payment blocked: wallet flagged by AML screening.'')))
           else if ar_status r = ''not_screened'' then andThen (note ''aml_not_screened'') done
           else if ar_status r = ''error'' then andThen (note ''aml_screening_error'') done
           else done)))"

text \<open>\<open>parse_date\<close> is \<open>Date.parse\<close>, \<open>None\<close> for NaN; an empty text of a form field counts as absent.\<close>

definition submitKYC :: "aml_env \<Rightarrow> post \<Rightarrow> (string \<Rightarrow> int option) \<Rightarrow> string \<Rightarrow> kyc_form \<Rightarrow> (world, outcome) proc" where
  "submitKYC env post parse_date uid f = handler (
     if (case kf_id_type f of None \<Rightarrow> True | Some t \<Rightarrow> t \<notin> set ALLOWED_ID_TYPES) then ret (Reply 400 (jerr ''Invalid ID type''))
     else if (case kf_id_number f of None \<Rightarrow> True | Some n \<Rightarrow> length (trim n) < 3) then ret (Reply 400 (jerr ''Invalid ID number''))
     else if (case kf_birth f of None \<Rightarrow> True | Some b \<Rightarrow> b = [] \<or> parse_date b = None) then ret (Reply 400 (jerr ''Invalid date of birth''))
     else if (case kf_expiry f of None \<Rightarrow> False | Some x \<Rightarrow> x \<noteq> [] \<and> parse_date x = None) then ret (Reply 400 (jerr ''Invalid document expiry date''))
     else if kf_file f = None then ret (Reply 400 (jerr ''Document file is required''))
     else bnd (select (\<lambda>w. user_by_id (db w) uid)) (\<lambda>row. case row of
       None \<Rightarrow> ret (Reply 404 (jerr ''User not found''))
     | Some u \<Rightarrow>
       if u_kyc_status u = ''verified'' then ret (Reply 409 (jerr ''KYC already verified''))
       else if u_kyc_status u = ''pending'' then ret (Reply 409 (jerr ''KYC submission already under review''))
       else andThen (exec (\<lambda>w. set_user uid (\<lambda>u. u\<lparr>u_kyc_status := ''pending'',
           u_kyc_identity := Some (the (kf_id_type f), last4 (trim (the (kf_id_number f))), the (kf_birth f)),
           u_kyc_submitted := Some (now w),
           u_kyc_expiry := (case kf_expiry f of None \<Rightarrow> None | Some x \<Rightarrow> if x = [] then None else parse_date x),
           u_kyc_reminders := []\<rparr>) (db w)))
         (screen_submission env post uid)))"

definition opt_time :: "int option \<Rightarrow> json" where
  "opt_time t = (case t of None \<Rightarrow> JNull | Some n \<Rightarrow> JNum (Fin (of_int n)))"

definition getKYCStatus :: "string \<Rightarrow> (world, outcome) proc" where
  "getKYCStatus uid = handler (bnd (select (\<lambda>w. user_by_id (db w) uid)) (\<lambda>row. case row of
       None \<Rightarrow> ret (Reply 404 (jerr ''User not found''))
     | Some u \<Rightarrow> bnd (gets now) (\<lambda>t. ret (Reply 200 (JObj [(''kyc_status'', JStr (u_kyc_status u)), (''kyc_submitted_at'', opt_time (u_kyc_submitted u)),
         (''document_expiry_date'', opt_time (u_kyc_expiry u)),
         (''days_until_expiry'', opt_time (map_option (\<lambda>x. \<lceil>(of_int (x - t) :: rat) / 86400000\<rceil>) (u_kyc_expiry u)))])))))"

section \<open>Attestations\<close>

record attest_env =
  at_contract_configured :: bool
  at_admin_key :: string
  at_ttl_days :: int

definition notConfigured :: "string \<Rightarrow> jserr" where
  "notConfigured v = withStatus 500 (mkError (v @ '' is not configured''))"

definition invokeAdmin :: "attest_env \<Rightarrow> soroban \<Rightarrow> string \<Rightarrow> (string \<Rightarrow> chain_call) \<Rightarrow> (world, string) proc" where
  "invokeAdmin env rpc method call =
     (if \<not> at_contract_configured env then throw (notConfigured ''KYC_ATTESTATION_CONTRACT_ID'')
      else if at_admin_key env = [] then throw (notConfigured ''ADMIN_ENCRYPTED_SECRET_KEY'')
      else bnd (submitCall rpc (withStatus 400) method 60000 (at_admin_key env) call) (\<lambda>(v, hash). ret hash))"

definition getAdminPublicKey :: "attest_env \<Rightarrow> soroban \<Rightarrow> (world, string) proc" where
  "getAdminPublicKey env rpc = (if at_admin_key env = [] then throw (notConfigured ''ADMIN_ENCRYPTED_SECRET_KEY'')
     else lift (sb_decrypt rpc (at_admin_key env)))"

text \<open>A tier by name, in lower case, or an error.\<close>

definition tier_value :: "string \<Rightarrow> jserr + nat" where
  "tier_value tier = (let t = toLowerCase tier in
     if t = ''basic'' then Inr 0 else if t = ''enhanced'' then Inr 1 else if t = ''business'' then Inr 2
     else Inl (withStatus 400 (mkError (''Invalid KYC tier: '' @ tier))))"

definition revokeKyc :: "attest_env \<Rightarrow> soroban \<Rightarrow> string \<Rightarrow> string \<Rightarrow> (world, string) proc" where
  "revokeKyc env rpc wlt tier = bnd (lift (tier_value tier)) (\<lambda>t.
     invokeAdmin env rpc ''revoke'' (\<lambda>key. RevokeKyc key wlt t))"

text \<open>\<open>hash\<close> is the SHA-256 of a text; the expiry is in seconds.\<close>

definition attestKyc :: "attest_env \<Rightarrow> soroban \<Rightarrow> (string \<Rightarrow> string) \<Rightarrow> string \<Rightarrow> string \<Rightarrow> string \<Rightarrow> string \<Rightarrow> int option \<Rightarrow> (world, string) proc" where
  "attestKyc env rpc hash wlt uid idType tier expires = bnd (gets now) (\<lambda>t.
     let kycHash = hash (uid @ '':'' @ wlt @ '':'' @ idType);
         expiresAt = (case expires of Some x \<Rightarrow> x | None \<Rightarrow> t div 1000 + at_ttl_days env * 86400) in
     bnd (lift (tier_value tier)) (\<lambda>n. invokeAdmin env rpc ''attest'' (\<lambda>key. AttestKyc key wlt n kycHash expiresAt)))"

section \<open>The expiry job\<close>

definition REMINDER_DAYS :: "int list" where
  "REMINDER_DAYS = [30, 14, 7]"

definition DAY :: int where
  "DAY = 86400000"

definition doc_expired :: "int \<Rightarrow> user \<Rightarrow> bool" where
  "doc_expired t u \<longleftrightarrow> u_kyc_status u = ''verified'' \<and> (case u_kyc_expiry u of None \<Rightarrow> False | Some x \<Rightarrow> x < t)"

text \<open>One newly expired user: revoke the attestation of the default wallet; any failure raises an alert.\<close>

definition revoke_expired :: "attest_env \<Rightarrow> soroban \<Rightarrow> string \<Rightarrow> (world, unit) proc" where
  "revoke_expired env rpc uid = catch
     (bnd (select (\<lambda>w. default_wallet (db w) uid)) (\<lambda>wal. case wal of
        None \<Rightarrow> ret ()
      | Some wal \<Rightarrow> bnd (getAdminPublicKey env rpc) (\<lambda>_. bnd (revokeKyc env rpc (w_public_key wal) ''basic'') (\<lambda>_. ret ()))))
     (\<lambda>e. emit (Alert uid (err_message e)))"

definition due_reminder :: "int \<Rightarrow> int \<Rightarrow> user \<Rightarrow> bool" where
  "due_reminder t days u \<longleftrightarrow> u_kyc_status u = ''verified'' \<and>
     (case u_kyc_expiry u of None \<Rightarrow> False | Some x \<Rightarrow> x div DAY = (t + days * DAY) div DAY)"

text \<open>\<open>send\<close> is \<open>sendKycExpiryReminderEmail\<close>: the mail is queued or the call fails.\<close>

definition remind_user :: "string \<Rightarrow> int \<Rightarrow> user \<Rightarrow> (world, unit) proc" where
  "remind_user today days u =
     (if map_of (u_kyc_reminders u) (show_int days) = Some today then ret ()
      else catch (andThen tick (andThen (emit (Email (u_email u) ''kyc_expiry_reminder'' (JStr (show_int days))))
         (exec (\<lambda>w. set_user (u_id u) (\<lambda>u. u\<lparr>u_kyc_reminders := AList.update (show_int days) today (u_kyc_reminders u)\<rparr>) (db w)))))
        (\<lambda>_. ret ()))"

definition sendReminders :: "(world, unit) proc" where
  "sendReminders = bnd (gets (\<lambda>w. show_int (now w div DAY))) (\<lambda>today.
     forEach REMINDER_DAYS (\<lambda>days. bnd (select (\<lambda>w. filter (due_reminder (now w) days) (users (db w))))
       (\<lambda>us. forEach us (remind_user today days))))"

definition checkKycDocumentExpiry :: "attest_env \<Rightarrow> soroban \<Rightarrow> (world, unit) proc" where
  "checkKycDocumentExpiry env rpc =
     andThen tick
     (bnd (gets (\<lambda>w. map u_id (filter (doc_expired (now w)) (users (db w))))) (\<lambda>expired.
      andThen (modify (\<lambda>w. w\<lparr>db := (db w)\<lparr>users := update_where (doc_expired (now w)) (\<lambda>u. u\<lparr>u_kyc_status := ''expired''\<rparr>) (users (db w))\<rparr>\<rparr>))
      (andThen (forEach expired (revoke_expired env rpc))
       sendReminders)))"

section \<open>Properties\<close>

lemma parse_status:
  "fst (parseComplyAdvantageResponse p) = ''clear'' \<or> fst (parseComplyAdvantageResponse p) = ''flagged''"
  "fst (parseEllipticResponse p env) = ''clear'' \<or> fst (parseEllipticResponse p env) = ''flagged''"
  by (simp_all add: parseComplyAdvantageResponse_def parseEllipticResponse_def Let_def)

lemma screened_status:
  "screenElliptic env post wlt uid = Inr (s, r, i) \<Longrightarrow> s = ''clear'' \<or> s = ''flagged''"
  "screenComplyAdvantage env post wlt uid name = Inr (s, r, i) \<Longrightarrow> s = ''clear'' \<or> s = ''flagged''"
proof -
  have p: "parseComplyAdvantageResponse q = (s, r, i) \<Longrightarrow> s = ''clear'' \<or> s = ''flagged''"
    "parseEllipticResponse q env = (s, r, i) \<Longrightarrow> s = ''clear'' \<or> s = ''flagged''" for q
    using parse_status(1) [of q] parse_status(2) [of q env] by simp_all
  show "screenElliptic env post wlt uid = Inr (s, r, i) \<Longrightarrow> s = ''clear'' \<or> s = ''flagged''"
    unfolding screenElliptic_def Let_def by (simp split: sum.splits) (rule p(2))
  show "screenComplyAdvantage env post wlt uid name = Inr (s, r, i) \<Longrightarrow> s = ''clear'' \<or> s = ''flagged''"
    unfolding screenComplyAdvantage_def Let_def by (simp split: sum.splits) (rule p(1))
qed

definition screening :: "aml_env \<Rightarrow> post \<Rightarrow> string \<Rightarrow> string option \<Rightarrow> string option \<Rightarrow> jserr + (string \<times> json option \<times> json option)" where
  "screening env post wlt uid full_name = (if aml_provider env = ''elliptic'' then screenElliptic env post (trim wlt) uid
     else screenComplyAdvantage env post (trim wlt) uid full_name)"

lemma screening_status:
  assumes "screening env post wlt uid name = Inr (s, r, i)"
  shows "s = ''clear'' \<or> s = ''flagged''"
proof (cases "aml_provider env = ''elliptic''")
  case True
  then show ?thesis using assms screened_status(1) [of env post "trim wlt" uid s r i] by (simp add: screening_def)
next
  case False
  then show ?thesis using assms screened_status(2) [of env post "trim wlt" uid name s r i] by (simp add: screening_def)
qed

lemma aml_outcome_cases:
  "ar_screened (aml_outcome env post wlt uid name t) \<and> isAmlConfigured env \<and>
     (ar_status (aml_outcome env post wlt uid name t) = ''clear'' \<or> ar_status (aml_outcome env post wlt uid name t) = ''flagged'') \<or>
   \<not> ar_screened (aml_outcome env post wlt uid name t) \<and>
     (ar_status (aml_outcome env post wlt uid name t) = ''error'' \<and> isAmlConfigured env \<or>
      ar_status (aml_outcome env post wlt uid name t) = ''not_screened'' \<and> \<not> isAmlConfigured env)"
proof (cases "isAmlConfigured env \<and> trim wlt \<noteq> []")
  case True
  show ?thesis
  proof (cases "screening env post wlt uid name")
    case (Inl e)
    with True show ?thesis unfolding aml_outcome_def screening_def [symmetric] by (simp add: notScreenedResult_def)
  next
    case (Inr x)
    obtain s r i where x: "x = (s, r, i)" by (cases x)
    have "s = ''clear'' \<or> s = ''flagged''" by (rule screening_status) (rule Inr [unfolded x])
    with Inr x True show ?thesis unfolding aml_outcome_def screening_def [symmetric] by auto
  qed
next
  case False
  then show ?thesis by (auto simp: aml_outcome_def notScreenedResult_def)
qed

lemma wp_amlScreen:
  assumes "\<And>v. db v = db w \<Longrightarrow> chain_log v = chain_log w \<Longrightarrow> faults v = faults w \<Longrightarrow> now v = now w \<Longrightarrow> Q (aml_outcome env post wlt uid name (now w)) v"
  shows "wp (amlScreen env post wlt uid name) Q E w"
  unfolding amlScreen_def recordAmlMetric_def Let_def by (simp add: wps assms)

text \<open>
  C29: the gate fails closed: a payment of 1000 dollars or more, or of an amount that is no number,
  passes only if a configured provider screened the wallet and found it clear; every other outcome
  is a refusal with status 403 or 503, whatever the database does.
\<close>

theorem aml_gate_fails_closed:
  "wp (amlRescreenForPayment env post uid wlt amountUsd)
    (\<lambda>r v. case r of None \<Rightarrow> jlt amountUsd (Fin 1000)
       | Some x \<Rightarrow> isAmlConfigured env \<and> ar_screened x \<and> ar_status x = ''clear'')
    (\<lambda>e v. (err_status e = Some 403 \<or> err_status e = Some 503) \<and> \<not> jlt amountUsd (Fin 1000)) w"
proof -
  note c = aml_outcome_cases [of env post wlt "Some uid" None "now w"]
  show ?thesis
    unfolding amlRescreenForPayment_def AML_RESCREEN_THRESHOLD_USD_def Let_def wp_if wp_bnd
    by (auto simp: wps blocked_payment_def withStatus_def intro!: wp_amlScreen) (use c in auto)
qed

lemma wp_screen_submission:
  assumes "\<And>o' v. users (db v) = users (db w) \<Longrightarrow> Q o' v"
  shows "wp (screen_submission env post uid) Q (\<lambda>e. Q (NextErr e)) w"
  unfolding screen_submission_def Let_def wp_bnd
  by (simp add: wps assms split: option.split) (auto simp: wps assms intro!: wp_amlScreen)

text \<open>
  Documents are only accepted from users who are neither verified nor under review; the answers
  200 and 403 both leave the user under review, so a wallet flagged by the screening is refused
  with the submission stored. No other user's row changes.
\<close>

theorem submitKYC_moves_to_pending:
  "wp (submitKYC env post parse_date uid f)
    (\<lambda>o' v. (if status_of o' = Some 200 \<or> status_of o' = Some 403
       then \<exists>u. user_by_id (db w) uid = Some u \<and> u_kyc_status u \<noteq> ''verified'' \<and> u_kyc_status u \<noteq> ''pending''
         \<and> map_option u_kyc_status (user_by_id (db v) uid) = Some ''pending''
       else True) \<and> (if uid = other then True else user_by_id (db v) other = user_by_id (db w) other))
    (\<lambda>_ _. False) w"
proof -
  define P where "P o' x \<longleftrightarrow> (if status_of o' = Some 200 \<or> status_of o' = Some 403
       then \<exists>u. user_by_id (db w) uid = Some u \<and> u_kyc_status u \<noteq> ''verified'' \<and> u_kyc_status u \<noteq> ''pending''
         \<and> map_option u_kyc_status (user_by_id x uid) = Some ''pending''
       else True) \<and> (if uid = other then True else user_by_id x other = user_by_id (db w) other)" for o' x
  have base: "P (NextErr e) (db w)" "c \<noteq> 200 \<Longrightarrow> c \<noteq> 403 \<Longrightarrow> P (Reply c b) (db w)" for e c b by (simp_all add: P_def)
  have user: "user_by_id d x = Some u \<Longrightarrow> u_id u = x" for d x u by (auto simp: user_by_id_def find_Some_iff)
  have stored: "P o' d'"
    if d': "users d' = users (set_user uid g (db w))" and u: "user_by_id (db w) uid = Some u" "u_kyc_status u \<noteq> ''verified''" "u_kyc_status u \<noteq> ''pending''"
      and g: "\<And>u. u_id (g u) = u_id u" "\<And>u. u_kyc_status (g u) = ''pending''" for o' u g d'
  proof -
    have upd: "user_by_id (set_user uid g (db w)) x = map_option (\<lambda>u. if u_id u = uid then g u else u) (user_by_id (db w) x)" for x
      using find_update_where [of u_id g x uid "users (db w)"] g(1) by (simp add: user_by_id_def set_user_def)
    have "user_by_id (set_user uid g (db w)) other = user_by_id (db w) other" if "uid \<noteq> other"
      unfolding upd using user [of "db w" other] that by (cases "user_by_id (db w) other") auto
    moreover have "map_option u_kyc_status (user_by_id (set_user uid g (db w)) uid) = Some ''pending''"
      unfolding upd using u(1) user [OF u(1)] g(2) by simp
    ultimately show ?thesis using u d' by (auto simp: P_def user_by_id_def)
  qed
  have "wp (submitKYC env post parse_date uid f) (\<lambda>o' v. P o' (db v)) (\<lambda>_ _. False) w"
    unfolding submitKYC_def wp_handler wp_if wp_bnd
    by (simp add: wps base split: option.split) (auto intro!: wp_screen_submission base elim!: stored)
  then show ?thesis unfolding P_def .
qed

text \<open>
  What the expiry job promises for one user: no wallet, or a revocation of its wallet on chain, or an alert.
\<close>

definition expiry_handled :: "database \<Rightarrow> world \<Rightarrow> string \<Rightarrow> bool" where
  "expiry_handled d v uid = (case default_wallet d uid of None \<Rightarrow> True
     | Some wal \<Rightarrow> list_ex (\<lambda>c. case c of RevokeKyc _ pk _ \<Rightarrow> pk = w_public_key wal | _ \<Rightarrow> False) (chain_log v)
         \<or> list_ex (\<lambda>x. case x of Alert i _ \<Rightarrow> i = uid | _ \<Rightarrow> False) (outbox v))"

lemma expiry_handled_mono:
  "expiry_handled d v uid \<Longrightarrow> set (chain_log v) \<subseteq> set (chain_log u) \<Longrightarrow> set (outbox v) \<subseteq> set (outbox u) \<Longrightarrow>
   expiry_handled d u uid"
  by (fastforce simp: expiry_handled_def list_ex_iff split: option.splits)

definition grows :: "world \<Rightarrow> world \<Rightarrow> bool" where
  "grows w v \<longleftrightarrow> set (chain_log w) \<subseteq> set (chain_log v) \<and> set (outbox w) \<subseteq> set (outbox v)"

lemma grows_trans: "grows u v \<Longrightarrow> grows v w \<Longrightarrow> grows u w"
  unfolding grows_def by blast

lemma handled_grows: "expiry_handled d v uid \<Longrightarrow> grows v w \<Longrightarrow> expiry_handled d w uid"
  by (simp add: grows_def expiry_handled_mono)

lemma wp_revoke_expired:
  assumes "honest rpc"
  shows "wp (revoke_expired env rpc uid) (\<lambda>_ v. db v = db w \<and> grows w v \<and> expiry_handled (db w) v uid) (\<lambda>_ _. False) w"
proof -
  define P where "P x \<longleftrightarrow> db x = db w \<and> grows w x" for x :: world
  define R where "R x \<longleftrightarrow> db x = db w \<and> grows w x \<and> expiry_handled (db w) x uid" for x :: world
  have alert: "wp (emit (Alert uid m)) (\<lambda>_. R) (\<lambda>_ _. False) x" if "P x" for x m
    using that by (auto simp: wps P_def R_def grows_def expiry_handled_def split: option.split)
  have P0: "P w" "P (ticked w)" by (simp_all add: P_def grows_def)
  have "wp (revoke_expired env rpc uid) (\<lambda>_. R) (\<lambda>_ _. False) w"
  proof (cases "default_wallet (db w) uid")
    case None
    then have "R (ticked w)" by (simp add: R_def expiry_handled_def grows_def)
    moreover have "R ((ticked w)\<lparr>outbox := outbox w @ [Alert uid (err_message dbError)]\<rparr>)"
      using alert [OF P0(2), of "err_message dbError"] by (simp add: wps)
    ultimately show ?thesis using None unfolding revoke_expired_def wp_catch wp_bnd by (simp add: wps)
  next
    case (Some wal)
    have tier: "tier_value ''basic'' = Inr 0" by (simp add: tier_value_def toLowerCase_def lower_char_def)
    have inv: "wp (invokeAdmin env rpc ''revoke'' (\<lambda>key. RevokeKyc key (w_public_key wal) 0)) (\<lambda>_. R) (\<lambda>_. P) (ticked w)"
      unfolding invokeAdmin_def wp_if wp_bnd
      by (auto simp: wp_throw wp_ret P0 P_def R_def grows_def Some expiry_handled_def intro!: wp_submitCall [OF assms])
    then have "wp (revokeKyc env rpc (w_public_key wal) ''basic'') (\<lambda>_. R) (\<lambda>_. P) (ticked w)"
      by (simp add: revokeKyc_def tier wps)
    then have "wp (revokeKyc env rpc (w_public_key wal) ''basic'') (\<lambda>_. R)
        (\<lambda>e. wp (emit (Alert uid (err_message e))) (\<lambda>_. R) (\<lambda>_ _. False)) (ticked w)"
      by (rule wp_mono) (use alert in auto)
    then show ?thesis
      unfolding revoke_expired_def wp_catch wp_bnd
      using Some P0 alert by (simp add: wp_select wp_case_option wp_bnd getAdminPublicKey_def wp_if wp_throw wp_lift wp_ret split: sum.split)
  qed
  then show ?thesis unfolding R_def .
qed

lemma wp_revoke_all:
  assumes "honest rpc"
  shows "wp (forEach uids (revoke_expired env rpc)) (\<lambda>_ v. db v = db w \<and> list_all (expiry_handled (db w) v) uids) (\<lambda>_ _. False) w"
proof -
  define I where "I = (\<lambda>d (x :: world). db x = db w \<and> list_all (expiry_handled (db w) x) d)"
  have "wp (forEach uids (revoke_expired env rpc)) (\<lambda>_. I uids) (\<lambda>_ _. False) w"
  proof (rule wp_forEach)
    fix d uid and x :: world assume I: "I d x"
    show "wp (revoke_expired env rpc uid) (\<lambda>_. I (d @ [uid])) (\<lambda>_ _. False) x"
      by (rule wp_mono [OF wp_revoke_expired [OF assms]])
        (use I in \<open>auto simp: I_def list_all_iff intro: handled_grows\<close>)
  qed (simp add: I_def)
  then show ?thesis by (simp add: I_def)
qed

text \<open>The reminders touch only the dates already sent.\<close>

definition same_kyc :: "database \<Rightarrow> database \<Rightarrow> bool" where
  "same_kyc d d' \<longleftrightarrow> map (\<lambda>u. (u_id u, u_kyc_status u, u_kyc_expiry u)) (users d') = map (\<lambda>u. (u_id u, u_kyc_status u, u_kyc_expiry u)) (users d)"

lemma map_set_user: "(\<And>u. f (g u) = f u) \<Longrightarrow> map f (users (set_user i g d)) = map f (users d)"
  by (simp add: set_user_def update_where_def)

lemma wp_remind:
  assumes "same_kyc d (db w)" and "grows v w"
  shows "wp (remind_user today days u) (\<lambda>_ x. same_kyc d (db x) \<and> grows v x) (\<lambda>_ _. False) w"
  using assms by (auto simp: remind_user_def wps same_kyc_def grows_def map_set_user)

lemma wp_reminders:
  assumes "same_kyc d (db w)" and "grows v w"
  shows "wp (forEach us (remind_user today days)) (\<lambda>_ x. same_kyc d (db x) \<and> grows v x) (\<lambda>_ _. False) w"
  by (rule wp_forEach [where I = "\<lambda>_ x. same_kyc d (db x) \<and> grows v x"]) (use assms wp_remind in auto)

lemma wp_all_reminders:
  assumes "same_kyc d (db w)" and "grows v w"
  shows "wp (forEach ds (\<lambda>days. bnd (select (q days)) (\<lambda>us. forEach us (remind_user today days))))
    (\<lambda>_ x. same_kyc d (db x) \<and> grows v x) (\<lambda>_ x. same_kyc d (db x) \<and> grows v x) w"
proof (rule wp_forEach [where I = "\<lambda>_ x. same_kyc d (db x) \<and> grows v x"])
  fix y days and x :: world assume "same_kyc d (db x) \<and> grows v x"
  moreover have "grows v (ticked x) = grows v x" by (simp add: grows_def)
  ultimately show "wp (bnd (select (q days)) (\<lambda>us. forEach us (remind_user today days)))
      (\<lambda>_ x. same_kyc d (db x) \<and> grows v x) (\<lambda>_ x. same_kyc d (db x) \<and> grows v x) x"
    unfolding wp_bnd wp_select by (auto intro!: wp_mono [OF wp_reminders])
qed (use assms in auto)

text \<open>
  After a run of the expiry job (even one a failing query cuts short after the first update) no verified
  user has a document that had expired when it began, and each user it moved to \<open>expired\<close> has no
  wallet, or the revocation of its wallet is on chain, or operations were alerted.
\<close>

theorem expiry_job_revokes_or_alerts:
  assumes "honest rpc"
  shows "wp (checkKycDocumentExpiry env rpc)
    (\<lambda>_ v. \<not> list_ex (doc_expired (now w)) (users (db v)) \<and>
      list_all (\<lambda>u. if doc_expired (now w) u then expiry_handled (db w) v (u_id u) else True) (users (db w)))
    (\<lambda>_ v. db v = db w \<or> \<not> list_ex (doc_expired (now w)) (users (db v)) \<and>
      list_all (\<lambda>u. if doc_expired (now w) u then expiry_handled (db w) v (u_id u) else True) (users (db w))) w"
proof -
  define w1 where "w1 = (ticked w)\<lparr>db := (db w)\<lparr>users := update_where (doc_expired (now w)) (\<lambda>u. u\<lparr>u_kyc_status := ''expired''\<rparr>) (users (db w))\<rparr>\<rparr>"
  define uids where "uids = map u_id (filter (doc_expired (now w)) (users (db w)))"
  have wal: "expiry_handled (db w1) = expiry_handled (db w)"
    by (simp add: fun_eq_iff expiry_handled_def default_wallet_def w1_def)
  have fin: "\<not> list_ex (doc_expired (now w)) (users d)" if "same_kyc (db w1) d" for d
  proof -
    let ?k = "\<lambda>u. (u_id u, u_kyc_status u, u_kyc_expiry u)"
    define p where "p = (\<lambda>(i :: string, s, x). s = ''verified'' \<and> (case x of None \<Rightarrow> False | Some x \<Rightarrow> x < now w))"
    have p: "doc_expired (now w) u = p (?k u)" for u by (simp add: doc_expired_def p_def)
    have k: "list_ex (doc_expired (now w)) us = list_ex p (map ?k us)" for us
      by (simp add: list_ex_iff p)
    have "\<not> list_ex (doc_expired (now w)) (users (db w1))"
      by (auto simp: w1_def update_where_def doc_expired_def list_ex_iff)
    then show ?thesis using that unfolding k same_kyc_def by simp
  qed
  define D where "D x \<longleftrightarrow> \<not> list_ex (doc_expired (now w)) (users (db x)) \<and>
      list_all (\<lambda>u. if doc_expired (now w) u then expiry_handled (db w) x (u_id u) else True) (users (db w))" for x :: world
  have finish: "D x" if "same_kyc (db w1) (db x)" "grows v x" "list_all (expiry_handled (db w) v) uids" for v x
    using fin [OF that(1)] that(2,3) by (auto simp: D_def list_all_iff uids_def intro: handled_grows)
  have rest: "wp sendReminders (\<lambda>_. D) (\<lambda>_. D) v" if "db v = db w1 \<and> list_all (expiry_handled (db w1) v) uids" for v
  proof -
    have "wp sendReminders (\<lambda>_ x. same_kyc (db w1) (db x) \<and> grows v x) (\<lambda>_ x. same_kyc (db w1) (db x) \<and> grows v x) v"
      unfolding sendReminders_def wp_bnd wp_gets by (rule wp_all_reminders) (use that in \<open>simp_all add: same_kyc_def grows_def\<close>)
    then show ?thesis by (rule wp_mono) (use finish that wal in auto)
  qed
  have "wp (forEach uids (revoke_expired env rpc)) (\<lambda>_. wp sendReminders (\<lambda>_. D) (\<lambda>_ v. db v = db w \<or> D v)) (\<lambda>_ v. db v = db w \<or> D v) w1"
    by (rule wp_mono [OF wp_revoke_all [OF assms]]) (use wp_mono [OF rest] in auto)
  then show ?thesis
    unfolding checkKycDocumentExpiry_def wp_andThen wp_tick wp_bnd wp_gets wp_modify D_def [symmetric]
    by (simp add: w1_def [symmetric] uids_def [symmetric])
qed

definition demo_expiry_world :: world where
  "demo_expiry_world = init_world\<lparr>now := 2000000, db := empty_db\<lparr>
     users := [\<lparr>u_id = ''u1'', u_email = ''a@b.c'', u_full_name = ''A'', u_role = ''user'', u_kyc_status = ''verified'', u_kyc_identity = None,
       u_kyc_submitted = None, u_kyc_expiry = Some 1000000, u_kyc_reminders = [], u_phone_verified = True, u_suspended = False,
       u_suspension_reason = None, u_referral_code = None, u_referred_by = None\<rparr>],
     wallets := [\<lparr>w_id = ''w1'', w_user = ''u1'', w_public_key = ''GA'', w_secret = [], w_default = True, w_created = 0\<rparr>]\<rparr>\<rparr>"

lemma expiry_job_revokes_or_alerts_witness:
  "doc_expired (now demo_expiry_world) (hd (users (db demo_expiry_world))) \<and>
   wp (checkKycDocumentExpiry \<lparr>at_contract_configured = True, at_admin_key = ''S'', at_ttl_days = 365\<rparr> good_rpc)
    (\<lambda>_ v. \<not> list_ex (doc_expired (now demo_expiry_world)) (users (db v)) \<and>
      list_all (\<lambda>u. if doc_expired (now demo_expiry_world) u then expiry_handled (db demo_expiry_world) v (u_id u) else True) (users (db demo_expiry_world)))
    (\<lambda>_ v. db v = db demo_expiry_world \<or> \<not> list_ex (doc_expired (now demo_expiry_world)) (users (db v)) \<and>
      list_all (\<lambda>u. if doc_expired (now demo_expiry_world) u then expiry_handled (db demo_expiry_world) v (u_id u) else True) (users (db demo_expiry_world)))
    demo_expiry_world"
  by (intro conjI expiry_job_revokes_or_alerts good_rpc_honest) (simp add: doc_expired_def demo_expiry_world_def)

end
