(* ===== verification/Ssrf.thy ===== *)
theory Ssrf
  imports JsText "HOL-Library.Word"
begin

unbundle bit_operations_syntax

text \<open>
  The guard on outbound requests: \<^verbatim>\<open>utils/ssrfValidator.js\<close>, \<^verbatim>\<open>utils/ssrf.js\<close> and \<^verbatim>\<open>utils/pinnedAgent.js\<close>.
  Addresses are the 32-bit words the source's bit operations compute. Parsing a URL and the name
  service are parameters (the record \<open>resolver\<close>).
\<close>

section \<open>Addresses\<close>

definition BLOCKED_CIDRS :: "(32 word \<times> 32 word) list" where
  "BLOCKED_CIDRS = [(0x0a000000, 0xff000000), (0xac100000, 0xfff00000), (0xc0a80000, 0xffff0000), (0x7f000000, 0xff000000),
     (0xa9fe0000, 0xffff0000), (0x64400000, 0xffc00000), (0x00000000, 0xff000000), (0xe0000000, 0xf0000000), (0xf0000000, 0xf0000000)]"

text \<open>\<open>x >>> 0\<close>: the 32-bit value of a number.\<close>

fun toUint32 :: "jsnum \<Rightarrow> 32 word" where
  "toUint32 (Fin x) = word_of_int (if x < 0 then \<lceil>x\<rceil> else \<lfloor>x\<rfloor>)"
| "toUint32 _ = 0"

text \<open>\<open>(acc << 8) + parseInt(octet, 10)\<close>: a signed shift, then an addition of doubles.\<close>

definition ip_step :: "jsnum \<Rightarrow> string \<Rightarrow> jsnum" where
  "ip_step acc octet = jadd (Fin (of_int (sint (push_bit 8 (toUint32 acc))))) (parseInt octet)"

definition ipToInt :: "string \<Rightarrow> 32 word" where
  "ipToInt ip = toUint32 (foldl ip_step (Fin 0) (split_on ch_dot ip))"

text \<open>The regular expression \<^verbatim>\<open>/^\d{1,3}(\.\d{1,3}){3}$/\<close>.\<close>

definition is_quad :: "string \<Rightarrow> bool" where
  "is_quad s = (let ps = split_on ch_dot s in
     length ps = 4 \<and> list_all (\<lambda>p. 1 \<le> length p \<and> length p \<le> 3 \<and> list_all is_digit p) ps)"

definition startsWith :: "string \<Rightarrow> string \<Rightarrow> bool" where
  "startsWith s p = (take (length p) s = p)"

definition endsWith :: "string \<Rightarrow> string \<Rightarrow> bool" where
  "endsWith s p = startsWith (rev s) (rev p)"

definition isPrivateIp :: "string \<Rightarrow> bool" where
  "isPrivateIp ip =
     (if ip = ''::1'' \<or> startsWith ip ''fe80'' \<or> startsWith ip ''fc'' \<or> startsWith ip ''fd'' then True
      else if \<not> is_quad ip then False
      else let n = ipToInt ip in list_ex (\<lambda>(net, m). n AND m = net AND m) BLOCKED_CIDRS)"

text \<open>\<open>WEBHOOK_ALLOWED_CIDRS\<close>: the mask is \<open>(~0 << (32 - prefix)) >>> 0\<close>, with the shift count modulo 32.\<close>

definition cidr_mask :: "jsnum \<Rightarrow> 32 word" where
  "cidr_mask prefix = (if prefix = Fin 0 then 0
     else push_bit (unat (toUint32 (jsub (Fin 32) prefix)) mod 32) (- 1))"

definition parseAllowedCidrs :: "string \<Rightarrow> (32 word \<times> 32 word) list" where
  "parseAllowedCidrs raw = map (\<lambda>cidr.
       let parts = split_on (CHR ''/'') (trim cidr);
           bits = (case parts of _ # b # _ \<Rightarrow> if b = [] then ''32'' else b | _ \<Rightarrow> ''32'');
           m = cidr_mask (parseInt bits) in
       (ipToInt (hd parts) AND m, m))
     (filter (\<lambda>c. c \<noteq> []) (split_on (CHR '','') raw))"

definition isAllowlisted :: "string \<Rightarrow> (32 word \<times> 32 word) list \<Rightarrow> bool" where
  "isAllowlisted ip allowed = (if allowed = [] then False else if \<not> is_quad ip then False
     else let n = ipToInt ip in list_ex (\<lambda>(net, m). n AND m = net) allowed)"

section \<open>URLs\<close>

text \<open>
  \<open>rs_parse\<close> is \<open>new URL\<close>: the protocol (with its colon) and the host, \<open>None\<close> when it throws; \<open>rs_v4\<close>, \<open>rs_v6\<close> and
  \<open>rs_lookup\<close> are the three calls of \<open>dns.promises\<close>.
\<close>

record resolver =
  rs_parse :: "string \<Rightarrow> (string \<times> string) option"
  rs_v4 :: "string \<Rightarrow> jserr + string list"
  rs_v6 :: "string \<Rightarrow> jserr + string list"
  rs_lookup :: "string \<Rightarrow> jserr + string"

definition resolveAllIps :: "resolver \<Rightarrow> string \<Rightarrow> string list" where
  "resolveAllIps rs host = (case rs_v4 rs host of Inl _ \<Rightarrow> [] | Inr ips \<Rightarrow> ips) @ (case rs_v6 rs host of Inl _ \<Rightarrow> [] | Inr ips \<Rightarrow> ips)"

text \<open>An agent: whether it speaks TLS, the server name it sends, the address it connects to.\<close>

record agent_conn =
  ac_tls :: bool
  ac_servername :: "string option"
  ac_connects :: string

definition createPinnedAgent :: "string \<Rightarrow> string \<Rightarrow> string \<Rightarrow> agent_conn" where
  "createPinnedAgent host ip protocol = (let isHttps = (protocol = ''https'') in
     \<lparr>ac_tls = isHttps, ac_servername = (if isHttps then Some host else None), ac_connects = ip\<rparr>)"

definition ALLOWED_SCHEMES :: "string list" where
  "ALLOWED_SCHEMES = [''https:'', ''http:'']"

text \<open>\<open>protocol.replace(':', '')\<close>.\<close>

definition strip_colon :: "string \<Rightarrow> string" where
  "strip_colon p = takeWhile (\<lambda>c. c \<noteq> CHR '':'') p @ drop 1 (dropWhile (\<lambda>c. c \<noteq> CHR '':'') p)"

definition validateOutboundUrl :: "resolver \<Rightarrow> string \<Rightarrow> string \<Rightarrow> string + (string \<times> agent_conn)" where
  "validateOutboundUrl rs raw_cidrs url = (case rs_parse rs url of
     None \<Rightarrow> Inl ''Invalid URL format''
   | Some (protocol, host) \<Rightarrow>
     if protocol \<notin> set ALLOWED_SCHEMES then Inl (''Scheme \"'' @ protocol @ ''\" is not allowed. Only http and https are permitted.'')
     else let allowed = parseAllowedCidrs raw_cidrs in
       if is_quad host then
         (if isPrivateIp host \<and> \<not> isAllowlisted host allowed then Inl ''SSRF_BLOCKED''
          else Inr (host, createPinnedAgent host host (strip_colon protocol)))
       else (case resolveAllIps rs host of
           [] \<Rightarrow> Inl ''Hostname could not be resolved''
         | pin # rest \<Rightarrow>
           if list_ex (\<lambda>ip. isPrivateIp ip \<and> \<not> isAllowlisted ip allowed) (pin # rest) then Inl ''SSRF_BLOCKED''
           else Inr (pin, createPinnedAgent host pin (strip_colon protocol))))"

definition BLOCKED_HOSTNAME_SUFFIXES :: "string list" where
  "BLOCKED_HOSTNAME_SUFFIXES = [''.local'', ''.internal'', ''localhost'']"

text \<open>\<^verbatim>\<open>utils/ssrf.js\<close> and \<^verbatim>\<open>utils/ssrfValidator.js\<close> each have a \<open>validatePublicUrl\<close>.\<close>

definition validatePublicUrl :: "resolver \<Rightarrow> string \<Rightarrow> bool" where
  "validatePublicUrl rs url = (case rs_parse rs url of None \<Rightarrow> False
   | Some (protocol, hn) \<Rightarrow>
     if protocol \<noteq> ''https:'' then False
     else let host = toLowerCase hn in
       if list_ex (\<lambda>s. host = s \<or> endsWith host s) BLOCKED_HOSTNAME_SUFFIXES then False
       else if is_quad host \<and> isPrivateIp host then False
       else (case rs_lookup rs host of Inl _ \<Rightarrow> False | Inr address \<Rightarrow> \<not> isPrivateIp address))"

definition validatePublicUrl_validator :: "resolver \<Rightarrow> string \<Rightarrow> bool" where
  "validatePublicUrl_validator rs url = (case rs_parse rs url of None \<Rightarrow> False
   | Some (protocol, host) \<Rightarrow>
     if protocol \<noteq> ''https:'' then False
     else if is_quad host \<and> isPrivateIp host then False
     else (case rs_lookup rs host of Inl _ \<Rightarrow> False | Inr address \<Rightarrow> \<not> isPrivateIp address))"

section \<open>Properties\<close>

lemma drop_mask_eq: "n AND NOT (mask k) = m AND NOT (mask k) \<longleftrightarrow> unat n div 2 ^ k = unat m div 2 ^ k"
  for n m :: "'a::len word"
proof -
  have e: "x AND NOT (mask k) = push_bit k (drop_bit k x)" for x :: "'a word"
    by (rule bit_word_eqI) (auto simp: bit_simps dest: bit_imp_le_length)
  have d: "drop_bit k (x AND NOT (mask k)) = drop_bit k x" for x :: "'a word"
    by (rule bit_word_eqI) (auto simp: bit_simps dest: bit_imp_le_length)
  have u: "unat (drop_bit k x) = unat x div 2 ^ k" for x :: "'a word"
    unfolding unat_drop_bit_eq by (simp add: drop_bit_eq_div)
  show ?thesis by (metis e d u word_unat_eq_iff)
qed

definition dotted :: "nat \<Rightarrow> nat \<Rightarrow> nat \<Rightarrow> nat \<Rightarrow> string" where
  "dotted a b c d = show_nat a @ [ch_dot] @ show_nat b @ [ch_dot] @ show_nat c @ [ch_dot] @ show_nat d"

lemma split_on_append: "c \<notin> set s \<Longrightarrow> split_on c (s @ c # t) = s # split_on c t"
  by (induction s) auto

lemma split_on_single: "c \<notin> set s \<Longrightarrow> split_on c s = [s]"
  by (induction s) auto

lemma dot_not_digit: "ch_dot \<notin> set (show_nat n)"
proof -
  have "\<not> is_digit ch_dot" by (simp add: is_digit_def ch_dot_def)
  then show ?thesis using show_nat_digits [of n] by (auto simp: list_all_iff)
qed

lemma split_dotted: "split_on ch_dot (dotted a b c d) = [show_nat a, show_nat b, show_nat c, show_nat d]"
  by (simp add: dotted_def split_on_append split_on_single dot_not_digit)

lemma show_nat_length: "n < 1000 \<Longrightarrow> length (show_nat n) \<le> 3"
  by (subst show_nat.simps, simp, subst show_nat.simps, simp, subst show_nat.simps, simp)

lemma quad_dotted: "a < 1000 \<Longrightarrow> b < 1000 \<Longrightarrow> c < 1000 \<Longrightarrow> d < 1000 \<Longrightarrow> is_quad (dotted a b c d)"
  using show_nat_nonempty by (auto simp: is_quad_def split_dotted show_nat_length show_nat_digits Suc_le_eq)

lemma show_nat_head: obtains x xs where "show_nat n = x # xs" "is_digit x"
  using show_nat_nonempty [of n] show_nat_digits [of n] by (cases "show_nat n") auto

lemma digit_plain: "is_digit x \<Longrightarrow> \<not> is_space x \<and> x \<noteq> CHR ''-'' \<and> x \<noteq> CHR ''+'' \<and> x \<noteq> CHR ''f'' \<and> x \<noteq> CHR '':''"
  by (auto simp: is_digit_def is_space_def Let_def)

lemma parseInt_show: "n < 2 ^ 53 \<Longrightarrow> parseInt (show_nat n) = Fin (of_nat n)"
proof -
  assume n: "n < 2 ^ 53"
  obtain x xs where h: "show_nat n = x # xs" "is_digit x" by (rule show_nat_head)
  have t: "takeWhile is_digit (show_nat n) = show_nat n"
    using show_nat_digits [of n] by (simp add: list_all_iff)
  have m: "mk (of_int (int n)) = Fin (of_int (int n))" by (rule mk_int) (use n in simp)
  have u: "unsign (dropWhile is_space (show_nat n)) = (False, show_nat n)"
    using h digit_plain [OF h(2)] by (simp add: unsign_def)
  show ?thesis
    unfolding parseInt_def Let_def u prod.case t show_nat_val m
    using show_nat_nonempty [of n] by (simp add: JsText.signed_def)
qed

lemma ip_step_show:
  assumes "n < 1000"
  shows "ip_step (Fin (of_int x)) (show_nat n) = Fin (of_int (sint (push_bit 8 (word_of_int x :: 32 word)) + int n))"
proof -
  let ?y = "sint (push_bit 8 (word_of_int x :: 32 word))"
  have "- (2 ^ 31) \<le> ?y" "?y < 2 ^ 31" using sint_range_size [of "push_bit 8 (word_of_int x :: 32 word)"] by (simp_all add: word_size)
  then have "\<bar>?y + int n\<bar> < 2 ^ 53" using assms by simp
  then have "mk (of_int (?y + int n)) = Fin (of_int (?y + int n))" by (rule mk_int)
  then show ?thesis using assms by (simp add: ip_step_def parseInt_show)
qed

lemma ipToInt_dotted:
  assumes "a < 1000" "b < 1000" "c < 1000" "d < 1000"
  shows "ipToInt (dotted a b c d) = word_of_int (((int a * 256 + int b) * 256 + int c) * 256 + int d)"
proof -
  have e: "word_of_int (sint (push_bit 8 (word_of_int x :: 32 word)) + int n) = (word_of_int (x * 256 + int n) :: 32 word)" for x n
    by (simp add: push_bit_eq_mult)
  have z: "Fin 0 = Fin (of_int 0)" by simp
  have s: "sint (push_bit 8 (word_of_int (sint (push_bit 8 (word_of_int x :: 32 word)) + int n) :: 32 word)) =
     sint (push_bit 8 (word_of_int (x * 256 + int n) :: 32 word))" for x n by (simp only: e)
  have t: "toUint32 (Fin (of_int x)) = word_of_int x" for x by simp
  show ?thesis
    unfolding ipToInt_def split_dotted foldl_Cons foldl_Nil z ip_step_show [OF assms(1)] ip_step_show [OF assms(2)]
      ip_step_show [OF assms(3)] ip_step_show [OF assms(4)] s t e
    by simp
qed

text \<open>The ranges the comments of \<open>BLOCKED_CIDRS\<close> name, by octets.\<close>

definition reserved :: "nat \<Rightarrow> nat \<Rightarrow> bool" where
  "reserved a b \<longleftrightarrow> a = 10 \<or> (a = 172 \<and> 16 \<le> b \<and> b \<le> 31) \<or> (a = 192 \<and> b = 168) \<or> a = 127 \<or> (a = 169 \<and> b = 254)
     \<or> (a = 100 \<and> 64 \<le> b \<and> b \<le> 127) \<or> a = 0 \<or> 224 \<le> a"

lemma masks:
  "(0xff000000 :: 32 word) = NOT (mask 24)" "(0xfff00000 :: 32 word) = NOT (mask 20)" "(0xffff0000 :: 32 word) = NOT (mask 16)"
  "(0xffc00000 :: 32 word) = NOT (mask 22)" "(0xf0000000 :: 32 word) = NOT (mask 28)"
  by (simp_all add: mask_eq_exp_minus_1)

lemma octets_div:
  assumes "b < 256" "c < 256" "d < 256"
  shows "(((a * 256 + b) * 256 + c) * 256 + d) div 2 ^ 24 = (a :: nat)"
    "(((a * 256 + b) * 256 + c) * 256 + d) div 2 ^ 20 = a * 16 + b div 16"
    "(((a * 256 + b) * 256 + c) * 256 + d) div 2 ^ 16 = a * 256 + b"
    "(((a * 256 + b) * 256 + c) * 256 + d) div 2 ^ 22 = a * 4 + b div 64"
    "(((a * 256 + b) * 256 + c) * 256 + d) div 2 ^ 28 = a div 16"
  using assms by (auto simp: div_mult2_eq [symmetric])

lemma high_part:
  fixes a q :: nat
  assumes "q < m" "k < m"
  shows "a * m + q = n * m + k \<longleftrightarrow> a = n \<and> q = k"
proof
  assume e: "a * m + q = n * m + k"
  then have "(a * m + q) div m = (n * m + k) div m" "(a * m + q) mod m = (n * m + k) mod m" by simp_all
  with assms show "a = n \<and> q = k" by simp
qed simp

lemma range_arith:
  fixes a b :: nat
  shows "b div 16 = 1 \<longleftrightarrow> 16 \<le> b \<and> b \<le> 31" "b div 64 = 1 \<longleftrightarrow> 64 \<le> b \<and> b \<le> 127"
    "a div 16 = 14 \<or> a div 16 = 15 \<longleftrightarrow> 224 \<le> a \<and> a \<le> 255"
  by linarith+

lemma blocked_words:
  fixes n :: "32 word"
  assumes "unat n = ((a * 256 + b) * 256 + c) * 256 + d" "a < 256" "b < 256" "c < 256" "d < 256"
  shows "list_ex (\<lambda>(net, m). n AND m = net AND m) BLOCKED_CIDRS \<longleftrightarrow> reserved a b"
proof -
  have r: "a * 16 + b div 16 = 2753 \<longleftrightarrow> a = 172 \<and> 16 \<le> b \<and> b \<le> 31" "a * 256 + b = 49320 \<longleftrightarrow> a = 192 \<and> b = 168"
    "a * 256 + b = 43518 \<longleftrightarrow> a = 169 \<and> b = 254" "a * 4 + b div 64 = 401 \<longleftrightarrow> a = 100 \<and> 64 \<le> b \<and> b \<le> 127"
    using assms(2,3) high_part [of "b div 16" 16 1 a 172] high_part [of b 256 168 a 192] high_part [of b 256 254 a 169]
      high_part [of "b div 64" 4 1 a 100] range_arith(1,2) [of b]
    by (simp_all add: less_mult_imp_div_less)
  have h: "(a div 16 = 14 \<or> a div 16 = 15) = (224 \<le> a)" using range_arith(3) [of a] assms(2) by simp
  have m: "n AND 0xff000000 = net AND 0xff000000 \<longleftrightarrow> unat n div 2 ^ 24 = unat net div 2 ^ 24"
    "n AND 0xfff00000 = net AND 0xfff00000 \<longleftrightarrow> unat n div 2 ^ 20 = unat net div 2 ^ 20"
    "n AND 0xffff0000 = net AND 0xffff0000 \<longleftrightarrow> unat n div 2 ^ 16 = unat net div 2 ^ 16"
    "n AND 0xffc00000 = net AND 0xffc00000 \<longleftrightarrow> unat n div 2 ^ 22 = unat net div 2 ^ 22"
    "n AND 0xf0000000 = net AND 0xf0000000 \<longleftrightarrow> unat n div 2 ^ 28 = unat net div 2 ^ 28" for net
    unfolding masks by (rule drop_mask_eq)+
  have u: "unat n div 2 ^ 24 = a" "unat n div 2 ^ 20 = a * 16 + b div 16" "unat n div 2 ^ 16 = a * 256 + b"
    "unat n div 2 ^ 22 = a * 4 + b div 64" "unat n div 2 ^ 28 = a div 16"
    unfolding assms(1) by (rule octets_div [OF assms(3-5)])+
  show ?thesis
    unfolding BLOCKED_CIDRS_def list_ex_Cons_iff list_ex_Nil_iff prod.case m u
    using h by (simp add: r reserved_def)
qed

lemma dotted_not_v6:
  "dotted a b c d \<noteq> ''::1''" "\<not> startsWith (dotted a b c d) ''fe80''" "\<not> startsWith (dotted a b c d) ''fc''" "\<not> startsWith (dotted a b c d) ''fd''"
proof -
  obtain x xs where "show_nat a = x # xs" "is_digit x" by (rule show_nat_head)
  then show "dotted a b c d \<noteq> ''::1''" "\<not> startsWith (dotted a b c d) ''fe80''" "\<not> startsWith (dotted a b c d) ''fc''" "\<not> startsWith (dotted a b c d) ''fd''"
    using digit_plain [of x] by (auto simp: dotted_def startsWith_def)
qed

text \<open>
  C30: on dotted addresses the masks of \<open>BLOCKED_CIDRS\<close>, computed with 32-bit shifts over doubles, decide exactly
  the private, loopback, link-local, shared, multicast and reserved ranges by their octets.
\<close>

theorem isPrivateIp_ranges:
  assumes "a < 256" "b < 256" "c < 256" "d < 256"
  shows "isPrivateIp (dotted a b c d) \<longleftrightarrow> reserved a b"
proof -
  have q: "is_quad (dotted a b c d)" using assms by (simp add: quad_dotted)
  define n where "n = ((a * 256 + b) * 256 + c) * 256 + d"
  have "((int a * 256 + int b) * 256 + int c) * 256 + int d = int n" by (simp add: n_def)
  then have "ipToInt (dotted a b c d) = word_of_nat n" using assms by (simp only: ipToInt_dotted) simp
  moreover have "n < 2 ^ 32" using assms by (simp add: n_def)
  ultimately have "unat (ipToInt (dotted a b c d)) = ((a * 256 + b) * 256 + c) * 256 + d"
    unfolding n_def [symmetric] by (simp add: unsigned_of_nat take_bit_eq_mod)
  from blocked_words [OF this assms] q dotted_not_v6 show ?thesis
    by (simp add: isPrivateIp_def Let_def)
qed

lemma isPrivateIp_ranges_witness:
  "isPrivateIp (dotted 172 31 0 9) \<and> \<not> isPrivateIp (dotted 172 32 0 9)"
  using isPrivateIp_ranges [of 172 31 0 9] isPrivateIp_ranges [of 172 32 0 9] by (simp add: reserved_def)

text \<open>
  C31: the outbound guard pins the connection: when it accepts a URL, the scheme is http or https, the agent
  connects to the address it validated, that address is the bare host or one the name resolves to, and
  every candidate address is public or on the allow list.
\<close>

theorem validateOutboundUrl_pins:
  assumes "validateOutboundUrl rs cidrs url = Inr (pin, agent)"
  shows "\<exists>protocol host. rs_parse rs url = Some (protocol, host) \<and> protocol \<in> {''https:'', ''http:''} \<and>
    ac_connects agent = pin \<and> ac_tls agent = (protocol = ''https:'') \<and>
    pin \<in> set (if is_quad host then [host] else resolveAllIps rs host) \<and>
    list_all (\<lambda>ip. \<not> isPrivateIp ip \<or> isAllowlisted ip (parseAllowedCidrs cidrs)) (if is_quad host then [host] else resolveAllIps rs host)"
proof -
  obtain protocol host where p: "rs_parse rs url = Some (protocol, host)" "protocol \<in> set ALLOWED_SCHEMES"
    using assms by (auto simp: validateOutboundUrl_def split: option.splits if_splits)
  have tls: "(strip_colon protocol = ''https'') = (protocol = ''https:'')"
    using p(2) by (auto simp: ALLOWED_SCHEMES_def strip_colon_def)
  show ?thesis
    using assms p tls
    by (auto simp: validateOutboundUrl_def createPinnedAgent_def Let_def ALLOWED_SCHEMES_def list_ex_iff list_all_iff split: if_splits list.splits)
qed

definition demo_resolver :: resolver where
  "demo_resolver = \<lparr>rs_parse = (\<lambda>u. Some (''https:'', ''hooks.example'')), rs_v4 = (\<lambda>_. Inl (mkError ''ENODATA'')),
     rs_v6 = (\<lambda>_. Inr [''::ffff:169.254.169.254'']), rs_lookup = (\<lambda>_. Inr ''::ffff:169.254.169.254'')\<rparr>"

text \<open>
  The guard reads an IPv6 address that embeds an IPv4 one as public: the metadata address of the cloud
  passes both guards when it is written in that form.
\<close>

lemma mapped_address_passes:
  "validatePublicUrl demo_resolver ''https://hooks.example/''"
  "validateOutboundUrl demo_resolver [] ''https://hooks.example/'' =
     Inr (''::ffff:169.254.169.254'', createPinnedAgent ''hooks.example'' ''::ffff:169.254.169.254'' ''https'')"
  by code_simp+

lemma validateOutboundUrl_pins_witness:
  "\<exists>protocol host. rs_parse demo_resolver ''https://hooks.example/'' = Some (protocol, host) \<and> protocol \<in> {''https:'', ''http:''} \<and>
    ac_connects (createPinnedAgent ''hooks.example'' ''::ffff:169.254.169.254'' ''https'') = ''::ffff:169.254.169.254'' \<and>
    ac_tls (createPinnedAgent ''hooks.example'' ''::ffff:169.254.169.254'' ''https'') = (protocol = ''https:'') \<and>
    ''::ffff:169.254.169.254'' \<in> set (if is_quad host then [host] else resolveAllIps demo_resolver host) \<and>
    list_all (\<lambda>ip. \<not> isPrivateIp ip \<or> isAllowlisted ip (parseAllowedCidrs [])) (if is_quad host then [host] else resolveAllIps demo_resolver host)"
  by (rule validateOutboundUrl_pins) (rule mapped_address_passes(2))

end
