(* ===== verification/Retry.thy ===== *)
theory Retry
  imports JsText
begin

text \<open>
  \<^verbatim>\<open>utils/retry.js\<close>: calls repeated with exponential backoff. The call is the sequence of its results, one for
  each attempt; the random jitter, the clock and \<open>Date.parse\<close> are parameters.
\<close>

section \<open>Errors of a call\<close>

record call_err =
  ce_status :: "nat option"
  ce_response_status :: "nat option"
  ce_tx_code :: "string option"
  ce_retry_after :: "string option"

definition RETRYABLE_STATUSES :: "nat list" where
  "RETRYABLE_STATUSES = [429, 503, 504]"

definition MAX_DELAY_MS :: int where
  "MAX_DELAY_MS = 10000"

definition NON_RETRIABLE_TX_CODES :: "string list" where
  "NON_RETRIABLE_TX_CODES = [''tx_bad_auth'', ''tx_insufficient_balance'', ''tx_no_account'', ''tx_invalid_seq'',
     ''tx_bad_minseqage'', ''tx_bad_minseqnum'']"

text \<open>\<open>err.response?.status ?? err.status\<close>.\<close>

definition status_or :: "call_err \<Rightarrow> nat option" where
  "status_or e = (case ce_response_status e of Some s \<Rightarrow> Some s | None \<Rightarrow> ce_status e)"

definition isRetryable :: "call_err \<Rightarrow> bool" where
  "isRetryable e = (case status_or e of
     Some s \<Rightarrow> if s \<noteq> 0 then
         (if (case ce_tx_code e of Some c \<Rightarrow> c \<in> set NON_RETRIABLE_TX_CODES | None \<Rightarrow> False) then False
          else s \<in> set RETRYABLE_STATUSES)
       else True
   | None \<Rightarrow> True)"

definition retryAfterMs :: "(string \<Rightarrow> int option) \<Rightarrow> int \<Rightarrow> call_err \<Rightarrow> jsnum option" where
  "retryAfterMs parse_date t e = (case ce_retry_after e of
     None \<Rightarrow> None
   | Some h \<Rightarrow>
     if h = [] then None
     else let parsed = parseFloat h in
       if parsed \<noteq> NaN then Some (jmul parsed (Fin 1000))
       else (case parse_date h of Some x \<Rightarrow> Some (Fin (of_int (max 0 (x - t)))) | None \<Rightarrow> None))"

section \<open>The loop\<close>

text \<open>
  \<open>Math.min(baseDelay * 2 ** (attempt - 1) + jitter, MAX_DELAY_MS)\<close>: the integers are exact where the
  minimum is not the cap.
\<close>

definition backoff :: "nat \<Rightarrow> nat \<Rightarrow> nat \<Rightarrow> jsnum" where
  "backoff baseDelay attempt jitter = Fin (of_int (min (int baseDelay * 2 ^ (attempt - 1) + int jitter) MAX_DELAY_MS))"

record retry_env =
  rt_jitter :: "nat \<Rightarrow> nat"
  rt_clock :: "nat \<Rightarrow> int"
  rt_parse_date :: "string \<Rightarrow> int option"

definition retry_delay :: "retry_env \<Rightarrow> nat \<Rightarrow> nat \<Rightarrow> call_err \<Rightarrow> jsnum" where
  "retry_delay env baseDelay attempt e =
     (if status_or e = Some 429 then
        (case retryAfterMs (rt_parse_date env) (rt_clock env attempt) e of
           Some x \<Rightarrow> x | None \<Rightarrow> backoff baseDelay attempt (rt_jitter env attempt mod 100))
      else backoff baseDelay attempt (rt_jitter env attempt mod 100))"

text \<open>The result and the delays waited.\<close>

function retry_from :: "retry_env \<Rightarrow> (nat \<Rightarrow> call_err + 'a) \<Rightarrow> nat \<Rightarrow> nat \<Rightarrow> nat \<Rightarrow> (call_err + 'a) \<times> jsnum list" where
  "retry_from env fn maxRetries baseDelay attempt = (case fn attempt of
     Inr x \<Rightarrow> (Inr x, [])
   | Inl e \<Rightarrow>
     if maxRetries < Suc attempt \<or> \<not> isRetryable e then (Inl e, [])
     else let (r, ds) = retry_from env fn maxRetries baseDelay (Suc attempt) in (r, retry_delay env baseDelay (Suc attempt) e # ds))"
  by pat_completeness auto
termination by (relation "measure (\<lambda>(env, fn, maxRetries, baseDelay, attempt). Suc maxRetries - attempt)") auto

declare retry_from.simps [simp del]

definition retryWithBackoff :: "retry_env \<Rightarrow> (nat \<Rightarrow> call_err + 'a) \<Rightarrow> nat \<Rightarrow> nat \<Rightarrow> (call_err + 'a) \<times> jsnum list" where
  "retryWithBackoff env fn maxRetries baseDelay = retry_from env fn maxRetries baseDelay 0"

text \<open>\<open>maxAttempts - 1\<close> retries; with no attempt allowed the bound is \<open>-1\<close>, which still makes one call.\<close>

definition withRetry :: "retry_env \<Rightarrow> (nat \<Rightarrow> call_err + 'a) \<Rightarrow> nat \<Rightarrow> (call_err + 'a) \<times> jsnum list" where
  "withRetry env fn maxAttempts = retryWithBackoff env fn (maxAttempts - 1) 1000"

section \<open>Properties\<close>

definition transient :: "call_err + 'a \<Rightarrow> bool" where
  "transient r = (case r of Inl e \<Rightarrow> isRetryable e | Inr _ \<Rightarrow> False)"

text \<open>The reference: the first attempt that settles the call, or the last one allowed.\<close>

definition settled_at :: "(nat \<Rightarrow> call_err + 'a) \<Rightarrow> nat \<Rightarrow> nat" where
  "settled_at fn maxRetries = length (takeWhile (\<lambda>k. transient (fn k)) [0..<maxRetries])"

lemma takeWhile_from:
  "length (takeWhile P [a..<n]) = (if a < n \<and> P a then Suc (length (takeWhile P [Suc a..<n])) else 0)"
  by (cases "a < n") (simp_all add: upt_conv_Cons)

lemma retry_from_spec:
  "attempt \<le> maxRetries \<Longrightarrow> k = length (takeWhile (\<lambda>k. transient (fn k)) [attempt..<maxRetries]) \<Longrightarrow>
   retry_from env fn maxRetries baseDelay attempt = (fn (attempt + k),
     map (\<lambda>i. retry_delay env baseDelay (Suc i) (projl (fn i))) [attempt..<attempt + k])"
proof (induction "maxRetries - attempt" arbitrary: attempt k)
  case 0
  then have "attempt = maxRetries" by simp
  with 0 show ?case by (subst retry_from.simps) (simp split: sum.split)
next
  case (Suc m)
  then have lt: "attempt < maxRetries" by simp
  show ?case
  proof (cases "fn attempt")
    case (Inr x)
    with Suc.prems show ?thesis by (subst retry_from.simps) (simp add: takeWhile_from [of _ attempt] transient_def)
  next
    case (Inl e)
    show ?thesis
    proof (cases "isRetryable e")
      case False
      with Inl Suc.prems show ?thesis by (subst retry_from.simps) (simp add: takeWhile_from [of _ attempt] transient_def)
    next
      case True
      define j where "j = length (takeWhile (\<lambda>k. transient (fn k)) [Suc attempt..<maxRetries])"
      have k: "k = Suc j" using Suc.prems(2) lt Inl True by (simp add: takeWhile_from [of _ attempt] transient_def j_def)
      have "retry_from env fn maxRetries baseDelay (Suc attempt) = (fn (Suc attempt + j),
          map (\<lambda>i. retry_delay env baseDelay (Suc i) (projl (fn i))) [Suc attempt..<Suc attempt + j])"
        by (rule Suc.hyps(1)) (use Suc.hyps lt j_def in auto)
      then show ?thesis
        using Inl True lt by (subst retry_from.simps) (simp add: k upt_conv_Cons del: upt_Suc)
    qed
  qed
qed

text \<open>The wait the server asked for with a 429.\<close>

definition asked_wait :: "retry_env \<Rightarrow> nat \<Rightarrow> call_err \<Rightarrow> jsnum option" where
  "asked_wait env attempt e = (if status_or e = Some 429 then retryAfterMs (rt_parse_date env) (rt_clock env attempt) e else None)"

lemma backoff_cap: "jle (backoff base i j) (Fin 10000)"
  by (simp add: backoff_def MAX_DELAY_MS_def)

lemma retry_delay_cases: "jle (retry_delay env base i e) (Fin 10000) \<or> asked_wait env i e = Some (retry_delay env base i e)"
  by (auto simp: retry_delay_def asked_wait_def backoff_cap split: option.split)

text \<open>
  a retried call returns, with the result of the first attempt that succeeds or fails for good, or of the last
  attempt allowed; it waits once before each further attempt, and every wait the server did not ask
  for is at most ten seconds.
\<close>

theorem retryWithBackoff_settles:
  "retryWithBackoff env fn maxRetries baseDelay = (fn (settled_at fn maxRetries),
     map (\<lambda>i. retry_delay env baseDelay (Suc i) (projl (fn i))) [0..<settled_at fn maxRetries]) \<and>
   list_all (\<lambda>i. jle (snd (retryWithBackoff env fn maxRetries baseDelay) ! i) (Fin 10000) \<or>
       asked_wait env (Suc i) (projl (fn i)) = Some (snd (retryWithBackoff env fn maxRetries baseDelay) ! i)) [0..<settled_at fn maxRetries]"
proof -
  have r: "retryWithBackoff env fn maxRetries baseDelay = (fn (settled_at fn maxRetries),
     map (\<lambda>i. retry_delay env baseDelay (Suc i) (projl (fn i))) [0..<settled_at fn maxRetries])"
    unfolding retryWithBackoff_def settled_at_def using retry_from_spec [of 0 maxRetries _ fn env baseDelay] by simp
  show ?thesis
    unfolding r using retry_delay_cases by (simp add: list_all_iff)
qed

end
