(* ===== verification/Lock.thy ===== *)
theory Lock
  imports Cache
begin

text \<open>
  \<^verbatim>\<open>utils/distributedLock.js\<close>: a lock held under a Redis key by a random value, with atomic scripts to release
  and renew it, and \<open>withLock\<close>, which runs a job under it. The processes that compete for a
  key are the relation \<open>lock_run\<close>.
\<close>

section \<open>Operations\<close>

definition lockUnavailable :: jserr where
  "lockUnavailable = withStatus 503 (withPayload [(''code'', JStr ''LOCK_UNAVAILABLE'')]
     (mkError ''Payment lock service is temporarily unavailable. Please try again.''))"

definition acquireLock :: "string \<Rightarrow> int \<Rightarrow> string \<Rightarrow> bool \<Rightarrow> (world, bool) proc" where
  "acquireLock k ttl v throwOnError = bnd (gets redis_on) (\<lambda>r.
     if \<not> r then ret True
     else catch (redisSetNX k (CJson (JStr v)) ttl) (\<lambda>_. if throwOnError then throw lockUnavailable else ret False))"

definition owns :: "string \<Rightarrow> string \<Rightarrow> world \<Rightarrow> bool" where
  "owns k v w \<longleftrightarrow> live (now w) (map_of (redis w) k) = Some (CJson (JStr v))"

definition RELEASE_SCRIPT :: "string \<Rightarrow> string \<Rightarrow> world \<Rightarrow> world" where
  "RELEASE_SCRIPT k v w = (if owns k v w then w\<lparr>redis := AList.delete k (redis w)\<rparr> else w)"

definition RENEW_SCRIPT :: "string \<Rightarrow> string \<Rightarrow> int \<Rightarrow> world \<Rightarrow> world" where
  "RENEW_SCRIPT k v ttl w = (if owns k v w then w\<lparr>redis := AList.update k (CJson (JStr v), now w + ttl * 1000) (redis w)\<rparr> else w)"

definition releaseLock :: "string \<Rightarrow> string \<Rightarrow> (world, unit) proc" where
  "releaseLock k v = bnd (gets redis_on) (\<lambda>r. if \<not> r then ret () else ignore (andThen tick (modify (RELEASE_SCRIPT k v))))"

definition renewLock :: "string \<Rightarrow> string \<Rightarrow> int \<Rightarrow> (world, bool) proc" where
  "renewLock k v ttl = bnd (gets redis_on) (\<lambda>r. if \<not> r then ret True
     else catch (andThen tick (bnd (gets (owns k v)) (\<lambda>b. andThen (modify (RENEW_SCRIPT k v ttl)) (ret b)))) (\<lambda>_. ret False))"

text \<open>
  The job is the list of its stretches between two turns of the event loop, with the time each starts after
  the last; a stretch is told whether the lock was lost. \<open>beat\<close> is when the heartbeat is due: the callback clears
  its interval, so it runs once.
\<close>

fun run_job :: "string \<Rightarrow> string \<Rightarrow> int \<Rightarrow> int option \<Rightarrow> bool \<Rightarrow> (int \<times> (bool \<Rightarrow> (world, unit) proc)) list \<Rightarrow> (world, unit) proc" where
  "run_job k v ttl beat lost [] = ret ()"
| "run_job k v ttl beat lost ((d, stretch) # rest) =
     andThen (modify (\<lambda>w. w\<lparr>now := now w + d\<rparr>))
       (bnd (gets now) (\<lambda>t. case beat of
          Some b \<Rightarrow> if b \<le> t then bnd (renewLock k v ttl) (\<lambda>renewed.
              andThen (stretch (lost \<or> \<not> renewed)) (run_job k v ttl None (lost \<or> \<not> renewed) rest))
            else andThen (stretch lost) (run_job k v ttl beat lost rest)
        | None \<Rightarrow> andThen (stretch lost) (run_job k v ttl None lost rest)))"

definition heartbeatIntervalMs :: "int \<Rightarrow> int" where
  "heartbeatIntervalMs ttl = max 1000 (ttl * 1000 div 3)"

text \<open>\<open>try { m } finally { n }\<close>.\<close>

definition finally_do :: "('w, 'a) proc \<Rightarrow> ('w, unit) proc \<Rightarrow> ('w, 'a) proc" where
  "finally_do m n = bnd (catch m (\<lambda>e. andThen n (throw e))) (\<lambda>x. andThen n (ret x))"

definition withLock :: "string \<Rightarrow> int \<Rightarrow> string \<Rightarrow> bool \<Rightarrow> (int \<times> (bool \<Rightarrow> (world, unit) proc)) list \<Rightarrow> (world, bool) proc" where
  "withLock k ttl v throwOnError job = bnd (acquireLock k ttl v throwOnError) (\<lambda>acquired.
     if \<not> acquired then ret False
     else bnd (gets (\<lambda>w. if redis_on w then Some (now w + heartbeatIntervalMs ttl) else None)) (\<lambda>beat.
       andThen (finally_do (run_job k v ttl beat False job) (releaseLock k v)) (ret True)))"

section \<open>Competing processes\<close>

text \<open>
  A process is named by its random value; \<open>lease p\<close> is when the lock it acquired or last renewed runs out.
\<close>

inductive lock_run :: "string \<Rightarrow> int \<Rightarrow> world \<Rightarrow> (string \<Rightarrow> int option) \<Rightarrow> bool" for k ttl where
  Start: "redis_on w \<Longrightarrow> lock_run k ttl w Map.empty"
| Acquire: "lock_run k ttl w lease \<Longrightarrow> lease p = None \<Longrightarrow> acquireLock k ttl p thr w = (Inr True, w') \<Longrightarrow>
    lock_run k ttl w' (lease(p \<mapsto> now w + ttl * 1000))"
| Refused: "lock_run k ttl w lease \<Longrightarrow> acquireLock k ttl p thr w = (r, w') \<Longrightarrow> r \<noteq> Inr True \<Longrightarrow> lock_run k ttl w' lease"
| Renew: "lock_run k ttl w lease \<Longrightarrow> lease p \<noteq> None \<Longrightarrow> renewLock k p ttl w = (Inr b, w') \<Longrightarrow>
    lock_run k ttl w' (if b then lease(p \<mapsto> now w + ttl * 1000) else lease)"
| Release: "lock_run k ttl w lease \<Longrightarrow> releaseLock k p w = (Inr (), w') \<Longrightarrow> lock_run k ttl w' (lease(p := None))"
| Time: "lock_run k ttl w lease \<Longrightarrow> 0 \<le> d \<Longrightarrow> lock_run k ttl (w\<lparr>now := now w + d\<rparr>) lease"
| Other: "lock_run k ttl w lease \<Longrightarrow> redis_on v \<Longrightarrow> now v = now w \<Longrightarrow> map_of (redis v) k = map_of (redis w) k \<Longrightarrow>
    lock_run k ttl v lease"

definition leases_ok :: "string \<Rightarrow> world \<Rightarrow> (string \<Rightarrow> int option) \<Rightarrow> bool" where
  "leases_ok k w lease \<longleftrightarrow> redis_on w \<and>
     (\<forall>p x. lease p = Some x \<longrightarrow> now w < x \<longrightarrow> map_of (redis w) k = Some (CJson (JStr p), x))"

lemma run_acquire:
  assumes "redis_on w" and "acquireLock k ttl p thr w = (r, w')"
  shows "if r = Inr True then live (now w) (map_of (redis w) k) = None \<and>
      w' = (ticked w)\<lparr>redis := AList.update k (CJson (JStr p), now w + ttl * 1000) (redis w)\<rparr> else w' = ticked w"
proof -
  have "wp (acquireLock k ttl p thr) (\<lambda>x v. if x = True then live (now w) (map_of (redis w) k) = None \<and>
      v = (ticked w)\<lparr>redis := AList.update k (CJson (JStr p), now w + ttl * 1000) (redis w)\<rparr> else v = ticked w) (\<lambda>_ v. v = ticked w) w"
    using assms(1) by (auto simp: acquireLock_def redisSetNX_def wps split: option.split)
  then show ?thesis using assms(2) by (cases r) (auto simp: wp_def)
qed

lemma run_renew:
  assumes "redis_on w" and "renewLock k p ttl w = (r, w')"
  shows "if r = Inr True then owns k p w \<and>
      w' = (ticked w)\<lparr>redis := AList.update k (CJson (JStr p), now w + ttl * 1000) (redis w)\<rparr> else w' = ticked w"
proof -
  have "wp (renewLock k p ttl) (\<lambda>x v. if x = True then owns k p w \<and>
      v = (ticked w)\<lparr>redis := AList.update k (CJson (JStr p), now w + ttl * 1000) (redis w)\<rparr> else v = ticked w) (\<lambda>_ v. v = ticked w) w"
    using assms(1) by (auto simp: renewLock_def RENEW_SCRIPT_def owns_def wps)
  then show ?thesis using assms(2) by (cases r) (auto simp: wp_def)
qed

lemma run_release:
  assumes "redis_on w" and "releaseLock k p w = (r, w')"
  shows "w' = ticked w \<or> owns k p w \<and> w' = (ticked w)\<lparr>redis := AList.delete k (redis w)\<rparr>"
proof -
  have "wp (releaseLock k p) (\<lambda>_ v. v = ticked w \<or> owns k p w \<and> v = (ticked w)\<lparr>redis := AList.delete k (redis w)\<rparr>)
      (\<lambda>_ v. v = ticked w \<or> owns k p w \<and> v = (ticked w)\<lparr>redis := AList.delete k (redis w)\<rparr>) w"
    using assms(1) by (auto simp: releaseLock_def RELEASE_SCRIPT_def owns_def wps)
  then show ?thesis using assms(2) by (cases r) (auto simp: wp_def)
qed

lemma lock_run_ok: "lock_run k ttl w lease \<Longrightarrow> leases_ok k w lease"
proof (induction rule: lock_run.induct)
  case (Acquire w lease p thr w')
  then have on: "redis_on w" by (simp add: leases_ok_def)
  from run_acquire [OF on Acquire.hyps(3)] Acquire.IH show ?case
    by (auto simp: leases_ok_def update_conv' live_def split: option.splits if_splits)
next
  case (Refused w lease p thr r w')
  then have on: "redis_on w" by (simp add: leases_ok_def)
  from run_acquire [OF on Refused.hyps(2)] Refused show ?case by (auto simp: leases_ok_def)
next
  case (Renew w lease p b w')
  then have on: "redis_on w" by (simp add: leases_ok_def)
  from run_renew [OF on Renew.hyps(3)] Renew.IH show ?case
    by (auto simp: leases_ok_def update_conv' owns_def live_def split: option.splits if_splits)
next
  case (Release w lease p w')
  then have on: "redis_on w" by (simp add: leases_ok_def)
  from run_release [OF on Release.hyps(2)] Release.IH show ?case
    by (auto simp: leases_ok_def delete_conv' owns_def live_def split: option.splits if_splits)
qed (auto simp: leases_ok_def)

text \<open>
  C16: mutual exclusion: however the processes acquire, renew and release a key, however Redis fails and
  time passes, at most one of them has a lease that has not run out, and the key then carries its value.
\<close>

theorem lock_exclusive:
  assumes "lock_run k ttl w lease" and "lease p = Some x" and "now w < x"
  shows "owns k p w \<and> list_all (\<lambda>q. if q = p then True else (case lease q of None \<Rightarrow> True | Some y \<Rightarrow> y \<le> now w)) qs"
proof -
  note ok = lock_run_ok [OF assms(1), unfolded leases_ok_def]
  have p: "map_of (redis w) k = Some (CJson (JStr p), x)" using ok assms(2,3) by blast
  have "y \<le> now w" if "lease q = Some y" "q \<noteq> p" for q y
  proof (rule ccontr)
    assume "\<not> y \<le> now w"
    then have "map_of (redis w) k = Some (CJson (JStr q), y)" using ok that by simp
    with p that(2) show False by simp
  qed
  then show ?thesis using p assms(3) by (auto simp: owns_def live_def list_all_iff split: option.split)
qed

definition redis_world :: world where
  "redis_world = init_world\<lparr>redis_on := True\<rparr>"

lemma lock_exclusive_witness:
  "owns ''job'' ''A'' (snd (acquireLock ''job'' 60 ''A'' False redis_world)) \<and>
   list_all (\<lambda>q. if q = ''A'' then True else (case (Map.empty (''A'' \<mapsto> now redis_world + 60 * 1000)) q of None \<Rightarrow> True
     | Some y \<Rightarrow> y \<le> now (snd (acquireLock ''job'' 60 ''A'' False redis_world)))) [''A'', ''B'']"
proof (rule lock_exclusive)
  show "lock_run ''job'' 60 (snd (acquireLock ''job'' 60 ''A'' False redis_world)) (Map.empty (''A'' \<mapsto> now redis_world + 60 * 1000))"
  proof (rule lock_run.Acquire)
    show "lock_run ''job'' 60 redis_world Map.empty" by (rule lock_run.Start) (simp add: redis_world_def)
    have "fst (acquireLock ''job'' 60 ''A'' False redis_world) = Inr True" by code_simp
    then show "acquireLock ''job'' 60 ''A'' False redis_world = (Inr True, snd (acquireLock ''job'' 60 ''A'' False redis_world))"
      by (metis prod.collapse)
  qed simp
  show "(Map.empty (''A'' \<mapsto> now redis_world + 60 * 1000)) ''A'' = Some (now redis_world + 60 * 1000)" by simp
  show "now (snd (acquireLock ''job'' 60 ''A'' False redis_world)) < now redis_world + 60 * 1000" by code_simp
qed

text \<open>
  The heartbeat renews once: a job under a lock of 60 seconds is renewed after 20, and after 100 another process
  gets the lock while the job is not told that it lost it.
\<close>

definition long_job :: "(int \<times> (bool \<Rightarrow> (world, unit) proc)) list" where
  "long_job = [(0, \<lambda>_. ret ()), (20000, \<lambda>_. ret ()), (80000, \<lambda>lost. bnd (acquireLock ''job'' 60 ''B'' False) (\<lambda>b.
     if b \<and> \<not> lost then emit (Alert ''B'' ''acquired'') else ret ()))]"

lemma heartbeat_renews_once:
  "outbox (snd (withLock ''job'' 60 ''A'' False long_job redis_world)) = [Alert ''B'' ''acquired'']"
  by code_simp

end
