(* ===== verification/TxQueue.thy ===== *)
theory TxQueue
  imports Main "HOL-Library.AList"
begin

text \<open>
  \<^verbatim>\<open>utils/txQueue.js\<close>: one chain of promises for each wallet. The event loop is the step relation
  \<open>tq_step\<close>: callbacks that are ready run before time passes, and timers fire when they are due.
\<close>

section \<open>State\<close>

definition QUEUE_TIMEOUT_MS :: int where
  "QUEUE_TIMEOUT_MS = 30000"

definition BACKPRESSURE_THRESHOLD :: nat where
  "BACKPRESSURE_THRESHOLD = 50"

datatype settlement = Resolved | Rejected | TimedOut

text \<open>
  The chain of a wallet: the task whose promise is pending with the time its timer was armed, the tasks chained
  behind it, and the calls of \<open>fn\<close> that have not returned.
\<close>

record chain =
  ch_running :: "(nat \<times> int) option"
  ch_waiting :: "nat list"
  ch_calls :: "nat list"

record txqueue =
  tq_queues :: "(string \<times> chain) list"
  tq_pending :: nat
  tq_clock :: int
  tq_next :: nat
  tq_settled :: "(nat \<times> settlement) list"

definition empty_chain :: chain where
  "empty_chain = \<lparr>ch_running = None, ch_waiting = [], ch_calls = []\<rparr>"

text \<open>\<open>queues.get(walletKey) || Promise.resolve()\<close>.\<close>

definition chain_of :: "txqueue \<Rightarrow> string \<Rightarrow> chain" where
  "chain_of q wlt = (case map_of (tq_queues q) wlt of Some c \<Rightarrow> c | None \<Rightarrow> empty_chain)"

definition set_chain :: "string \<Rightarrow> chain \<Rightarrow> txqueue \<Rightarrow> txqueue" where
  "set_chain wlt c q = q\<lparr>tq_queues := AList.update wlt c (tq_queues q)\<rparr>"

section \<open>Operations\<close>

definition enqueue :: "string \<Rightarrow> txqueue \<Rightarrow> nat \<times> txqueue" where
  "enqueue wlt q = (let prev = chain_of q wlt; i = tq_next q in
     (i, (set_chain wlt (prev\<lparr>ch_waiting := ch_waiting prev @ [i]\<rparr>) q)\<lparr>tq_pending := Suc (tq_pending q), tq_next := Suc i\<rparr>))"

text \<open>\<open>prev.then(...)\<close> runs: the timer is armed and \<open>fn\<close> is called.\<close>

definition start_task :: "string \<Rightarrow> txqueue \<Rightarrow> txqueue option" where
  "start_task wlt q = (let c = chain_of q wlt in case (ch_running c, ch_waiting c) of
       (None, i # rest) \<Rightarrow> Some (set_chain wlt (c\<lparr>ch_running := Some (i, tq_clock q), ch_waiting := rest, ch_calls := ch_calls c @ [i]\<rparr>) q)
     | _ \<Rightarrow> None)"

definition settle :: "nat \<Rightarrow> settlement \<Rightarrow> txqueue \<Rightarrow> txqueue" where
  "settle i r q = q\<lparr>tq_pending := max 0 (tq_pending q - 1), tq_settled := tq_settled q @ [(i, r)]\<rparr>"

text \<open>The call of \<open>fn\<close> for the task \<open>i\<close> returns: it settles the promise unless the timer already has.\<close>

definition fn_returns :: "string \<Rightarrow> nat \<Rightarrow> bool \<Rightarrow> txqueue \<Rightarrow> txqueue option" where
  "fn_returns wlt i ok q = (let c = chain_of q wlt in
     if i \<notin> set (ch_calls c) then None
     else let c' = c\<lparr>ch_calls := remove1 i (ch_calls c)\<rparr> in
       Some (case ch_running c of
         Some (j, s) \<Rightarrow> if j = i then settle i (if ok then Resolved else Rejected) (set_chain wlt (c'\<lparr>ch_running := None\<rparr>) q)
           else set_chain wlt c' q
       | None \<Rightarrow> set_chain wlt c' q))"

text \<open>The timer fires: the promise is rejected; nothing stops \<open>fn\<close>.\<close>

definition timer_fires :: "string \<Rightarrow> txqueue \<Rightarrow> txqueue option" where
  "timer_fires wlt q = (let c = chain_of q wlt in case ch_running c of
       Some (i, s) \<Rightarrow> if s + QUEUE_TIMEOUT_MS \<le> tq_clock q then Some (settle i TimedOut (set_chain wlt (c\<lparr>ch_running := None\<rparr>) q)) else None
     | None \<Rightarrow> None)"

definition getQueueDepth :: "txqueue \<Rightarrow> nat" where
  "getQueueDepth q = length (tq_queues q)"

definition getPendingTasksTotal :: "txqueue \<Rightarrow> nat" where
  "getPendingTasksTotal q = tq_pending q"

definition isBackpressured :: "txqueue \<Rightarrow> bool" where
  "isBackpressured q = (BACKPRESSURE_THRESHOLD < tq_pending q)"

section \<open>The event loop\<close>

text \<open>Time may pass: no callback is ready and no timer would be overdue.\<close>

definition may_wait :: "int \<Rightarrow> txqueue \<Rightarrow> bool" where
  "may_wait d q \<longleftrightarrow> 0 \<le> d \<and> list_all (\<lambda>(wlt, _). let c = chain_of q wlt in
     (case ch_running c of None \<Rightarrow> ch_waiting c = [] | Some (_, s) \<Rightarrow> tq_clock q + d \<le> s + QUEUE_TIMEOUT_MS)) (tq_queues q)"

inductive tq_step :: "txqueue \<Rightarrow> txqueue \<Rightarrow> bool" where
  Enqueue: "tq_step q (snd (enqueue wlt q))"
| Start: "start_task wlt q = Some q' \<Longrightarrow> tq_step q q'"
| Return: "fn_returns wlt i ok q = Some q' \<Longrightarrow> tq_step q q'"
| Timer: "timer_fires wlt q = Some q' \<Longrightarrow> tq_step q q'"
| Wait: "may_wait d q \<Longrightarrow> tq_step q (q\<lparr>tq_clock := tq_clock q + d\<rparr>)"

inductive tq_steps :: "txqueue \<Rightarrow> txqueue \<Rightarrow> bool" where
  Refl: "tq_steps q q"
| Step: "tq_steps p q \<Longrightarrow> tq_step q r \<Longrightarrow> tq_steps p r"

definition tq_init :: "int \<Rightarrow> txqueue" where
  "tq_init t = \<lparr>tq_queues = [], tq_pending = 0, tq_clock = t, tq_next = 0, tq_settled = []\<rparr>"

lemma chain_of_set_chain [simp]: "chain_of (set_chain w c q) v = (if v = w then c else chain_of q v)"
  by (simp add: chain_of_def set_chain_def update_conv')

lemma chain_of_upd [simp]:
  "chain_of (q\<lparr>tq_pending := n\<rparr>) v = chain_of q v" "chain_of (q\<lparr>tq_next := m\<rparr>) v = chain_of q v"
  "chain_of (q\<lparr>tq_clock := t\<rparr>) v = chain_of q v" "chain_of (q\<lparr>tq_settled := s\<rparr>) v = chain_of q v"
  "chain_of (settle i r q) v = chain_of q v"
  by (simp_all add: chain_of_def settle_def)

lemma fields_set_chain [simp]:
  "tq_clock (set_chain w c q) = tq_clock q" "tq_settled (set_chain w c q) = tq_settled q"
  "tq_pending (set_chain w c q) = tq_pending q" "tq_next (set_chain w c q) = tq_next q"
  "tq_clock (settle i r q) = tq_clock q" "tq_settled (settle i r q) = tq_settled q @ [(i, r)]"
  by (simp_all add: set_chain_def settle_def)

section \<open>Every task is settled\<close>

definition on_time :: "txqueue \<Rightarrow> bool" where
  "on_time q \<longleftrightarrow> (\<forall>wlt i s. ch_running (chain_of q wlt) = Some (i, s) \<longrightarrow> s \<le> tq_clock q \<and> tq_clock q \<le> s + QUEUE_TIMEOUT_MS)"

text \<open>The latest time at which the task at position \<open>k\<close> of the waiting list is settled.\<close>

definition due :: "txqueue \<Rightarrow> string \<Rightarrow> nat \<Rightarrow> int" where
  "due q wlt k = (case ch_running (chain_of q wlt) of
     Some (_, s) \<Rightarrow> s + (int k + 2) * QUEUE_TIMEOUT_MS | None \<Rightarrow> tq_clock q + (int k + 1) * QUEUE_TIMEOUT_MS)"

definition will_settle :: "string \<Rightarrow> nat \<Rightarrow> int \<Rightarrow> txqueue \<Rightarrow> bool" where
  "will_settle wlt i b q \<longleftrightarrow> i \<in> fst ` set (tq_settled q)
     \<or> (\<exists>s. ch_running (chain_of q wlt) = Some (i, s) \<and> s + QUEUE_TIMEOUT_MS \<le> b)
     \<or> (\<exists>k < length (ch_waiting (chain_of q wlt)). ch_waiting (chain_of q wlt) ! k = i \<and> due q wlt k \<le> b)"

lemma chain_in: "chain_of q w \<noteq> empty_chain \<Longrightarrow> \<exists>c. (w, c) \<in> set (tq_queues q)"
  by (auto simp: chain_of_def split: option.splits dest: map_of_SomeD)

lemma may_wait_chain:
  assumes "may_wait d q"
  shows "0 \<le> d" "ch_running (chain_of q w) = None \<Longrightarrow> ch_waiting (chain_of q w) = []"
    "ch_running (chain_of q w) = Some (i, s) \<Longrightarrow> tq_clock q + d \<le> s + QUEUE_TIMEOUT_MS"
proof -
  show "0 \<le> d" using assms by (simp add: may_wait_def)
  show "ch_waiting (chain_of q w) = []" if "ch_running (chain_of q w) = None"
    using that assms chain_in [of q w] by (cases "chain_of q w = empty_chain") (auto simp: may_wait_def list_all_iff empty_chain_def)
  show "tq_clock q + d \<le> s + QUEUE_TIMEOUT_MS" if "ch_running (chain_of q w) = Some (i, s)"
    using that assms chain_in [of q w] by (cases "chain_of q w = empty_chain") (fastforce simp: may_wait_def list_all_iff empty_chain_def)+
qed

lemma on_time_step: "tq_step q r \<Longrightarrow> on_time q \<Longrightarrow> on_time r"
proof (induction rule: tq_step.induct)
  case (Wait d q)
  show ?case unfolding on_time_def
  proof (intro allI impI)
    fix wlt i s assume "ch_running (chain_of (q\<lparr>tq_clock := tq_clock q + d\<rparr>) wlt) = Some (i, s)"
    then show "s \<le> tq_clock (q\<lparr>tq_clock := tq_clock q + d\<rparr>) \<and> tq_clock (q\<lparr>tq_clock := tq_clock q + d\<rparr>) \<le> s + QUEUE_TIMEOUT_MS"
      using Wait(2) may_wait_chain(1,3) [OF Wait(1)] by (fastforce simp: on_time_def)
  qed
qed (auto simp: on_time_def enqueue_def start_task_def fn_returns_def timer_fires_def Let_def QUEUE_TIMEOUT_MS_def
    split: option.splits prod.splits list.splits if_splits)

lemma on_time_steps: "tq_steps q r \<Longrightarrow> on_time q \<Longrightarrow> on_time r"
  by (induction rule: tq_steps.induct) (simp_all add: on_time_step)

lemma due_after_clock: "on_time q \<Longrightarrow> tq_clock q \<le> due q w k"
  by (fastforce simp: due_def on_time_def QUEUE_TIMEOUT_MS_def algebra_simps split: option.split)

text \<open>The head of the chain is settled or replaced by the next task, whose bound is no later.\<close>

lemma due_freed:
  assumes "on_time q" and "ch_running (chain_of q w) = Some (j, s)" and "due q w k \<le> b"
  shows "tq_clock q + (int k + 1) * QUEUE_TIMEOUT_MS \<le> b"
  using assms by (fastforce simp: due_def on_time_def algebra_simps)

lemma will_settle_frame:
  assumes "will_settle w i b q" and "ch_running (chain_of r w) = ch_running (chain_of q w)"
    and "ch_waiting (chain_of r w) = ch_waiting (chain_of q w)" and "tq_clock r = tq_clock q"
    and "set (tq_settled q) \<subseteq> set (tq_settled r)"
  shows "will_settle w i b r"
  using assms(1,5) unfolding will_settle_def due_def assms(2-4) by blast

lemma will_settle_enqueue: "will_settle w i b q \<Longrightarrow> will_settle w i b (snd (enqueue wlt q))"
proof (cases "w = wlt")
  case True
  let ?r = "snd (enqueue wlt q)"
  have r: "ch_running (chain_of ?r wlt) = ch_running (chain_of q wlt)" "tq_clock ?r = tq_clock q" "tq_settled ?r = tq_settled q"
    "ch_waiting (chain_of ?r wlt) = ch_waiting (chain_of q wlt) @ [tq_next q]"
    by (simp_all add: enqueue_def Let_def)
  have n: "k < length xs \<Longrightarrow> (xs @ [x]) ! k = xs ! k \<and> k < length (xs @ [x])" for k x and xs :: "nat list" by (simp add: nth_append)
  assume "will_settle w i b q"
  then show ?thesis unfolding will_settle_def due_def True r by (metis n)
qed (erule will_settle_frame, simp_all add: enqueue_def Let_def)

lemma will_settle_start: "will_settle w i b q \<Longrightarrow> start_task wlt q = Some r \<Longrightarrow> will_settle w i b r"
proof -
  assume q: "will_settle w i b q" and r: "start_task wlt q = Some r"
  obtain j rest where c: "ch_running (chain_of q wlt) = None" "ch_waiting (chain_of q wlt) = j # rest"
    and r': "r = set_chain wlt ((chain_of q wlt)\<lparr>ch_running := Some (j, tq_clock q), ch_waiting := rest, ch_calls := ch_calls (chain_of q wlt) @ [j]\<rparr>) q"
    using r by (auto simp: start_task_def Let_def split: option.splits list.splits)
  show ?thesis
  proof (cases "w = wlt \<and> i \<notin> fst ` set (tq_settled q)")
    case True
    then obtain k where k: "k < length (j # rest)" "(j # rest) ! k = i" "tq_clock q + (int k + 1) * QUEUE_TIMEOUT_MS \<le> b"
      using q c by (auto simp: will_settle_def due_def)
    show ?thesis
      using True k by (cases k) (auto simp: r' will_settle_def due_def algebra_simps)
  next
    case False
    show ?thesis
    proof (cases "w = wlt")
      case True
      with False show ?thesis by (simp add: r' will_settle_def)
    qed (rule will_settle_frame [OF q], simp_all add: r')
  qed
qed

lemma will_settle_free:
  assumes "will_settle w i b q" and "on_time q" and "ch_running (chain_of q wlt) = Some (j, s)"
  shows "will_settle w i b (settle j x (set_chain wlt ((chain_of q wlt)\<lparr>ch_calls := cs, ch_running := None\<rparr>) q))"
proof (cases "w = wlt")
  case True
  have "tq_clock q + (int k + 1) * QUEUE_TIMEOUT_MS \<le> b" if "due q wlt k \<le> b" for k
    using due_freed [OF assms(2,3) that] .
  with assms(1,3) True show ?thesis by (auto simp: will_settle_def due_def)
next
  case False
  show ?thesis by (rule will_settle_frame [OF assms(1)]) (use False in auto)
qed

lemma will_settle_calls:
  "will_settle w i b q \<Longrightarrow> will_settle w i b (set_chain wlt ((chain_of q wlt)\<lparr>ch_calls := cs\<rparr>) q)"
  by (erule will_settle_frame) simp_all

lemma will_settle_step: "tq_step q r \<Longrightarrow> on_time q \<Longrightarrow> will_settle w i b q \<Longrightarrow> will_settle w i b r"
proof (induction rule: tq_step.induct)
  case (Enqueue q wlt)
  then show ?case by (simp add: will_settle_enqueue)
next
  case (Start wlt q q')
  then show ?case by (simp add: will_settle_start)
next
  case (Return wlt j ok q q')
  then show ?case using will_settle_free [OF Return(3,2), of wlt] will_settle_calls [OF Return(3), of wlt]
    by (auto simp: fn_returns_def Let_def split: option.splits if_splits)
next
  case (Timer wlt q q')
  then show ?case using will_settle_free [OF Timer(3,2), of wlt _ _ TimedOut "ch_calls (chain_of q wlt)"]
    by (auto simp: timer_fires_def Let_def split: option.splits if_splits)
next
  case (Wait d q)
  have n: "ch_waiting (chain_of q w) = []" if "ch_running (chain_of q w) = None" by (rule may_wait_chain(2) [OF Wait(1) that])
  show ?case
  proof (cases "ch_running (chain_of q w)")
    case None
    with n Wait(3) show ?thesis by (simp add: will_settle_def)
  next
    case (Some x)
    with Wait(3) show ?thesis by (cases x) (simp add: will_settle_def due_def)
  qed
qed

lemma will_settle_steps: "tq_steps q r \<Longrightarrow> on_time q \<Longrightarrow> will_settle w i b q \<Longrightarrow> will_settle w i b r"
  by (induction rule: tq_steps.induct) (auto intro: will_settle_step on_time_steps)

lemma overdue_settled:
  assumes "on_time q" and "will_settle w i b q" and "b < tq_clock q"
  shows "i \<in> fst ` set (tq_settled q)"
proof -
  have "\<not> due q w k \<le> b" for k using due_after_clock [OF assms(1), of w k] assms(3) by simp
  moreover have "\<not> s + QUEUE_TIMEOUT_MS \<le> b" if "ch_running (chain_of q w) = Some (i, s)" for s
    using assms(1,3) that unfolding on_time_def by fastforce
  ultimately show ?thesis using assms(2) unfolding will_settle_def by blast
qed

text \<open>The loop never stops: some callback is ready, some timer is due, or time may pass.\<close>

lemma tq_progress: "(\<exists>wlt. start_task wlt q \<noteq> None) \<or> (\<exists>wlt. timer_fires wlt q \<noteq> None) \<or> may_wait 1 q"
proof (cases "may_wait 1 q")
  case False
  then obtain w c where w: "(w, c) \<in> set (tq_queues q)"
    "case ch_running (chain_of q w) of None \<Rightarrow> ch_waiting (chain_of q w) \<noteq> [] | Some (_, s) \<Rightarrow> s + QUEUE_TIMEOUT_MS < tq_clock q + 1"
    by (auto simp: may_wait_def list_all_iff Let_def split: option.splits)
  show ?thesis
  proof (cases "ch_running (chain_of q w)")
    case None
    with w(2) have "start_task w q \<noteq> None" by (auto simp: start_task_def Let_def split: list.split)
    then show ?thesis by blast
  next
    case (Some x)
    with w(2) have "timer_fires w q \<noteq> None" by (cases x) (auto simp: timer_fires_def Let_def)
    then show ?thesis by blast
  qed
qed simp

lemma on_time_init: "on_time (tq_init t)"
  by (simp add: on_time_def tq_init_def chain_of_def empty_chain_def)

lemma enqueue_bound:
  assumes "on_time q" and "k < length (ch_waiting (chain_of q w))"
  shows "will_settle w (ch_waiting (chain_of q w) ! k) (tq_clock q + (int k + 2) * QUEUE_TIMEOUT_MS) q"
proof -
  have "due q w k \<le> tq_clock q + (int k + 2) * QUEUE_TIMEOUT_MS"
    using assms(1) by (fastforce simp: due_def on_time_def QUEUE_TIMEOUT_MS_def split: option.split)
  with assms(2) show ?thesis by (auto simp: will_settle_def)
qed

text \<open>
  C14: every task is served: in any state the queue can reach, the task with \<open>k\<close> tasks waiting before it
  on its wallet is settled once more than \<open>(k + 2) * 30\<close> seconds have passed, whatever is enqueued and however long
  the calls take; and the loop can always move on.
\<close>

theorem tasks_are_settled:
  assumes "tq_steps (tq_init t) q" and "tq_steps q r"
    and "k < length (ch_waiting (chain_of q wlt))" and "tq_clock q + (int k + 2) * 30000 < tq_clock r"
  shows "ch_waiting (chain_of q wlt) ! k \<in> fst ` set (tq_settled r) \<and>
    ((\<exists>w. start_task w r \<noteq> None \<or> timer_fires w r \<noteq> None) \<or> may_wait 1 r)"
proof -
  have q: "on_time q" using assms(1) on_time_init by (rule on_time_steps)
  have r: "on_time r" using assms(2) q by (rule on_time_steps)
  have "will_settle wlt (ch_waiting (chain_of q wlt) ! k) (tq_clock q + (int k + 2) * QUEUE_TIMEOUT_MS) r"
    using assms(2) q enqueue_bound [OF q assms(3)] by (rule will_settle_steps)
  from overdue_settled [OF r this] assms(4) show ?thesis using tq_progress [of r] by (auto simp: QUEUE_TIMEOUT_MS_def)
qed

section \<open>Runs\<close>

text \<open>A run of the loop given by its actions.\<close>

datatype tq_action = AEnqueue string | AStart string | AReturn string nat bool | ATimer string | AWait int

fun tq_act :: "tq_action \<Rightarrow> txqueue \<Rightarrow> txqueue option" where
  "tq_act (AEnqueue w) q = Some (snd (enqueue w q))"
| "tq_act (AStart w) q = start_task w q"
| "tq_act (AReturn w i ok) q = fn_returns w i ok q"
| "tq_act (ATimer w) q = timer_fires w q"
| "tq_act (AWait d) q = (if may_wait d q then Some (q\<lparr>tq_clock := tq_clock q + d\<rparr>) else None)"

fun tq_run :: "tq_action list \<Rightarrow> txqueue \<Rightarrow> txqueue option" where
  "tq_run [] q = Some q"
| "tq_run (a # as) q = (case tq_act a q of None \<Rightarrow> None | Some r \<Rightarrow> tq_run as r)"

lemma tq_act_step: "tq_act a q = Some r \<Longrightarrow> tq_step q r"
  by (cases a) (auto intro: tq_step.intros split: if_splits)

lemma tq_steps_trans: "tq_steps q r \<Longrightarrow> tq_steps p q \<Longrightarrow> tq_steps p r"
  by (induction rule: tq_steps.induct) (auto intro: tq_steps.intros)

lemma tq_run_steps: "tq_run as q = Some r \<Longrightarrow> tq_steps q r"
proof (induction as arbitrary: q)
  case (Cons a as)
  then obtain p where p: "tq_act a q = Some p" "tq_run as p = Some r" by (auto split: option.splits)
  have "tq_steps q p" using tq_act_step [OF p(1)] by (auto intro: tq_steps.intros)
  with Cons.IH [OF p(2)] show ?case by (rule tq_steps_trans)
qed (auto intro: tq_steps.intros)

definition demo_queue :: txqueue where
  "demo_queue = the (tq_run [AEnqueue ''GA'', AEnqueue ''GA''] (tq_init 0))"

definition demo_later :: txqueue where
  "demo_later = the (tq_run [AStart ''GA'', AWait 30000, ATimer ''GA'', AStart ''GA'', AWait 30000, ATimer ''GA'', AWait 40000] demo_queue)"

lemma demo_runs:
  "tq_run [AEnqueue ''GA'', AEnqueue ''GA''] (tq_init 0) = Some demo_queue"
  "tq_run [AStart ''GA'', AWait 30000, ATimer ''GA'', AStart ''GA'', AWait 30000, ATimer ''GA'', AWait 40000] demo_queue = Some demo_later"
  by code_simp+

lemma tasks_are_settled_witness:
  "ch_waiting (chain_of demo_queue ''GA'') ! 1 \<in> fst ` set (tq_settled demo_later) \<and>
    ((\<exists>w. start_task w demo_later \<noteq> None \<or> timer_fires w demo_later \<noteq> None) \<or> may_wait 1 demo_later)"
proof (rule tasks_are_settled)
  show "tq_steps (tq_init 0) demo_queue" "tq_steps demo_queue demo_later" using demo_runs tq_run_steps by blast+
  show "1 < length (ch_waiting (chain_of demo_queue ''GA''))" by code_simp
  show "tq_clock demo_queue + (int 1 + 2) * 30000 < tq_clock demo_later" by code_simp
qed

text \<open>
  After a timeout the next task of the wallet starts while the call that timed out is still under way: two
  tasks of one wallet run at once.
\<close>

lemma calls_overlap_after_timeout:
  "\<exists>q. tq_steps (tq_init 0) q \<and> ch_calls (chain_of q ''GA'') = [0, 1]"
proof (intro exI conjI)
  let ?r = "tq_run [AEnqueue ''GA'', AEnqueue ''GA'', AStart ''GA'', AWait 30000, ATimer ''GA'', AStart ''GA''] (tq_init 0)"
  have "?r = Some (the ?r)" by code_simp
  then show "tq_steps (tq_init 0) (the ?r)" by (rule tq_run_steps)
  show "ch_calls (chain_of (the ?r) ''GA'') = [0, 1]" by code_simp
qed

text \<open>The depth counts every wallet that ever had a task.\<close>

lemma depth_never_falls: "tq_step q r \<Longrightarrow> getQueueDepth q \<le> getQueueDepth r"
proof -
  have u: "length xs \<le> length (AList.update k v xs)" for k v and xs :: "(string \<times> chain) list"
    by (induction xs) auto
  show "tq_step q r \<Longrightarrow> getQueueDepth q \<le> getQueueDepth r"
    by (induction rule: tq_step.induct)
      (auto simp: getQueueDepth_def enqueue_def start_task_def fn_returns_def timer_fires_def set_chain_def settle_def u Let_def
        split: option.splits list.splits if_splits)
qed

end
