(* ===== verification/ChannelPool.thy ===== *)
theory ChannelPool
  imports World JsText
begin

text \<open>
  \<^verbatim>\<open>services/channelAccountPool.js\<close>: channel accounts checked out with \<open>FOR UPDATE SKIP LOCKED\<close>, polled for until a
  timeout, released, counted and funded. Ciphers, key generation and the Stellar network are parameters.
\<close>

section \<open>Environment\<close>

text \<open>
  \<open>pe_pick\<close> is the row the query locks: any free row other transactions have not locked, so it may be none;
  \<open>pe_others i\<close> is what other processes do to the tables during the \<open>i\<close>-th pause; \<open>pe_cipher\<close> decrypts a pair of
  hexadecimal texts; \<open>pe_submit\<close> says whether the funding transaction is applied and what the client gets.
\<close>

record pool_env =
  pe_timeout :: int
  pe_pick :: "channel_account list \<Rightarrow> channel_account option"
  pe_cipher :: "string \<Rightarrow> string \<Rightarrow> jserr + string"
  pe_key_set :: bool
  pe_others :: "nat \<Rightarrow> database \<Rightarrow> database"
  pe_late :: "nat \<Rightarrow> nat"

definition POLL_INTERVAL_MS :: int where
  "POLL_INTERVAL_MS = 200"

definition decryptSecret :: "pool_env \<Rightarrow> string \<Rightarrow> jserr + string" where
  "decryptSecret env text =
     (if \<not> pe_key_set env then Inl (mkError ''SERVER_KEY_ENCRYPTION_SECRET is not configured'')
      else (case split_on (CHR '':'') text of
         iv # enc # _ \<Rightarrow> if iv = [] \<or> enc = [] then Inl (mkError ''Invalid encrypted format'') else pe_cipher env iv enc
       | _ \<Rightarrow> Inl (mkError ''Invalid encrypted format'')))"

record channel =
  ch_id :: string
  ch_address :: string
  ch_secret :: string

section \<open>Acquiring\<close>

definition set_channels :: "(channel_account list \<Rightarrow> channel_account list) \<Rightarrow> database \<Rightarrow> database" where
  "set_channels f d = d\<lparr>channels := f (channels d)\<rparr>"

definition check_out :: "string \<Rightarrow> int \<Rightarrow> database \<Rightarrow> database" where
  "check_out i t = set_channels (update_where (\<lambda>c. ca_id c = i) (\<lambda>c. c\<lparr>ca_available := False, ca_last_used := Some t\<rparr>))"

text \<open>\<open>BEGIN\<close>, the locked select, the update and \<open>COMMIT\<close>, or \<open>ROLLBACK\<close> when no row is free; an error undoes the update.\<close>

definition checkout_row :: "pool_env \<Rightarrow> (world, channel_account option) proc" where
  "checkout_row env = bnd (gets db) (\<lambda>d0. catch
     (andThen tick (bnd (select (\<lambda>w. pe_pick env (filter ca_available (channels (db w))))) (\<lambda>row. case row of
        Some a \<Rightarrow> andThen (exec (\<lambda>w. check_out (ca_id a) (now w) (db w))) (andThen tick (ret (Some a)))
      | None \<Rightarrow> andThen tick (ret None))))
     (\<lambda>e. andThen (modify (\<lambda>w. w\<lparr>db := d0\<rparr>)) (throw e)))"

text \<open>One turn of the loop after the connection is there; the secret is decrypted after the commit, inside the same \<open>try\<close>.\<close>

definition attempt :: "pool_env \<Rightarrow> (world, channel option) proc" where
  "attempt env = catch (bnd (checkout_row env) (\<lambda>row. case row of
       None \<Rightarrow> ret None
     | Some a \<Rightarrow> bnd (lift (decryptSecret env (ca_secret a))) (\<lambda>s. ret (Some \<lparr>ch_id = ca_id a, ch_address = ca_address a, ch_secret = s\<rparr>))))
     (\<lambda>_. andThen tick (ret None))"

definition poolExhausted :: jserr where
  "poolExhausted = withStatus 503 (withPayload [(''retryAfterSeconds'', JNum (Fin 5))] (mkError ''CHANNEL_POOL_EXHAUSTED''))"

definition pause :: "pool_env \<Rightarrow> nat \<Rightarrow> world \<Rightarrow> world" where
  "pause env i w = w\<lparr>now := now w + POLL_INTERVAL_MS + int (pe_late env i), db := pe_others env i (db w)\<rparr>"

lemma wp_attempt_now: "wp (andThen tick (attempt env)) (\<lambda>_ v. now v = now w) (\<lambda>_ v. now v = now w) w"
  by (auto simp: attempt_def checkout_row_def wps split: option.split sum.split)

lemma attempt_now: "andThen tick (attempt env) w = (r, w') \<Longrightarrow> now w' = now w"
  using wp_attempt_now [of env w] by (cases r) (auto simp: wp_def)

function acquire_from :: "pool_env \<Rightarrow> int \<Rightarrow> nat \<Rightarrow> (world, channel) proc" where
  "acquire_from env start i w =
     (if now w - start < pe_timeout env then
        (case andThen tick (attempt env) w of
           (Inl e, w') \<Rightarrow> (Inl e, w')
         | (Inr (Some c), w') \<Rightarrow> (Inr c, w')
         | (Inr None, w') \<Rightarrow> acquire_from env start (Suc i) (pause env i w'))
      else (Inl poolExhausted, w))"
  by pat_completeness auto
termination
  by (relation "measure (\<lambda>(env, start, i, w). nat (start + pe_timeout env - now w))")
    (auto simp: pause_def POLL_INTERVAL_MS_def dest!: attempt_now [OF sym] attempt_now)

declare acquire_from.simps [simp del]

definition acquire :: "pool_env \<Rightarrow> (world, channel) proc" where
  "acquire env = bnd (gets now) (\<lambda>start. acquire_from env start 0)"

section \<open>Stats, release, funding\<close>

definition getPoolStats :: "(world, nat \<times> nat) proc" where
  "getPoolStats = select (\<lambda>w. (length (filter ca_available (channels (db w))), length (channels (db w))))"

definition release :: "string \<Rightarrow> (world, unit) proc" where
  "release address = ignore (exec (\<lambda>w. set_channels (update_where (\<lambda>c. ca_address c = address) (\<lambda>c. c\<lparr>ca_available := True\<rparr>)) (db w)))"

record fund_env =
  fe_size :: int
  fe_master :: string
  fe_master_key :: "string \<Rightarrow> jserr + string"
  fe_new :: "nat \<Rightarrow> string \<times> string"
  fe_load :: "string \<Rightarrow> jserr option"
  fe_submit :: "string list \<Rightarrow> bool \<times> (jserr + string)"
  fe_encrypt :: "string \<Rightarrow> jserr + string"
  fe_uuid :: "nat \<Rightarrow> string"

definition insert_channel :: "channel_account \<Rightarrow> world \<Rightarrow> jserr + database" where
  "insert_channel c w = (if list_ex (\<lambda>x. ca_id x = ca_id c \<or> ca_address x = ca_address c) (channels (db w)) then Inl uniqueViolation
     else Inr (set_channels (\<lambda>cs. cs @ [c]) (db w)))"

definition store_account :: "fund_env \<Rightarrow> nat \<Rightarrow> (world, unit) proc" where
  "store_account env i = bnd (lift (fe_encrypt env (snd (fe_new env i)))) (\<lambda>enc.
     execE (insert_channel \<lparr>ca_id = fe_uuid env i, ca_address = fst (fe_new env i), ca_secret = enc, ca_available = True, ca_last_used = None\<rparr>))"

definition fundChannelPool :: "fund_env \<Rightarrow> (world, nat \<times> string list) proc" where
  "fundChannelPool env =
     bnd (select (\<lambda>w. fe_size env - int (length (channels (db w))))) (\<lambda>needed.
       if needed \<le> 0 then ret (0, [])
       else if fe_master env = [] then throw (mkError ''Neither SERVICE_ENCRYPTED_SECRET_KEY nor ADMIN_ENCRYPTED_SECRET_KEY is configured'')
       else bnd (lift (fe_master_key env (fe_master env))) (\<lambda>master.
         let addresses = map (\<lambda>i. fst (fe_new env i)) [0..<nat needed] in
         case fe_load env master of
           Some e \<Rightarrow> throw e
         | None \<Rightarrow> let (applied, result) = fe_submit env addresses in
             andThen (modify (\<lambda>w. if applied then w\<lparr>chain_log := chain_log w @ [FundAccounts addresses]\<rparr> else w))
               (bnd (lift result) (\<lambda>_. andThen (forEach [0..<nat needed] (store_account env)) (ret (nat needed, addresses))))))"

section \<open>Histories\<close>

definition good_pick :: "pool_env \<Rightarrow> bool" where
  "good_pick env \<longleftrightarrow> (\<forall>cs. case pe_pick env cs of Some c \<Rightarrow> c \<in> set cs | None \<Rightarrow> True)"

definition keyed :: "channel_account list \<Rightarrow> bool" where
  "keyed cs \<longleftrightarrow> distinct (map ca_id cs) \<and> distinct (map ca_address cs)"

text \<open>The tables and the addresses held: acquired and not released.\<close>

inductive pool_run :: "world \<Rightarrow> string list \<Rightarrow> bool" where
  Start: "keyed (channels (db w)) \<Longrightarrow> pool_run w []"
| Acquired: "pool_run w hs \<Longrightarrow> good_pick env \<Longrightarrow> attempt env w = (Inr (Some c), w') \<Longrightarrow> pool_run w' (ch_address c # hs)"
| Missed: "pool_run w hs \<Longrightarrow> good_pick env \<Longrightarrow> attempt env w = (r, w') \<Longrightarrow> (case r of Inr (Some _) \<Rightarrow> False | _ \<Rightarrow> True) \<Longrightarrow> pool_run w' hs"
| Released: "pool_run w hs \<Longrightarrow> a \<in> set hs \<Longrightarrow> release a w = (r, w') \<Longrightarrow> pool_run w' (remove1 a hs)"
| Funded: "pool_run w hs \<Longrightarrow> fundChannelPool fe w = (r, w') \<Longrightarrow> pool_run w' hs"
| Other: "pool_run w hs \<Longrightarrow> channels (db v) = channels (db w) \<Longrightarrow> pool_run v hs"

definition busy :: "string \<Rightarrow> channel_account list \<Rightarrow> bool" where
  "busy a cs \<longleftrightarrow> (\<exists>c\<in>set cs. ca_address c = a \<and> \<not> ca_available c)"

definition pool_ok :: "string list \<Rightarrow> channel_account list \<Rightarrow> bool" where
  "pool_ok hs cs \<longleftrightarrow> keyed cs \<and> distinct hs \<and> (\<forall>a\<in>set hs. busy a cs)"

definition mark_out :: "string \<Rightarrow> int \<Rightarrow> channel_account list \<Rightarrow> channel_account list" where
  "mark_out i t = update_where (\<lambda>c. ca_id c = i) (\<lambda>c. c\<lparr>ca_available := False, ca_last_used := Some t\<rparr>)"

lemma channels_check_out [simp]: "channels (check_out i t d) = mark_out i t (channels d)"
  by (simp add: check_out_def set_channels_def mark_out_def)

lemma keyed_update: "(\<And>c. ca_id (f c) = ca_id c \<and> ca_address (f c) = ca_address c) \<Longrightarrow> keyed (update_where p f cs) = keyed cs"
  by (simp add: keyed_def update_where_def comp_def if_distrib cong: if_cong)

lemma busy_update:
  assumes "busy a cs" and "\<And>c. c \<in> set cs \<Longrightarrow> p c \<Longrightarrow> ca_address c = a \<Longrightarrow> ca_address (f c) = a \<and> \<not> ca_available (f c)"
  shows "busy a (update_where p f cs)"
proof -
  obtain c where c: "c \<in> set cs" "ca_address c = a" "\<not> ca_available c" using assms(1) by (auto simp: busy_def)
  then have "(if p c then f c else c) \<in> set (update_where p f cs)" by (auto simp: set_update_where)
  with c assms(2) show ?thesis unfolding busy_def by (metis (full_types))
qed

lemma busy_mark_out: "busy a cs \<Longrightarrow> busy a (mark_out i t cs)"
  unfolding mark_out_def by (rule busy_update) simp_all

lemma pool_ok_mark_out: "pool_ok hs cs \<Longrightarrow> pool_ok hs (mark_out i t cs)"
  by (simp add: pool_ok_def busy_mark_out mark_out_def keyed_update busy_update)

text \<open>A free row whose address is nobody's: taking it keeps the invariant.\<close>

lemma pool_ok_take:
  assumes "pool_ok hs cs" and "c \<in> set cs" and "ca_available c"
  shows "pool_ok (ca_address c # hs) (mark_out (ca_id c) t cs)"
proof -
  have "\<not> busy (ca_address c) cs"
    using assms by (auto simp: pool_ok_def keyed_def busy_def distinct_map inj_on_def)
  moreover have "busy (ca_address c) (mark_out (ca_id c) t cs)"
    using assms(2) unfolding busy_def mark_out_def set_update_where by fastforce
  ultimately show ?thesis
    using pool_ok_mark_out [OF assms(1), of "ca_id c" t] assms(1) by (auto simp: pool_ok_def)
qed

lemma attempt_spec:
  assumes "good_pick env"
  shows "wp (attempt env) (\<lambda>r v. case r of
      Some c \<Rightarrow> (\<exists>a\<in>set (channels (db w)). ca_available a \<and> ca_address a = ch_address c \<and> channels (db v) = mark_out (ca_id a) (now w) (channels (db w)))
    | None \<Rightarrow> channels (db v) = channels (db w) \<or> (\<exists>i t. channels (db v) = mark_out i t (channels (db w))))
    (\<lambda>_ v. channels (db v) = channels (db w) \<or> (\<exists>i t. channels (db v) = mark_out i t (channels (db w)))) w"
  using assms [unfolded good_pick_def, rule_format, of "filter ca_available (channels (db w))"]
  unfolding attempt_def checkout_row_def wp_catch wp_bnd wp_gets
  by (auto simp: wps split: option.split sum.split)

lemma release_spec:
  "wp (release a) (\<lambda>_ v. channels (db v) = channels (db w) \<or>
      channels (db v) = update_where (\<lambda>c. ca_address c = a) (\<lambda>c. c\<lparr>ca_available := True\<rparr>) (channels (db w))) (\<lambda>_ _. False) w"
  by (simp add: release_def wps set_channels_def)

lemma pool_ok_release:
  assumes "pool_ok hs cs"
  shows "pool_ok (remove1 a hs) cs"
    "pool_ok (remove1 a hs) (update_where (\<lambda>c. ca_address c = a) (\<lambda>c. c\<lparr>ca_available := True\<rparr>) cs)"
proof -
  have "busy b (update_where (\<lambda>c. ca_address c = a) (\<lambda>c. c\<lparr>ca_available := True\<rparr>) cs)" if "busy b cs" "b \<noteq> a" for b
    using that by (intro busy_update) auto
  then show "pool_ok (remove1 a hs) (update_where (\<lambda>c. ca_address c = a) (\<lambda>c. c\<lparr>ca_available := True\<rparr>) cs)"
    using assms by (auto simp: pool_ok_def keyed_update)
  show "pool_ok (remove1 a hs) cs"
    using assms by (auto simp: pool_ok_def dest: in_set_remove1 [THEN iffD1, rotated] notin_set_remove1)
qed

text \<open>Funding only adds rows, with new keys.\<close>

definition extends :: "channel_account list \<Rightarrow> channel_account list \<Rightarrow> bool" where
  "extends cs cs' \<longleftrightarrow> (\<exists>new. cs' = cs @ new) \<and> (keyed cs \<longrightarrow> keyed cs')"

lemma extends_refl [simp]: "extends cs cs"
  by (simp add: extends_def)

lemma extends_trans: "extends a b \<Longrightarrow> extends b c \<Longrightarrow> extends a c"
  by (auto simp: extends_def)

lemma pool_ok_extends: "pool_ok hs cs \<Longrightarrow> extends cs cs' \<Longrightarrow> pool_ok hs cs'"
  by (fastforce simp: pool_ok_def extends_def busy_def)

lemma extends_insert: "insert_channel c w = Inr d \<Longrightarrow> extends (channels (db w)) (channels d)"
  by (fastforce simp: insert_channel_def set_channels_def extends_def keyed_def list_ex_iff split: if_splits)

lemma store_account_extends:
  "extends cs (channels (db w)) \<Longrightarrow> wp (store_account env i) (\<lambda>_ v. extends cs (channels (db v))) (\<lambda>_ v. extends cs (channels (db v))) w"
  unfolding store_account_def
  by (auto simp: wps split: sum.split dest!: extends_insert intro: extends_trans)

lemma fund_extends:
  "wp (fundChannelPool env) (\<lambda>_ v. extends (channels (db w)) (channels (db v))) (\<lambda>_ v. extends (channels (db w)) (channels (db v))) w"
proof -
  let ?I = "\<lambda>v. extends (channels (db w)) (channels (db v))"
  have stores: "wp (forEach ks (store_account env)) (\<lambda>_. ?I) (\<lambda>_. ?I) v" if "?I v" for ks v
    by (rule wp_forEach [where I = "\<lambda>_. ?I"]) (use that store_account_extends in auto)
  show ?thesis
    unfolding fundChannelPool_def Let_def
    by (auto simp: wps stores split: sum.split option.split prod.split)
qed

lemma pool_run_ok: "pool_run w hs \<Longrightarrow> pool_ok hs (channels (db w))"
proof (induction rule: pool_run.induct)
  case (Acquired w hs env c w')
  from wp_run [OF attempt_spec [OF Acquired.hyps(2)] Acquired.hyps(3)]
  obtain a where a: "a \<in> set (channels (db w))" "ca_available a" "ca_address a = ch_address c"
    "channels (db w') = mark_out (ca_id a) (now w) (channels (db w))" by auto
  from pool_ok_take [OF Acquired.IH a(1,2)] show ?case by (simp add: a(3,4))
next
  case (Missed w hs env r w')
  have "channels (db w') = channels (db w) \<or> (\<exists>i t. channels (db w') = mark_out i t (channels (db w)))"
    using attempt_spec [OF Missed.hyps(2), of w] Missed.hyps(3,4) by (auto simp: wp_def split: sum.splits option.splits)
  then show ?case using Missed.IH pool_ok_mark_out by auto
next
  case (Released w hs a r w')
  have "channels (db w') = channels (db w) \<or>
      channels (db w') = update_where (\<lambda>c. ca_address c = a) (\<lambda>c. c\<lparr>ca_available := True\<rparr>) (channels (db w))"
    using release_spec [of a w] Released.hyps(3) by (cases r) (auto simp: wp_def)
  then show ?case using pool_ok_release [OF Released.IH] by auto
next
  case (Funded w hs fe r w')
  have "extends (channels (db w)) (channels (db w'))"
    using fund_extends [of fe w] Funded.hyps(2) by (cases r) (auto simp: wp_def)
  with Funded.IH show ?case by (rule pool_ok_extends)
qed (simp_all add: pool_ok_def)

lemma pool_counts:
  assumes "pool_ok hs cs"
  shows "length (filter ca_available cs) + length hs \<le> length cs"
proof -
  have "set hs \<subseteq> set (map ca_address (filter (\<lambda>c. \<not> ca_available c) cs))"
    using assms by (auto simp: pool_ok_def busy_def)
  then have "card (set hs) \<le> length (map ca_address (filter (\<lambda>c. \<not> ca_available c) cs))"
    by (metis List.finite_set card_length card_mono le_trans)
  moreover have "card (set hs) = length hs" using assms by (simp add: pool_ok_def distinct_card)
  ultimately show ?thesis using sum_length_filter_compl [of ca_available cs] by simp
qed

text \<open>
  C15: exclusive channels: over any history of checkouts, releases, funding and failures no address is held twice,
  every held one is marked taken in the table, and the count of free accounts leaves room for the held ones.
\<close>

theorem channels_exclusive:
  assumes "pool_run w hs"
  shows "distinct hs \<and> list_all (\<lambda>a. list_ex (\<lambda>c. ca_address c = a \<and> \<not> ca_available c) (channels (db w))) hs \<and>
    wp getPoolStats (\<lambda>(free, all) _. free + length hs \<le> all) (\<lambda>_ _. True) w"
  using pool_run_ok [OF assms] pool_counts [OF pool_run_ok [OF assms]]
  by (auto simp: pool_ok_def busy_def list_all_iff list_ex_iff getPoolStats_def wps)

text \<open>
  An account whose secret cannot be decrypted is lost: the attempt answers that none was free, and the
  account stays checked out, so a wrong key empties the pool one poll at a time.
\<close>

theorem undecryptable_account_leaks:
  assumes "faults w = []" and "pe_pick env (filter ca_available (channels (db w))) = Some a"
    and "decryptSecret env (ca_secret a) = Inl e"
  shows "attempt env w = (Inr None, w\<lparr>db := check_out (ca_id a) (now w) (db w)\<rparr>)"
proof -
  have "wp (attempt env) (\<lambda>x v. (Inr x, v) = (Inr None, w\<lparr>db := check_out (ca_id a) (now w) (db w)\<rparr>))
     (\<lambda>e v. (Inl e, v) = (Inr None, w\<lparr>db := check_out (ca_id a) (now w) (db w)\<rparr>)) w"
    using assms by (simp add: attempt_def checkout_row_def wps faulty_def ticked_def)
  then show ?thesis by (rule wp_result [THEN iffD1])
qed

definition demo_pool :: "bool \<Rightarrow> pool_env" where
  "demo_pool ok = \<lparr>pe_timeout = 5000, pe_pick = first_row, pe_cipher = (\<lambda>iv x. if ok then Inr x else Inl (mkError ''bad decrypt'')),
     pe_key_set = True, pe_others = (\<lambda>_ d. d), pe_late = (\<lambda>_. 0)\<rparr>"

definition pool_world :: world where
  "pool_world = init_world\<lparr>db := empty_db\<lparr>channels := [\<lparr>ca_id = ''c1'', ca_address = ''GC1'', ca_secret = ''0a:0b'', ca_available = True, ca_last_used = None\<rparr>]\<rparr>\<rparr>"

lemma channels_exclusive_witness:
  "distinct [''GC1''] \<and> list_all (\<lambda>a. list_ex (\<lambda>c. ca_address c = a \<and> \<not> ca_available c) (channels (db (snd (attempt (demo_pool True) pool_world))))) [''GC1''] \<and>
    wp getPoolStats (\<lambda>(free, all) _. free + length [''GC1''] \<le> all) (\<lambda>_ _. True) (snd (attempt (demo_pool True) pool_world))"
proof (rule channels_exclusive)
  let ?c = "\<lparr>ch_id = ''c1'', ch_address = ''GC1'', ch_secret = ''0b''\<rparr>"
  have "pool_run pool_world []" by (rule pool_run.Start) code_simp
  moreover have "good_pick (demo_pool True)"
    by (auto simp: good_pick_def demo_pool_def split: option.split dest: first_row_Some)
  moreover have "fst (attempt (demo_pool True) pool_world) = Inr (Some ?c)" by code_simp
  then have "attempt (demo_pool True) pool_world = (Inr (Some ?c), snd (attempt (demo_pool True) pool_world))"
    by (metis prod.collapse)
  ultimately have "pool_run (snd (attempt (demo_pool True) pool_world)) (ch_address ?c # [])" by (rule pool_run.Acquired)
  then show "pool_run (snd (attempt (demo_pool True) pool_world)) [''GC1'']" by simp
qed

lemma undecryptable_account_leaks_witness:
  "attempt (demo_pool False) pool_world = (Inr None, pool_world\<lparr>db := check_out ''c1'' (now pool_world) (db pool_world)\<rparr>)"
  using undecryptable_account_leaks [of pool_world "demo_pool False"
    "\<lparr>ca_id = ''c1'', ca_address = ''GC1'', ca_secret = ''0a:0b'', ca_available = True, ca_last_used = None\<rparr>" "mkError ''bad decrypt''"]
  by (simp add: pool_world_def init_world_def empty_db_def demo_pool_def decryptSecret_def)

end
