(* ===== verification/Idempotency.thy ===== *)
theory Idempotency
  imports Cache
begin

text \<open>
  \<^verbatim>\<open>middleware/idempotency.js\<close>: a request that carries a key is answered once; a repetition gets the stored answer.
  The digest of a body (SHA-256 of its JSON text) is the parameter \<open>hash\<close>.
\<close>

section \<open>The middleware\<close>

definition TTL_SECONDS :: int where
  "TTL_SECONDS = 24 * 60 * 60"

definition IN_FLIGHT_TTL :: int where
  "IN_FLIGHT_TTL = 30"

definition hex_char :: "char \<Rightarrow> bool" where
  "hex_char c = (let n = (of_char (lower_char c) :: nat) in (48 \<le> n \<and> n \<le> 57) \<or> (97 \<le> n \<and> n \<le> 102))"

text \<open>\<open>UUID_V4_RE\<close>, without regard to case.\<close>

definition uuid_char :: "nat \<Rightarrow> char \<Rightarrow> bool" where
  "uuid_char i c = (if i \<in> {8, 13, 18, 23} then c = CHR ''-''
     else if i = 14 then c = CHR ''4''
     else if i = 19 then lower_char c \<in> {CHR ''8'', CHR ''9'', CHR ''a'', CHR ''b''}
     else hex_char c)"

definition UUID_V4_RE :: "string \<Rightarrow> bool" where
  "UUID_V4_RE s \<longleftrightarrow> length s = 36 \<and> list_all (\<lambda>i. uuid_char i (s ! i)) [0..<36]"

definition redisKey :: "string \<Rightarrow> string" where
  "redisKey key = ''idem:payment:'' @ key"

definition inFlightKey :: "string \<Rightarrow> string" where
  "inFlightKey key = ''idem:inflight:'' @ key"

definition reused :: outcome where
  "reused = Reply 409 (jerr ''Idempotency-Key reused with a different request body'')"

text \<open>The stored row of the key and user, if the query succeeds.\<close>

definition stored_row :: "string \<Rightarrow> string \<Rightarrow> (world, idem_row option) proc" where
  "stored_row key uid = catch (select (\<lambda>w. find (\<lambda>r. ik_key r = key \<and> ik_user r = uid) (idem_rows (db w)))) (\<lambda>_. ret None)"

definition purge_keys :: "(world, unit) proc" where
  "purge_keys = ignore (exec (\<lambda>w. (db w)\<lparr>idem_rows := filter (\<lambda>r. \<not> ik_created r < now w - TTL_SECONDS * 1000) (idem_rows (db w))\<rparr>))"

text \<open>What is asked before the request is let through: \<open>None\<close> lets it through.\<close>

definition idem_check :: "(json \<Rightarrow> string) \<Rightarrow> string \<Rightarrow> string \<Rightarrow> json \<Rightarrow> (world, outcome option) proc" where
  "idem_check hash key uid body =
     bnd (cacheGet (inFlightKey key)) (\<lambda>inFlight.
       if inFlight \<noteq> None then ret (Some (Reply 409 (jerr ''Request in progress'')))
       else bnd (cacheGet (redisKey key)) (\<lambda>cached. case cached of
         Some (CResponse status response h) \<Rightarrow> if h \<noteq> hash body then ret (Some reused) else ret (Some (Reply status response))
       | Some _ \<Rightarrow> ret (Some reused)
       | None \<Rightarrow> bnd (stored_row key uid) (\<lambda>row. case row of
           Some r \<Rightarrow> if ik_hash r \<noteq> hash body then ret (Some reused) else ret (Some (Reply (ik_status r) (ik_response r)))
         | None \<Rightarrow> ret None)))"

definition idem_mark :: "string \<Rightarrow> (world, unit) proc" where
  "idem_mark key = andThen (cacheSet (inFlightKey key) (CJson (JStr ''1'')) IN_FLIGHT_TTL) purge_keys"

definition idempotency :: "(json \<Rightarrow> string) \<Rightarrow> string option \<Rightarrow> string \<Rightarrow> json \<Rightarrow> (world, outcome) proc" where
  "idempotency hash key uid body = (case key of
     None \<Rightarrow> ret Next
   | Some key \<Rightarrow>
     if key = [] then ret Next
     else if \<not> UUID_V4_RE key then ret (Reply 400 (jerr ''Invalid Idempotency-Key format''))
     else bnd (idem_check hash key uid body) (\<lambda>answer. case answer of
         Some r \<Rightarrow> ret r
       | None \<Rightarrow> andThen (idem_mark key) (ret Next)))"

text \<open>The replaced \<open>res.json\<close>, and the listener on \<open>finish\<close>.\<close>

definition insert_idem :: "idem_row \<Rightarrow> database \<Rightarrow> database" where
  "insert_idem r d = (if list_ex (\<lambda>x. ik_key x = ik_key r \<and> ik_user x = ik_user r) (idem_rows d) then d
     else d\<lparr>idem_rows := idem_rows d @ [r]\<rparr>)"

definition respond :: "(json \<Rightarrow> string) \<Rightarrow> string \<Rightarrow> string \<Rightarrow> json \<Rightarrow> nat \<Rightarrow> json \<Rightarrow> (world, outcome) proc" where
  "respond hash key uid body status response =
     andThen (cacheDel (inFlightKey key))
     (andThen (if status < 500 then
         andThen (cacheSet (redisKey key) (CResponse status response (hash body)) TTL_SECONDS)
           (ignore (exec (\<lambda>w. insert_idem \<lparr>ik_key = key, ik_user = uid, ik_hash = hash body, ik_status = status,
             ik_response = response, ik_created = now w\<rparr> (db w))))
       else ret ())
     (ret (Reply status response)))"

definition on_finish :: "string \<Rightarrow> (world, unit) proc" where
  "on_finish key = ignore (cacheDel (inFlightKey key))"

section \<open>Properties\<close>

lemma keys_differ [simp]: "redisKey a \<noteq> inFlightKey b" "inFlightKey b \<noteq> redisKey a"
  by (simp_all add: redisKey_def inFlightKey_def)

text \<open>What the cache holds later, from the laws of the stores.\<close>

lemma cached_wait:
  "cached (wait_ms d w) k = (if redis_on w then live (now w + d) (map_of (redis w) k) else live (now w + d) (memory w k))"
  by (simp add: cached_def wait_ms_def)

lemma cached_wait_None: "0 \<le> d \<Longrightarrow> cached w k = None \<Longrightarrow> cached (wait_ms d w) k = None"
  using red.wait_None [of d w k] mem.wait_None [of d w k] by (auto simp: cached_def wait_ms_def split: if_splits)

lemma cached_db [simp]: "cached (w\<lparr>db := x\<rparr>) = cached w"
  by (simp add: cached_def fun_eq_iff)

definition lasting :: "world \<Rightarrow> string \<Rightarrow> cval \<Rightarrow> int \<Rightarrow> bool" where
  "lasting w k v ttl \<longleftrightarrow> (\<forall>d. 0 \<le> d \<longrightarrow> d < ttl * 1000 \<longrightarrow> cached (wait_ms d w) k = Some v)"

lemma lasting_db [simp]: "lasting (w\<lparr>db := x\<rparr>) k v ttl = lasting w k v ttl"
  by (simp add: lasting_def cached_wait)

lemma calm_wp_cacheSet_lasting:
  assumes "faults w = []" and "0 < ttl"
    and "\<And>w'. calm w w' \<Longrightarrow> cached w' = (cached w)(k \<mapsto> v) \<Longrightarrow> lasting w' k v ttl \<Longrightarrow> Q () w'"
  shows "wp (cacheSet k v ttl) Q E w"
proof (cases "redis_on w")
  case True
  let ?w = "w\<lparr>redis := AList.update k (v, now w + ttl * 1000) (redis w)\<rparr>"
  have "lasting ?w k v ttl"
    using red.look_put [where k = k and v = v and ttl = ttl and s = w] True by (auto simp: lasting_def cached_def wait_ms_def)
  moreover have "calm w ?w" "cached ?w = (cached w)(k \<mapsto> v)"
    using assms(1,2) True by (simp_all add: calm_def cached_def fun_eq_iff update_conv' live_def)
  ultimately show ?thesis
    using assms(1,3) True by (simp add: cacheSet_def redisSet_def wps)
next
  case False
  let ?w = "w\<lparr>memory := (memory w)(k \<mapsto> (v, now w + ttl * 1000))\<rparr>"
  have "lasting ?w k v ttl"
    using mem.look_put [where k = k and v = v and ttl = ttl and s = w] False by (auto simp: lasting_def cached_def wait_ms_def)
  moreover have "calm w ?w" "cached ?w = (cached w)(k \<mapsto> v)"
    using assms(1,2) False by (simp_all add: calm_def cached_def fun_eq_iff live_def)
  ultimately show ?thesis
    using assms(1,3) False by (simp add: cacheSet_def memSet_def wps)
qed

lemma respond_stores:
  assumes "faults w = []" and "status < 500"
  shows "wp (respond hash key uid body status response) (\<lambda>r v. r = Reply status response \<and> faults v = [] \<and>
     cached v (inFlightKey key) = None \<and> lasting v (redisKey key) (CResponse status response (hash body)) TTL_SECONDS) E w"
proof -
  have store: "wp (cacheSet (redisKey key) (CResponse status response (hash body)) TTL_SECONDS)
      (\<lambda>_ v. faults v = [] \<and> cached v (inFlightKey key) = None \<and> lasting v (redisKey key) (CResponse status response (hash body)) TTL_SECONDS) E' u"
    if "calm w u" "cached u = (cached w)(inFlightKey key := None)" for u E'
    by (rule calm_wp_cacheSet_lasting) (use that in \<open>simp_all add: calm_def TTL_SECONDS_def\<close>)
  show ?thesis
    unfolding respond_def wp_andThen
    by (rule calm_wp_cacheDel [OF assms(1)]) (auto simp: assms(2) wps intro!: wp_mono [OF store])
qed


definition demo_key :: string where
  "demo_key = ''6f9619ff-8b86-4d01-b42d-00cf4fc964ff''"


text \<open>
  The check and the mark are separate commands: two requests with one key that check before either marks are both
  let through.
\<close>

lemma check_is_not_a_lock:
  assumes "faults w = []" and "cached w (inFlightKey key) = None" and "cached w (redisKey key) = None"
    and "find (\<lambda>r. ik_key r = key \<and> ik_user r = uid) (idem_rows (db w)) = None"
  shows "wp (bnd (idem_check hash key uid body) (\<lambda>first. bnd (idem_check hash key uid body) (\<lambda>second.
     andThen (idem_mark key) (andThen (idem_mark key) (ret (first, second)))))) (\<lambda>r _. r = (None, None)) (\<lambda>_ _. False) w"
proof -
  have one: "wp (idem_check hash key uid body) (\<lambda>r v. r = None \<and> calm w v \<and> cached v = cached w) (\<lambda>_ _. False) u"
    if "calm w u" "cached u = cached w" for u
    using assms that unfolding idem_check_def wp_bnd
    by (intro calm_wp_cacheGet) (auto simp: wp_if wp_bnd wp_ret wp_case_option calm_def stored_row_def wps intro!: calm_wp_cacheGet)
  have mark: "wp (idem_mark key) (\<lambda>_ v. faults v = []) (\<lambda>_ _. False) u" if "faults u = []" for u
    unfolding idem_mark_def purge_keys_def wp_andThen
    by (rule calm_wp_cacheSet [OF that]) (auto simp: IN_FLIGHT_TTL_def wps calm_def)
  show ?thesis
    unfolding wp_bnd wp_andThen
    apply (rule wp_mono [OF one [OF calm_refl [OF assms(1)]]], simp)
     apply (erule conjE)+
     apply (rule wp_mono [OF one], assumption, assumption)
      apply (rule wp_mono [OF mark], simp add: calm_def)
       apply (rule wp_mono [OF mark])
         apply (auto simp: wps)
    done
qed

end
