(* ===== verification/Access.thy ===== *)
theory Access
  imports Cache JsText
begin

text \<open>
  Who may act: the token check of every route (\<^verbatim>\<open>middleware/auth.js\<close>), the owner check
  (\<^verbatim>\<open>middleware/isAdminOrOwner.js\<close>), the single-use confirmation of payments (\<^verbatim>\<open>middleware/requireStepUp.js\<close>) and the
  lifetimes of \<^verbatim>\<open>utils/tokens.js\<close>. \<open>jwt.verify\<close> is the parameter \<open>verify\<close>: the claims of a token at a time, or
  an error.
\<close>

section \<open>Tokens\<close>

record claims =
  cl_user :: string
  cl_role :: "string option"
  cl_wallet :: "string option"
  cl_jti :: "string option"
  cl_purpose :: "string option"
  cl_type :: "string option"
  cl_sub :: "string option"
  cl_exp :: int

type_synonym verifier = "int \<Rightarrow> string \<Rightarrow> jserr + claims"

text \<open>\<open>Math.max(1, parseInt(v || '30', 10) || 30)\<close>.\<close>

definition REFRESH_TOKEN_DAYS :: "string \<Rightarrow> jsnum" where
  "REFRESH_TOKEN_DAYS v = jmax (Fin 1) (jor (parseInt (if v = [] then ''30'' else v)) (Fin 30))"

definition refreshTokenExpiresAt :: "string \<Rightarrow> int \<Rightarrow> jsnum" where
  "refreshTokenExpiresAt v t = jadd (Fin (of_int t)) (jmul (jmul (jmul (jmul (REFRESH_TOKEN_DAYS v) (Fin 24)) (Fin 60)) (Fin 60)) (Fin 1000))"

definition verifyDeviceToken :: "verifier \<Rightarrow> int \<Rightarrow> string \<Rightarrow> jserr + claims" where
  "verifyDeviceToken verify t token = (case verify t token of
     Inl e \<Rightarrow> Inl e
   | Inr c \<Rightarrow> if cl_type c \<noteq> Some ''device_trust'' then Inl (mkError ''Not a device trust token'') else Inr c)"

section \<open>Revoked tokens\<close>

text \<open>The names \<^verbatim>\<open>utils/cache.js\<close> exports.\<close>

definition cache_exports :: "string list" where
  "cache_exports = [''get'', ''set'', ''del'', ''delPattern'', ''setIfAbsent'', ''getClient'', ''BALANCE_TTL'']"

definition blacklist_key :: "string \<Rightarrow> string" where
  "blacklist_key jti = ''jti:blacklist:'' @ jti"

definition TOUCH_DEBOUNCE_SEC :: int where
  "TOUCH_DEBOUNCE_SEC = 300"

definition blacklistJti :: "string \<Rightarrow> int \<Rightarrow> (world, unit) proc" where
  "blacklistJti jti ttl = (if jti = [] then ret ()
     else ignore (cacheSet (blacklist_key jti) (CJson (JNum (Fin 1))) (if ttl = 0 then TOUCH_DEBOUNCE_SEC else ttl)))"

text \<open>\<open>exps\<close>: the exports of the cache module the call finds.\<close>

definition isJtiBlacklisted :: "string list \<Rightarrow> string \<Rightarrow> (world, bool) proc" where
  "isJtiBlacklisted exps jti =
     (if jti = [] then ret False
      else if ''getStrict'' \<notin> set exps then throw (typeError ''cache.getStrict is not a function'')
      else bnd (getStrict (blacklist_key jti)) (\<lambda>v. ret (v \<noteq> None)))"

section \<open>Authentication\<close>

definition startsWithBearer :: "string \<Rightarrow> bool" where
  "startsWithBearer h = (take 7 h = ''Bearer '')"

definition suspended_reply :: "user \<Rightarrow> outcome" where
  "suspended_reply u = Reply 403 (JObj [(''error'', JStr ''Account suspended''),
     (''reason'', JStr (case u_suspension_reason u of Some r \<Rightarrow> if r = [] then ''Your account has been suspended'' else r | None \<Rightarrow> ''Your account has been suspended'')),
     (''code'', JStr ''ACCOUNT_SUSPENDED'')])"

text \<open>The answer, and \<open>req.user\<close> when the request goes on.\<close>

definition token_revoked :: "string list \<Rightarrow> claims \<Rightarrow> (world, bool) proc" where
  "token_revoked exps c = (case cl_jti c of Some j \<Rightarrow> if j = [] then ret False else isJtiBlacklisted exps j | None \<Rightarrow> ret False)"

definition auth_user :: "claims \<Rightarrow> (world, outcome \<times> req_user option) proc" where
  "auth_user c = bnd (select (\<lambda>w. user_by_id (db w) (cl_user c))) (\<lambda>row. case row of
     None \<Rightarrow> ret (Reply 401 (jerr ''User not found''), None)
   | Some u \<Rightarrow>
     if u_suspended u then ret (suspended_reply u, None)
     else andThen (if cl_role c \<noteq> Some (u_role u) then audit_log (Some (cl_user c)) ''role_change_detected''
           (JObj [(''old'', case cl_role c of Some r \<Rightarrow> JStr r | None \<Rightarrow> JNull), (''new'', JStr (u_role u))]) else ret ())
       (ret (Next, Some \<lparr>usr_id = cl_user c, usr_role = u_role u, usr_wallet = cl_wallet c\<rparr>)))"

definition auth_payload :: "string list \<Rightarrow> claims \<Rightarrow> (world, outcome \<times> req_user option) proc" where
  "auth_payload exps c = bnd (token_revoked exps c) (\<lambda>blacklisted.
     if blacklisted then ret (Reply 401 (jerrc ''Token has been revoked'' ''TOKEN_REVOKED''), None) else auth_user c)"

definition authMiddleware :: "string list \<Rightarrow> verifier \<Rightarrow> string option \<Rightarrow> (world, outcome \<times> req_user option) proc" where
  "authMiddleware exps verify authHeader = (case authHeader of
     None \<Rightarrow> ret (Reply 401 (jerr ''No token provided''), None)
   | Some h \<Rightarrow>
     if \<not> startsWithBearer h then ret (Reply 401 (jerr ''No token provided''), None)
     else catch
       (bnd (gets now) (\<lambda>t. bnd (lift (verify t (split_on (CHR '' '') h ! 1))) (auth_payload exps)))
       (\<lambda>e. if err_name e = ''TokenExpiredError'' then ret (Reply 401 (jerrc ''Token expired'' ''TOKEN_EXPIRED''), None)
         else ret (Reply 401 (jerr ''Invalid or expired token''), None)))"

section \<open>Ownership\<close>

text \<open>The loader gives the owner of the resource, \<open>None\<close> when there is no such resource.\<close>

definition isAdminOrOwner :: "(world, string option) proc option \<Rightarrow> req_user option \<Rightarrow> (world, outcome) proc" where
  "isAdminOrOwner resourceLoader user = (case user of
     None \<Rightarrow> ret (Reply 401 (jerr ''Authentication required''))
   | Some u \<Rightarrow>
     if usr_role u = ''admin'' then ret Next
     else (case resourceLoader of
       None \<Rightarrow> ret Next
     | Some load \<Rightarrow> handler (bnd load (\<lambda>r. case r of
           None \<Rightarrow> ret (Reply 404 (jerr ''Resource not found''))
         | Some owner \<Rightarrow> if owner \<noteq> usr_id u then ret (Reply 403 (jerr ''Forbidden: admin or account owner required'')) else ret Next))))"

section \<open>Step-up confirmation\<close>

definition STEP_UP_TTL_SECONDS :: int where
  "STEP_UP_TTL_SECONDS = 120"

text \<open>The claims \<open>issueStepUpToken\<close> signs, with a random \<open>jti\<close>.\<close>

definition issueStepUpToken :: "string \<Rightarrow> string \<Rightarrow> int \<Rightarrow> claims" where
  "issueStepUpToken uid jti t = \<lparr>cl_user = [], cl_role = None, cl_wallet = None, cl_jti = Some jti,
     cl_purpose = Some ''transaction_step_up'', cl_type = None, cl_sub = Some uid, cl_exp = t div 1000 + STEP_UP_TTL_SECONDS\<rparr>"

definition rejectStepUp :: outcome where
  "rejectStepUp = Reply 403 (jerrc ''Transaction confirmation required. Verify your PIN and try again.'' ''STEP_UP_REQUIRED'')"

definition used_key :: "string \<Rightarrow> string" where
  "used_key jti = ''stepup:used:'' @ jti"

definition requireStepUp :: "verifier \<Rightarrow> string \<Rightarrow> string option \<Rightarrow> (world, outcome) proc" where
  "requireStepUp verify uid token = (case token of
     None \<Rightarrow> ret rejectStepUp
   | Some token \<Rightarrow>
     if token = [] then ret rejectStepUp
     else catch
       (bnd (gets now) (\<lambda>t. bnd (lift (verify t token)) (\<lambda>p.
          if cl_purpose p \<noteq> Some ''transaction_step_up'' \<or> (case cl_jti p of None \<Rightarrow> True | Some j \<Rightarrow> j = []) \<or> cl_sub p \<noteq> Some uid then ret rejectStepUp
          else bnd (setIfAbsent (used_key (the (cl_jti p))) uid (max 1 (cl_exp p - t div 1000))) (\<lambda>consumed.
            if consumed then ret Next else ret rejectStepUp))))
       (\<lambda>_. ret rejectStepUp))"

section \<open>Properties\<close>

lemma wp_isJtiBlacklisted:
  assumes "\<And>v. db v = db w \<Longrightarrow> Q (jti \<noteq> [] \<and> cached w (blacklist_key jti) \<noteq> None) v" and "\<And>e v. E e v"
  shows "wp (isJtiBlacklisted exps jti) Q E w"
  using assms by (auto simp: isJtiBlacklisted_def getStrict_def redisGet_def memGet_def wps cached_def)

definition authorised :: "world \<Rightarrow> claims \<Rightarrow> outcome \<times> req_user option \<Rightarrow> bool" where
  "authorised w c = (\<lambda>(r, user). case user of
      Some u \<Rightarrow> r = Next \<and> cl_user c = usr_id u \<and> (\<exists>row. user_by_id (db w) (usr_id u) = Some row \<and> \<not> u_suspended row \<and> usr_role u = u_role row) \<and>
          (case cl_jti c of Some j \<Rightarrow> j = [] \<or> cached w (blacklist_key j) = None | None \<Rightarrow> True)
    | None \<Rightarrow> status_of r \<in> {Some 401, Some 403})"

lemma wp_auth_payload: "wp (auth_payload exps c) (\<lambda>x _. authorised w c x) (\<lambda>_ _. True) w"
proof -
  have user: "wp (auth_user c) (\<lambda>x _. authorised w c x) (\<lambda>_ _. True) v"
    if "db v = db w" "case cl_jti c of Some j \<Rightarrow> j = [] \<or> cached w (blacklist_key j) = None | None \<Rightarrow> True" for v
    using that by (auto simp: auth_user_def wps authorised_def suspended_reply_def split: option.split)
  have "wp (token_revoked exps c) (\<lambda>b v. db v = db w \<and> b = (case cl_jti c of Some j \<Rightarrow> j \<noteq> [] \<and> cached w (blacklist_key j) \<noteq> None | None \<Rightarrow> False)) (\<lambda>_ _. True) w"
    by (cases "cl_jti c") (auto simp: token_revoked_def wp_ret wp_if intro!: wp_isJtiBlacklisted)
  moreover have "authorised w c (Reply 401 b, None)" for b by (simp add: authorised_def)
  ultimately show ?thesis
    unfolding auth_payload_def wp_bnd
    by (auto elim!: wp_mono simp: wp_if wp_ret split: option.splits intro!: user)
qed

text \<open>
  C28: under any failures a request goes on only for a user the table has, who is not suspended, with the role
  of the table and not of the token, and whose token is not on the blacklist; every other request gets 401
  or 403.
\<close>

theorem auth_guards:
  "wp (authMiddleware exps verify hdr) (\<lambda>(r, user) v. case user of
      Some u \<Rightarrow> r = Next \<and> (\<exists>c row. verify (now w) (split_on (CHR '' '') (the hdr) ! 1) = Inr c \<and> cl_user c = usr_id u \<and>
          user_by_id (db w) (usr_id u) = Some row \<and> \<not> u_suspended row \<and> usr_role u = u_role row \<and>
          (case cl_jti c of Some j \<Rightarrow> j = [] \<or> cached w (blacklist_key j) = None | None \<Rightarrow> True))
    | None \<Rightarrow> status_of r \<in> {Some 401, Some 403}) (\<lambda>_ _. False) w"
proof -
  show ?thesis
  proof (cases "\<exists>h c. hdr = Some h \<and> startsWithBearer h \<and> verify (now w) (split_on (CHR '' '') h ! 1) = Inr c")
    case True
    then obtain h c where h: "hdr = Some h" "startsWithBearer h" "verify (now w) (split_on (CHR '' '') h ! 1) = Inr c" by blast
    have "wp (auth_payload exps c) (\<lambda>x _. authorised w c x) (\<lambda>e v. wp (if err_name e = ''TokenExpiredError'' then ret (Reply 401 (jerrc ''Token expired'' ''TOKEN_EXPIRED''), None)
         else ret (Reply 401 (jerr ''Invalid or expired token''), None)) (\<lambda>x _. authorised w c x) (\<lambda>_ _. False) v) w"
      by (rule wp_mono [OF wp_auth_payload]) (auto simp: wps authorised_def)
    then have "wp (authMiddleware exps verify hdr) (\<lambda>x _. authorised w c x) (\<lambda>_ _. False) w"
      by (simp add: authMiddleware_def h h(3) [simplified] wp_catch wp_bnd wp_gets wp_lift)
    then show ?thesis by (rule wp_mono) (use h in \<open>auto simp: authorised_def split: option.splits\<close>)
  next
    case False
    then show ?thesis
      by (cases hdr) (auto simp: authMiddleware_def wps split: sum.split)
  qed
qed

text \<open>
  With the exports the cache module has, the blacklist cannot be asked: every token with a \<open>jti\<close>, which is every
  token the server signs, is answered 401.
\<close>

lemma no_token_passes:
  assumes "verify (now w) (split_on (CHR '' '') (the hdr) ! 1) = Inr c" and "cl_jti c = Some j" and "j \<noteq> []"
  shows "wp (authMiddleware cache_exports verify hdr) (\<lambda>(r, user) _. user = None \<and> status_of r = Some 401) (\<lambda>_ _. False) w"
  using assms assms(1) [simplified]
  by (cases hdr) (auto simp: authMiddleware_def auth_payload_def token_revoked_def isJtiBlacklisted_def cache_exports_def wps typeError_def mkError_def)

section \<open>A confirmation is used once\<close>

definition used_until :: "world \<Rightarrow> string \<Rightarrow> int option" where
  "used_until w j = (if redis_on w then map_option snd (map_of (redis w) (used_key j)) else one_time w (used_key j))"

definition claimed :: "world \<Rightarrow> string \<Rightarrow> bool" where
  "claimed w j \<longleftrightarrow> (case used_until w j of Some x \<Rightarrow> now w < x | None \<Rightarrow> False)"

lemma used_key_inj [simp]: "used_key i = used_key j \<longleftrightarrow> i = j"
  by (simp add: used_key_def)

lemma wp_claim:
  "wp (setIfAbsent (used_key j) v ttl) (\<lambda>b w'. now w' = now w \<and> redis_on w' = redis_on w \<and>
      (\<forall>i. claimed w i \<longrightarrow> used_until w' i = used_until w i) \<and>
      (b \<longrightarrow> \<not> claimed w j \<and> used_until w' j = Some (now w + ttl * 1000))) (\<lambda>_ _. False) w"
proof (cases "redis_on w")
  case True
  then show ?thesis
    by (auto simp: setIfAbsent_def redisSetNX_def wps used_until_def claimed_def update_conv' live_def split: option.splits if_splits)
next
  case False
  then show ?thesis
    by (auto simp: setIfAbsent_def wps used_until_def claimed_def split: option.splits if_splits)
qed

text \<open>The payments that passed, by the \<open>jti\<close> of their confirmation, over any history of requests.\<close>

inductive step_up_run :: "verifier \<Rightarrow> world \<Rightarrow> string list \<Rightarrow> bool" for verify where
  Start: "step_up_run verify w []"
| Passed: "step_up_run verify w acc \<Longrightarrow> requireStepUp verify uid (Some tok) w = (Inr Next, w') \<Longrightarrow> verify (now w) tok = Inr c \<Longrightarrow>
    step_up_run verify w' (the (cl_jti c) # acc)"
| Refused: "step_up_run verify w acc \<Longrightarrow> requireStepUp verify uid tok w = (r, w') \<Longrightarrow> r \<noteq> Inr Next \<Longrightarrow> step_up_run verify w' acc"
| Time: "step_up_run verify w acc \<Longrightarrow> 0 \<le> d \<Longrightarrow> step_up_run verify (w\<lparr>now := now w + d\<rparr>) acc"
| Other: "step_up_run verify w acc \<Longrightarrow> redis_on v = redis_on w \<Longrightarrow> now v = now w \<Longrightarrow> used_until v = used_until w \<Longrightarrow> step_up_run verify v acc"

text \<open>What is relied on of \<open>jsonwebtoken\<close> and of the random identifiers.\<close>

definition expires :: "verifier \<Rightarrow> bool" where
  "expires verify \<longleftrightarrow> (\<forall>t tok c. verify t tok = Inr c \<longrightarrow> t div 1000 < cl_exp c)"

definition fresh_jti :: "verifier \<Rightarrow> bool" where
  "fresh_jti verify \<longleftrightarrow> (\<forall>t tok c t' tok' c'. verify t tok = Inr c \<longrightarrow> verify t' tok' = Inr c' \<longrightarrow> cl_jti c = cl_jti c' \<longrightarrow> cl_exp c = cl_exp c')"

definition used_ok :: "verifier \<Rightarrow> world \<Rightarrow> string list \<Rightarrow> bool" where
  "used_ok verify w acc \<longleftrightarrow> distinct acc \<and> (\<forall>j\<in>set acc. \<forall>t tok c. verify t tok = Inr c \<longrightarrow> cl_jti c = Some j \<longrightarrow>
     now w < cl_exp c * 1000 \<longrightarrow> (\<exists>x. used_until w j = Some x \<and> cl_exp c * 1000 \<le> x))"

lemma requireStepUp_claims:
  "wp (requireStepUp verify uid tok) (\<lambda>r w'. now w' = now w \<and> (\<forall>i. claimed w i \<longrightarrow> used_until w' i = used_until w i) \<and>
     (r = Next \<longrightarrow> (\<exists>c j. verify (now w) (the tok) = Inr c \<and> cl_jti c = Some j \<and> \<not> claimed w j \<and>
        used_until w' j = Some (now w + max 1 (cl_exp c - now w div 1000) * 1000)))) (\<lambda>_ _. False) w"
proof (cases "\<exists>t p j. tok = Some t \<and> t \<noteq> [] \<and> verify (now w) t = Inr p \<and> cl_purpose p = Some ''transaction_step_up'' \<and> cl_jti p = Some j \<and> j \<noteq> [] \<and> cl_sub p = Some uid")
  case True
  then obtain t p j where t: "tok = Some t" "t \<noteq> []" "verify (now w) t = Inr p" "cl_purpose p = Some ''transaction_step_up''"
    "cl_jti p = Some j" "j \<noteq> []" "cl_sub p = Some uid" by blast
  show ?thesis
    unfolding requireStepUp_def t option.case if_not_P [OF t(2)] wp_catch wp_bnd wp_gets wp_lift sum.case
    by (simp add: t wp_bnd) (rule wp_mono [OF wp_claim], auto simp: wps rejectStepUp_def t)
next
  case False
  then show ?thesis
    unfolding requireStepUp_def
    by (auto simp: wps rejectStepUp_def split: option.split sum.split)
qed

lemma used_ok_keep:
  assumes "used_ok verify w acc" and "now w' = now w" and "\<And>i. claimed w i \<Longrightarrow> used_until w' i = used_until w i"
  shows "used_ok verify w' acc"
  unfolding used_ok_def
proof (intro conjI ballI allI impI)
  show "distinct acc" using assms(1) by (simp add: used_ok_def)
  fix j t tok c assume j: "j \<in> set acc" "verify t tok = Inr c" "cl_jti c = Some j" "now w' < cl_exp c * 1000"
  then obtain x where x: "used_until w j = Some x" "cl_exp c * 1000 \<le> x"
    using assms(1,2) unfolding used_ok_def by metis
  then have "claimed w j" using j(4) assms(2) by (simp add: claimed_def)
  then show "\<exists>x. used_until w' j = Some x \<and> cl_exp c * 1000 \<le> x" using x assms(3) by auto
qed

lemma step_up_run_ok:
  assumes "expires verify" and "fresh_jti verify"
  shows "step_up_run verify w acc \<Longrightarrow> used_ok verify w acc"
proof (induction rule: step_up_run.induct)
  case (Passed w acc uid tok w' c)
  from wp_run [OF requireStepUp_claims Passed.hyps(2)] Passed.hyps(3)
  obtain j where now: "now w' = now w" and keep: "\<And>i. claimed w i \<Longrightarrow> used_until w' i = used_until w i"
    and j: "cl_jti c = Some j" "\<not> claimed w j" "used_until w' j = Some (now w + max 1 (cl_exp c - now w div 1000) * 1000)" by auto
  have live: "now w < cl_exp c * 1000"
    using assms(1) Passed.hyps(3) by (fastforce simp: expires_def)
  have until: "cl_exp c * 1000 \<le> now w + max 1 (cl_exp c - now w div 1000) * 1000"
  proof -
    have "e * 1000 \<le> a + m * 1000" if "q * 1000 \<le> a" "e - q \<le> m" for e a m q :: int using that by linarith
    from this [of "now w div 1000" "now w" "cl_exp c" "max 1 (cl_exp c - now w div 1000)"] show ?thesis by simp
  qed
  have old: "used_ok verify w' acc" by (rule used_ok_keep [OF Passed.IH now keep])
  have "j \<notin> set acc"
  proof
    assume "j \<in> set acc"
    then obtain x where "used_until w j = Some x" "cl_exp c * 1000 \<le> x"
      using Passed.IH Passed.hyps(3) j(1) live unfolding used_ok_def by blast
    then have "claimed w j" using live by (simp add: claimed_def)
    with j(2) show False by simp
  qed
  moreover have "cl_exp c' = cl_exp c" if "verify t tok' = Inr c'" "cl_jti c' = Some j" for t tok' c'
    using assms(2) Passed.hyps(3) that j(1) unfolding fresh_jti_def by metis
  ultimately show ?case
    using old until j(3) unfolding used_ok_def by (auto simp: j(1))
next
  case (Refused w acc uid tok r w')
  from requireStepUp_claims [of verify uid tok w] Refused.hyps(2)
  have "now w' = now w \<and> (\<forall>i. claimed w i \<longrightarrow> used_until w' i = used_until w i)"
    by (cases r) (auto simp: wp_def)
  then show ?case using used_ok_keep [OF Refused.IH] by blast
next
  case (Time w acc d)
  have "used_until (w\<lparr>now := now w + d\<rparr>) = used_until w" by (simp add: used_until_def fun_eq_iff)
  with Time show ?case by (fastforce simp: used_ok_def)
next
  case (Other w acc v)
  then show ?case by (simp add: used_ok_def)
qed (simp add: used_ok_def)

text \<open>
  C27: a confirmation lets at most one payment through: over any history of requests, Redis failures and passing
  time no confirmation is used twice, with Redis or without.
\<close>

theorem step_up_used_once:
  assumes "expires verify" and "fresh_jti verify" and "step_up_run verify w accepted"
  shows "distinct accepted \<and> wp (requireStepUp verify uid tok) (\<lambda>r w'. (if r = Next then (case verify (now w) (the tok) of
      Inr c \<Rightarrow> the (cl_jti c) \<notin> set accepted | Inl _ \<Rightarrow> False) else True)) (\<lambda>_ _. False) w"
proof -
  note ok = step_up_run_ok [OF assms]
  have "the (cl_jti c) \<notin> set accepted" if "requireStepUp verify uid tok w = (Inr Next, w')" "verify (now w) (the tok) = Inr c" for w' c
  proof -
    have "fst (requireStepUp verify uid None w) \<noteq> Inr Next" by (simp add: requireStepUp_def rejectStepUp_def ret_def)
    then have "tok \<noteq> None" using that(1) by (cases tok) auto
    then obtain t where "tok = Some t" by blast
    with that assms(3) have "step_up_run verify w' (the (cl_jti c) # accepted)" by (auto intro: step_up_run.Passed)
    from step_up_run_ok [OF assms(1,2) this] show ?thesis by (simp add: used_ok_def)
  qed
  moreover have "\<exists>c. verify (now w) (the tok) = Inr c" if "requireStepUp verify uid tok w = (Inr Next, w')" for w'
    using wp_run [OF requireStepUp_claims that] by auto
  moreover have "fst (requireStepUp verify uid tok w) \<noteq> Inl e" for e
    using requireStepUp_claims [of verify uid tok w] by (auto simp: wp_def split: prod.splits)
  ultimately show ?thesis
    using ok by (auto simp: used_ok_def wp_def split: prod.split sum.split) (metis Inr_not_Inl fst_conv | force)+
qed

definition demo_verify :: verifier where
  "demo_verify t tok = (let c = issueStepUpToken ''u1'' tok 0 in
     if t div 1000 < cl_exp c then Inr c else Inl ((mkError ''jwt expired'')\<lparr>err_name := ''TokenExpiredError''\<rparr>))"

lemma step_up_used_once_witness:
  "distinct [''j1''] \<and> wp (requireStepUp demo_verify ''u1'' (Some ''j2'')) (\<lambda>r w'. (if r = Next then (case demo_verify (now (snd (requireStepUp demo_verify ''u1'' (Some ''j1'') init_world))) (the (Some ''j2'')) of
      Inr c \<Rightarrow> the (cl_jti c) \<notin> set [''j1''] | Inl _ \<Rightarrow> False) else True)) (\<lambda>_ _. False) (snd (requireStepUp demo_verify ''u1'' (Some ''j1'') init_world))"
proof (rule step_up_used_once)
  show "expires demo_verify" "fresh_jti demo_verify"
    by (auto simp: expires_def fresh_jti_def demo_verify_def issueStepUpToken_def Let_def split: if_splits)
  have "fst (requireStepUp demo_verify ''u1'' (Some ''j1'') init_world) = Inr Next" by code_simp
  then have run: "requireStepUp demo_verify ''u1'' (Some ''j1'') init_world = (Inr Next, snd (requireStepUp demo_verify ''u1'' (Some ''j1'') init_world))"
    by (metis prod.collapse)
  have "demo_verify (now init_world) ''j1'' = Inr (issueStepUpToken ''u1'' ''j1'' 0)" by code_simp
  from step_up_run.Passed [OF step_up_run.Start run this]
  show "step_up_run demo_verify (snd (requireStepUp demo_verify ''u1'' (Some ''j1'') init_world)) [''j1'']"
    by (simp add: issueStepUpToken_def)
qed

end
