(* ===== verification/Dispute.thy ===== *)
theory Dispute
  imports Soroban JsText
begin

text \<open>
  Disputes: \<^verbatim>\<open>services/disputeResolution.js\<close> and \<^verbatim>\<open>controllers/disputeResolutionController.js\<close>, over the tables
  \<open>disputes\<close> and \<open>dispute_evidence\<close>. The histories of requests are the relation \<open>dispute_run\<close>; the
  invariant types every row and ties a resolution in the table to one on the chain.
\<close>

section \<open>The contract calls\<close>

record dispute_env =
  de_contract_configured :: bool
  de_arbitrator_key :: string
  de_timeout :: int

definition requireContractId :: "dispute_env \<Rightarrow> (world, unit) proc" where
  "requireContractId env = (if de_contract_configured env then ret ()
     else throw (withStatus 500 (mkError ''DISPUTE_RESOLUTION_CONTRACT_ID is not configured'')))"

definition sendAndConfirm :: "dispute_env \<Rightarrow> soroban \<Rightarrow> string \<Rightarrow> (string \<Rightarrow> chain_call) \<Rightarrow> (world, string \<times> string) proc" where
  "sendAndConfirm env rpc enc call = submitCall rpc (withStatus 400) ''Contract call'' (de_timeout env) enc call"

text \<open>\<open>Math.round(x)\<close>.\<close>

fun jround :: "jsnum \<Rightarrow> jsnum" where
  "jround (Fin x) = Fin (of_int \<lfloor>x + 1 / 2\<rfloor>)"
| "jround x = x"

definition openDispute :: "dispute_env \<Rightarrow> soroban \<Rightarrow> string \<Rightarrow> string \<Rightarrow> string \<Rightarrow> jsnum \<Rightarrow> (world, string \<times> string \<times> int) proc" where
  "openDispute env rpc enc sender recipient amt =
     andThen (requireContractId env)
     (bnd (lift (sb_decrypt rpc enc)) (\<lambda>_. bnd (lift (toBigInt amt)) (\<lambda>n.
       bnd (sendAndConfirm env rpc enc (\<lambda>key. OpenDispute key sender recipient n)) (\<lambda>(v, hash).
         bnd (gets now) (\<lambda>t. ret (v, hash, t + 7 * 24 * 60 * 60 * 1000))))))"

definition submitEvidence :: "dispute_env \<Rightarrow> soroban \<Rightarrow> string \<Rightarrow> string \<Rightarrow> string \<Rightarrow> (world, string) proc" where
  "submitEvidence env rpc enc disputeId evidence =
     andThen (requireContractId env)
     (bnd (sendAndConfirm env rpc enc (\<lambda>key. SubmitEvidence key disputeId evidence)) (\<lambda>(v, hash). ret hash))"

definition resolveDispute :: "dispute_env \<Rightarrow> soroban \<Rightarrow> string \<Rightarrow> string \<Rightarrow> bool \<Rightarrow> (world, string) proc" where
  "resolveDispute env rpc enc disputeId releaseToRecipient =
     andThen (requireContractId env)
     (bnd (sendAndConfirm env rpc enc (\<lambda>key. ResolveDispute key disputeId releaseToRecipient)) (\<lambda>(v, hash). ret hash))"

section \<open>The handlers\<close>

definition notNullViolation :: "string \<Rightarrow> jserr" where
  "notNullViolation c = (mkError (''null value in column '' @ c @ '' violates not-null constraint''))\<lparr>err_code := Some ''23502''\<rparr>"

record open_form =
  of_recipient :: string
  of_amount :: string
  of_asset :: string
  of_ticket :: "int option"
  of_escrow :: "string option"

definition set_ticket :: "int \<Rightarrow> string \<Rightarrow> database \<Rightarrow> database" where
  "set_ticket i s d = d\<lparr>tickets := update_where (\<lambda>t. tk_id t = i) (\<lambda>t. t\<lparr>tk_status := s\<rparr>) (tickets d)\<rparr>"

definition insert_dispute :: "dispute \<Rightarrow> string \<Rightarrow> database \<Rightarrow> jserr + database" where
  "insert_dispute r amt d = (case numeric_20_7 amt of Inl e \<Rightarrow> Inl e
   | Inr n \<Rightarrow> if list_ex (\<lambda>x. dp_id x = dp_id r) (disputes d) then Inl uniqueViolation
       else if (case dp_escrow r of None \<Rightarrow> False | Some e \<Rightarrow> \<not> list_ex (\<lambda>x. e_id x = e) (escrows d)) then Inl foreignKeyViolation
       else Inr (d\<lparr>disputes := disputes d @ [r\<lparr>dp_amount := n\<rparr>]\<rparr>))"

text \<open>The part of \<open>open\<close> after the checks: the contract, the row and the linked ticket.\<close>

definition record_dispute :: "dispute_env \<Rightarrow> soroban \<Rightarrow> string \<Rightarrow> wallet \<Rightarrow> open_form \<Rightarrow> (world, outcome) proc" where
  "record_dispute env rpc uuid wal f =
     bnd (openDispute env rpc (w_secret wal) (w_public_key wal) (of_recipient f) (jround (jmul (parseFloat (of_amount f)) (Fin 10000000)))) (\<lambda>(disputeId, txHash, deadline).
       andThen (execE (\<lambda>w. insert_dispute \<lparr>dp_id = uuid, dp_contract_id = disputeId, dp_sender = w_public_key wal, dp_recipient = of_recipient f,
           dp_amount = 0, dp_asset = of_asset f, dp_status = ''open'', dp_ticket = of_ticket f, dp_escrow = of_escrow f, dp_open_hash = txHash,
           dp_resolve_hash = None, dp_deadline = deadline, dp_created = now w\<rparr> (of_amount f) (db w)))
       (andThen (case of_ticket f of None \<Rightarrow> ret () | Some t \<Rightarrow> exec (\<lambda>w. set_ticket t ''in_dispute'' (db w)))
       (ret (Reply 201 (JObj [(''message'', JStr ''Dispute opened''), (''dispute'', JObj [(''id'', JStr uuid), (''contract_dispute_id'', JStr disputeId),
         (''tx_hash'', JStr txHash), (''status'', JStr ''open''), (''deadline_at'', JNum (Fin (of_int deadline)))])])))))"

definition open_dispute :: "dispute_env \<Rightarrow> soroban \<Rightarrow> string \<Rightarrow> string \<Rightarrow> open_form \<Rightarrow> (world, outcome) proc" where
  "open_dispute env rpc uuid uid f = handler (
     bnd (select (\<lambda>w. default_wallet (db w) uid)) (\<lambda>wal. case wal of
       None \<Rightarrow> ret (Reply 404 (jerr ''Wallet not found''))
     | Some wal \<Rightarrow>
       (case of_ticket f of
          None \<Rightarrow> record_dispute env rpc uuid wal f
        | Some t \<Rightarrow> bnd (select (\<lambda>w. find (\<lambda>k. tk_id k = t \<and> tk_user k = uid) (tickets (db w)))) (\<lambda>k. case k of
            None \<Rightarrow> ret (Reply 404 (jerr ''Support ticket not found or does not belong to you''))
          | Some _ \<Rightarrow> record_dispute env rpc uuid wal f))))"

definition dispute_by_id :: "database \<Rightarrow> string \<Rightarrow> dispute option" where
  "dispute_by_id d i = find (\<lambda>x. dp_id x = i) (disputes d)"

definition party :: "string \<Rightarrow> dispute \<Rightarrow> bool" where
  "party pk d \<longleftrightarrow> pk = dp_sender d \<or> pk = dp_recipient d"

definition evidence_count :: "string \<Rightarrow> database \<Rightarrow> nat" where
  "evidence_count i d = length (filter (\<lambda>e. ev_dispute e = i) (evidence_rows d))"

text \<open>The insert: \<open>file_path\<close> is not nullable, and the digest column has 64 characters.\<close>

definition insert_evidence :: "string \<Rightarrow> string \<Rightarrow> string option \<Rightarrow> string \<Rightarrow> string option \<Rightarrow> world \<Rightarrow> jserr + database" where
  "insert_evidence i uid path hash descr w = (case path of
     None \<Rightarrow> Inl (notNullViolation ''file_path'')
   | Some p \<Rightarrow> if 64 < length hash then Inl ((mkError ''value too long for type character varying(64)'')\<lparr>err_code := Some ''22001''\<rparr>)
       else Inr ((db w)\<lparr>evidence_rows := evidence_rows (db w) @ [\<lparr>ev_dispute = i, ev_uploader = uid, ev_path = p, ev_hash = hash,
         ev_description = descr, ev_uploaded = now w\<rparr>]\<rparr>))"

definition store_evidence :: "dispute_env \<Rightarrow> soroban \<Rightarrow> string \<Rightarrow> wallet \<Rightarrow> dispute \<Rightarrow> string option \<Rightarrow> string \<Rightarrow> string option \<Rightarrow> (world, outcome) proc" where
  "store_evidence env rpc uid wal d path hash descr =
     andThen (execE (insert_evidence (dp_id d) uid path hash descr))
     (bnd (submitEvidence env rpc (w_secret wal) (dp_contract_id d) hash) (\<lambda>txHash.
       ret (Reply 200 (JObj [(''message'', JStr ''Evidence submitted''), (''sha256_hash'', JStr hash), (''tx_hash'', JStr txHash)]))))"

text \<open>\<open>file\<close>: the digest and path of an uploaded file; \<open>cid\<close>: the \<open>evidence\<close> field of the body.\<close>

definition submitEvidenceHandler :: "dispute_env \<Rightarrow> soroban \<Rightarrow> string \<Rightarrow> string \<Rightarrow> (string \<times> string) option \<Rightarrow> string option \<Rightarrow> string option \<Rightarrow> (world, outcome) proc" where
  "submitEvidenceHandler env rpc uid i file cid descr = handler (
     bnd (select (\<lambda>w. dispute_by_id (db w) i)) (\<lambda>row. case row of
       None \<Rightarrow> ret (Reply 404 (jerr ''Dispute not found''))
     | Some d \<Rightarrow>
       if dp_status d \<noteq> ''open'' then ret (Reply 400 (jerr ''Dispute is not open''))
       else bnd (select (\<lambda>w. default_wallet (db w) uid)) (\<lambda>wal. case wal of
         None \<Rightarrow> ret (Reply 404 (jerr ''Wallet not found''))
       | Some wal \<Rightarrow>
         if \<not> party (w_public_key wal) d then ret (Reply 403 (jerr ''You are not a party to this dispute''))
         else bnd (select (\<lambda>w. evidence_count i (db w))) (\<lambda>n.
           if 5 \<le> n then ret (Reply 400 (jerr ''EVIDENCE_LIMIT_REACHED''))
           else let descr = (case descr of Some [] \<Rightarrow> None | x \<Rightarrow> x) in
             (case file of
                Some (hash, path) \<Rightarrow> store_evidence env rpc uid wal d (Some path) hash descr
              | None \<Rightarrow> (case cid of
                  Some c \<Rightarrow> if c = [] then ret (Reply 400 (jerr ''evidence file or CID is required'')) else store_evidence env rpc uid wal d None c descr
                | None \<Rightarrow> ret (Reply 400 (jerr ''evidence file or CID is required''))))))))"

definition resolution :: "bool \<Rightarrow> string" where
  "resolution release = (if release then ''resolved_for_recipient'' else ''resolved_for_sender'')"

definition set_resolved :: "string \<Rightarrow> string \<Rightarrow> string \<Rightarrow> database \<Rightarrow> database" where
  "set_resolved i s hash d = d\<lparr>disputes := update_where (\<lambda>x. dp_id x = i) (\<lambda>x. x\<lparr>dp_status := s, dp_resolve_hash := Some hash\<rparr>) (disputes d)\<rparr>"

text \<open>The route admits administrators only, and a \<open>release_to_recipient\<close> its validator takes for a boolean.\<close>

definition resolve :: "dispute_env \<Rightarrow> soroban \<Rightarrow> string \<Rightarrow> bool \<Rightarrow> (world, outcome) proc" where
  "resolve env rpc i release = handler (
     bnd (select (\<lambda>w. dispute_by_id (db w) i)) (\<lambda>row. case row of
       None \<Rightarrow> ret (Reply 404 (jerr ''Dispute not found''))
     | Some d \<Rightarrow>
       if dp_status d \<noteq> ''open'' then ret (Reply 400 (jerr ''Dispute is not open''))
       else if de_arbitrator_key env = [] then ret (Reply 500 (jerr ''Arbitrator key is not configured''))
       else bnd (resolveDispute env rpc (de_arbitrator_key env) (dp_contract_id d) release) (\<lambda>txHash.
         andThen (exec (\<lambda>w. set_resolved i (resolution release) txHash (db w)))
         (andThen (case dp_ticket d of None \<Rightarrow> ret () | Some t \<Rightarrow> exec (\<lambda>w. set_ticket t ''closed'' (db w)))
         (ret (Reply 200 (JObj [(''message'', JStr ''Dispute resolved''), (''status'', JStr (resolution release)), (''tx_hash'', JStr txHash)])))))))"

definition opt_str :: "string option \<Rightarrow> json" where
  "opt_str x = (case x of None \<Rightarrow> JNull | Some s \<Rightarrow> JStr s)"

definition dispute_json :: "dispute \<Rightarrow> json" where
  "dispute_json d = JObj [(''id'', JStr (dp_id d)), (''contract_dispute_id'', JStr (dp_contract_id d)), (''sender_wallet'', JStr (dp_sender d)),
     (''recipient_wallet'', JStr (dp_recipient d)), (''amount'', JStr (dec7_text (dp_amount d))), (''asset'', JStr (dp_asset d)), (''status'', JStr (dp_status d)),
     (''resolve_tx_hash'', opt_str (dp_resolve_hash d)), (''deadline_at'', JNum (Fin (of_int (dp_deadline d))))]"

definition getDispute :: "req_user \<Rightarrow> string \<Rightarrow> (world, outcome) proc" where
  "getDispute u i = handler (bnd (select (\<lambda>w. dispute_by_id (db w) i)) (\<lambda>row. case row of
       None \<Rightarrow> ret (Reply 404 (jerr ''Dispute not found''))
     | Some d \<Rightarrow>
       if usr_role u = ''admin'' then ret (Reply 200 (JObj [(''dispute'', dispute_json d)]))
       else bnd (select (\<lambda>w. default_wallet (db w) (usr_id u))) (\<lambda>wal.
         if (case wal of None \<Rightarrow> False | Some wal \<Rightarrow> party (w_public_key wal) d) then ret (Reply 200 (JObj [(''dispute'', dispute_json d)]))
         else ret (Reply 403 (jerr ''You are not a party to this dispute'')))))"

definition evidence_json :: "database \<Rightarrow> evidence_row \<Rightarrow> json option" where
  "evidence_json d e = (case user_by_id d (ev_uploader e) of None \<Rightarrow> None
     | Some u \<Rightarrow> Some (JObj [(''sha256_hash'', JStr (ev_hash e)), (''file_path'', JStr (ev_path e)), (''description'', opt_str (ev_description e)),
         (''uploaded_at'', JNum (Fin (of_int (ev_uploaded e)))), (''uploader_name'', JStr (u_full_name u))]))"

definition listEvidence :: "string \<Rightarrow> string \<Rightarrow> (world, outcome) proc" where
  "listEvidence uid i = handler (bnd (select (\<lambda>w. dispute_by_id (db w) i)) (\<lambda>row. case row of
       None \<Rightarrow> ret (Reply 404 (jerr ''Dispute not found''))
     | Some d \<Rightarrow> bnd (select (\<lambda>w. default_wallet (db w) uid)) (\<lambda>wal. case wal of
         None \<Rightarrow> ret (Reply 404 (jerr ''Wallet not found''))
       | Some wal \<Rightarrow>
         if \<not> party (w_public_key wal) d then ret (Reply 403 (jerr ''You are not a party to this dispute''))
         else bnd (select (\<lambda>w. List.map_filter (evidence_json (db w)) (sort_key (\<lambda>e. - ev_uploaded e) (filter (\<lambda>e. ev_dispute e = i) (evidence_rows (db w))))))
           (\<lambda>rows. ret (Reply 200 (JObj [(''evidence'', JArr rows)]))))))"

definition listDisputes :: "string \<Rightarrow> (world, outcome) proc" where
  "listDisputes uid = handler (bnd (select (\<lambda>w. default_wallet (db w) uid)) (\<lambda>wal. case wal of
       None \<Rightarrow> ret (Reply 200 (JObj [(''disputes'', JArr [])]))
     | Some wal \<Rightarrow> bnd (select (\<lambda>w. sort_key (\<lambda>d. - dp_created d) (filter (party (w_public_key wal)) (disputes (db w)))))
         (\<lambda>rows. ret (Reply 200 (JObj [(''disputes'', JArr (map dispute_json rows))])))))"

section \<open>Histories\<close>

definition DISPUTE_STATUSES :: "string list" where
  "DISPUTE_STATUSES = [''open'', ''resolved_for_recipient'', ''resolved_for_sender'', ''expired'']"

definition resolved_on :: "chain_call list \<Rightarrow> string \<Rightarrow> bool \<Rightarrow> bool" where
  "resolved_on calls i release = list_ex (\<lambda>c. case c of ResolveDispute _ j r \<Rightarrow> j = i \<and> r = release | _ \<Rightarrow> False) calls"

text \<open>
  The type of a row: the status satisfies the \<open>CHECK\<close> of the column, exactly the open disputes have no resolution, and a
  resolution is on the chain with its direction.
\<close>

definition dispute_typed :: "chain_call list \<Rightarrow> dispute \<Rightarrow> bool" where
  "dispute_typed calls d \<longleftrightarrow> dp_status d \<in> set DISPUTE_STATUSES \<and> (dp_status d = ''open'') = (dp_resolve_hash d = None) \<and>
     \<bar>dp_amount d\<bar> < 10 ^ 20 \<and>
     (if dp_status d = ''open'' then True else list_ex (\<lambda>r. dp_status d = resolution r \<and> resolved_on calls (dp_contract_id d) r) [True, False])"

definition evidence_typed :: "database \<Rightarrow> evidence_row \<Rightarrow> bool" where
  "evidence_typed d e \<longleftrightarrow> length (ev_hash e) \<le> 64 \<and> evidence_count (ev_dispute e) d \<le> 5"

definition rows_typed :: "database \<Rightarrow> chain_call list \<Rightarrow> bool" where
  "rows_typed d calls \<longleftrightarrow> distinct (map dp_id (disputes d)) \<and> list_all (dispute_typed calls) (disputes d) \<and> list_all (evidence_typed d) (evidence_rows d)"

inductive dispute_run :: "world \<Rightarrow> bool" where
  Start: "disputes (db w) = [] \<Longrightarrow> evidence_rows (db w) = [] \<Longrightarrow> dispute_run w"
| Open: "dispute_run w \<Longrightarrow> honest rpc \<Longrightarrow> open_dispute env rpc uuid uid f w = (r, w') \<Longrightarrow> dispute_run w'"
| Evidence: "dispute_run w \<Longrightarrow> honest rpc \<Longrightarrow> submitEvidenceHandler env rpc uid i file cid descr w = (r, w') \<Longrightarrow> dispute_run w'"
| Resolve: "dispute_run w \<Longrightarrow> honest rpc \<Longrightarrow> resolve env rpc i release w = (r, w') \<Longrightarrow> dispute_run w'"
| Get: "dispute_run w \<Longrightarrow> getDispute u i w = (r, w') \<Longrightarrow> dispute_run w'"
| List: "dispute_run w \<Longrightarrow> listDisputes uid w = (r, w') \<Longrightarrow> dispute_run w'"
| ListEvidence: "dispute_run w \<Longrightarrow> listEvidence uid i w = (r, w') \<Longrightarrow> dispute_run w'"
| Other: "dispute_run w \<Longrightarrow> disputes (db v) = disputes (db w) \<Longrightarrow> evidence_rows (db v) = evidence_rows (db w) \<Longrightarrow>
    set (chain_log w) \<subseteq> set (chain_log v) \<Longrightarrow> dispute_run v"

lemma typed_mono: "dispute_typed calls d \<Longrightarrow> set calls \<subseteq> set calls' \<Longrightarrow> dispute_typed calls' d"
  by (auto simp: dispute_typed_def resolved_on_def list_ex_iff split: if_splits)

lemma rows_frame:
  "rows_typed d calls \<Longrightarrow> disputes d' = disputes d \<Longrightarrow> evidence_rows d' = evidence_rows d \<Longrightarrow> set calls \<subseteq> set calls' \<Longrightarrow> rows_typed d' calls'"
  by (auto simp: rows_typed_def list_all_iff evidence_typed_def evidence_count_def intro: typed_mono)

lemma rows_chain: "rows_typed d calls \<Longrightarrow> rows_typed d (calls @ cs)"
  by (erule rows_frame) auto

lemma rows_ticket [simp]: "rows_typed (set_ticket k s d) calls = rows_typed d calls"
  by (simp add: rows_typed_def evidence_typed_def [abs_def] evidence_count_def set_ticket_def)

section \<open>Every operation keeps the types\<close>

lemma typed_submit:
  assumes "rows_typed (db w) (chain_log w)"
    and "\<And>x v. rows_typed (db v) (chain_log v) \<Longrightarrow> db v = db w \<Longrightarrow> Q x v" and "\<And>e v. rows_typed (db v) (chain_log v) \<Longrightarrow> db v = db w \<Longrightarrow> E e v"
  shows "wp (sendAndConfirm env rpc enc call) Q E w"
  unfolding sendAndConfirm_def
  by (rule wp_submitCall_any; (rule assms(2) | rule assms(3))) (simp_all add: assms(1) rows_chain)

lemma typed_open:
  assumes "rows_typed d calls" and "insert_dispute r amt d = Inr d'" and "dp_status r = ''open''" and "dp_resolve_hash r = None"
  shows "rows_typed d' calls"
proof -
  obtain n where n: "numeric_20_7 amt = Inr n" "\<not> list_ex (\<lambda>x. dp_id x = dp_id r) (disputes d)" "d' = d\<lparr>disputes := disputes d @ [r\<lparr>dp_amount := n\<rparr>]\<rparr>"
    using assms(2) by (simp add: insert_dispute_def split: sum.splits if_splits)
  have "dispute_typed calls (r\<lparr>dp_amount := n\<rparr>)"
    using assms(3,4) numeric_20_7_bound [OF n(1)] by (simp add: dispute_typed_def DISPUTE_STATUSES_def)
  then show ?thesis
    using assms(1) n(2) by (auto simp: n(3) rows_typed_def evidence_typed_def [abs_def] evidence_count_def list_ex_iff)
qed

lemma typed_evidence:
  assumes "insert_evidence i uid path hash descr w = Inr d" and "rows_typed (db w) calls" and "evidence_count i (db w) < 5"
  shows "rows_typed d calls"
proof -
  obtain p where d: "length hash \<le> 64" "d = (db w)\<lparr>evidence_rows := evidence_rows (db w) @ [\<lparr>ev_dispute = i, ev_uploader = uid, ev_path = p,
      ev_hash = hash, ev_description = descr, ev_uploaded = now w\<rparr>]\<rparr>"
    using assms(1) by (auto simp: insert_evidence_def split: option.splits if_splits)
  then show ?thesis using assms(2,3) by (auto simp: rows_typed_def evidence_typed_def evidence_count_def list_all_iff)
qed

lemma typed_resolved:
  assumes t: "rows_typed b calls" and d: "dispute_by_id b i = Some d" and c: "ResolveDispute key (dp_contract_id d) release \<in> set calls"
  shows "rows_typed (set_resolved i (resolution release) hash b) calls"
proof -
  have ids: "distinct (map dp_id (disputes b))" and ty: "\<forall>x \<in> set (disputes b). dispute_typed calls x"
    using t by (simp_all add: rows_typed_def list_all_iff)
  have d': "d \<in> set (disputes b)" "dp_id d = i" using d by (auto simp: dispute_by_id_def find_Some_iff)
  let ?f = "\<lambda>x. x\<lparr>dp_status := resolution release, dp_resolve_hash := Some hash\<rparr>"
  have "resolved_on calls (dp_contract_id d) release" using c by (force simp: resolved_on_def list_ex_iff)
  then have "dispute_typed calls (?f d)"
    using ty d'(1) by (cases release) (auto simp: dispute_typed_def DISPUTE_STATUSES_def resolution_def)
  then have "list_all (dispute_typed calls) (disputes (set_resolved i (resolution release) hash b))"
    unfolding set_resolved_def using t d' by (intro dispute_table.update_keeps) (simp_all add: rows_typed_def)
  moreover have "map dp_id (disputes (set_resolved i (resolution release) hash b)) = map dp_id (disputes b)"
    unfolding set_resolved_def by (rule dispute_table.update_column) simp
  ultimately show ?thesis using t ids
    by (simp add: rows_typed_def evidence_typed_def [abs_def] evidence_count_def) (simp add: set_resolved_def)
qed

lemma typed_record:
  "rows_typed (db w) (chain_log w) \<Longrightarrow>
   wp (record_dispute env rpc uuid wal f) (\<lambda>_ v. rows_typed (db v) (chain_log v)) (\<lambda>_ v. rows_typed (db v) (chain_log v)) w"
  unfolding record_dispute_def openDispute_def requireContractId_def
  by (auto simp: wps intro!: typed_submit elim: typed_open split: sum.split option.split)

lemma typed_open_dispute:
  "rows_typed (db w) (chain_log w) \<Longrightarrow>
   wp (open_dispute env rpc uuid uid f) (\<lambda>_ v. rows_typed (db v) (chain_log v)) (\<lambda>_ v. rows_typed (db v) (chain_log v)) w"
  unfolding open_dispute_def
  by (auto simp: wps wp_handler intro!: typed_record split: option.split)

lemma typed_store:
  "rows_typed (db w) (chain_log w) \<Longrightarrow> evidence_count (dp_id d) (db w) < 5 \<Longrightarrow>
   wp (store_evidence env rpc uid wal d path hash descr) (\<lambda>_ v. rows_typed (db v) (chain_log v)) (\<lambda>_ v. rows_typed (db v) (chain_log v)) w"
  unfolding store_evidence_def submitEvidence_def requireContractId_def
  by (auto simp: wps intro!: typed_submit split: sum.split; erule typed_evidence; simp)

lemma dispute_by_id_Some: "dispute_by_id d i = Some x \<Longrightarrow> dp_id x = i"
  by (auto simp: dispute_by_id_def find_Some_iff)

lemma typed_submitEvidence:
  "rows_typed (db w) (chain_log w) \<Longrightarrow> wp (submitEvidenceHandler env rpc uid i upload cid descr)
     (\<lambda>_ v. rows_typed (db v) (chain_log v)) (\<lambda>_ v. rows_typed (db v) (chain_log v)) w"
  unfolding submitEvidenceHandler_def Let_def
  by (auto simp: wps dispute_by_id_Some intro!: typed_store split: option.split)

lemma typed_resolve:
  "rows_typed (db w) (chain_log w) \<Longrightarrow> honest rpc \<Longrightarrow>
   wp (resolve env rpc i release) (\<lambda>_ v. rows_typed (db v) (chain_log v)) (\<lambda>_ v. rows_typed (db v) (chain_log v)) w"
  unfolding resolve_def resolveDispute_def requireContractId_def sendAndConfirm_def
  by (auto simp: wps rows_chain intro!: wp_submitCall typed_resolved split: option.split)

lemma typed_reads:
  assumes "rows_typed (db w) (chain_log w)"
  shows "wp (getDispute u i) (\<lambda>_ v. rows_typed (db v) (chain_log v)) (\<lambda>_ v. rows_typed (db v) (chain_log v)) w"
    and "wp (listDisputes uid) (\<lambda>_ v. rows_typed (db v) (chain_log v)) (\<lambda>_ v. rows_typed (db v) (chain_log v)) w"
    and "wp (listEvidence uid i) (\<lambda>_ v. rows_typed (db v) (chain_log v)) (\<lambda>_ v. rows_typed (db v) (chain_log v)) w"
  unfolding getDispute_def listDisputes_def listEvidence_def by (auto simp: wps assms split: option.split)

lemma run_typed: "dispute_run w \<Longrightarrow> rows_typed (db w) (chain_log w)"
proof (induction rule: dispute_run.induct)
  case (Open w rpc env uuid uid f r w')
  then show ?case using typed_open_dispute [of w env rpc uuid uid f] by (simp add: wp_snd)
next
  case (Evidence w rpc env uid i upload cid descr r w')
  then show ?case using typed_submitEvidence [of w env rpc uid i upload cid descr] by (simp add: wp_snd)
next
  case (Resolve w rpc env i release r w')
  then show ?case using typed_resolve [of w rpc env i release] by (simp add: wp_snd)
next
  case (Get w u i r w')
  then show ?case using typed_reads(1) [of w u i] by (simp add: wp_snd)
next
  case (List w uid r w')
  then show ?case using typed_reads(2) [of w uid] by (simp add: wp_snd)
next
  case (ListEvidence w uid i r w')
  then show ?case using typed_reads(3) [of w uid i] by (simp add: wp_snd)
next
  case (Other w v)
  then show ?case using rows_frame by blast
qed (simp add: rows_typed_def)

section \<open>Properties\<close>

text \<open>
  C19: under any sequence of requests, failures of the database and outcomes of the network, every dispute has a status of the
  column's \<open>CHECK\<close>, an amount that fits its column, a resolution exactly when it is not open, and then a resolution in the same
  direction on the chain; every evidence digest fits its column and no dispute has more than five.
\<close>

theorem rows_are_typed:
  assumes "dispute_run w"
  shows "list_all (dispute_typed (chain_log w)) (disputes (db w)) \<and> list_all (evidence_typed (db w)) (evidence_rows (db w))"
  using run_typed [OF assms] by (simp add: rows_typed_def)

definition sample_env :: dispute_env where
  "sample_env = \<lparr>de_contract_configured = True, de_arbitrator_key = ''ARB'', de_timeout = 30000\<rparr>"

definition sample_form :: open_form where
  "sample_form = \<lparr>of_recipient = ''GR'', of_amount = ''12.5'', of_asset = ''USDC'', of_ticket = None, of_escrow = None\<rparr>"

definition sample_world :: world where
  "sample_world = init_world\<lparr>db := empty_db\<lparr>wallets := [\<lparr>w_id = ''w1'', w_user = ''u1'', w_public_key = ''GS'', w_secret = ''k'', w_default = True, w_created = 0\<rparr>]\<rparr>\<rparr>"

lemma rows_are_typed_witness:
  "let w1 = snd (open_dispute sample_env good_rpc ''d1'' ''u1'' sample_form sample_world);
       w2 = snd (resolve sample_env good_rpc ''d1'' True w1)
   in list_all (dispute_typed (chain_log w2)) (disputes (db w2)) \<and> list_all (evidence_typed (db w2)) (evidence_rows (db w2))"
  unfolding Let_def
  by (intro rows_are_typed dispute_run.Resolve [OF dispute_run.Open [OF dispute_run.Start good_rpc_honest prod.collapse [symmetric]]
      good_rpc_honest prod.collapse [symmetric]])
    (simp_all add: sample_world_def init_world_def empty_db_def)

text \<open>
  Evidence given as a content identifier is never accepted, whatever the dispute and the caller: the handler inserts no path, the
  column refuses it, and neither the table nor the chain gets anything.
\<close>

theorem cid_evidence_refused:
  "let (r, w') = submitEvidenceHandler env rpc uid i None cid descr w in
   (\<forall>b. r \<noteq> Inr (Reply 200 b)) \<and> db w' = db w \<and> chain_log w' = chain_log w"
proof -
  have "wp (submitEvidenceHandler env rpc uid i None cid descr) (\<lambda>o' v. (\<forall>b. o' \<noteq> Reply 200 b) \<and> db v = db w \<and> chain_log v = chain_log w)
      (\<lambda>_ v. db v = db w \<and> chain_log v = chain_log w) w"
    unfolding submitEvidenceHandler_def store_evidence_def insert_evidence_def Let_def
    by (auto simp: wps split: option.split)
  then show ?thesis by (auto simp: wp_def split: prod.splits sum.splits)
qed

end
