(* ===== verification/PayChannel.thy ===== *)
theory PayChannel
  imports World JsText
begin

text \<open>
  Payment channels: \<^verbatim>\<open>services/paymentChannel.js\<close> and the handlers of \<^verbatim>\<open>routes/channels.js\<close>. A channel holds its
  funding as two balances; payments inside it move stroops from one to the other in the table only, and closing submits one
  transaction to the network. The row lock of \<open>SELECT ... FOR UPDATE\<close> orders the requests of a channel, so they run one after
  another; \<open>channel_run\<close> is their histories.
\<close>

section \<open>The network\<close>

text \<open>
  The key decryption, the Stellar SDK and Horizon: loading an account, the base fee, building and signing the transaction that
  pays the sender back, building a settlement, reading a stored transaction, and what a submission does and answers.
\<close>

record horizon =
  hz_decrypt :: "string \<Rightarrow> jserr + string"
  hz_load :: "chain_call list \<Rightarrow> string \<Rightarrow> jserr option"
  hz_fee :: "chain_call list \<Rightarrow> jserr option"
  hz_closing :: "string \<Rightarrow> string \<Rightarrow> string \<Rightarrow> string \<Rightarrow> int \<Rightarrow> jserr + string"
  hz_build :: "string \<Rightarrow> string \<Rightarrow> string \<Rightarrow> jsnum \<Rightarrow> jserr option"
  hz_read :: "string \<Rightarrow> jserr option"
  hz_applied :: "chain_call list \<Rightarrow> chain_call \<Rightarrow> bool"
  hz_submit :: "chain_call list \<Rightarrow> chain_call \<Rightarrow> jserr + string"

definition assertOk :: "jserr option \<Rightarrow> (world, unit) proc" where
  "assertOk r = (case r of None \<Rightarrow> ret () | Some e \<Rightarrow> throw e)"

text \<open>Horizon's answer \<open>Inr hash\<close> means that the transaction was applied.\<close>

definition truthful :: "horizon \<Rightarrow> bool" where
  "truthful hz \<longleftrightarrow> (\<forall>log c h. hz_submit hz log c = Inr h \<longrightarrow> hz_applied hz log c)"

definition submitTransaction :: "horizon \<Rightarrow> chain_call \<Rightarrow> (world, string) proc" where
  "submitTransaction hz c = bnd (gets chain_log) (\<lambda>log.
     andThen (if hz_applied hz log c then modify (\<lambda>w. w\<lparr>chain_log := chain_log w @ [c]\<rparr>) else ret ()) (lift (hz_submit hz log c)))"

section \<open>The service\<close>

definition checkViolation :: jserr where
  "checkViolation = (mkError ''new row for relation violates check constraint'')\<lparr>err_code := Some ''23514''\<rparr>"

definition insert_channel :: "pay_channel \<Rightarrow> string \<Rightarrow> database \<Rightarrow> jserr + database" where
  "insert_channel c amt d = (case numeric_20_7 amt of Inl e \<Rightarrow> Inl e
   | Inr n \<Rightarrow> if list_ex (\<lambda>x. pc_id x = pc_id c) (pay_channels d) then Inl uniqueViolation
       else if n < 0 then Inl checkViolation
       else Inr (d\<lparr>pay_channels := pay_channels d @ [c\<lparr>pc_funding := n, pc_sender_balance := n, pc_recipient_balance := 0\<rparr>]\<rparr>))"

definition openChannel :: "horizon \<Rightarrow> int \<Rightarrow> string \<Rightarrow> string \<Rightarrow> string \<Rightarrow> string \<Rightarrow> string \<Rightarrow> string \<Rightarrow> string \<Rightarrow> (world, pay_channel option) proc" where
  "openChannel hz timeoutSeconds uuid uid senderPk enc recipientPk fundingAmount asset =
     bnd (lift (hz_decrypt hz enc)) (\<lambda>secret.
     bnd (gets chain_log) (\<lambda>log.
     andThen (assertOk (hz_load hz log senderPk))
     (andThen (assertOk (hz_fee hz log))
     (bnd (gets now) (\<lambda>t.
     bnd (lift (hz_closing hz secret senderPk asset fundingAmount (t div 1000 + timeoutSeconds))) (\<lambda>xdr.
       andThen (execE (\<lambda>w. insert_channel \<lparr>pc_id = uuid, pc_user = uid, pc_sender = senderPk, pc_recipient = recipientPk, pc_asset = asset, pc_funding = 0,
           pc_sender_balance = 0, pc_recipient_balance = 0, pc_closing_xdr = xdr, pc_settlement = None, pc_status = ''open'', pc_created = now w\<rparr> fundingAmount (db w)))
       (gets (\<lambda>w. find (\<lambda>c. pc_id c = uuid) (pay_channels (db w))))))))))"

definition open_channel :: "string \<Rightarrow> string \<Rightarrow> database \<Rightarrow> pay_channel option" where
  "open_channel i uid d = find (\<lambda>c. pc_id c = i \<and> pc_user c = uid \<and> pc_status c = ''open'') (pay_channels d)"

text \<open>
  The update of both balances: the database reads the number's text as a decimal \<open>q\<close>, computes exactly and rounds to the scale of the columns.
\<close>

definition shift_balance :: "rat \<Rightarrow> pay_channel \<Rightarrow> pay_channel" where
  "shift_balance q c = c\<lparr>pc_sender_balance := fixed 7 (of_int (pc_sender_balance c) / 10 ^ 7 - q),
     pc_recipient_balance := fixed 7 (of_int (pc_recipient_balance c) / 10 ^ 7 + q)\<rparr>"

definition move_balance :: "string \<Rightarrow> rat \<Rightarrow> database \<Rightarrow> jserr + database" where
  "move_balance i q d = (let cs = update_where (\<lambda>c. pc_id c = i) (shift_balance q) (pay_channels d) in
     if list_ex (\<lambda>c. pc_id c = i \<and> pc_sender_balance c < 0) cs then Inl checkViolation
     else if list_ex (\<lambda>c. pc_id c = i \<and> 10 ^ 20 \<le> pc_recipient_balance c) cs then Inl ((mkError ''numeric field overflow'')\<lparr>err_code := Some ''22003''\<rparr>)
     else Inr (d\<lparr>pay_channels := cs\<rparr>))"

text \<open>
  \<open>dec\<close> is the decimal a number's text denotes. A text that is no number passes the guard, as every comparison with it is false; the
  validator of the route refuses it, and here it is an error of the statement.
\<close>

definition transact :: "(rat \<Rightarrow> rat) \<Rightarrow> string \<Rightarrow> string \<Rightarrow> string \<Rightarrow> (world, pay_channel option) proc" where
  "transact dec i uid amt = transaction (\<lambda>_. None)
     (bnd (select (\<lambda>w. open_channel i uid (db w))) (\<lambda>row. case row of
        None \<Rightarrow> throw (withStatus 404 (mkError ''Channel not found or not open''))
      | Some c \<Rightarrow> let a = parseFloat amt in
          if jle a (Fin 0) \<or> jlt (stroops (pc_sender_balance c)) a then throw (withStatus 400 (mkError ''Invalid amount or insufficient channel balance''))
          else andThen (execE (\<lambda>w. case a of Fin x \<Rightarrow> move_balance i (dec x) (db w) | _ \<Rightarrow> Inl numeric_error))
            (gets (\<lambda>w. find (\<lambda>c. pc_id c = i) (pay_channels (db w))))))"

definition set_closed :: "string \<Rightarrow> string \<Rightarrow> database \<Rightarrow> database" where
  "set_closed i hash d = d\<lparr>pay_channels := update_where (\<lambda>c. pc_id c = i) (\<lambda>c. c\<lparr>pc_status := ''closed'', pc_settlement := Some hash\<rparr>) (pay_channels d)\<rparr>"

text \<open>The transaction that closes a channel: the recipient's balance if there is one, the stored transaction otherwise.\<close>

definition settle_channel :: "horizon \<Rightarrow> string \<Rightarrow> pay_channel \<Rightarrow> (world, string) proc" where
  "settle_channel hz enc c = (let recipientBalance = stroops (pc_recipient_balance c) in
     if jlt (Fin 0) recipientBalance then
       bnd (lift (hz_decrypt hz enc)) (\<lambda>secret. bnd (gets chain_log) (\<lambda>log.
         andThen (assertOk (hz_load hz log (pc_sender c)))
         (andThen (assertOk (hz_fee hz log))
         (andThen (assertOk (hz_build hz secret (pc_recipient c) (pc_asset c) recipientBalance))
           (submitTransaction hz (SettleChannel secret (pc_recipient c) (pc_asset c) recipientBalance))))))
     else andThen (assertOk (hz_read hz (pc_closing_xdr c))) (submitTransaction hz (CloseChannel (pc_closing_xdr c))))"

definition closeChannel :: "horizon \<Rightarrow> string \<Rightarrow> string \<Rightarrow> string \<Rightarrow> (world, pay_channel option) proc" where
  "closeChannel hz i uid enc = transaction (\<lambda>_. None)
     (bnd (select (\<lambda>w. open_channel i uid (db w))) (\<lambda>row. case row of
        None \<Rightarrow> throw (withStatus 404 (mkError ''Channel not found or already closed''))
      | Some c \<Rightarrow> bnd (settle_channel hz enc c) (\<lambda>txHash.
          andThen (exec (\<lambda>w. set_closed i txHash (db w)))
            (gets (\<lambda>w. find (\<lambda>c. pc_id c = i) (pay_channels (db w)))))))"

section \<open>The routes\<close>

definition channel_json :: "pay_channel option \<Rightarrow> json" where
  "channel_json r = (case r of None \<Rightarrow> JNull | Some c \<Rightarrow> JObj [(''id'', JStr (pc_id c)), (''user_id'', JStr (pc_user c)),
     (''sender_public_key'', JStr (pc_sender c)), (''recipient_public_key'', JStr (pc_recipient c)), (''asset'', JStr (pc_asset c)),
     (''funding_amount'', JStr (dec7_text (pc_funding c))), (''sender_balance'', JStr (dec7_text (pc_sender_balance c))),
     (''recipient_balance'', JStr (dec7_text (pc_recipient_balance c))), (''closing_tx_xdr'', JStr (pc_closing_xdr c)),
     (''settlement_tx_hash'', case pc_settlement c of None \<Rightarrow> JNull | Some h \<Rightarrow> JStr h), (''status'', JStr (pc_status c)),
     (''created_at'', JNum (Fin (of_int (pc_created c))))])"

definition channel_entry :: "pay_channel \<Rightarrow> json" where
  "channel_entry c = JObj [(''id'', JStr (pc_id c)), (''recipient_public_key'', JStr (pc_recipient c)), (''asset'', JStr (pc_asset c)),
     (''funding_amount'', JStr (dec7_text (pc_funding c))), (''sender_balance'', JStr (dec7_text (pc_sender_balance c))),
     (''recipient_balance'', JStr (dec7_text (pc_recipient_balance c))), (''status'', JStr (pc_status c)), (''created_at'', JNum (Fin (of_int (pc_created c))))]"

definition open_route :: "horizon \<Rightarrow> int \<Rightarrow> string \<Rightarrow> string \<Rightarrow> string \<Rightarrow> string \<Rightarrow> string option \<Rightarrow> (world, outcome) proc" where
  "open_route hz timeoutSeconds uuid uid recipientPk fundingAmount asset = handler (
     bnd (select (\<lambda>w. default_wallet (db w) uid)) (\<lambda>wal. case wal of
       None \<Rightarrow> ret (Reply 400 (jerr ''Wallet not found''))
     | Some wal \<Rightarrow> bnd (openChannel hz timeoutSeconds uuid uid (w_public_key wal) (w_secret wal) recipientPk fundingAmount
           (case asset of None \<Rightarrow> ''XLM'' | Some a \<Rightarrow> if a = [] then ''XLM'' else a)) (\<lambda>c.
         ret (Reply 201 (channel_json c)))))"

definition transact_route :: "(rat \<Rightarrow> rat) \<Rightarrow> string \<Rightarrow> string \<Rightarrow> string \<Rightarrow> (world, outcome) proc" where
  "transact_route dec uid i amt = handler (bnd (transact dec i uid amt) (\<lambda>c. ret (Reply 200 (channel_json c))))"

definition close_route :: "horizon \<Rightarrow> string \<Rightarrow> string \<Rightarrow> (world, outcome) proc" where
  "close_route hz uid i = handler (
     bnd (select (\<lambda>w. default_wallet (db w) uid)) (\<lambda>wal. case wal of
       None \<Rightarrow> ret (Reply 400 (jerr ''Wallet not found''))
     | Some wal \<Rightarrow> bnd (closeChannel hz i uid (w_secret wal)) (\<lambda>c. ret (Reply 200 (channel_json c)))))"

definition list_route :: "string \<Rightarrow> (world, outcome) proc" where
  "list_route uid = handler (bnd (select (\<lambda>w. sort_key (\<lambda>c. - pc_created c) (filter (\<lambda>c. pc_user c = uid) (pay_channels (db w)))))
     (\<lambda>rows. ret (Reply 200 (JArr (map channel_entry rows)))))"

section \<open>Histories\<close>

definition paid_out :: "chain_call list \<Rightarrow> pay_channel \<Rightarrow> bool" where
  "paid_out calls c \<longleftrightarrow> (if 0 < pc_recipient_balance c
     then list_ex (\<lambda>x. case x of SettleChannel _ r a n \<Rightarrow> r = pc_recipient c \<and> a = pc_asset c \<and> n = stroops (pc_recipient_balance c) | _ \<Rightarrow> False) calls
     else list_ex (\<lambda>x. x = CloseChannel (pc_closing_xdr c)) calls)"

text \<open>The balances are not negative and add up to the funding, and a closed channel has been paid out.\<close>

definition channel_ok :: "chain_call list \<Rightarrow> pay_channel \<Rightarrow> bool" where
  "channel_ok calls c \<longleftrightarrow> 0 \<le> pc_sender_balance c \<and> 0 \<le> pc_recipient_balance c \<and> pc_sender_balance c + pc_recipient_balance c = pc_funding c \<and>
     pc_funding c < 10 ^ 20 \<and> (if pc_status c = ''open'' then pc_settlement c = None else pc_status c = ''closed'' \<and> pc_settlement c \<noteq> None \<and> paid_out calls c)"

definition channels_ok :: "database \<Rightarrow> chain_call list \<Rightarrow> bool" where
  "channels_ok d calls \<longleftrightarrow> distinct (map pc_id (pay_channels d)) \<and> list_all (channel_ok calls) (pay_channels d)"

text \<open>
  JavaScript prints the shortest decimal that reads back as the number, so a double that stands for a number of stroops is printed as its
  seven decimals; an amount of a request is in whole stroops when its text is such a number.
\<close>

definition exact_texts :: "(rat \<Rightarrow> rat) \<Rightarrow> bool" where
  "exact_texts dec \<longleftrightarrow> (\<forall>n. money n \<longrightarrow> dec (dbl n) = of_int n / 10 ^ 7)"

definition whole_stroops :: "string \<Rightarrow> int \<Rightarrow> bool" where
  "whole_stroops amt n \<longleftrightarrow> money n \<and> parseFloat amt = Fin (dbl n)"

inductive channel_run :: "(rat \<Rightarrow> rat) \<Rightarrow> world \<Rightarrow> bool" for dec where
  Start: "pay_channels (db w) = [] \<Longrightarrow> channel_run dec w"
| Open: "channel_run dec w \<Longrightarrow> open_route hz t uuid uid recipientPk amt asset w = (r, w') \<Longrightarrow> channel_run dec w'"
| Transact: "channel_run dec w \<Longrightarrow> whole_stroops amt n \<Longrightarrow> transact_route dec uid i amt w = (r, w') \<Longrightarrow> channel_run dec w'"
| Close: "channel_run dec w \<Longrightarrow> truthful hz \<Longrightarrow> close_route hz uid i w = (r, w') \<Longrightarrow> channel_run dec w'"
| List: "channel_run dec w \<Longrightarrow> list_route uid w = (r, w') \<Longrightarrow> channel_run dec w'"
| Other: "channel_run dec w \<Longrightarrow> pay_channels (db v) = pay_channels (db w) \<Longrightarrow> set (chain_log w) \<subseteq> set (chain_log v) \<Longrightarrow> channel_run dec v"

lemma channel_ok_mono: "channel_ok calls c \<Longrightarrow> set calls \<subseteq> set calls' \<Longrightarrow> channel_ok calls' c"
  by (auto simp: channel_ok_def paid_out_def list_ex_iff split: if_splits)

lemma channels_frame: "channels_ok d calls \<Longrightarrow> pay_channels d' = pay_channels d \<Longrightarrow> set calls \<subseteq> set calls' \<Longrightarrow> channels_ok d' calls'"
  by (auto simp: channels_ok_def list_all_iff intro: channel_ok_mono)

lemma channels_chain: "channels_ok d calls \<Longrightarrow> channels_ok d (calls @ cs)"
  by (erule channels_frame) auto

lemma fixed_whole: "fixed 7 (of_int m / 10 ^ 7) = m"
proof -
  have "\<lfloor>of_int k + 1 / 2 :: rat\<rfloor> = k" for k by (simp add: floor_eq_iff)
  from this [of m] this [of "- m"] show ?thesis by (simp add: fixed_def)
qed

lemma fixed_half:
  "0 \<le> k \<Longrightarrow> fixed 7 (of_int k / 10 ^ 7 + 1 / (2 * 10 ^ 7)) = k + 1"
  "0 < k \<Longrightarrow> fixed 7 (of_int k / 10 ^ 7 - 1 / (2 * 10 ^ 7)) = k"
proof -
  have e: "(of_int k / 10 ^ 7 + 1 / (2 * 10 ^ 7)) * 10 ^ 7 + 1 / 2 = (of_int (k + 1) :: rat)"
    "(of_int k / 10 ^ 7 - 1 / (2 * 10 ^ 7)) * 10 ^ 7 + 1 / 2 = (of_int k :: rat)" by (simp_all add: field_simps)
  show "fixed 7 (of_int k / 10 ^ 7 + 1 / (2 * 10 ^ 7)) = k + 1" if "0 \<le> k"
  proof -
    have "\<not> of_int k / 10 ^ 7 + 1 / (2 * 10 ^ 7) < (0 :: rat)" using that by (simp add: not_less)
    then show ?thesis by (simp only: fixed_def if_False e floor_of_int)
  qed
  show "fixed 7 (of_int k / 10 ^ 7 - 1 / (2 * 10 ^ 7)) = k" if "0 < k"
  proof -
    have "(1 :: rat) \<le> of_int k" using that by simp
    then have "\<not> of_int k / 10 ^ 7 - 1 / (2 * 10 ^ 7) < (0 :: rat)" by (simp add: not_less field_simps)
    then show ?thesis by (simp only: fixed_def if_False e floor_of_int)
  qed
qed

lemma shift_whole:
  "q = of_int n / 10 ^ 7 \<Longrightarrow> shift_balance q c = c\<lparr>pc_sender_balance := pc_sender_balance c - n, pc_recipient_balance := pc_recipient_balance c + n\<rparr>"
  using fixed_whole [of "pc_sender_balance c - n"] fixed_whole [of "pc_recipient_balance c + n"]
  by (simp only: shift_balance_def of_int_diff of_int_add diff_divide_distrib add_divide_distrib)

lemma stroops_pos: "0 \<le> r \<Longrightarrow> r < 10 ^ 20 \<Longrightarrow> jlt (Fin 0) (stroops r) \<longleftrightarrow> 0 < r"
proof -
  assume r: "0 \<le> r" "r < 10 ^ 20"
  have "of_int r / 10 ^ 7 \<le> (of_int (10 ^ 20) / 10 ^ 7 :: rat)" using r by (intro divide_right_mono) (simp_all only: of_int_le_iff less_imp_le, simp)
  also have "\<dots> \<le> 2 powi 1000" by simp
  finally have m: "stroops r = Fin (rnd53 (of_int r / 10 ^ 7))" using r unfolding stroops_def by (intro mk_Fin) simp
  have "(2::rat) powi (- 24) \<le> rnd53 (of_int r / 10 ^ 7)" if "0 < r"
  proof -
    have "(2::rat) powi (- 24) \<le> of_int r / 10 ^ 7" using that by (simp add: power_int_def field_simps)
    then show ?thesis using rnd53_mono [of "2 powi (- 24)" "of_int r / 10 ^ 7"] rnd53_powi [of "- 24"] by simp
  qed
  then have "0 < r \<Longrightarrow> 0 < rnd53 (of_int r / 10 ^ 7)" using powi2_pos [of "- 24"] by (metis order_less_le_trans)
  then show ?thesis using r m by (cases "r = 0") auto
qed

lemma open_channel_Some: "open_channel i uid d = Some c \<Longrightarrow> c \<in> set (pay_channels d) \<and> pc_id c = i \<and> pc_status c = ''open''"
  by (auto simp: open_channel_def find_Some_iff)

lemma update_one:
  assumes ok: "channels_ok d calls" and c: "c \<in> set (pay_channels d)" "pc_id c = i" and f: "channel_ok calls (f c)" "\<And>x. pc_id (f x) = pc_id x"
  shows "channels_ok (d\<lparr>pay_channels := update_where (\<lambda>c. pc_id c = i) f (pay_channels d)\<rparr>) calls"
proof -
  have "map pc_id (pay_channels (d\<lparr>pay_channels := update_where (\<lambda>c. pc_id c = i) f (pay_channels d)\<rparr>)) = map pc_id (pay_channels d)"
    by (rule channel_table.update_column) (rule f(2))
  then show ?thesis using ok c f(1) channel_table.update_keeps(1) [of d "channel_ok calls" c i f] by (simp add: channels_ok_def)
qed

lemma typed_insert: "channels_ok d calls \<Longrightarrow> insert_channel c amt d = Inr d' \<Longrightarrow> pc_status c = ''open'' \<Longrightarrow> pc_settlement c = None \<Longrightarrow> channels_ok d' calls"
  using numeric_20_7_bound [of amt]
  by (fastforce simp: insert_channel_def channels_ok_def channel_ok_def list_ex_iff split: sum.splits if_splits)

lemma typed_move:
  assumes "channels_ok d calls" and "open_channel i uid d = Some c" and "move_balance i q d = Inr d'" and q: "q = of_int n / 10 ^ 7" and "0 \<le> n"
  shows "channels_ok d' calls"
proof -
  note c = open_channel_Some [OF assms(2)]
  have ok: "channel_ok calls c" using assms(1) c by (simp add: channels_ok_def list_all_iff)
  have u: "d' = d\<lparr>pay_channels := update_where (\<lambda>c. pc_id c = i) (shift_balance q) (pay_channels d)\<rparr>"
    "\<not> list_ex (\<lambda>c. pc_id c = i \<and> pc_sender_balance c < 0) (pay_channels d')"
    using assms(3) by (auto simp: move_balance_def Let_def split: if_splits)
  have "(if pc_id c = i then shift_balance q c else c) \<in> set (update_where (\<lambda>c. pc_id c = i) (shift_balance q) (pay_channels d))"
    using c by (simp only: set_update_where) blast
  moreover have id: "pc_id (shift_balance q x) = pc_id x" for q x by (simp add: shift_balance_def)
  ultimately have "0 \<le> pc_sender_balance (shift_balance q c)"
    using u(2) c unfolding u(1) by (auto simp: list_ex_iff not_less)
  then have "channel_ok calls (shift_balance q c)"
    using ok c assms(5) by (simp only: shift_whole [OF q]) (simp add: channel_ok_def)
  then show ?thesis
    unfolding u(1) using assms(1) c id by (intro update_one) auto
qed

lemma typed_closed:
  assumes "channels_ok d calls" and "open_channel i uid d = Some c" and "paid_out calls c"
  shows "channels_ok (set_closed i h d) calls"
proof -
  note c = open_channel_Some [OF assms(2)]
  then have "channel_ok calls c" using assms(1) by (simp add: channels_ok_def list_all_iff)
  then have "channel_ok calls (c\<lparr>pc_status := ''closed'', pc_settlement := Some h\<rparr>)"
    using assms(3) by (auto simp: channel_ok_def paid_out_def split: if_splits)
  then show ?thesis unfolding set_closed_def by (intro update_one [OF assms(1), of c]) (use c in auto)
qed

lemma wp_settle:
  assumes "truthful hz" and "channel_ok calls c"
    and "\<And>v h. db v = db w \<Longrightarrow> set (chain_log w) \<subseteq> set (chain_log v) \<Longrightarrow> paid_out (chain_log v) c \<Longrightarrow> Q h v"
    and "\<And>v e. db v = db w \<Longrightarrow> set (chain_log w) \<subseteq> set (chain_log v) \<Longrightarrow> E e v"
  shows "wp (settle_channel hz enc c) Q E w"
proof -
  have pos: "jlt (Fin 0) (stroops (pc_recipient_balance c)) \<longleftrightarrow> 0 < pc_recipient_balance c"
    using assms(2) by (intro stroops_pos) (auto simp: channel_ok_def)
  show ?thesis
    unfolding settle_channel_def Let_def pos submitTransaction_def assertOk_def
    using assms(1) by (auto simp: wps truthful_def paid_out_def split: option.split sum.split intro!: assms(3,4))
qed

lemma typed_transact:
  assumes "channels_ok (db w) (chain_log w)" and "exact_texts dec" and "whole_stroops amt n"
  shows "wp (transact dec i uid amt) (\<lambda>_ v. channels_ok (db v) (chain_log v)) (\<lambda>_ v. channels_ok (db v) (chain_log v)) w"
proof -
  have a: "parseFloat amt = Fin (dbl n)" "dec (dbl n) = of_int n / 10 ^ 7" "money n" using assms(2,3) by (auto simp: exact_texts_def whole_stroops_def)
  have n: "0 \<le> n" if "\<not> dbl n \<le> 0" using that dbl_mono [of n 0] by (cases "0 \<le> n") simp_all
  note move = typed_move [OF _ _ _ a(2)]
  show ?thesis unfolding transact_def a(1)
    by (rule typed_transaction) (use assms(1) n in \<open>auto simp: wps Let_def elim: move split: option.split sum.split\<close>)
qed

lemma typed_close:
  assumes "channels_ok (db w) (chain_log w)" and "truthful hz"
  shows "wp (closeChannel hz i uid enc) (\<lambda>_ v. channels_ok (db v) (chain_log v)) (\<lambda>_ v. channels_ok (db v) (chain_log v)) w"
  unfolding closeChannel_def
proof (rule typed_transaction)
  fix v :: world assume v: "db v = db w" "chain_log v = chain_log w"
  have "wp (settle_channel hz enc c) (\<lambda>h u. wp (andThen (exec (\<lambda>w. set_closed i h (db w))) (gets (\<lambda>w. find (\<lambda>c. pc_id c = i) (pay_channels (db w)))))
      (\<lambda>_ u. channels_ok (db u) (chain_log u) \<and> channels_ok (db w) (chain_log u)) (\<lambda>_ u. channels_ok (db w) (chain_log u)) u)
      (\<lambda>_ u. channels_ok (db w) (chain_log u)) (ticked v)"
    if c: "open_channel i uid (db w) = Some c" for c
  proof (rule wp_settle [OF assms(2)])
    show "channel_ok (chain_log w) c" using assms(1) open_channel_Some [OF c] by (simp add: channels_ok_def list_all_iff)
  next
    fix u :: world and h assume u: "db u = db (ticked v)" "set (chain_log (ticked v)) \<subseteq> set (chain_log u)" "paid_out (chain_log u) c"
    have "channels_ok (db w) (chain_log u)" using assms(1) u v by (auto intro: channels_frame)
    then show "wp (andThen (exec (\<lambda>w. set_closed i h (db w))) (gets (\<lambda>w. find (\<lambda>c. pc_id c = i) (pay_channels (db w)))))
      (\<lambda>_ u. channels_ok (db u) (chain_log u) \<and> channels_ok (db w) (chain_log u)) (\<lambda>_ u. channels_ok (db w) (chain_log u)) u"
      using u v c by (auto simp: wps intro: typed_closed)
  next
    fix u :: world assume "db u = db (ticked v)" "set (chain_log (ticked v)) \<subseteq> set (chain_log u)"
    then show "channels_ok (db w) (chain_log u)" using assms(1) v by (auto intro: channels_frame)
  qed
  then show "wp (bnd (select (\<lambda>w. open_channel i uid (db w))) (\<lambda>row. case row of
        None \<Rightarrow> throw (withStatus 404 (mkError ''Channel not found or already closed''))
      | Some c \<Rightarrow> bnd (settle_channel hz enc c) (\<lambda>txHash. andThen (exec (\<lambda>w. set_closed i txHash (db w))) (gets (\<lambda>w. find (\<lambda>c. pc_id c = i) (pay_channels (db w)))))))
      (\<lambda>_ u. channels_ok (db u) (chain_log u) \<and> channels_ok (db w) (chain_log u)) (\<lambda>_ u. channels_ok (db w) (chain_log u)) v"
    using assms(1) v by (auto simp: wps split: option.split)
qed (rule assms(1))

lemma typed_open_channel:
  "channels_ok (db w) (chain_log w) \<Longrightarrow>
   wp (openChannel hz t uuid uid pk enc rcp amt asset) (\<lambda>_ v. channels_ok (db v) (chain_log v)) (\<lambda>_ v. channels_ok (db v) (chain_log v)) w"
  unfolding openChannel_def assertOk_def
  by (auto simp: wps elim: typed_insert split: option.split sum.split)

lemma run_channels: "channel_run dec w \<Longrightarrow> exact_texts dec \<Longrightarrow> channels_ok (db w) (chain_log w)"
proof (induction rule: channel_run.induct)
  case (Open w hz t uuid uid pk amt asset r w')
  have "wp (open_route hz t uuid uid pk amt asset) (\<lambda>_ v. channels_ok (db v) (chain_log v)) (\<lambda>_ v. channels_ok (db v) (chain_log v)) w"
    unfolding open_route_def using Open by (auto simp: wps intro!: typed_open_channel split: option.split)
  then show ?case using Open by (simp add: wp_snd)
next
  case (Transact w amt n uid i r w')
  have "wp (transact_route dec uid i amt) (\<lambda>_ v. channels_ok (db v) (chain_log v)) (\<lambda>_ v. channels_ok (db v) (chain_log v)) w"
    unfolding transact_route_def using Transact by (auto simp: wps intro!: typed_transact)
  then show ?case using Transact by (simp add: wp_snd)
next
  case (Close w hz uid i r w')
  have "wp (close_route hz uid i) (\<lambda>_ v. channels_ok (db v) (chain_log v)) (\<lambda>_ v. channels_ok (db v) (chain_log v)) w"
    unfolding close_route_def using Close by (auto simp: wps intro!: typed_close split: option.split)
  then show ?case using Close by (simp add: wp_snd)
next
  case (List w uid r w')
  have "wp (list_route uid) (\<lambda>_ v. channels_ok (db v) (chain_log v)) (\<lambda>_ v. channels_ok (db v) (chain_log v)) w"
    unfolding list_route_def using List by (auto simp: wps)
  then show ?case using List by (simp add: wp_snd)
next
  case (Other w v)
  then show ?case using channels_frame by blast
qed (simp add: channels_ok_def)

text \<open>
  A settlement outlives its transaction: when the statement after the submission fails, the payment is on the chain and the channel still open,
  so that the next request to close it pays again.
\<close>

lemma settled_but_open:
  assumes "open_channel i uid (db w) = Some c" and "jlt (Fin 0) (stroops (pc_recipient_balance c))" and "faults w = [False, False, False, True]"
    and "hz_decrypt hz enc = Inr key" and "hz_load hz (chain_log w) (pc_sender c) = None" and "hz_fee hz (chain_log w) = None"
    and "hz_build hz key (pc_recipient c) (pc_asset c) (stroops (pc_recipient_balance c)) = None"
    and "hz_submit hz (chain_log w) p = Inr h" and "hz_applied hz (chain_log w) p" and "p = SettleChannel key (pc_recipient c) (pc_asset c) (stroops (pc_recipient_balance c))"
  shows "wp (closeChannel hz i uid enc) (\<lambda>_ _. False) (\<lambda>_ v. db v = db w \<and> chain_log v = chain_log w @ [p]) w"
proof -
  have nf: "\<not> faulty w" "\<not> faulty (ticked w)" "\<not> faulty (ticked (ticked w))" "faulty (ticked (ticked (ticked w)))"
    by (simp_all add: faulty_def ticked_def assms(3))
  show ?thesis using assms(2,4-)
    by (simp add: closeChannel_def transaction_def settle_channel_def submitTransaction_def assertOk_def wps nf assms(1) Let_def)
qed

section \<open>Properties\<close>

text \<open>
  C8: payments in whole stroops never create or lose money in a channel: under any sequence of requests and any failures both balances stay
  non-negative and add up to the funding, and a channel is closed only after the network has paid the recipient exactly its balance, or the
  sender its funding back when there were no payments.
\<close>

theorem channels_conserve:
  assumes "channel_run dec w" and "exact_texts dec"
  shows "list_all (channel_ok (chain_log w)) (pay_channels (db w))"
  using run_channels [OF assms] by (simp add: channels_ok_def)

definition good_horizon :: horizon where
  "good_horizon = \<lparr>hz_decrypt = Inr, hz_load = (\<lambda>_ _. None), hz_fee = (\<lambda>_. None), hz_closing = (\<lambda>_ _ _ _ _. Inr ''XDR''), hz_build = (\<lambda>_ _ _ _. None),
     hz_read = (\<lambda>_. None), hz_applied = (\<lambda>_ _. True), hz_submit = (\<lambda>_ _. Inr ''h1'')\<rparr>"

definition sample_channels :: world where
  "sample_channels = init_world\<lparr>db := empty_db\<lparr>wallets := [\<lparr>w_id = ''w1'', w_user = ''u1'', w_public_key = ''GS'', w_secret = ''k'', w_default = True, w_created = 0\<rparr>]\<rparr>\<rparr>"

lemma exact_sevens: "exact_texts (\<lambda>x. of_int (fixed 7 x) / 10 ^ 7)"
  by (simp add: exact_texts_def fixed_dbl)

lemma parse_one: "whole_stroops ''1'' 10000000"
proof -
  have "decimal_prefix ''1'' = Some (1, [])" by code_simp
  then have "parseFloat ''1'' = mk 1" by (simp add: parseFloat_def unsign_def is_space_def JsText.signed_def Let_def)
  moreover have "dbl 10000000 = 1" using rnd53_of_int [of 1] by (simp add: dbl_def)
  ultimately show ?thesis using mk_int [of 1] by (simp add: whole_stroops_def money_def)
qed

lemma channels_conserve_witness:
  "let dec = (\<lambda>x. of_int (fixed 7 x) / 10 ^ 7); w1 = snd (open_route good_horizon 86400 ''c1'' ''u1'' ''GR'' ''12.5'' None sample_channels);
       w2 = snd (transact_route dec ''u1'' ''c1'' ''1'' w1); w3 = snd (close_route good_horizon ''u1'' ''c1'' w2)
   in list_all (channel_ok (chain_log w3)) (pay_channels (db w3))"
  unfolding Let_def
  by (intro channels_conserve [OF channel_run.Close [OF channel_run.Transact [OF channel_run.Open [OF channel_run.Start prod.collapse [symmetric]]
      parse_one prod.collapse [symmetric]] _ prod.collapse [symmetric]] exact_sevens])
    (simp_all add: sample_channels_def init_world_def empty_db_def truthful_def good_horizon_def)

text \<open>
  a payment of half a stroop is accepted, and rounding gives the recipient a whole stroop while the sender keeps his balance, so the
  balances of the channel exceed its funding.
\<close>

theorem half_stroop_payment:
  assumes "open_channel i uid (db w) = Some c" and "find (\<lambda>x. pc_id x = i) (pay_channels (db w)) = Some c" and "faults w = []"
    and "parseFloat amt = Fin x" and "0 < x" and "\<not> jlt (stroops (pc_sender_balance c)) (Fin x)" and "dec x = 1 / (2 * 10 ^ 7)"
    and "0 < pc_sender_balance c" and "0 \<le> pc_recipient_balance c" and "pc_recipient_balance c < 10 ^ 20 - 1" and "distinct (map pc_id (pay_channels (db w)))"
  shows "\<exists>w'. transact dec i uid amt w = (Inr (Some (c\<lparr>pc_recipient_balance := pc_recipient_balance c + 1\<rparr>)), w') \<and>
    find (\<lambda>x. pc_id x = i) (pay_channels (db w')) = Some (c\<lparr>pc_recipient_balance := pc_recipient_balance c + 1\<rparr>)"
proof -
  have "fixed 7 (of_int (pc_sender_balance c) / 10 ^ 7 - dec x) = pc_sender_balance c"
    unfolding assms(7) by (rule fixed_half(2)) (rule assms(8))
  moreover have "fixed 7 (of_int (pc_recipient_balance c) / 10 ^ 7 + dec x) = pc_recipient_balance c + 1"
    unfolding assms(7) by (rule fixed_half(1)) (rule assms(9))
  ultimately have s: "shift_balance (dec x) c = c\<lparr>pc_recipient_balance := pc_recipient_balance c + 1\<rparr>" by (simp only: shift_balance_def) simp
  note c = open_channel_Some [OF assms(1)]
  have one: "y = c" if "y \<in> set (pay_channels (db w))" "pc_id y = i" for y using that c channel_table.unique [OF assms(11)] by metis
  define d where "d = (db w)\<lparr>pay_channels := update_where (\<lambda>c. pc_id c = i) (shift_balance (dec x)) (pay_channels (db w))\<rparr>"
  have m: "move_balance i (dec x) (db w) = Inr d"
  proof -
    have "y = shift_balance (dec x) c" if "y \<in> set (pay_channels d)" "pc_id y = i" for y
      using that one by (auto simp: d_def set_update_where shift_balance_def split: if_splits)
    then have "\<not> list_ex (\<lambda>c. pc_id c = i \<and> pc_sender_balance c < 0) (pay_channels d)"
      "\<not> list_ex (\<lambda>c. pc_id c = i \<and> 10 ^ 20 \<le> pc_recipient_balance c) (pay_channels d)"
      using assms(8,10) by (fastforce simp: list_ex_iff s)+
    then show ?thesis by (simp add: move_balance_def d_def Let_def)
  qed
  have f: "find (\<lambda>x. pc_id x = i) (pay_channels d) = Some (c\<lparr>pc_recipient_balance := pc_recipient_balance c + 1\<rparr>)"
    using assms(2) c by (simp add: d_def s [symmetric]) (subst find_update_where, auto simp: shift_balance_def)
  have nf: "\<not> faulty w" "\<not> faulty (ticked w)" "\<not> faulty (ticked (ticked w))" "\<not> faulty (ticked (ticked (ticked w)))" "\<not> faulty (ticked (ticked (ticked (ticked w))))"
    by (simp_all add: faulty_def ticked_def assms(3))
  have "wp (transact dec i uid amt) (\<lambda>r v. r = Some (c\<lparr>pc_recipient_balance := pc_recipient_balance c + 1\<rparr>) \<and>
      find (\<lambda>x. pc_id x = i) (pay_channels (db v)) = Some (c\<lparr>pc_recipient_balance := pc_recipient_balance c + 1\<rparr>)) (\<lambda>_ _. False) w"
    unfolding transact_def transaction_def using assms(5,6) by (simp add: wps nf assms(1,4) Let_def m f)
  then show ?thesis by (auto simp: wp_def split: prod.splits sum.splits)
qed

definition sample_channel :: pay_channel where
  "sample_channel = \<lparr>pc_id = ''c1'', pc_user = ''u1'', pc_sender = ''GS'', pc_recipient = ''GR'', pc_asset = ''XLM'', pc_funding = 10000000, pc_sender_balance = 10000000,
     pc_recipient_balance = 0, pc_closing_xdr = ''XDR'', pc_settlement = None, pc_status = ''open'', pc_created = 0\<rparr>"

lemma half_stroop_text:
  defines "x \<equiv> rnd53 (1 / 20000000)"
  shows "parseFloat ''0.00000005'' = Fin x" and "0 < x" and "\<not> jlt (stroops 10000000) (Fin x)" and "of_int (fixed 8 x) / 10 ^ 8 = (1 / (2 * 10 ^ 7) :: rat)"
proof -
  have "decimal_prefix ''0.00000005'' = Some (1 / 20000000, [])" by code_simp
  then have "parseFloat ''0.00000005'' = mk (1 / 20000000)" by (simp add: parseFloat_def unsign_def is_space_def JsText.signed_def Let_def)
  moreover have "mk (1 / 20000000) = Fin x" unfolding x_def by (rule mk_Fin) simp
  ultimately show "parseFloat ''0.00000005'' = Fin x" by simp
  have "\<bar>x - 1 / 20000000\<bar> \<le> 2 powi (- 24 - 54)" unfolding x_def by (rule rnd53_err) (simp_all add: power_int_def power_one_over)
  then have e: "\<bar>x - 1 / 20000000\<bar> \<le> 1 / 10 ^ 20" by (rule order_trans) (simp add: power_int_def power_one_over)
  then have b: "1 / 20000000 - 1 / 10 ^ 20 \<le> x" "x \<le> 1 / 20000000 + 1 / 10 ^ 20" unfolding abs_le_iff by linarith+
  have "(0 :: rat) < 1 / 20000000 - 1 / 10 ^ 20" by simp
  then show "0 < x" using b(1) by (rule order_less_le_trans)
  have "x \<le> 1" using rnd53_mono [of "1 / 20000000" 1] rnd53_of_int [of 1] by (simp add: x_def)
  then show "\<not> jlt (stroops 10000000) (Fin x)" using mk_int [of 1] by (simp add: stroops_def)
  have "fixed 8 x = 5" using b \<open>0 < x\<close> by (simp add: fixed_def floor_eq_iff)
  then show "of_int (fixed 8 x) / 10 ^ 8 = (1 / (2 * 10 ^ 7) :: rat)" by simp
qed

lemma half_stroop_payment_witness:
  "let w = init_world\<lparr>db := empty_db\<lparr>pay_channels := [sample_channel]\<rparr>\<rparr>; c = sample_channel\<lparr>pc_recipient_balance := 1\<rparr> in
   \<exists>w'. transact (\<lambda>x. of_int (fixed 8 x) / 10 ^ 8) ''c1'' ''u1'' ''0.00000005'' w = (Inr (Some c), w') \<and> find (\<lambda>x. pc_id x = ''c1'') (pay_channels (db w')) = Some c"
  using half_stroop_payment [of "''c1''" "''u1''" "init_world\<lparr>db := empty_db\<lparr>pay_channels := [sample_channel]\<rparr>\<rparr>" sample_channel "''0.00000005''"
      "rnd53 (1 / 20000000)" "\<lambda>x. of_int (fixed 8 x) / 10 ^ 8"] half_stroop_text
  by (simp add: open_channel_def sample_channel_def init_world_def empty_db_def)

end
