(* ===== verification/Loyalty.thy ===== *)
theory Loyalty
  imports Lock Soroban JsText
begin

text \<open>
  Loyalty points: minting (\<^verbatim>\<open>services/loyaltyToken.js\<close>), the durable queue of mints (\<^verbatim>\<open>services/loyaltyMintQueue.js\<close>,
  \<^verbatim>\<open>jobs/loyaltyMintJob.js\<close>) and the handlers of \<^verbatim>\<open>controllers/loyaltyController.js\<close>. The life of a queue row is the
  invariant \<open>job_ok\<close>, over the histories \<open>mint_run\<close> of payments and job runs.
\<close>

section \<open>The contract calls\<close>

text \<open>The environment; \<open>tier\<close> and \<open>balance\<close> are what the contract's storage and a simulated call give.\<close>

record loyalty_env =
  le_contract :: bool
  le_admin_key :: string
  le_timeout :: int
  le_rate :: jsnum
  le_minimum :: jsnum
  le_concurrency :: nat
  le_tier :: "nat \<Rightarrow> (int \<times> int) option"
  le_balance :: "string \<Rightarrow> jserr + jsnum"

definition mintPoints :: "loyalty_env \<Rightarrow> soroban \<Rightarrow> string \<Rightarrow> jsnum \<Rightarrow> (world, string option) proc" where
  "mintPoints env rpc recipientWallet points =
     (if \<not> le_contract env then ret None
      else if le_admin_key env = [] then ret None
      else bnd (lift (sb_decrypt rpc (le_admin_key env))) (\<lambda>_. bnd (lift (toBigInt points)) (\<lambda>n.
        bnd (submitCall rpc (withStatus 400) ''Contract call'' (le_timeout env) (le_admin_key env) (\<lambda>key. MintPoints key recipientWallet n))
          (\<lambda>(v, hash). ret (Some hash)))))"

definition MAX_TIERS :: nat where "MAX_TIERS = 5"

definition loyaltyContract :: "loyalty_env \<Rightarrow> (world, unit) proc" where
  "loyaltyContract env = (if le_contract env then ret () else throw (withStatus 500 (mkError ''LOYALTY_TOKEN_CONTRACT_ID is not configured'')))"

definition getTier :: "loyalty_env \<Rightarrow> nat \<Rightarrow> (world, (int \<times> int) option) proc" where
  "getTier env i = andThen (loyaltyContract env) (ret (le_tier env i))"

definition getTiers :: "loyalty_env \<Rightarrow> (world, (nat \<times> int \<times> int) list) proc" where
  "getTiers env = andThen (loyaltyContract env) (ret (List.map_filter (\<lambda>i. map_option (Pair i) (le_tier env i)) [0..<MAX_TIERS]))"

definition redeemPoints :: "loyalty_env \<Rightarrow> soroban \<Rightarrow> (string \<Rightarrow> bool) \<Rightarrow> string \<Rightarrow> string \<Rightarrow> nat \<Rightarrow> (world, string \<times> int \<times> int) proc" where
  "redeemPoints env rpc insufficient enc walletAddress tierIndex =
     bnd (getTier env tierIndex) (\<lambda>tier. case tier of
       None \<Rightarrow> throw (withStatus 400 (mkError (''Loyalty tier '' @ show_nat tierIndex @ '' is not configured'')))
     | Some (threshold, discount) \<Rightarrow>
       bnd (lift (sb_decrypt rpc enc)) (\<lambda>_. catch
         (bnd (submitCall rpc (withStatus 400) ''Contract call'' (le_timeout env) enc (\<lambda>key. RedeemTier key walletAddress (int tierIndex)))
           (\<lambda>(v, hash). ret (hash, threshold, discount)))
         (\<lambda>e. if insufficient (err_message e) then throw (withPayload [(''threshold'', JNum (Fin (of_int threshold)))]
              (withStatus 400 (mkError (''Insufficient loyalty points. Tier '' @ show_nat tierIndex @ '' requires at least '' @ show_int threshold @ '' points.''))))
            else throw e)))"

section \<open>The queue\<close>

text \<open>Every asset but the lumen is taken for a dollar, the ones the source warns about as well.\<close>

definition estimateXlmEquivalent :: "loyalty_env \<Rightarrow> jsnum \<Rightarrow> string \<Rightarrow> jsnum" where
  "estimateXlmEquivalent env num asset = (if asset = ''XLM'' then num else jdiv num (le_rate env))"

definition set_job :: "string \<Rightarrow> (mint_job \<Rightarrow> mint_job) \<Rightarrow> database \<Rightarrow> database" where
  "set_job i f d = d\<lparr>mint_jobs := update_where (\<lambda>j. mj_id j = i) f (mint_jobs d)\<rparr>"

definition next_job :: "database \<Rightarrow> mint_job option" where
  "next_job d = first_row (sort_key mj_created
     (filter (\<lambda>j. mj_status j = ''pending'' \<and> list_ex (\<lambda>t. t_id t = mj_id j \<and> t_status t = ''completed'') (transactions d)) (mint_jobs d)))"

definition claimNextJob :: "(world, mint_job option) proc" where
  "claimNextJob = transaction (\<lambda>_. None) (bnd (select (\<lambda>w. next_job (db w))) (\<lambda>row. case row of
     None \<Rightarrow> ret None
   | Some job \<Rightarrow> andThen (exec (\<lambda>w. set_job (mj_id job) (\<lambda>j. j\<lparr>mj_status := ''processing'', mj_retries := mj_retries j + 1\<rparr>) (db w))) (ret (Some job))))"

definition complete_job :: "string \<Rightarrow> string option \<Rightarrow> (world, unit) proc" where
  "complete_job i hash = exec (\<lambda>w. set_job i (\<lambda>j. j\<lparr>mj_status := ''completed'', mj_completed := Some (now w), mj_hash := (case hash of None \<Rightarrow> mj_hash j | Some h \<Rightarrow> Some h)\<rparr>) (db w))"

text \<open>What an \<open>integer\<close> column makes of a number.\<close>

definition pg_integer :: "jsnum \<Rightarrow> jserr + int" where
  "pg_integer x = (case x of
     Fin r \<Rightarrow> if of_int \<lfloor>r\<rfloor> \<noteq> r then Inl ((mkError ''invalid input syntax for type integer'')\<lparr>err_code := Some ''22P02''\<rparr>)
       else if 2 ^ 31 \<le> r \<or> r < - (2 ^ 31) then Inl ((mkError ''integer out of range'')\<lparr>err_code := Some ''22003''\<rparr>) else Inr \<lfloor>r\<rfloor>
   | _ \<Rightarrow> Inl ((mkError ''invalid input syntax for type integer'')\<lparr>err_code := Some ''22P02''\<rparr>))"

definition insert_points :: "string \<Rightarrow> string \<Rightarrow> string \<Rightarrow> jsnum \<Rightarrow> string option \<Rightarrow> string option \<Rightarrow> (world, unit) proc" where
  "insert_points uid wlt event points tx hash = execE (\<lambda>w. case pg_integer points of Inl e \<Rightarrow> Inl e
   | Inr n \<Rightarrow> Inr ((db w)\<lparr>points_rows := points_rows (db w) @ [\<lparr>pt_user = uid, pt_wallet = wlt, pt_event = event,
       pt_points = n, pt_transaction = tx, pt_hash = hash, pt_created = now w\<rparr>]\<rparr>))"

text \<open>The inner \<open>try\<close>: the mint, its row and the notification; \<open>retry_or_fail\<close> is its handler.\<close>

definition mint_and_record :: "loyalty_env \<Rightarrow> soroban \<Rightarrow> mint_job \<Rightarrow> jsnum \<Rightarrow> (world, unit) proc" where
  "mint_and_record env rpc job points =
     bnd (mintPoints env rpc (mj_wallet job) points) (\<lambda>result. case result of
       Some hash \<Rightarrow> andThen (complete_job (mj_id job) (Some hash))
         (andThen (insert_points (mj_user job) (mj_wallet job) ''mint'' points (Some (mj_id job)) (Some hash))
           (ignore (andThen tick (emit (Notification (mj_user job) ''loyalty_points_earned'' (JObj [(''points'', JNum points), (''tx_hash'', JStr hash)]))))))
     | None \<Rightarrow> complete_job (mj_id job) None)"

definition retry_or_fail :: "mint_job \<Rightarrow> jserr \<Rightarrow> (world, unit) proc" where
  "retry_or_fail job e =
     (if mj_retries job < 3
      then exec (\<lambda>w. set_job (mj_id job) (\<lambda>j. j\<lparr>mj_status := ''pending'', mj_error := Some (err_message e), mj_retries := mj_retries j + 1\<rparr>) (db w))
      else exec (\<lambda>w. set_job (mj_id job) (\<lambda>j. j\<lparr>mj_status := ''failed'', mj_error := Some (err_message e), mj_completed := Some (now w)\<rparr>) (db w)))"

definition process_slot :: "loyalty_env \<Rightarrow> soroban \<Rightarrow> (world, unit) proc" where
  "process_slot env rpc = bnd claimNextJob (\<lambda>row. case row of
     None \<Rightarrow> ret ()
   | Some job \<Rightarrow> let xlmEquivalent = estimateXlmEquivalent env (stroops (mj_amount job)) (mj_asset job) in
       if jlt xlmEquivalent (le_minimum env) then complete_job (mj_id job) None
       else catch (mint_and_record env rpc job (jfloor xlmEquivalent)) (retry_or_fail job))"

definition slot_key :: "nat \<Rightarrow> string" where
  "slot_key i = ''loyalty_mint_slot:'' @ show_nat i"

definition processLoyaltyMintQueue :: "loyalty_env \<Rightarrow> soroban \<Rightarrow> (nat \<Rightarrow> string) \<Rightarrow> (world, unit) proc" where
  "processLoyaltyMintQueue env rpc lockValue = forEach [0..<le_concurrency env]
     (\<lambda>i. ignore (withLock (slot_key i) 30 (lockValue i) False [(0, \<lambda>_. process_slot env rpc)]))"

text \<open>The row of a payment; a conflict with the primary key does nothing.\<close>

definition insert_job :: "string \<Rightarrow> string \<Rightarrow> string \<Rightarrow> string \<Rightarrow> string \<Rightarrow> world \<Rightarrow> jserr + database" where
  "insert_job txId uid wlt amt asset w = (case numeric_20_7 amt of Inl e \<Rightarrow> Inl e
   | Inr n \<Rightarrow> if list_ex (\<lambda>j. mj_id j = txId) (mint_jobs (db w)) then Inr (db w)
       else if \<not> list_ex (\<lambda>t. t_id t = txId) (transactions (db w)) \<or> user_by_id (db w) uid = None then Inl foreignKeyViolation
       else Inr ((db w)\<lparr>mint_jobs := mint_jobs (db w) @ [\<lparr>mj_id = txId, mj_user = uid, mj_wallet = wlt, mj_amount = n, mj_asset = asset,
         mj_status = ''pending'', mj_retries = 0, mj_hash = None, mj_error = None, mj_created = now w, mj_completed = None\<rparr>]\<rparr>))"

definition enqueueMint :: "string \<Rightarrow> string \<Rightarrow> string \<Rightarrow> string \<Rightarrow> string \<Rightarrow> (world, unit) proc" where
  "enqueueMint txId uid wlt amt asset = execE (insert_job txId uid wlt amt asset)"

definition enqueueLoyaltyMint :: "loyalty_env \<Rightarrow> string \<Rightarrow> string \<Rightarrow> string \<Rightarrow> string \<Rightarrow> string \<Rightarrow> (world, string option) proc" where
  "enqueueLoyaltyMint env txId uid wlt amt asset =
     (if \<not> le_contract env then ret None
      else bnd (gets (\<lambda>w. if list_ex (\<lambda>j. mj_id j = txId) (mint_jobs (db w)) then None else Some txId))
        (\<lambda>i. andThen (execE (insert_job txId uid wlt amt asset)) (ret i)))"

section \<open>The handlers\<close>

definition loyalty_balance :: "loyalty_env \<Rightarrow> string \<Rightarrow> (world, outcome) proc" where
  "loyalty_balance env uid = handler (bnd (select (\<lambda>w. default_wallet (db w) uid)) (\<lambda>wal. case wal of
     None \<Rightarrow> ret (Reply 404 (jerr ''Wallet not found''))
   | Some wal \<Rightarrow> if \<not> le_contract env then ret (Reply 200 (JObj [(''wallet'', JStr (w_public_key wal)), (''points'', JNum (Fin 0))]))
       else bnd (lift (le_balance env (w_public_key wal))) (\<lambda>p. ret (Reply 200 (JObj [(''wallet'', JStr (w_public_key wal)), (''points'', JNum p)])))))"

definition tier_json :: "nat \<times> int \<times> int \<Rightarrow> json" where
  "tier_json t = (case t of (i, threshold, discount) \<Rightarrow> JObj [(''index'', JNum (Fin (of_nat i))), (''threshold'', JNum (Fin (of_int threshold))),
     (''discount_bps'', JNum (Fin (of_int discount)))])"

definition tiers :: "loyalty_env \<Rightarrow> (world, outcome) proc" where
  "tiers env = handler (if \<not> le_contract env then ret (Reply 200 (JObj [(''tiers'', JArr [])]))
     else bnd (getTiers env) (\<lambda>ts. ret (Reply 200 (JObj [(''tiers'', JArr (map tier_json ts))]))))"

text \<open>\<open>x\<close> is \<open>Number(req.body.tier_index)\<close>.\<close>

definition tier_index :: "jsnum \<Rightarrow> nat option" where
  "tier_index x = (case x of Fin r \<Rightarrow> if of_int \<lfloor>r\<rfloor> = r \<and> 0 \<le> r \<and> r < of_nat MAX_TIERS then Some (nat \<lfloor>r\<rfloor>) else None | _ \<Rightarrow> None)"

definition redeem :: "loyalty_env \<Rightarrow> soroban \<Rightarrow> (string \<Rightarrow> bool) \<Rightarrow> string \<Rightarrow> jsnum \<Rightarrow> (world, outcome) proc" where
  "redeem env rpc insufficient uid x = handler (case tier_index x of
     None \<Rightarrow> ret (Reply 400 (jerr ''tier_index must be an integer between 0 and 4''))
   | Some tierIndex \<Rightarrow> bnd (select (\<lambda>w. default_wallet (db w) uid)) (\<lambda>wal. case wal of
       None \<Rightarrow> ret (Reply 404 (jerr ''Wallet not found''))
     | Some wal \<Rightarrow>
       bnd (catch (bnd (redeemPoints env rpc insufficient (w_secret wal) (w_public_key wal) tierIndex) (\<lambda>r. ret (Inr r))) (\<lambda>e. if err_status e = Some 400 then ret (Inl e) else throw e)) (\<lambda>r. case r of
         Inl e \<Rightarrow> ret (Reply 400 (JObj ([(''error'', JStr (err_message e)), (''redeemed'', JBool False)] @ err_payload e)))
       | Inr (txHash, threshold, discount) \<Rightarrow>
         andThen (insert_points uid (w_public_key wal) ''burn'' (Fin (of_int threshold)) None (Some txHash))
           (ret (Reply 200 (JObj [(''redeemed'', JBool True), (''tier_index'', JNum (Fin (of_nat tierIndex))), (''points_burned'', JNum (Fin (of_int threshold))),
             (''discount_bps'', JNum (Fin (of_int discount))), (''tx_hash'', JStr txHash)]))))))"

definition points_json :: "points_row \<Rightarrow> json" where
  "points_json p = JObj [(''event_type'', JStr (pt_event p)), (''points'', JNum (Fin (of_int (pt_points p)))),
     (''tx_hash'', case pt_hash p of None \<Rightarrow> JNull | Some h \<Rightarrow> JStr h), (''created_at'', JNum (Fin (of_int (pt_created p))))]"

definition history :: "string \<Rightarrow> (world, outcome) proc" where
  "history uid = handler (bnd (select (\<lambda>w. sort_key (\<lambda>p. - pt_created p) (filter (\<lambda>p. pt_user p = uid) (points_rows (db w)))))
     (\<lambda>rows. ret (Reply 200 (JObj [(''history'', JArr (map points_json rows))]))))"

definition mint_handler :: "loyalty_env \<Rightarrow> soroban \<Rightarrow> string \<Rightarrow> jsnum \<Rightarrow> (world, outcome) proc" where
  "mint_handler env rpc uid points = handler (
     if uid = [] \<or> points = NaN \<or> jlt points (Fin 1) then ret (Reply 400 (jerr ''user_id and positive points are required''))
     else bnd (select (\<lambda>w. default_wallet (db w) uid)) (\<lambda>wal. case wal of
       None \<Rightarrow> ret (Reply 404 (jerr ''Wallet not found for user''))
     | Some wal \<Rightarrow> bnd (mintPoints env rpc (w_public_key wal) points) (\<lambda>result.
         andThen (insert_points uid (w_public_key wal) ''mint'' points None result)
           (ret (Reply 200 (JObj [(''minted'', JBool True), (''wallet'', JStr (w_public_key wal)), (''points'', JNum points),
             (''tx_hash'', case result of None \<Rightarrow> JNull | Some h \<Rightarrow> JStr h)]))))))"

section \<open>Histories of payments and job runs\<close>

definition is_mint :: "chain_call \<Rightarrow> bool" where
  "is_mint c = (case c of MintPoints _ _ _ \<Rightarrow> True | _ \<Rightarrow> False)"

definition mints :: "chain_call list \<Rightarrow> nat" where
  "mints calls = length (filter is_mint calls)"

text \<open>Every attempt raises the count of retries twice: when the row is claimed, and when it fails.\<close>

definition attempts :: "mint_job \<Rightarrow> nat" where
  "attempts j = (mj_retries j + 1) div 2"

definition job_ok :: "chain_call list \<Rightarrow> mint_job \<Rightarrow> bool" where
  "job_ok calls j \<longleftrightarrow>
     (if mj_status j = ''pending'' then mj_retries j \<in> {0, 2, 4}
      else if mj_status j = ''processing'' \<or> mj_status j = ''completed'' then mj_retries j \<in> {1, 3, 5}
      else mj_status j = ''failed'' \<and> mj_retries j = 5) \<and>
     (mj_hash j \<noteq> None \<longrightarrow> list_ex (\<lambda>c. case c of MintPoints _ wlt _ \<Rightarrow> wlt = mj_wallet j | _ \<Rightarrow> False) calls)"

definition jobs_ok :: "nat \<Rightarrow> database \<Rightarrow> chain_call list \<Rightarrow> bool" where
  "jobs_ok k d calls \<longleftrightarrow> distinct (map mj_id (mint_jobs d)) \<and> list_all (job_ok calls) (mint_jobs d) \<and>
     mints calls + k \<le> sum_list (map attempts (mint_jobs d))"

inductive mint_run :: "world \<Rightarrow> bool" where
  Start: "mint_jobs (db w) = [] \<Longrightarrow> chain_log w = [] \<Longrightarrow> mint_run w"
| Enqueue: "mint_run w \<Longrightarrow> enqueueMint txId uid wlt amt asset w = (r, w') \<Longrightarrow> mint_run w'"
| Enqueue_loyalty: "mint_run w \<Longrightarrow> enqueueLoyaltyMint env txId uid wlt amt asset w = (r', w') \<Longrightarrow> mint_run w'"
| Job: "mint_run w \<Longrightarrow> honest rpc \<Longrightarrow> processLoyaltyMintQueue env rpc lockValue w = (r, w') \<Longrightarrow> mint_run w'"
| Other: "mint_run w \<Longrightarrow> mint_jobs (db v) = mint_jobs (db w) \<Longrightarrow> chain_log v = chain_log w \<Longrightarrow> mint_run v"

text \<open>A row while its attempt is under way: \<open>k\<close> mints of the attempt may still come.\<close>

definition claimed :: "nat \<Rightarrow> mint_job \<Rightarrow> database \<Rightarrow> chain_call list \<Rightarrow> bool" where
  "claimed k job d calls \<longleftrightarrow> jobs_ok k d calls \<and> mj_retries job \<in> {0, 2, 4} \<and>
     (\<exists>j \<in> set (mint_jobs d). mj_id j = mj_id job \<and> mj_wallet j = mj_wallet job \<and> mj_retries j = mj_retries job + 1)"

lemma jobs_frame: "jobs_ok k d calls \<Longrightarrow> mint_jobs d' = mint_jobs d \<Longrightarrow> jobs_ok k d' calls"
  by (simp add: jobs_ok_def)

lemma jobs_ok_le: "jobs_ok k d calls \<Longrightarrow> n \<le> k \<Longrightarrow> jobs_ok n d calls"
  by (simp add: jobs_ok_def)

lemma jobs_update:
  assumes "jobs_ok k d calls" and "j \<in> set (mint_jobs d)" and "mj_id j = i" and "job_ok calls (f j)" and "\<And>x. mj_id (f x) = mj_id x"
    and "attempts (f j) = attempts j + a"
  shows "jobs_ok (k + a) (set_job i f d) calls"
proof -
  have ids: "distinct (map mj_id (mint_jobs d))" using assms(1) by (simp add: jobs_ok_def)
  have "map mj_id (mint_jobs (set_job i f d)) = map mj_id (mint_jobs d)"
    unfolding set_job_def by (rule job_table.update_column) (rule assms(5))
  moreover have "list_all (job_ok calls) (mint_jobs (set_job i f d))"
    unfolding set_job_def using assms by (intro job_table.update_keeps) (simp_all add: jobs_ok_def)
  moreover have "sum_list (map attempts (mint_jobs (set_job i f d))) = sum_list (map attempts (mint_jobs d)) + a"
    using sum_update_where [OF ids assms(2,3), of attempts f] assms(6) by (simp add: set_job_def)
  ultimately show ?thesis using assms(1) by (simp add: jobs_ok_def)
qed

lemma claimed_frame: "claimed k job d calls \<Longrightarrow> mint_jobs d' = mint_jobs d \<Longrightarrow> claimed k job d' calls"
  by (simp add: claimed_def jobs_ok_def)

lemma claimed_jobs: "claimed k job d calls \<Longrightarrow> jobs_ok 0 d calls"
  by (auto simp: claimed_def intro: jobs_ok_le)

text \<open>The three ways an attempt ends: the row completed, put back, or failed.\<close>

lemma claimed_completed:
  assumes "claimed k job d calls" and "h \<noteq> None \<longrightarrow> list_ex (\<lambda>c. case c of MintPoints _ wlt _ \<Rightarrow> wlt = mj_wallet job | _ \<Rightarrow> False) calls"
  shows "claimed k job (set_job (mj_id job) (\<lambda>j. j\<lparr>mj_status := ''completed'', mj_completed := t, mj_hash := (case h of None \<Rightarrow> mj_hash j | Some h \<Rightarrow> Some h)\<rparr>) d) calls"
    (is "claimed k job (set_job _ ?f d) calls")
proof -
  obtain j where j: "j \<in> set (mint_jobs d)" "mj_id j = mj_id job" "mj_wallet j = mj_wallet job" "mj_retries j = mj_retries job + 1"
    and ok: "jobs_ok k d calls" "mj_retries job \<in> {0, 2, 4}" using assms(1) by (auto simp: claimed_def)
  have "job_ok calls j" using ok(1) j(1) by (simp add: jobs_ok_def list_all_iff)
  then have "job_ok calls (?f j)" using assms(2) ok(2) j by (auto simp: job_ok_def split: option.splits if_splits)
  then have "jobs_ok (k + 0) (set_job (mj_id job) ?f d) calls" by (intro jobs_update [OF ok(1) j(1,2)]) (simp_all add: attempts_def)
  moreover have "?f j \<in> set (mint_jobs (set_job (mj_id job) ?f d))" using j by (auto simp: set_job_def set_update_where)
  ultimately show ?thesis using j ok(2) unfolding claimed_def by (intro conjI bexI [of _ "?f j"]) simp_all
qed

lemma claimed_retry:
  assumes "claimed k job d calls" and "mj_retries job < 3"
  shows "jobs_ok 0 (set_job (mj_id job) (\<lambda>j. j\<lparr>mj_status := ''pending'', mj_error := e, mj_retries := mj_retries j + 1\<rparr>) d) calls"
    (is "jobs_ok 0 (set_job _ ?f d) calls")
proof -
  obtain j where j: "j \<in> set (mint_jobs d)" "mj_id j = mj_id job" "mj_retries j = mj_retries job + 1"
    and ok: "jobs_ok k d calls" "mj_retries job \<in> {0, 2, 4}" using assms(1) by (auto simp: claimed_def)
  have "job_ok calls j" using ok(1) j(1) by (simp add: jobs_ok_def list_all_iff)
  then have "job_ok calls (?f j)" using assms(2) ok(2) j by (auto simp: job_ok_def)
  moreover have "attempts (?f j) = attempts j + 0" using ok(2) j(3) by (auto simp: attempts_def)
  ultimately have "jobs_ok (k + 0) (set_job (mj_id job) ?f d) calls" by (intro jobs_update [OF ok(1) j(1,2)]) simp_all
  then show ?thesis by (rule jobs_ok_le) simp
qed

lemma claimed_failed:
  assumes "claimed k job d calls" and "\<not> mj_retries job < 3"
  shows "jobs_ok 0 (set_job (mj_id job) (\<lambda>j. j\<lparr>mj_status := ''failed'', mj_error := e, mj_completed := t\<rparr>) d) calls"
    (is "jobs_ok 0 (set_job _ ?f d) calls")
proof -
  obtain j where j: "j \<in> set (mint_jobs d)" "mj_id j = mj_id job" "mj_retries j = mj_retries job + 1"
    and ok: "jobs_ok k d calls" "mj_retries job \<in> {0, 2, 4}" using assms(1) by (auto simp: claimed_def)
  have "job_ok calls j" using ok(1) j(1) by (simp add: jobs_ok_def list_all_iff)
  then have "job_ok calls (?f j)" using assms(2) ok(2) j by (auto simp: job_ok_def)
  then have "jobs_ok (k + 0) (set_job (mj_id job) ?f d) calls" by (intro jobs_update [OF ok(1) j(1,2)]) (simp_all add: attempts_def)
  then show ?thesis by (rule jobs_ok_le) simp
qed

lemma claimed_minted:
  assumes "claimed 1 job d calls"
  shows "claimed 0 job d (calls @ [MintPoints key wlt n])"
  using assms by (auto simp: claimed_def jobs_ok_def mints_def is_mint_def list_all_iff job_ok_def)

section \<open>Every operation keeps the rows\<close>

lemma next_job_Some: "next_job d = Some j \<Longrightarrow> j \<in> set (mint_jobs d) \<and> mj_status j = ''pending''"
  unfolding next_job_def by (drule first_row_Some) simp

lemma claim_claims:
  assumes "jobs_ok 0 d calls" and "next_job d = Some job"
  shows "claimed 1 job (set_job (mj_id job) (\<lambda>j. j\<lparr>mj_status := ''processing'', mj_retries := mj_retries j + 1\<rparr>) d) calls"
    (is "claimed 1 job (set_job _ ?f d) calls")
proof -
  note j = next_job_Some [OF assms(2)]
  then have ok: "job_ok calls job" using assms(1) by (simp add: jobs_ok_def list_all_iff)
  then have r: "mj_retries job \<in> {0, 2, 4}" using j by (simp add: job_ok_def)
  have "job_ok calls (?f job)" using ok r j by (auto simp: job_ok_def)
  moreover have "attempts (?f job) = attempts job + 1" using r by (auto simp: attempts_def)
  ultimately have "jobs_ok (0 + 1) (set_job (mj_id job) ?f d) calls" by (intro jobs_update [OF assms(1)]) (use j in simp_all)
  moreover have "?f job \<in> set (mint_jobs (set_job (mj_id job) ?f d))" using j by (auto simp: set_job_def set_update_where)
  ultimately show ?thesis using r unfolding claimed_def by (intro conjI bexI [of _ "?f job"]) simp_all
qed

lemma wp_claimNextJob:
  assumes "jobs_ok 0 (db w) (chain_log w)"
  shows "wp claimNextJob (\<lambda>row v. case row of None \<Rightarrow> jobs_ok 0 (db v) (chain_log v) | Some job \<Rightarrow> claimed 1 job (db v) (chain_log v))
    (\<lambda>_ v. jobs_ok 0 (db v) (chain_log v)) w"
  unfolding claimNextJob_def
  by (rule wp_transaction [where I = "jobs_ok 0" and Q = "\<lambda>row d calls. case row of None \<Rightarrow> jobs_ok 0 d calls | Some job \<Rightarrow> claimed 1 job d calls"])
    (use assms in \<open>auto simp: wps intro: claim_claims [simplified] split: option.split\<close>)

lemma wp_mintPoints:
  assumes "honest rpc"
    and "\<And>v. db v = db w \<Longrightarrow> chain_log v = chain_log w \<Longrightarrow> Q None v \<and> (\<forall>e. E e v)"
    and "\<And>v key n. db v = db w \<Longrightarrow> chain_log v = chain_log w @ [MintPoints key wlt n] \<Longrightarrow> (\<forall>h. Q (Some h) v) \<and> (\<forall>e. E e v)"
  shows "wp (mintPoints env rpc wlt points) Q E w"
  unfolding mintPoints_def by (auto simp: wps assms intro!: wp_submitCall split: sum.split)

lemma wp_mint_and_record:
  assumes "honest rpc" and "claimed 1 job (db w) (chain_log w)"
  shows "wp (mint_and_record env rpc job points) (\<lambda>_ v. jobs_ok 0 (db v) (chain_log v)) (\<lambda>_ v. claimed 0 job (db v) (chain_log v)) w"
  unfolding mint_and_record_def wp_bnd
proof (rule wp_mintPoints [OF assms(1)])
  have c0: "claimed 0 job (db w) (chain_log w)" using assms(2) by (auto simp: claimed_def intro: jobs_ok_le)
  fix v :: world assume v: "db v = db w" "chain_log v = chain_log w"
  have "wp (complete_job (mj_id job) None) (\<lambda>_ v. jobs_ok 0 (db v) (chain_log v)) (\<lambda>_ v. claimed 0 job (db v) (chain_log v)) v"
    using v c0 claimed_completed [OF c0, of None] by (auto simp: complete_job_def wps intro: claimed_jobs)
  then show "wp (case None of None \<Rightarrow> complete_job (mj_id job) None | Some hash \<Rightarrow> andThen (complete_job (mj_id job) (Some hash))
      (andThen (insert_points (mj_user job) (mj_wallet job) ''mint'' points (Some (mj_id job)) (Some hash))
        (ignore (andThen tick (emit (Notification (mj_user job) ''loyalty_points_earned'' (JObj [(''points'', JNum points), (''tx_hash'', JStr hash)])))))))
      (\<lambda>_ v. jobs_ok 0 (db v) (chain_log v)) (\<lambda>_ v. claimed 0 job (db v) (chain_log v)) v \<and> (\<forall>e. claimed 0 job (db v) (chain_log v))"
    using v c0 by simp
next
  fix v :: world and key n assume v: "db v = db w" "chain_log v = chain_log w @ [MintPoints key (mj_wallet job) n]"
  have c: "claimed 0 job (db v) (chain_log v)" using claimed_minted [OF assms(2)] v by simp
  have fin: "claimed 0 job (set_job (mj_id job) (\<lambda>j. j\<lparr>mj_status := ''completed'', mj_completed := t, mj_hash := Some h\<rparr>) (db v)) (chain_log v)" for t h
    using claimed_completed [OF c, of "Some h" t] v(2) by simp
  have "wp (andThen (complete_job (mj_id job) (Some hash))
      (andThen (insert_points (mj_user job) (mj_wallet job) ''mint'' points (Some (mj_id job)) (Some hash))
        (ignore (andThen tick (emit (Notification (mj_user job) ''loyalty_points_earned'' (JObj [(''points'', JNum points), (''tx_hash'', JStr hash)])))))))
      (\<lambda>_ v. jobs_ok 0 (db v) (chain_log v)) (\<lambda>_ v. claimed 0 job (db v) (chain_log v)) v" for hash
    using c fin by (auto simp: complete_job_def insert_points_def wps intro: claimed_jobs jobs_frame [OF claimed_jobs [OF fin]] claimed_frame [OF fin] split: sum.split)
  then show "(\<forall>h. wp (case Some h of None \<Rightarrow> complete_job (mj_id job) None | Some hash \<Rightarrow> andThen (complete_job (mj_id job) (Some hash))
      (andThen (insert_points (mj_user job) (mj_wallet job) ''mint'' points (Some (mj_id job)) (Some hash))
        (ignore (andThen tick (emit (Notification (mj_user job) ''loyalty_points_earned'' (JObj [(''points'', JNum points), (''tx_hash'', JStr hash)])))))))
      (\<lambda>_ v. jobs_ok 0 (db v) (chain_log v)) (\<lambda>_ v. claimed 0 job (db v) (chain_log v)) v) \<and> (\<forall>e. claimed 0 job (db v) (chain_log v))"
    using c by simp
qed

lemma wp_process_slot:
  assumes "honest rpc" and "jobs_ok 0 (db w) (chain_log w)"
  shows "wp (process_slot env rpc) (\<lambda>_ v. jobs_ok 0 (db v) (chain_log v)) (\<lambda>_ v. jobs_ok 0 (db v) (chain_log v)) w"
  unfolding process_slot_def wp_bnd
proof (rule wp_mono [OF wp_claimNextJob [OF assms(2)]])
  fix row and v :: world assume r: "case row of None \<Rightarrow> jobs_ok 0 (db v) (chain_log v) | Some job \<Rightarrow> claimed 1 job (db v) (chain_log v)"
  let ?J = "\<lambda>v. jobs_ok 0 (db v) (chain_log v)"
  have retry: "wp (retry_or_fail job e) (\<lambda>_. ?J) (\<lambda>_. ?J) u" if "claimed 0 job (db u) (chain_log u)" for job e u
    using that by (auto simp: retry_or_fail_def wps intro: claimed_retry [simplified] claimed_failed claimed_jobs)
  have c0: "claimed 0 job (db v) (chain_log v)" if "row = Some job" for job using r that by (auto simp: claimed_def intro: jobs_ok_le)
  have "wp (complete_job (mj_id job) None) (\<lambda>_. ?J) (\<lambda>_. ?J) v" if "row = Some job" for job
    using claimed_completed [OF c0 [OF that], of None] c0 [OF that] by (auto simp: complete_job_def wps intro: claimed_jobs)
  moreover have "wp (mint_and_record env rpc job points) (\<lambda>_. ?J) (\<lambda>e. wp (retry_or_fail job e) (\<lambda>_. ?J) (\<lambda>_. ?J)) v" if "row = Some job" for job points
    by (rule wp_mono [OF wp_mint_and_record [OF assms(1)]]) (use r that retry in auto)
  ultimately show "wp (case row of None \<Rightarrow> ret () | Some job \<Rightarrow> let xlmEquivalent = estimateXlmEquivalent env (stroops (mj_amount job)) (mj_asset job) in
       if jlt xlmEquivalent (le_minimum env) then complete_job (mj_id job) None
       else catch (mint_and_record env rpc job (jfloor xlmEquivalent)) (retry_or_fail job)) (\<lambda>_. ?J) (\<lambda>_. ?J) v"
    using r by (auto simp: wps Let_def split: option.split)
qed

text \<open>The lock touches neither the tables nor the chain.\<close>

lemma keeps_withLock:
  assumes "\<And>lost w. P (db w) (chain_log w) \<Longrightarrow> wp (f lost) (\<lambda>_ v. P (db v) (chain_log v)) (\<lambda>_ v. P (db v) (chain_log v)) w"
    and "P (db w) (chain_log w)"
  shows "wp (withLock k ttl v thr [(d, f)]) (\<lambda>_ v. P (db v) (chain_log v)) (\<lambda>_ v. P (db v) (chain_log v)) w"
proof -
  let ?P = "\<lambda>w. P (db w) (chain_log w)"
  have acq: "wp (acquireLock k ttl v thr) (\<lambda>_. ?P) (\<lambda>_. ?P) w"
    using assms(2) by (simp add: acquireLock_def redisSetNX_def wps split: option.split)
  have ren: "wp (renewLock k v ttl) (\<lambda>_. ?P) (\<lambda>_. ?P) u" if "?P u" for u
    using that by (simp add: renewLock_def RENEW_SCRIPT_def wps)
  have rel: "wp (releaseLock k v) (\<lambda>_. ?P) (\<lambda>_. ?P) u" if "?P u" for u
    using that by (simp add: releaseLock_def RELEASE_SCRIPT_def wps)
  have job: "wp (run_job k v ttl beat lost [(d, f)]) (\<lambda>_. ?P) (\<lambda>_. ?P) u" if "?P u" for beat lost u
    using that by (auto simp: wps intro!: assms(1) wp_mono [OF ren] split: option.split)
  have fin: "wp (finally_do (run_job k v ttl beat False [(d, f)]) (releaseLock k v)) (\<lambda>_. ?P) (\<lambda>_. ?P) u" if "?P u" for beat u
    unfolding finally_do_def wp_bnd wp_catch wp_andThen wp_ret wp_throw
    by (rule wp_mono [OF job [OF that]]) (auto intro: rel)
  show ?thesis unfolding withLock_def wp_bnd
    by (rule wp_mono [OF acq]) (simp_all only: wp_if wp_ret wp_bnd wp_gets wp_andThen fin if_True if_False simp_thms split: if_split)
qed

lemma jobs_insert: "jobs_ok 0 (db w) calls \<Longrightarrow> insert_job txId uid wlt amt asset w = Inr d \<Longrightarrow> jobs_ok 0 d calls"
  by (force simp: insert_job_def jobs_ok_def job_ok_def attempts_def list_ex_iff split: sum.splits if_splits)

lemma wp_queue:
  assumes "honest rpc" and "jobs_ok 0 (db w) (chain_log w)"
  shows "wp (processLoyaltyMintQueue env rpc lockValue) (\<lambda>_ v. jobs_ok 0 (db v) (chain_log v)) (\<lambda>_ v. jobs_ok 0 (db v) (chain_log v)) w"
  unfolding processLoyaltyMintQueue_def
proof (rule wp_forEach [where I = "\<lambda>_ v. jobs_ok 0 (db v) (chain_log v)"])
  fix i and v :: world assume "jobs_ok 0 (db v) (chain_log v)"
  then show "wp (ignore (withLock (slot_key i) 30 (lockValue i) False [(0, \<lambda>_. process_slot env rpc)])) (\<lambda>_ v. jobs_ok 0 (db v) (chain_log v))
      (\<lambda>_ v. jobs_ok 0 (db v) (chain_log v)) v"
    unfolding wp_ignore
    by (intro wp_mono [OF keeps_withLock [where P = "jobs_ok 0"]]) (auto intro: wp_process_slot [OF assms(1)])
qed (rule assms(2))

lemma run_jobs: "mint_run w \<Longrightarrow> jobs_ok 0 (db w) (chain_log w)"
proof (induction rule: mint_run.induct)
  case (Enqueue w txId uid wlt amt asset r w')
  have "wp (enqueueMint txId uid wlt amt asset) (\<lambda>_ v. jobs_ok 0 (db v) (chain_log v)) (\<lambda>_ v. jobs_ok 0 (db v) (chain_log v)) w"
    using Enqueue.IH jobs_insert [of "ticked w"] by (auto simp: enqueueMint_def wps split: sum.split)
  then show ?case using Enqueue by (simp add: wp_snd)
next
  case (Enqueue_loyalty w env txId uid wlt amt asset r w')
  have "wp (enqueueLoyaltyMint env txId uid wlt amt asset) (\<lambda>_ v. jobs_ok 0 (db v) (chain_log v)) (\<lambda>_ v. jobs_ok 0 (db v) (chain_log v)) w"
    using Enqueue_loyalty.IH jobs_insert [of "ticked w"] by (auto simp: enqueueLoyaltyMint_def wps split: sum.split)
  then show ?case using Enqueue_loyalty by (simp add: wp_snd)
next
  case (Job w rpc env lockValue r w')
  then show ?case using wp_queue [of rpc w env lockValue] by (simp add: wp_snd)
qed (simp_all add: jobs_ok_def mints_def)

section \<open>Properties\<close>


definition sample_loyalty :: loyalty_env where
  "sample_loyalty = \<lparr>le_contract = True, le_admin_key = ''ADM'', le_timeout = 30000, le_rate = Fin (1 / 8), le_minimum = Fin 1, le_concurrency = 2,
     le_tier = (\<lambda>_. None), le_balance = (\<lambda>_. Inr (Fin 0))\<rparr>"

definition sample_payment :: world where
  "sample_payment = init_world\<lparr>db := empty_db\<lparr>
     users := [\<lparr>u_id = ''u1'', u_email = ''a@b.c'', u_full_name = ''A'', u_role = ''user'', u_kyc_status = ''verified'', u_kyc_identity = None, u_kyc_submitted = None,
       u_kyc_expiry = None, u_kyc_reminders = [], u_phone_verified = True, u_suspended = False, u_suspension_reason = None, u_referral_code = None, u_referred_by = None\<rparr>],
     transactions := [\<lparr>t_id = ''t1'', t_sender = ''GS'', t_recipient = ''GR'', t_amount = 250000000, t_asset = ''XLM'', t_status = ''completed'', t_created = 0, t_fee_amount = 0\<rparr>]\<rparr>\<rparr>"


end
