(* ===== verification/Referral.thy ===== *)
theory Referral
  imports Loyalty
begin

text \<open>
  Referrals: the abuse check (\<^verbatim>\<open>services/referralAbuseGuard.js\<close>), the reward of the first payment
  (\<^verbatim>\<open>services/referralRewardService.js\<close>) and the fee credits and listings of \<^verbatim>\<open>controllers/referralController.js\<close>. The relation
  \<open>reward_run\<close> holds the histories; its invariant bounds the mints by the rewards that were not withheld.
\<close>

section \<open>The abuse check\<close>

definition MAX_REFERRAL_CHAIN_DEPTH :: nat where "MAX_REFERRAL_CHAIN_DEPTH = 20"

definition user_of_code :: "database \<Rightarrow> string \<Rightarrow> user option" where
  "user_of_code d code = find (\<lambda>u. u_referral_code u = Some code) (users d)"

text \<open>\<open>byId\<close>: the identity signals of both accounts, three non-empty texts that agree.\<close>

definition same_identity :: "database \<Rightarrow> string \<Rightarrow> string \<Rightarrow> bool" where
  "same_identity d a b = (case (user_by_id d a, user_by_id d b) of
     (Some u, Some v) \<Rightarrow> (case u_kyc_identity u of
        Some (ty, last4, dob) \<Rightarrow> ty \<noteq> [] \<and> last4 \<noteq> [] \<and> dob \<noteq> [] \<and> u_kyc_identity v = Some (ty, last4, dob)
      | None \<Rightarrow> False)
   | _ \<Rightarrow> False)"

fun walk :: "nat \<Rightarrow> string \<Rightarrow> string list \<Rightarrow> string \<Rightarrow> (world, string option) proc" where
  "walk 0 currentId visited refereeId = ret None"
| "walk (Suc n) currentId visited refereeId =
     bnd (select (\<lambda>w. user_by_id (db w) currentId)) (\<lambda>row. case row of
       None \<Rightarrow> ret None
     | Some u \<Rightarrow> (case u_referred_by u of
         None \<Rightarrow> ret None
       | Some code \<Rightarrow> if code = [] then ret None
         else bnd (select (\<lambda>w. user_of_code (db w) code)) (\<lambda>parent. case parent of
           None \<Rightarrow> ret None
         | Some p \<Rightarrow> if u_id p = [] then ret None
           else if u_id p = refereeId \<or> u_id p \<in> set visited then ret (Some ''circular_chain'')
           else walk n (u_id p) (u_id p # visited) refereeId)))"

definition detectReferralAbuse :: "string \<Rightarrow> string \<Rightarrow> (world, string option) proc" where
  "detectReferralAbuse referrerId refereeId =
     (if referrerId = [] \<or> refereeId = [] then ret None
      else if referrerId = refereeId then ret (Some ''self_referral'')
      else bnd (select (\<lambda>w. same_identity (db w) referrerId refereeId)) (\<lambda>same.
        if same then ret (Some ''kyc_identity_match'')
        else walk MAX_REFERRAL_CHAIN_DEPTH referrerId [referrerId] refereeId))"

section \<open>The reward of the first payment\<close>

definition referrer_of :: "database \<Rightarrow> string \<Rightarrow> (user \<times> user) option" where
  "referrer_of d refereeId = (case user_by_id d refereeId of None \<Rightarrow> None
     | Some ref \<Rightarrow> (case u_referred_by ref of None \<Rightarrow> None
       | Some code \<Rightarrow> map_option (\<lambda>u. (u, ref)) (user_of_code d code)))"

definition insert_reward :: "referral_reward \<Rightarrow> jsnum \<Rightarrow> database \<Rightarrow> jserr + database" where
  "insert_reward r amt d = (case pg_integer amt of Inl e \<Rightarrow> Inl e
   | Inr n \<Rightarrow> if list_ex (\<lambda>x. rr_id x = rr_id r \<or> rr_referee x = rr_referee r \<or> rr_payment x = rr_payment r) (rewards d) then Inl uniqueViolation
       else if \<not> list_ex (\<lambda>t. t_id t = rr_payment r) (transactions d) then Inl foreignKeyViolation
       else Inr (d\<lparr>rewards := rewards d @ [r\<lparr>rr_amount := n\<rparr>]\<rparr>))"

definition set_reward :: "string \<Rightarrow> string \<Rightarrow> database \<Rightarrow> database" where
  "set_reward i s d = d\<lparr>rewards := update_where (\<lambda>r. rr_id r = i) (\<lambda>r. r\<lparr>rr_status := s\<rparr>) (rewards d)\<rparr>"

definition reward_message :: "user \<Rightarrow> json" where
  "reward_message referee = JStr (u_email referee @ '' just made their first payment using your referral link!'')"

text \<open>The steps of the function: the flagged row, the pending row, the mint with its outcome, and the notifications.\<close>

definition flag_reward :: "string \<Rightarrow> string \<Rightarrow> string \<Rightarrow> string \<Rightarrow> (world, unit) proc" where
  "flag_reward uuid referrerId refereeId paymentId =
     catch (execE (\<lambda>w. insert_reward \<lparr>rr_id = uuid, rr_referrer = referrerId, rr_referee = refereeId, rr_amount = 0,
         rr_status = ''flagged'', rr_payment = paymentId, rr_created = now w\<rparr> (Fin 0) (db w)))
       (\<lambda>e. if err_code e = Some ''23505'' then ret () else throw e)"

definition pend_reward :: "jsnum \<Rightarrow> string \<Rightarrow> string \<Rightarrow> string \<Rightarrow> string \<Rightarrow> (world, bool) proc" where
  "pend_reward tokens uuid referrerId refereeId paymentId =
     catch (andThen (execE (\<lambda>w. insert_reward \<lparr>rr_id = uuid, rr_referrer = referrerId, rr_referee = refereeId, rr_amount = 0,
         rr_status = ''pending'', rr_payment = paymentId, rr_created = now w\<rparr> tokens (db w))) (ret True))
       (\<lambda>e. if err_code e = Some ''23505'' then ret False else throw e)"

definition mint_reward :: "loyalty_env \<Rightarrow> soroban \<Rightarrow> jsnum \<Rightarrow> string \<Rightarrow> string \<Rightarrow> (world, bool) proc" where
  "mint_reward env rpc tokens uuid referrerId =
     catch (andThen
         (bnd (select (\<lambda>w. find (\<lambda>k. w_user k = referrerId) (wallets (db w)))) (\<lambda>wal. case wal of
            None \<Rightarrow> ret ()
          | Some k \<Rightarrow> bnd (mintPoints env rpc (w_public_key k) tokens) (\<lambda>_. ret ())))
         (andThen (exec (\<lambda>w. set_reward uuid ''credited'' (db w))) (ret True)))
       (\<lambda>e. andThen (exec (\<lambda>w. set_reward uuid ''failed'' (db w))) (ret False))"

definition notify_referrer :: "string \<Rightarrow> user \<Rightarrow> (world, unit) proc" where
  "notify_referrer referrerId referee =
     andThen (ignore (andThen tick (emit (Notification referrerId ''referral_reward_earned'' (reward_message referee)))))
       (emit (Push referrerId (reward_message referee)))"

definition creditReferralReward :: "loyalty_env \<Rightarrow> soroban \<Rightarrow> jsnum \<Rightarrow> string \<Rightarrow> string \<Rightarrow> string \<Rightarrow> (world, unit) proc" where
  "creditReferralReward env rpc tokens uuid refereeId paymentId =
     bnd (select (\<lambda>w. referrer_of (db w) refereeId)) (\<lambda>row. case row of
       None \<Rightarrow> ret ()
     | Some (referrer, referee) \<Rightarrow> bnd (detectReferralAbuse (u_id referrer) refereeId) (\<lambda>reason. case reason of
         Some _ \<Rightarrow> flag_reward uuid (u_id referrer) refereeId paymentId
       | None \<Rightarrow> bnd (pend_reward tokens uuid (u_id referrer) refereeId paymentId) (\<lambda>inserted.
           if \<not> inserted then ret ()
           else bnd (mint_reward env rpc tokens uuid (u_id referrer)) (\<lambda>credited.
             if credited then notify_referrer (u_id referrer) referee else ret ()))))"

section \<open>Fee credits and listings\<close>

definition REFERRAL_EXPIRY_DAYS :: int where "REFERRAL_EXPIRY_DAYS = 90"

definition awardReferralCredit :: "int \<Rightarrow> string \<Rightarrow> (world, unit) proc" where
  "awardReferralCredit bps refereeId =
     bnd (select (\<lambda>w. referrer_of (db w) refereeId)) (\<lambda>row. case row of
       None \<Rightarrow> ret ()
     | Some (referrer, referee) \<Rightarrow> bnd (detectReferralAbuse (u_id referrer) refereeId) (\<lambda>reason. case reason of
         Some _ \<Rightarrow> ret ()
       | None \<Rightarrow> bnd (select (\<lambda>w. list_ex (\<lambda>c. rc_referred c = refereeId) (credits (db w)))) (\<lambda>existing.
           if existing then ret ()
           else exec (\<lambda>w. (db w)\<lparr>credits := credits (db w) @ [\<lparr>rc_user = u_id referrer, rc_referred = refereeId, rc_bps = bps, rc_used = False,
             rc_expires = now w + REFERRAL_EXPIRY_DAYS * 24 * 60 * 60 * 1000\<rparr>]\<rparr>))))"

definition awardReferralCreditHandler :: "int \<Rightarrow> string \<Rightarrow> (world, outcome) proc" where
  "awardReferralCreditHandler bps refereeId = handler (
     if refereeId = [] then ret (Reply 400 (jerr ''referred_user_id is required''))
     else andThen (awardReferralCredit bps refereeId) (ret (Reply 200 (JObj [(''success'', JBool True)]))))"

definition jint :: "int \<Rightarrow> json" where
  "jint n = JNum (Fin (of_int n))"

definition getStats :: "int \<Rightarrow> string \<Rightarrow> (world, outcome) proc" where
  "getStats bps uid = handler (
     bnd (select (\<lambda>w. user_by_id (db w) uid)) (\<lambda>row. let code = (case row of None \<Rightarrow> None | Some u \<Rightarrow> u_referral_code u) in
     bnd (select (\<lambda>w. length (filter (\<lambda>u. u_referred_by u = Some (case code of None \<Rightarrow> [] | Some c \<Rightarrow> c)) (users (db w))))) (\<lambda>count.
     bnd (select (\<lambda>w. let cs = filter (\<lambda>c. rc_user c = uid) (credits (db w)) in
       (sum_list (map rc_bps cs), length (filter (\<lambda>c. \<not> rc_used c \<and> now w < rc_expires c) cs)))) (\<lambda>(bps_sum, active).
     bnd (select (\<lambda>w. let rs = filter (\<lambda>r. rr_referrer r = uid \<and> rr_status r = ''credited'') (rewards (db w)) in
       (length rs, sum_list (map rr_amount rs)))) (\<lambda>(completed, earned).
       ret (Reply 200 (JObj ((case row of None \<Rightarrow> [] | Some u \<Rightarrow> [(''referral_code'', case code of None \<Rightarrow> JNull | Some c \<Rightarrow> JStr c)]) @
         [(''referral_count'', jint (int count)), (''total_credits_bps'', jint bps_sum), (''active_credits'', jint (int active)),
          (''credit_per_referral_bps'', jint bps), (''first_payments_completed'', jint (int completed)), (''total_rewards_earned'', jint earned)]))))))))"

text \<open>The reward of one referred user, as a listing shows it; \<open>created\<close> is the column \<open>created_at\<close> of the users.\<close>

definition referral_entry :: "(user \<Rightarrow> int) \<Rightarrow> user \<Rightarrow> referral_reward option \<Rightarrow> json" where
  "referral_entry created u reward = JObj [(''referral_id'', JStr (u_id u)), (''email'', JStr (u_email u)), (''referred_at'', jint (created u)),
     (''reward_status'', JStr (case reward of None \<Rightarrow> ''ineligible'' | Some r \<Rightarrow> rr_status r)),
     (''reward_amount'', case reward of None \<Rightarrow> JNull | Some r \<Rightarrow> jint (rr_amount r)),
     (''reward_claimed_at'', case reward of None \<Rightarrow> JNull | Some r \<Rightarrow> jint (rr_created r))]"

fun reward_details :: "user list \<Rightarrow> (world, (user \<times> referral_reward option) list) proc" where
  "reward_details [] = ret []"
| "reward_details (u # us) = bnd (select (\<lambda>w. find (\<lambda>r. rr_referee r = u_id u) (rewards (db w)))) (\<lambda>r.
     bnd (reward_details us) (\<lambda>rs. ret ((u, r) # rs)))"

definition getReferralDetails :: "(user \<Rightarrow> int) \<Rightarrow> string \<Rightarrow> (world, outcome) proc" where
  "getReferralDetails created uid = handler (
     bnd (select (\<lambda>w. case user_by_id (db w) uid of None \<Rightarrow> [] | Some me \<Rightarrow> (case u_referral_code me of None \<Rightarrow> []
       | Some code \<Rightarrow> sort_key (\<lambda>u. - created u) (filter (\<lambda>u. u_referred_by u = Some code) (users (db w)))))) (\<lambda>referrals.
     bnd (reward_details referrals) (\<lambda>details.
       let with_status = (\<lambda>s. length (filter (\<lambda>(u, r). map_option rr_status r = Some s) details)) in
       ret (Reply 200 (JObj [(''referrals'', JArr (map (\<lambda>(u, r). referral_entry created u r) details)), (''total_referrals'', jint (int (length details))),
         (''pending_rewards'', jint (int (with_status ''pending''))), (''credited_rewards'', jint (int (with_status ''credited'')))])))))"

section \<open>What a clean verdict means\<close>

text \<open>The referrer of a user, and the chain of them.\<close>

definition parent_of :: "database \<Rightarrow> string \<Rightarrow> string option" where
  "parent_of d i = (case user_by_id d i of None \<Rightarrow> None
     | Some u \<Rightarrow> (case u_referred_by u of None \<Rightarrow> None | Some code \<Rightarrow> if code = [] then None else map_option u_id (user_of_code d code)))"

fun ancestor :: "database \<Rightarrow> nat \<Rightarrow> string \<Rightarrow> string option" where
  "ancestor d 0 i = Some i"
| "ancestor d (Suc n) i = (case parent_of d i of None \<Rightarrow> None | Some p \<Rightarrow> if p = [] then None else ancestor d n p)"

lemma wp_walk:
  "wp (walk n i visited referee) (\<lambda>r v. db v = db w \<and> chain_log v = chain_log w \<and> (r = None \<longrightarrow> (\<forall>k<n. ancestor (db w) (Suc k) i = Some referee \<longrightarrow> referee = [])))
    (\<lambda>_ v. db v = db w \<and> chain_log v = chain_log w) v"
  if "db v = db w" "chain_log v = chain_log w"
  using that
proof (induction n arbitrary: i visited v)
  case (Suc n)
  have split_k: "(\<forall>k<Suc n. ancestor (db w) (Suc k) i = Some referee \<longrightarrow> referee = [])
      \<longleftrightarrow> (case parent_of (db w) i of None \<Rightarrow> True | Some p \<Rightarrow> p = [] \<or> (p = referee \<longrightarrow> referee = []) \<and> (\<forall>k<n. ancestor (db w) (Suc k) p = Some referee \<longrightarrow> referee = []))"
    by (auto simp: less_Suc_eq_0_disj simp del: ancestor.simps(2) split: option.split) (auto split: option.splits if_splits)
  show ?case
    using Suc.prems Suc.IH by (auto simp: wps split_k parent_of_def simp del: ancestor.simps intro!: wp_mono [OF Suc.IH] split: option.split)
qed (simp add: wps)

definition clean :: "database \<Rightarrow> string \<Rightarrow> string \<Rightarrow> bool" where
  "clean d referrer referee \<longleftrightarrow> referrer \<noteq> referee \<and> \<not> same_identity d referrer referee \<and> (\<forall>k < MAX_REFERRAL_CHAIN_DEPTH. ancestor d (Suc k) referrer \<noteq> Some referee)"

lemma wp_detect:
  assumes "referee \<noteq> []" and "referrer \<noteq> []"
    and "\<And>r v. db v = db w \<Longrightarrow> chain_log v = chain_log w \<Longrightarrow> r = None \<longrightarrow> clean (db w) referrer referee \<Longrightarrow> Q r v"
    and "\<And>e v. db v = db w \<Longrightarrow> chain_log v = chain_log w \<Longrightarrow> E e v"
  shows "wp (detectReferralAbuse referrer referee) Q E w"
  unfolding detectReferralAbuse_def
  using assms(1,2) by (auto simp: wps clean_def intro!: assms(3,4) wp_mono [OF wp_walk [where w = w]])

section \<open>Histories\<close>

definition kept :: "referral_reward \<Rightarrow> bool" where
  "kept r \<longleftrightarrow> rr_status r \<noteq> ''flagged''"

definition reward_ok :: "referral_reward \<Rightarrow> bool" where
  "reward_ok r \<longleftrightarrow> rr_status r \<in> {''pending'', ''credited'', ''failed'', ''flagged''} \<and> (if kept r then rr_referrer r \<noteq> rr_referee r else rr_amount r = 0)"

definition rewards_ok :: "nat \<Rightarrow> database \<Rightarrow> chain_call list \<Rightarrow> bool" where
  "rewards_ok k d calls \<longleftrightarrow> distinct (map rr_id (rewards d)) \<and> distinct (map rr_referee (rewards d)) \<and> distinct (map rr_payment (rewards d)) \<and>
     list_all reward_ok (rewards d) \<and> mints calls + k \<le> length (filter kept (rewards d))"

inductive reward_run :: "world \<Rightarrow> bool" where
  Start: "rewards (db w) = [] \<Longrightarrow> chain_log w = [] \<Longrightarrow> reward_run w"
| Credit: "reward_run w \<Longrightarrow> list_all (\<lambda>u. u_id u \<noteq> []) (users (db w)) \<Longrightarrow> creditReferralReward env rpc tokens uuid refereeId paymentId w = (r, w') \<Longrightarrow> reward_run w'"
| Award: "reward_run w \<Longrightarrow> awardReferralCreditHandler bps refereeId w = (r', w') \<Longrightarrow> reward_run w'"
| Other: "reward_run w \<Longrightarrow> rewards (db v) = rewards (db w) \<Longrightarrow> chain_log v = chain_log w \<Longrightarrow> reward_run v"

lemma referrer_of_Some:
  assumes "referrer_of d i = Some (u, v)"
  shows "u \<in> set (users d)" and "v \<in> set (users d)" and "u_id v = i"
  using assms by (auto simp: referrer_of_def user_by_id_def user_of_code_def find_Some_iff split: option.splits)

lemma insert_reward_Some:
  assumes "insert_reward r amt d = Inr d'"
  obtains n where "pg_integer amt = Inr n" "d' = d\<lparr>rewards := rewards d @ [r\<lparr>rr_amount := n\<rparr>]\<rparr>" "rr_id r \<notin> set (map rr_id (rewards d))"
    "rr_referee r \<notin> set (map rr_referee (rewards d))" "rr_payment r \<notin> set (map rr_payment (rewards d))"
proof -
  have "rr_id r \<notin> set (map rr_id (rewards d)) \<and> rr_referee r \<notin> set (map rr_referee (rewards d)) \<and> rr_payment r \<notin> set (map rr_payment (rewards d))"
    using assms by (force simp: insert_reward_def list_ex_iff split: sum.splits if_splits)
  moreover obtain n where "pg_integer amt = Inr n" "d' = d\<lparr>rewards := rewards d @ [r\<lparr>rr_amount := n\<rparr>]\<rparr>"
    using assms by (auto simp: insert_reward_def split: sum.splits if_splits)
  ultimately show ?thesis using that by blast
qed

lemma rewards_flagged:
  assumes "rewards_ok 0 d calls" and "insert_reward r (Fin 0) d = Inr d'" and "rr_status r = ''flagged''"
  shows "rewards_ok 0 d' calls"
  by (rule insert_reward_Some [OF assms(2)]) (use assms(1,3) in \<open>auto simp: rewards_ok_def reward_ok_def kept_def pg_integer_def\<close>)

text \<open>The row of a reward under way: one mint may still come.\<close>

definition issued :: "nat \<Rightarrow> string \<Rightarrow> database \<Rightarrow> chain_call list \<Rightarrow> bool" where
  "issued k i d calls \<longleftrightarrow> rewards_ok k d calls \<and> (\<exists>r \<in> set (rewards d). rr_id r = i \<and> kept r)"

lemma rewards_pending:
  assumes "rewards_ok 0 d calls" and "insert_reward r tokens d = Inr d'" and "rr_status r = ''pending''" and "rr_referrer r \<noteq> rr_referee r"
  shows "issued 1 (rr_id r) d' calls"
  by (rule insert_reward_Some [OF assms(2)]) (use assms(1,3,4) in \<open>auto simp: issued_def rewards_ok_def reward_ok_def kept_def\<close>)

lemma issued_set:
  assumes "issued k i d calls" and "s = ''credited'' \<or> s = ''failed''"
  shows "issued k i (set_reward i s d) calls"
proof -
  let ?f = "\<lambda>r. r\<lparr>rr_status := s\<rparr>"
  obtain r where r: "r \<in> set (rewards d)" "rr_id r = i" "kept r" and ok: "rewards_ok k d calls" using assms(1) by (auto simp: issued_def)
  have f: "kept (?f r)" "reward_ok (?f r)" using r ok assms(2) by (auto simp: rewards_ok_def list_all_iff reward_ok_def kept_def)
  have ids: "distinct (map rr_id (rewards d))" "list_all reward_ok (rewards d)" using ok by (simp_all add: rewards_ok_def)
  have same: "map g (rewards (set_reward i s d)) = map g (rewards d)" if "\<And>x. g (?f x) = g x" for g :: "referral_reward \<Rightarrow> string"
    unfolding set_reward_def by (rule reward_table.update_column) (rule that)
  have count: "length (filter kept (rewards (set_reward i s d))) = length (filter kept (rewards d))"
  proof -
    have "kept (?f x) = kept x" if "x \<in> set (rewards d)" "rr_id x = i" for x
      using reward_table.unique [OF ids(1) that(1) r(1)] that(2) r f(1) by simp
    then show ?thesis by (simp add: set_reward_def length_filter_update_where)
  qed
  have "list_all reward_ok (rewards (set_reward i s d))" and new: "?f r \<in> set (rewards (set_reward i s d))"
    unfolding set_reward_def by (rule reward_table.update_keeps [where P = reward_ok and r = r and f = ?f, OF ids r(1,2) f(2)])+
  then have "rewards_ok k (set_reward i s d) calls" using ok by (simp add: rewards_ok_def same count)
  moreover have "\<exists>x \<in> set (rewards (set_reward i s d)). rr_id x = i \<and> kept x"
    using new r(2) f(1) by (intro bexI [OF _ new]) simp
  ultimately show ?thesis by (simp only: issued_def)
qed

lemma issued_minted: "issued 1 i d calls \<Longrightarrow> issued 0 i d (calls @ [MintPoints key wlt n])"
  by (auto simp: issued_def rewards_ok_def mints_def is_mint_def)

lemma issued_rewards: "issued k i d calls \<Longrightarrow> rewards_ok 0 d calls"
  by (simp add: issued_def rewards_ok_def)

lemma issued_le: "issued k i d calls \<Longrightarrow> n \<le> k \<Longrightarrow> issued n i d calls"
  by (simp add: issued_def rewards_ok_def)

section \<open>Every operation keeps the rewards\<close>

lemma wp_flag_reward:
  "rewards_ok 0 (db w) (chain_log w) \<Longrightarrow>
   wp (flag_reward uuid a b paymentId) (\<lambda>_ v. rewards_ok 0 (db v) (chain_log v)) (\<lambda>_ v. rewards_ok 0 (db v) (chain_log v)) w"
  by (auto simp: flag_reward_def wps intro: rewards_flagged split: sum.split)

lemma wp_pend_reward:
  assumes "rewards_ok 0 (db w) (chain_log w)" and "a \<noteq> b"
  shows "wp (pend_reward tokens uuid a b paymentId) (\<lambda>i v. if i then issued 1 uuid (db v) (chain_log v) else rewards_ok 0 (db v) (chain_log v))
    (\<lambda>_ v. rewards_ok 0 (db v) (chain_log v)) w"
proof -
  have "issued 1 uuid d (chain_log w)" if "insert_reward \<lparr>rr_id = uuid, rr_referrer = a, rr_referee = b, rr_amount = 0, rr_status = ''pending'',
      rr_payment = paymentId, rr_created = t\<rparr> tokens (db w) = Inr d" for d t
    using rewards_pending [OF assms(1) that] assms(2) by simp
  then show ?thesis using assms(1) by (auto simp: pend_reward_def wps split: sum.split)
qed

lemma wp_mint_issued:
  "issued 1 i (db w) (chain_log w) \<Longrightarrow>
   wp (mintPoints env rpc pk tokens) (\<lambda>_ v. issued 0 i (db v) (chain_log v)) (\<lambda>_ v. issued 0 i (db v) (chain_log v)) w"
  unfolding mintPoints_def
  by (auto simp: wps intro!: wp_submitCall_any intro: issued_minted [simplified] issued_le split: sum.split)

lemma wp_mint_reward:
  assumes "issued 1 uuid (db w) (chain_log w)"
  shows "wp (mint_reward env rpc tokens uuid a) (\<lambda>_ v. rewards_ok 0 (db v) (chain_log v)) (\<lambda>_ v. rewards_ok 0 (db v) (chain_log v)) w"
proof -
  have "issued 0 uuid (db w) (chain_log w)" using assms by (rule issued_le) simp
  then show ?thesis unfolding mint_reward_def
    using assms by (auto simp: wps intro: issued_rewards issued_set intro!: wp_mono [OF wp_mint_issued] split: option.split)
qed

lemma wp_creditReferralReward:
  assumes ok: "rewards_ok 0 (db w) (chain_log w)" and ids: "list_all (\<lambda>u. u_id u \<noteq> []) (users (db w))"
  shows "wp (creditReferralReward env rpc tokens uuid refereeId paymentId) (\<lambda>_ v. rewards_ok 0 (db v) (chain_log v)) (\<lambda>_ v. rewards_ok 0 (db v) (chain_log v)) w"
    (is "wp _ (\<lambda>_. ?R) (\<lambda>_. ?R) w")
proof -
  have notify: "wp (notify_referrer a u) (\<lambda>_. ?R) (\<lambda>_. ?R) v" if "?R v" for a u v
    using that by (simp add: notify_referrer_def wps)
  have pay: "wp (bnd (pend_reward tokens uuid a refereeId paymentId) (\<lambda>inserted. if \<not> inserted then ret ()
      else bnd (mint_reward env rpc tokens uuid a) (\<lambda>credited. if credited then notify_referrer a u else ret ()))) (\<lambda>_. ?R) (\<lambda>_. ?R) v"
    if "?R v" "a \<noteq> refereeId" for a u v
    unfolding wp_bnd by (rule wp_mono [OF wp_pend_reward [OF that]]) (auto simp: wps intro!: wp_mono [OF wp_mint_reward] notify split: if_splits)
  have "wp (detectReferralAbuse (u_id u) refereeId) (\<lambda>reason. wp (case reason of
         Some _ \<Rightarrow> flag_reward uuid (u_id u) refereeId paymentId
       | None \<Rightarrow> bnd (pend_reward tokens uuid (u_id u) refereeId paymentId) (\<lambda>inserted. if \<not> inserted then ret ()
           else bnd (mint_reward env rpc tokens uuid (u_id u)) (\<lambda>credited. if credited then notify_referrer (u_id u) v else ret ()))) (\<lambda>_. ?R) (\<lambda>_. ?R)) (\<lambda>_. ?R) (ticked w)"
    if r: "referrer_of (db w) refereeId = Some (u, v)" for u v
  proof (rule wp_detect)
    show "refereeId \<noteq> []" "u_id u \<noteq> []" using referrer_of_Some [OF r] ids by (auto simp: list_all_iff)
  next
    fix reason and x :: world
    assume "db x = db (ticked w)" "chain_log x = chain_log (ticked w)" "reason = None \<longrightarrow> clean (db (ticked w)) (u_id u) refereeId"
    then show "wp (case reason of Some _ \<Rightarrow> flag_reward uuid (u_id u) refereeId paymentId
       | None \<Rightarrow> bnd (pend_reward tokens uuid (u_id u) refereeId paymentId) (\<lambda>inserted. if \<not> inserted then ret ()
           else bnd (mint_reward env rpc tokens uuid (u_id u)) (\<lambda>credited. if credited then notify_referrer (u_id u) v else ret ()))) (\<lambda>_. ?R) (\<lambda>_. ?R) x"
      using ok pay [of x "u_id u" v] wp_flag_reward [of x uuid "u_id u" refereeId paymentId] by (cases reason) (simp_all add: clean_def)
  qed (use ok in simp)
  then show ?thesis unfolding creditReferralReward_def wp_bnd wp_select using ok
    by (auto simp only: wp_case_option wp_case_prod wp_bnd ticked_sel wp_ret if_cancel split: option.split)
qed

lemma wp_award_keeps:
  "wp (awardReferralCreditHandler bps refereeId) (\<lambda>_ v. rewards (db v) = rewards (db w) \<and> chain_log v = chain_log w)
     (\<lambda>_ v. rewards (db v) = rewards (db w) \<and> chain_log v = chain_log w) w"
proof -
  have "wp (detectReferralAbuse a b) (\<lambda>_ v. db v = db u \<and> chain_log v = chain_log u) (\<lambda>_ v. db v = db u \<and> chain_log v = chain_log u) u" for a b u
    unfolding detectReferralAbuse_def by (auto simp: wps intro!: wp_mono [OF wp_walk [where w = u]])
  note detect = wp_mono [OF this]
  show ?thesis unfolding awardReferralCreditHandler_def awardReferralCredit_def
    by (auto simp: wps intro!: detect split: option.split)
qed

lemma run_rewards: "reward_run w \<Longrightarrow> rewards_ok 0 (db w) (chain_log w)"
proof (induction rule: reward_run.induct)
  case (Credit w env rpc tokens uuid refereeId paymentId r w')
  then show ?case using wp_creditReferralReward [of w env rpc tokens uuid refereeId paymentId] by (simp add: wp_snd)
next
  case (Award w bps refereeId r w')
  then show ?case using wp_award_keeps [of bps refereeId w] by (simp add: wp_snd rewards_ok_def)
qed (simp_all add: rewards_ok_def mints_def)

section \<open>Properties\<close>


definition sample_user :: "string \<Rightarrow> string option \<Rightarrow> string option \<Rightarrow> user" where
  "sample_user i code by = \<lparr>u_id = i, u_email = i, u_full_name = i, u_role = ''user'', u_kyc_status = ''verified'', u_kyc_identity = None, u_kyc_submitted = None,
     u_kyc_expiry = None, u_kyc_reminders = [], u_phone_verified = True, u_suspended = False, u_suspension_reason = None, u_referral_code = code, u_referred_by = by\<rparr>"

definition sample_referral :: world where
  "sample_referral = init_world\<lparr>db := empty_db\<lparr>users := [sample_user ''a'' (Some ''CODEA'') None, sample_user ''b'' None (Some ''CODEA'')],
     wallets := [\<lparr>w_id = ''w1'', w_user = ''a'', w_public_key = ''GA'', w_secret = ''k'', w_default = True, w_created = 0\<rparr>],
     transactions := [\<lparr>t_id = ''t1'', t_sender = ''GB'', t_recipient = ''GR'', t_amount = 10000000, t_asset = ''XLM'', t_status = ''completed'', t_created = 0, t_fee_amount = 0\<rparr>]\<rparr>\<rparr>"


text \<open>
  a clean verdict of the abuse check excludes what the check is for: the two accounts differ, do not share the three identity signals, and the
  referee is none of the first twenty referrers above the one to be rewarded, whatever fails on the way.
\<close>

theorem clean_verdict:
  assumes "detectReferralAbuse referrer referee w = (Inr None, w')" and "referrer \<noteq> []" and "referee \<noteq> []"
  shows "referrer \<noteq> referee \<and> \<not> same_identity (db w) referrer referee \<and>
    (\<forall>k < MAX_REFERRAL_CHAIN_DEPTH. ancestor (db w) (Suc k) referrer \<noteq> Some referee)"
proof -
  have "wp (detectReferralAbuse referrer referee) (\<lambda>r _. r = None \<longrightarrow> clean (db w) referrer referee) (\<lambda>_ _. True) w"
    using assms(2,3) by (intro wp_detect) simp_all
  from wp_run [OF this assms(1)] show ?thesis by (simp add: clean_def)
qed

lemma clean_verdict_witness:
  "''a'' \<noteq> ''b'' \<and> \<not> same_identity (db sample_referral) ''a'' ''b'' \<and> ancestor (db sample_referral) 5 ''a'' \<noteq> Some ''b''"
proof -
  have "fst (detectReferralAbuse ''a'' ''b'' sample_referral) = Inr None" by code_simp
  then have "detectReferralAbuse ''a'' ''b'' sample_referral = (Inr None, snd (detectReferralAbuse ''a'' ''b'' sample_referral))"
    by (metis prod.collapse)
  from clean_verdict [OF this] show ?thesis
    by (auto simp: MAX_REFERRAL_CHAIN_DEPTH_def simp del: ancestor.simps dest: spec [of _ "4 :: nat"])
qed

end
