(* ===== verification/Accounts.thy ===== *)
theory Accounts
  imports Access
begin

text \<open>
  Signing in (\<^verbatim>\<open>controllers/authController.js\<close>, \<^verbatim>\<open>services/twofa.js\<close>, \<^verbatim>\<open>services/pin.js\<close>): the password, the second factor, the
  PIN, and the lockout they share. The record \<open>auth_env\<close> holds what the code asks of Node's \<open>crypto\<close>, of \<open>bcryptjs\<close>,
  \<open>speakeasy\<close> and \<open>jsonwebtoken\<close>; the random values a request draws are the record \<open>draws\<close>. The sessions table of
  \<open>recordSession\<close>, whose failures the callers drop, is left out, and so is the e-mail in the claims of an access token.
\<close>

record auth_env =
  sha256 :: "string \<Rightarrow> string"
  hmac_sha256 :: "string \<Rightarrow> string \<Rightarrow> string"
  bcrypt_hash :: "string \<Rightarrow> string \<Rightarrow> string"
  bcrypt_compare :: "string \<Rightarrow> string \<Rightarrow> bool"
  totp_verify :: "string option \<Rightarrow> string \<Rightarrow> int \<Rightarrow> bool"
  jwt_verify :: verifier
  jwt_sign :: "claims \<Rightarrow> string"
  seal :: "string \<Rightarrow> string"
  unseal :: "string \<Rightarrow> jserr + string"
  jwt_secret :: string
  access_ttl_s :: int
  refresh_ttl_ms :: int

record draws =
  dr_raw :: string
  dr_id :: string
  dr_id2 :: string
  dr_family :: string
  dr_jti :: string
  dr_nonce :: string
  dr_salt :: string

section \<open>Lockout\<close>

definition LOCKOUT_DURATION_MINUTES :: int where "LOCKOUT_DURATION_MINUTES = 15"
definition MAX_FAILED_ATTEMPTS :: nat where "MAX_FAILED_ATTEMPTS = 5"
definition ATTEMPT_WINDOW_MINUTES :: int where "ATTEMPT_WINDOW_MINUTES = 15"

text \<open>\<open>UPDATE users SET ... WHERE id = uid\<close>: without such a row nothing changes.\<close>

definition set_login :: "string \<Rightarrow> (login_cols \<Rightarrow> login_cols) \<Rightarrow> database \<Rightarrow> database" where
  "set_login uid f d = (if user_by_id d uid = None then d else d\<lparr>logins := (logins d)(uid := f (logins d uid))\<rparr>)"

definition bump :: "int \<Rightarrow> login_cols \<Rightarrow> login_cols" where
  "bump t c = (let n = (case lg_last_failed c of None \<Rightarrow> 1
        | Some l \<Rightarrow> if t - l > ATTEMPT_WINDOW_MINUTES * 60 * 1000 then 1 else lg_failed c + 1)
     in c\<lparr>lg_failed := n, lg_last_failed := Some t,
          lg_locked := if MAX_FAILED_ATTEMPTS \<le> n then Some (t + LOCKOUT_DURATION_MINUTES * 60 * 1000) else lg_locked c\<rparr>)"

definition clear_failures :: "login_cols \<Rightarrow> login_cols" where
  "clear_failures c = c\<lparr>lg_failed := 0, lg_last_failed := None, lg_locked := None\<rparr>"

definition locked :: "int \<Rightarrow> login_cols \<Rightarrow> bool" where
  "locked t c = (case lg_locked c of Some x \<Rightarrow> t < x | None \<Rightarrow> False)"

definition nat_json :: "nat \<Rightarrow> json" where
  "nat_json n = JNum (Fin (of_nat n))"

text \<open>The update with its \<open>RETURNING\<close>.\<close>

definition bump_login :: "string \<Rightarrow> (world, login_cols option) proc" where
  "bump_login uid = andThen (exec (\<lambda>w. set_login uid (bump (now w)) (db w)))
     (gets (\<lambda>w. if user_by_id (db w) uid = None then None else Some (logins (db w) uid)))"

definition recordFailedAuthAttempt :: "string \<Rightarrow> string \<Rightarrow> (world, login_cols option) proc" where
  "recordFailedAuthAttempt uid reason = bnd (bump_login uid) (\<lambda>updated. case updated of
     None \<Rightarrow> ret None
   | Some c \<Rightarrow> andThen (audit_log (Some uid) ''login_failure'' (JObj [(''failed_attempts'', nat_json (lg_failed c)),
         (''attempts_remaining'', nat_json (MAX_FAILED_ATTEMPTS - lg_failed c)), (''reason'', JStr reason)])) (ret (Some c)))"

definition account_locked :: "string \<Rightarrow> int \<Rightarrow> outcome" where
  "account_locked why x = Reply 423 (JObj [(''error'', JStr (why @ toISOString x)), (''locked_until'', JStr (toISOString x))])"

definition too_many :: string where
  "too_many = ''Account locked due to too many failed login attempts. Try again after ''"

section \<open>Logging in\<close>

record login_req =
  lq_email :: string
  lq_password :: string
  lq_totp :: "string option"
  lq_backup :: "string option"
  lq_remember :: bool
  lq_device :: "string option"

definition given :: "string option \<Rightarrow> bool" where
  "given v = (v \<noteq> None \<and> v \<noteq> Some [])"

text \<open>The row of the login query: the user, and the key of the first wallet joined to it.\<close>

definition login_row :: "database \<Rightarrow> string \<Rightarrow> (user \<times> login_cols \<times> string option) option" where
  "login_row d email = map_option (\<lambda>u. (u, logins d (u_id u), first_row (wallets_of d (u_id u))))
     (find (\<lambda>u. u_email u = email) (users d))"

definition suspended_login :: "user \<Rightarrow> outcome" where
  "suspended_login u = (let m = ''Your account has been suspended. Please contact support.'' in
     Reply 403 (JObj [(''error'', JStr ''Account suspended''),
       (''reason'', JStr (case u_suspension_reason u of Some r \<Rightarrow> if r = [] then m else r | None \<Rightarrow> m)),
       (''code'', JStr ''ACCOUNT_SUSPENDED'')]))"

definition wrong_password :: "string \<Rightarrow> (world, outcome) proc" where
  "wrong_password uid = bnd (bump_login uid) (\<lambda>updated. case updated of
     None \<Rightarrow> throw (typeError ''Cannot read properties of undefined'')
   | Some c \<Rightarrow> bnd (gets now) (\<lambda>t.
     if locked t c then andThen (audit_log (Some uid) ''account_locked'' (JObj [(''reason'', JStr ''excessive_failed_login_attempts''),
            (''attempts'', nat_json (lg_failed c)), (''locked_until'', JStr (toISOString (the (lg_locked c))))]))
          (ret (account_locked too_many (the (lg_locked c))))
     else andThen (audit_log (Some uid) ''login_failure'' (JObj [(''failed_attempts'', nat_json (lg_failed c)),
            (''attempts_remaining'', JNum (Fin (of_int (int MAX_FAILED_ATTEMPTS - int (lg_failed c)))))]))
          (ret (Reply 401 (jerr ''Invalid email or password'')))))"

text \<open>A backup code: the first unused row it matches is marked as used.\<close>

definition unused_codes :: "database \<Rightarrow> string \<Rightarrow> backup_row list" where
  "unused_codes d uid = filter (\<lambda>r. bk_user r = uid \<and> bk_used r = None) (backup_rows d)"

definition match_code :: "auth_env \<Rightarrow> string \<Rightarrow> backup_row list \<Rightarrow> string option" where
  "match_code env code rs = map_option bk_id (find (\<lambda>r. bcrypt_compare env code (bk_hash r)) rs)"

definition refused_code :: "string \<Rightarrow> (world, outcome option) proc" where
  "refused_code uid = bnd (recordFailedAuthAttempt uid ''invalid_2fa'') (\<lambda>failed. bnd (gets now) (\<lambda>t.
     ret (Some (case failed of Some c \<Rightarrow> if locked t c then account_locked too_many (the (lg_locked c)) else Reply 401 (jerr ''Invalid backup code'')
        | None \<Rightarrow> Reply 401 (jerr ''Invalid backup code'')))))"

definition use_code :: "string \<Rightarrow> int \<Rightarrow> database \<Rightarrow> database" where
  "use_code i t d = d\<lparr>backup_rows := update_where (\<lambda>r. bk_id r = i) (\<lambda>r. if bk_used r = None then r\<lparr>bk_used := Some t\<rparr> else r) (backup_rows d)\<rparr>"

definition consume_code :: "string \<Rightarrow> (world, bool) proc" where
  "consume_code i = bnd (select (\<lambda>w. list_ex (\<lambda>r. bk_id r = i \<and> bk_used r = None) (backup_rows (db w)))) (\<lambda>hit.
     andThen (modify (\<lambda>w. w\<lparr>db := use_code i (now w) (db w)\<rparr>)) (ret hit))"

definition warn_codes :: "string \<Rightarrow> nat \<Rightarrow> (world, unit) proc" where
  "warn_codes uid n = (if n < 3 then bnd (select (\<lambda>w. user_by_id (db w) uid)) (\<lambda>row. case row of
        None \<Rightarrow> throw (typeError ''Cannot read properties of undefined'')
      | Some u \<Rightarrow> emit (Email (u_email u) ''backup_code_warning'' (nat_json n)))
     else ret ())"

text \<open>The answer that refuses the second factor, or \<open>None\<close>.\<close>

definition backup_factor :: "auth_env \<Rightarrow> string \<Rightarrow> string \<Rightarrow> (world, outcome option) proc" where
  "backup_factor env uid code = bnd (select (\<lambda>w. match_code env code (unused_codes (db w) uid))) (\<lambda>matched. case matched of
     None \<Rightarrow> refused_code uid
   | Some i \<Rightarrow> bnd (consume_code i) (\<lambda>consumed.
     if \<not> consumed then refused_code uid
     else bnd (select (\<lambda>w. length (unused_codes (db w) uid))) (\<lambda>n. andThen (warn_codes uid n) (ret None))))"

definition device_trusted :: "auth_env \<Rightarrow> int \<Rightarrow> string \<Rightarrow> string option \<Rightarrow> bool" where
  "device_trusted env t uid token = (case token of None \<Rightarrow> False
     | Some tok \<Rightarrow> tok \<noteq> [] \<and> (case verifyDeviceToken (jwt_verify env) t tok of Inl _ \<Rightarrow> False | Inr p \<Rightarrow> cl_user p = uid))"

definition totp_factor :: "auth_env \<Rightarrow> login_req \<Rightarrow> string \<Rightarrow> login_cols \<Rightarrow> (world, outcome option) proc" where
  "totp_factor env q uid c = bnd (gets now) (\<lambda>t. ret (
     if device_trusted env t uid (lq_device q) then None
     else if \<not> given (lq_totp q) then Some (Reply 401 (JObj [(''error'', JStr ''TOTP code required''), (''code'', JStr ''TOTP_REQUIRED''), (''requires_2fa'', JBool True)]))
     else if \<not> totp_verify env (lg_totp_secret c) (the (lq_totp q)) t then Some (Reply 401 (jerr ''Invalid TOTP code''))
     else None))"

definition second_factor :: "auth_env \<Rightarrow> login_req \<Rightarrow> string \<Rightarrow> login_cols \<Rightarrow> (world, outcome option) proc" where
  "second_factor env q uid c = (if \<not> lg_totp_enabled c then ret None
     else if given (lq_backup q) then backup_factor env uid (the (lq_backup q))
     else totp_factor env q uid c)"

section \<open>Tokens of a login\<close>

definition signAccessToken :: "auth_env \<Rightarrow> string \<Rightarrow> string \<Rightarrow> string \<Rightarrow> int \<Rightarrow> string" where
  "signAccessToken env uid role jti t = jwt_sign env \<lparr>cl_user = uid, cl_role = Some role, cl_wallet = None, cl_jti = Some jti,
     cl_purpose = None, cl_type = None, cl_sub = None, cl_exp = t div 1000 + access_ttl_s env\<rparr>"

definition signDeviceToken :: "auth_env \<Rightarrow> string \<Rightarrow> int \<Rightarrow> string" where
  "signDeviceToken env uid t = jwt_sign env \<lparr>cl_user = uid, cl_role = None, cl_wallet = None, cl_jti = None,
     cl_purpose = None, cl_type = Some ''device_trust'', cl_sub = None, cl_exp = t div 1000 + 30 * 24 * 60 * 60\<rparr>"

definition generateRefreshToken :: "auth_env \<Rightarrow> draws \<Rightarrow> string \<times> string" where
  "generateRefreshToken env rnd = (dr_raw rnd, sha256 env (dr_raw rnd))"

definition insert_refresh :: "refresh_row \<Rightarrow> database \<Rightarrow> jserr + database" where
  "insert_refresh r d = (if rf_hash r \<in> set (map rf_hash (refresh_rows d)) \<or> rf_id r \<in> set (map rf_id (refresh_rows d)) then Inl uniqueViolation
     else if user_by_id d (rf_user r) = None then Inl foreignKeyViolation
     else Inr (d\<lparr>refresh_rows := refresh_rows d @ [r]\<rparr>))"

definition new_refresh :: "auth_env \<Rightarrow> string \<Rightarrow> string \<Rightarrow> string \<Rightarrow> string \<Rightarrow> int \<Rightarrow> refresh_row" where
  "new_refresh env i uid hash family t = \<lparr>rf_id = i, rf_user = uid, rf_hash = hash, rf_expires = t + refresh_ttl_ms env,
     rf_family = family, rf_revoked = False, rf_revoked_at = None, rf_replaced = None\<rparr>"

text \<open>\<open>signCsrfToken\<close> with the nonce it draws; a missing family is the text \<open>undefined\<close>.\<close>

definition signCsrfToken :: "auth_env \<Rightarrow> string option \<Rightarrow> string \<Rightarrow> string" where
  "signCsrfToken env family nonce =
     nonce @ ''.'' @ hmac_sha256 env (jwt_secret env) ((case family of None \<Rightarrow> ''undefined'' | Some f \<Rightarrow> f) @ '':'' @ nonce)"

definition setCsrfCookie :: "auth_env \<Rightarrow> string option \<Rightarrow> string \<Rightarrow> (world, unit) proc" where
  "setCsrfCookie env family nonce = emit (Cookie ''csrf_token'' (signCsrfToken env family nonce))"

definition json_opt :: "string option \<Rightarrow> json" where
  "json_opt v = (case v of None \<Rightarrow> JNull | Some s \<Rightarrow> JStr s)"

definition login_answer :: "string \<Rightarrow> user \<Rightarrow> string option \<Rightarrow> bool \<Rightarrow> outcome" where
  "login_answer token u pk onboarded = Reply 200 (JObj [(''token'', JStr token), (''user'', JObj [(''id'', JStr (u_id u)),
     (''full_name'', JStr (u_full_name u)), (''email'', JStr (u_email u)), (''wallet_address'', json_opt pk),
     (''onboarding_completed'', JBool onboarded)])])"

definition grant_login :: "auth_env \<Rightarrow> draws \<Rightarrow> login_req \<Rightarrow> user \<Rightarrow> login_cols \<Rightarrow> string option \<Rightarrow> (world, outcome) proc" where
  "grant_login env rnd q u c pk =
     andThen (exec (\<lambda>w. set_login (u_id u) clear_failures (db w)))
     (bnd (gets now) (\<lambda>t. let token = signAccessToken env (u_id u) (u_role u) (dr_jti rnd) t; (raw, hash) = generateRefreshToken env rnd in
     andThen (execE (\<lambda>w. insert_refresh (new_refresh env (dr_id rnd) (u_id u) hash (dr_family rnd) (now w)) (db w)))
     (andThen (emit (Cookie ''refreshToken'' raw))
     (andThen (setCsrfCookie env None (dr_nonce rnd))
     (andThen (if lq_remember q then emit (Cookie ''deviceTrust'' (signDeviceToken env (u_id u) t)) else ret ())
     (andThen (setCsrfCookie env (Some (dr_family rnd)) (dr_nonce rnd))
     (andThen (audit_log (Some (u_id u)) ''login_success'' JNull)
       (ret (login_answer token u pk (lg_onboarded c))))))))))"

text \<open>The steps behind the lock, and the handler.\<close>

definition check_secrets :: "auth_env \<Rightarrow> draws \<Rightarrow> login_req \<Rightarrow> user \<times> login_cols \<times> string option \<Rightarrow> (world, outcome) proc" where
  "check_secrets env rnd q = (\<lambda>(u, c, pk).
     if \<not> bcrypt_compare env (lq_password q) (lg_password c) then wrong_password (u_id u)
     else if \<not> lg_email_verified c then ret (Reply 403 (jerr ''Please verify your email before logging in.''))
     else bnd (second_factor env q (u_id u) c) (\<lambda>refused. case refused of
        Some r \<Rightarrow> ret r
      | None \<Rightarrow> grant_login env rnd q u c pk))"

definition lift_lock :: "string \<Rightarrow> login_cols \<Rightarrow> (world, unit) proc" where
  "lift_lock uid c = (if lg_locked c = None then ret () else exec (\<lambda>w. set_login uid clear_failures (db w)))"

definition login :: "auth_env \<Rightarrow> draws \<Rightarrow> login_req \<Rightarrow> (world, outcome) proc" where
  "login env rnd q = handler (bnd (select (\<lambda>w. login_row (db w) (lq_email q))) (\<lambda>row. case row of
     None \<Rightarrow> ret (Reply 401 (jerr ''Invalid email or password''))
   | Some (u, c, pk) \<Rightarrow>
     if u_suspended u then ret (suspended_login u)
     else bnd (gets now) (\<lambda>t.
       if locked t c then ret (account_locked ''Account locked. Try again after '' (the (lg_locked c)))
       else andThen (lift_lock (u_id u) c) (check_secrets env rnd q (u, c, pk)))))"

section \<open>The PIN\<close>

text \<open>\<open>/^\d{4,6}$/\<close>, on a string.\<close>

definition validatePIN :: "string \<Rightarrow> bool" where
  "validatePIN pin = (4 \<le> length pin \<and> length pin \<le> 6 \<and> list_all is_digit pin)"

definition hashPIN :: "auth_env \<Rightarrow> string \<Rightarrow> string \<Rightarrow> jserr + string" where
  "hashPIN env salt pin = (if \<not> validatePIN pin then Inl (mkError ''PIN must be 4-6 digits'') else Inr (bcrypt_hash env salt pin))"

definition comparePIN :: "auth_env \<Rightarrow> string \<Rightarrow> string \<Rightarrow> bool" where
  "comparePIN env pin hash = (validatePIN pin \<and> bcrypt_compare env pin hash)"

definition setPIN :: "auth_env \<Rightarrow> draws \<Rightarrow> string \<Rightarrow> string \<Rightarrow> (world, outcome) proc" where
  "setPIN env rnd uid pin = handler (
     if \<not> validatePIN pin then ret (Reply 400 (jerr ''PIN must be 4-6 digits''))
     else bnd (lift (hashPIN env (dr_salt rnd) pin)) (\<lambda>h.
       andThen (exec (\<lambda>w. set_login uid (\<lambda>c. c\<lparr>lg_pin := Some h\<rparr>) (db w)))
         (ret (Reply 200 (JObj [(''message'', JStr ''PIN set successfully'')])))))"

definition pin_locked :: "int \<Rightarrow> outcome" where
  "pin_locked x = Reply 423 (JObj [(''error'', JStr ''Account locked. Try again later.''), (''locked_until'', JStr (toISOString x))])"

definition wrong_pin :: "string \<Rightarrow> (world, outcome) proc" where
  "wrong_pin uid = bnd (recordFailedAuthAttempt uid ''invalid_pin'') (\<lambda>failed. bnd (gets now) (\<lambda>t.
     ret (case failed of Some c \<Rightarrow> if locked t c then pin_locked (the (lg_locked c)) else Reply 401 (jerr ''Invalid PIN'')
       | None \<Rightarrow> Reply 401 (jerr ''Invalid PIN''))))"

definition verifyPIN :: "auth_env \<Rightarrow> draws \<Rightarrow> string \<Rightarrow> string \<Rightarrow> (world, outcome) proc" where
  "verifyPIN env rnd uid pin = handler (
     bnd (select (\<lambda>w. map_option (\<lambda>_. logins (db w) uid) (user_by_id (db w) uid))) (\<lambda>row. case row of
       None \<Rightarrow> ret (Reply 404 (jerr ''User not found''))
     | Some c \<Rightarrow> bnd (gets now) (\<lambda>t.
       if locked t c then ret (pin_locked (the (lg_locked c)))
       else (case lg_pin c of
         None \<Rightarrow> ret (Reply 400 (jerr ''PIN not configured. Please set up a PIN first.''))
       | Some h \<Rightarrow>
         if h = [] then ret (Reply 400 (jerr ''PIN not configured. Please set up a PIN first.''))
         else if \<not> comparePIN env pin h then wrong_pin uid
         else andThen (exec (\<lambda>w. set_login uid clear_failures (db w)))
           (ret (Reply 200 (JObj [(''message'', JStr ''PIN verified successfully''),
              (''token'', JStr (jwt_sign env (issueStepUpToken uid (dr_jti rnd) t))), (''expiresIn'', JNum (Fin (of_int STEP_UP_TTL_SECONDS)))])))))))"

section \<open>What a login leaves alone\<close>

text \<open>The tables a login reads, and the clock, but for the login columns, the backup codes and the audit log.\<close>

definition same_users :: "world \<Rightarrow> world \<Rightarrow> bool" where
  "same_users w v \<longleftrightarrow> users (db v) = users (db w) \<and> wallets (db v) = wallets (db w) \<and> refresh_rows (db v) = refresh_rows (db w) \<and> now v = now w"

lemma same_users_refl [simp]: "same_users w w"
  by (simp add: same_users_def)

lemma same_users_trans: "same_users u v \<Longrightarrow> same_users v w \<Longrightarrow> same_users u w"
  by (simp add: same_users_def)

lemma user_by_id_users [simp]:
  "user_by_id (d\<lparr>logins := x\<rparr>) = user_by_id d" "user_by_id (d\<lparr>audit_rows := y\<rparr>) = user_by_id d"
  "user_by_id (d\<lparr>backup_rows := z\<rparr>) = user_by_id d" "user_by_id (d\<lparr>refresh_rows := r\<rparr>) = user_by_id d"
  by (simp_all add: user_by_id_def fun_eq_iff)

lemma set_login_sel [simp]:
  "users (set_login uid f d) = users d" "wallets (set_login uid f d) = wallets d" "refresh_rows (set_login uid f d) = refresh_rows d"
  "backup_rows (set_login uid f d) = backup_rows d" "user_by_id (set_login uid f d) = user_by_id d" "audit_rows (set_login uid f d) = audit_rows d"
  by (simp_all add: set_login_def)

lemma logins_set_login: "user_by_id d uid = Some u \<Longrightarrow> logins (set_login uid f d) = (logins d)(uid := f (logins d uid))"
  by (simp add: set_login_def)

lemma login_row_user:
  assumes "login_row d email = Some (u, c, pk)"
  shows "\<exists>v. user_by_id d (u_id u) = Some v" and "c = logins d (u_id u)"
proof -
  from assms have "u \<in> set (users d)" by (auto simp: login_row_def dest: find_SomeD)
  then have "user_by_id d (u_id u) \<noteq> None" by (auto simp: user_by_id_def find_None_iff)
  then show "\<exists>v. user_by_id d (u_id u) = Some v" by simp
qed (use assms in \<open>auto simp: login_row_def\<close>)

text \<open>A counted failure: the columns of the one user are bumped.\<close>

definition bumped :: "string \<Rightarrow> world \<Rightarrow> world \<Rightarrow> bool" where
  "bumped uid w v \<longleftrightarrow> same_users w v \<and> backup_rows (db v) = backup_rows (db w) \<and>
     logins (db v) = (logins (db w))(uid := bump (now w) (logins (db w) uid))"

definition untouched :: "world \<Rightarrow> world \<Rightarrow> bool" where
  "untouched w v \<longleftrightarrow> same_users w v \<and> backup_rows (db v) = backup_rows (db w) \<and> logins (db v) = logins (db w)"

lemma wp_wrong_password:
  assumes "user_by_id (db w) uid = Some u"
  shows "wp (wrong_password uid) (\<lambda>r v. status_of r \<in> {Some 401, Some 423} \<and> bumped uid w v) (\<lambda>_ v. untouched w v) w"
  using assms
  by (simp add: wrong_password_def bump_login_def account_locked_def wps logins_set_login bumped_def untouched_def same_users_def)

lemma wp_recordFailed:
  assumes "user_by_id (db w) uid = Some u"
  shows "wp (recordFailedAuthAttempt uid why) (\<lambda>r v. bumped uid w v \<and> r = Some (bump (now w) (logins (db w) uid))) (\<lambda>_ v. untouched w v) w"
  using assms
  by (simp add: recordFailedAuthAttempt_def bump_login_def wps logins_set_login bumped_def untouched_def same_users_def)

lemma wp_refused_code:
  assumes "user_by_id (db w) uid = Some u"
  shows "wp (refused_code uid) (\<lambda>r v. (\<exists>o'. r = Some o' \<and> status_of o' \<in> {Some 401, Some 423}) \<and> bumped uid w v) (\<lambda>_ v. untouched w v) w"
  unfolding refused_code_def wp_bnd
  by (rule wp_mono [OF wp_recordFailed [OF assms]]) (simp_all add: wps account_locked_def)

text \<open>The code of the row \<open>i\<close> is spent.\<close>

definition spent :: "string \<Rightarrow> world \<Rightarrow> world \<Rightarrow> bool" where
  "spent i w v \<longleftrightarrow> same_users w v \<and> logins (db v) = logins (db w) \<and> backup_rows (db v) = backup_rows (use_code i (now w) (db w))"

lemma match_code_unused:
  "match_code env code (unused_codes d uid) = Some i \<Longrightarrow> \<exists>r\<in>set (backup_rows d). bk_id r = i \<and> bk_user r = uid \<and> bk_used r = None \<and> bcrypt_compare env code (bk_hash r)"
  by (auto simp: match_code_def unused_codes_def dest!: find_SomeD)

lemma use_code_sel [simp]: "users (use_code i t d) = users d" "wallets (use_code i t d) = wallets d" "refresh_rows (use_code i t d) = refresh_rows d" "logins (use_code i t d) = logins d"
  by (simp_all add: use_code_def)

lemma wp_warn_codes: "wp (warn_codes uid n) (\<lambda>_ v. db v = db w \<and> now v = now w) (\<lambda>_ v. db v = db w \<and> now v = now w) w"
  by (cases "user_by_id (db w) uid") (simp_all add: warn_codes_def wps)

lemma wp_backup_factor:
  assumes "user_by_id (db w) uid = Some u"
  shows "wp (backup_factor env uid code)
    (\<lambda>r v. case match_code env code (unused_codes (db w) uid) of
        None \<Rightarrow> (\<exists>o'. r = Some o' \<and> status_of o' \<in> {Some 401, Some 423}) \<and> bumped uid w v
      | Some i \<Rightarrow> r = None \<and> spent i w v)
    (\<lambda>_ v. untouched w v \<or> (\<exists>i. match_code env code (unused_codes (db w) uid) = Some i \<and> spent i w v)) w"
proof (cases "match_code env code (unused_codes (db w) uid)")
  case None
  have "wp (refused_code uid) (\<lambda>r v. (\<exists>o'. r = Some o' \<and> status_of o' \<in> {Some 401, Some 423}) \<and> bumped uid w v) (\<lambda>_ v. untouched w v) (ticked w)"
    using wp_refused_code [of "ticked w" uid] assms by (simp add: bumped_def untouched_def same_users_def)
  then have "wp (refused_code uid) (\<lambda>r v. (\<exists>o'. r = Some o' \<and> status_of o' \<in> {Some 401, Some 423}) \<and> bumped uid w v) (\<lambda>_ v. untouched w v \<or> (\<exists>i. None = Some i \<and> spent i w v)) (ticked w)"
    by (rule wp_mono) auto
  then show ?thesis by (simp add: None backup_factor_def wps) (simp add: untouched_def same_users_def)
next
  case (Some i)
  from match_code_unused [OF this] have hit: "list_ex (\<lambda>r. bk_id r = i \<and> bk_used r = None) (backup_rows (db w))"
    by (auto simp: list_ex_iff)
  have warn: "wp (warn_codes uid n) (\<lambda>_. Q) (\<lambda>_. E) v"
    if "\<And>x. db x = db v \<Longrightarrow> now x = now v \<Longrightarrow> Q x" "\<And>x. db x = db v \<Longrightarrow> now x = now v \<Longrightarrow> E x" for Q E v n
    by (rule wp_mono [OF wp_warn_codes]) (use that in auto)
  show ?thesis
    by (simp add: Some backup_factor_def consume_code_def wp_bnd wp_andThen wp_select wp_modify wp_ret wp_if hit)
      (auto simp: untouched_def spent_def same_users_def intro!: warn)
qed

section \<open>What a login does\<close>

text \<open>The secrets given are those of the account; or one of them was looked at and is wrong.\<close>

definition entitled :: "auth_env \<Rightarrow> login_req \<Rightarrow> world \<Rightarrow> user \<Rightarrow> login_cols \<Rightarrow> bool" where
  "entitled env q w u c \<longleftrightarrow> bcrypt_compare env (lq_password q) (lg_password c) \<and> lg_email_verified c \<and>
     (lg_totp_enabled c \<longrightarrow> (if given (lq_backup q) then match_code env (the (lq_backup q)) (unused_codes (db w) (u_id u)) \<noteq> None
        else device_trusted env (now w) (u_id u) (lq_device q) \<or> given (lq_totp q) \<and> totp_verify env (lg_totp_secret c) (the (lq_totp q)) (now w)))"

definition wrong_secret :: "auth_env \<Rightarrow> login_req \<Rightarrow> world \<Rightarrow> user \<Rightarrow> login_cols \<Rightarrow> bool" where
  "wrong_secret env q w u c \<longleftrightarrow> \<not> bcrypt_compare env (lq_password q) (lg_password c) \<or>
     lg_email_verified c \<and> lg_totp_enabled c \<and> given (lq_backup q) \<and> match_code env (the (lq_backup q)) (unused_codes (db w) (u_id u)) = None"

definition granted :: "auth_env \<Rightarrow> draws \<Rightarrow> string \<Rightarrow> world \<Rightarrow> world \<Rightarrow> bool" where
  "granted env rnd uid w v \<longleftrightarrow> users (db v) = users (db w) \<and> wallets (db v) = wallets (db w) \<and> now v = now w \<and>
     logins (db v) = (logins (db w))(uid := clear_failures (logins (db w) uid)) \<and> backup_rows (db v) = backup_rows (db w) \<and>
     refresh_rows (db v) = refresh_rows (db w) @ [new_refresh env (dr_id rnd) uid (sha256 env (dr_raw rnd)) (dr_family rnd) (now w)]"

lemma insert_refresh_Inr: "insert_refresh r d = Inr d' \<Longrightarrow> d' = d\<lparr>refresh_rows := refresh_rows d @ [r]\<rparr>"
  by (auto simp: insert_refresh_def split: if_splits)

lemma wp_grant_login:
  assumes "user_by_id (db w) (u_id u) = Some x"
  shows "wp (grant_login env rnd q u c pk) (\<lambda>r v. status_of r = Some 200 \<and> granted env rnd (u_id u) w v)
     (\<lambda>_ v. same_users w v \<and> backup_rows (db v) = backup_rows (db w) \<and>
        (logins (db v) = logins (db w) \<or> logins (db v) = (logins (db w))(u_id u := clear_failures (logins (db w) (u_id u))))) w"
  using assms
  by (auto simp: grant_login_def wps generateRefreshToken_def Let_def setCsrfCookie_def login_answer_def granted_def same_users_def logins_set_login
      split: sum.split dest!: insert_refresh_Inr)

lemma wp_second_factor:
  assumes "user_by_id (db w) uid = Some x"
  shows "wp (second_factor env q uid c)
    (\<lambda>r v. case r of
        None \<Rightarrow> (if lg_totp_enabled c \<and> given (lq_backup q)
            then \<exists>i. match_code env (the (lq_backup q)) (unused_codes (db w) uid) = Some i \<and> spent i w v
            else untouched w v \<and> (lg_totp_enabled c \<longrightarrow> device_trusted env (now w) uid (lq_device q) \<or> given (lq_totp q) \<and> totp_verify env (lg_totp_secret c) (the (lq_totp q)) (now w)))
      | Some o' \<Rightarrow> lg_totp_enabled c \<and> status_of o' \<in> {Some 401, Some 423} \<and>
          (if given (lq_backup q) then match_code env (the (lq_backup q)) (unused_codes (db w) uid) = None \<and> bumped uid w v
           else untouched w v \<and> \<not> (device_trusted env (now w) uid (lq_device q) \<or> given (lq_totp q) \<and> totp_verify env (lg_totp_secret c) (the (lq_totp q)) (now w))))
    (\<lambda>_ v. untouched w v \<or> (\<exists>i. lg_totp_enabled c \<and> given (lq_backup q) \<and> match_code env (the (lq_backup q)) (unused_codes (db w) uid) = Some i \<and> spent i w v)) w"
proof (cases "lg_totp_enabled c \<and> given (lq_backup q)")
  case True
  then show ?thesis
    unfolding second_factor_def using assms
    by (simp, intro wp_mono [OF wp_backup_factor [OF assms]]) (auto simp: spent_def split: option.splits)
next
  case False
  then show ?thesis
    unfolding second_factor_def totp_factor_def by (auto simp: wps untouched_def)
qed

definition by_code :: "login_req \<Rightarrow> login_cols \<Rightarrow> bool" where
  "by_code q c \<longleftrightarrow> lg_totp_enabled c \<and> given (lq_backup q)"

definition codes_after :: "auth_env \<Rightarrow> login_req \<Rightarrow> world \<Rightarrow> user \<Rightarrow> login_cols \<Rightarrow> world \<Rightarrow> bool" where
  "codes_after env q w u c v \<longleftrightarrow> (if by_code q c
     then \<exists>i. match_code env (the (lq_backup q)) (unused_codes (db w) (u_id u)) = Some i \<and> backup_rows (db v) = backup_rows (use_code i (now w) (db w))
     else backup_rows (db v) = backup_rows (db w))"

definition logged_in :: "auth_env \<Rightarrow> draws \<Rightarrow> login_req \<Rightarrow> world \<Rightarrow> user \<Rightarrow> login_cols \<Rightarrow> world \<Rightarrow> bool" where
  "logged_in env rnd q w u c v \<longleftrightarrow> users (db v) = users (db w) \<and> now v = now w \<and>
     logins (db v) = (logins (db w))(u_id u := clear_failures (logins (db w) (u_id u))) \<and> codes_after env q w u c v \<and>
     refresh_rows (db v) = refresh_rows (db w) @ [new_refresh env (dr_id rnd) (u_id u) (sha256 env (dr_raw rnd)) (dr_family rnd) (now w)]"

text \<open>What an error in the middle may leave: a spent code and cleared counters, for the right secrets only.\<close>

definition interrupted :: "auth_env \<Rightarrow> login_req \<Rightarrow> world \<Rightarrow> user \<Rightarrow> login_cols \<Rightarrow> world \<Rightarrow> bool" where
  "interrupted env q w u c v \<longleftrightarrow> same_users w v \<and>
     (untouched w v \<or> \<not> wrong_secret env q w u c \<and> (backup_rows (db v) = backup_rows (db w) \<or> codes_after env q w u c v) \<and> (logins (db v) = logins (db w) \<or>
       entitled env q w u c \<and> logins (db v) = (logins (db w))(u_id u := clear_failures (logins (db w) (u_id u)))))"

lemma wp_check_secrets:
  assumes x: "user_by_id (db w) (u_id u) = Some x"
  shows "wp (check_secrets env rnd q (u, c, pk))
    (\<lambda>r v. if wrong_secret env q w u c then status_of r \<in> {Some 401, Some 423} \<and> bumped (u_id u) w v
       else if status_of r = Some 200 then entitled env q w u c \<and> logged_in env rnd q w u c v
       else \<not> entitled env q w u c \<and> untouched w v)
    (\<lambda>_ v. interrupted env q w u c v) w"
proof (cases "bcrypt_compare env (lq_password q) (lg_password c) \<and> lg_email_verified c")
  case False
  have pw: "wp (wrong_password (u_id u)) Q E w"
    if "\<And>r v. status_of r \<in> {Some 401, Some 423} \<Longrightarrow> bumped (u_id u) w v \<Longrightarrow> Q r v" "\<And>e v. untouched w v \<Longrightarrow> E e v" for Q E
    by (rule wp_mono [OF wp_wrong_password [OF x]]) (use that in auto)
  show ?thesis
  proof (cases "bcrypt_compare env (lq_password q) (lg_password c)")
    case True
    then show ?thesis using False by (simp add: check_secrets_def wp_ret wrong_secret_def entitled_def untouched_def)
  next
    case wrong: False
    then show ?thesis
      by (simp add: check_secrets_def) (rule pw, auto simp: wrong_secret_def interrupted_def untouched_def)
  qed
next
  case True
  have grant: "wp (grant_login env rnd q u c pk) (\<lambda>r v. if wrong_secret env q w u c then status_of r \<in> {Some 401, Some 423} \<and> bumped (u_id u) w v
       else if status_of r = Some 200 then entitled env q w u c \<and> logged_in env rnd q w u c v
       else \<not> entitled env q w u c \<and> untouched w v) (\<lambda>_ v. interrupted env q w u c v) v"
    if v: "same_users w v" "logins (db v) = logins (db w)" "codes_after env q w u c v" "entitled env q w u c" for v
  proof -
    have "user_by_id (db v) (u_id u) = Some x" using x v(1) by (simp add: same_users_def user_by_id_def)
    moreover have "\<not> wrong_secret env q w u c" using v(4) by (auto simp: entitled_def wrong_secret_def)
    ultimately show ?thesis using v
      by (intro wp_mono [OF wp_grant_login])
        (auto simp: granted_def logged_in_def interrupted_def same_users_def codes_after_def)
  qed
  have passed: "same_users w v \<and> logins (db v) = logins (db w) \<and> codes_after env q w u c v \<and> entitled env q w u c"
    if "if lg_totp_enabled c \<and> given (lq_backup q)
            then \<exists>i. match_code env (the (lq_backup q)) (unused_codes (db w) (u_id u)) = Some i \<and> spent i w v
            else untouched w v \<and> (lg_totp_enabled c \<longrightarrow> device_trusted env (now w) (u_id u) (lq_device q) \<or> given (lq_totp q) \<and> totp_verify env (lg_totp_secret c) (the (lq_totp q)) (now w))" for v
    using that True by (auto simp: spent_def untouched_def codes_after_def by_code_def entitled_def split: if_splits)
  have eq: "check_secrets env rnd q (u, c, pk) = bnd (second_factor env q (u_id u) c) (\<lambda>refused. case refused of Some r \<Rightarrow> ret r | None \<Rightarrow> grant_login env rnd q u c pk)"
    using True by (simp add: check_secrets_def)
  show ?thesis
    unfolding eq wp_bnd
  proof (rule wp_mono [OF wp_second_factor [OF x]], goal_cases)
    case (1 r v)
    show ?case
    proof (cases r)
      case None
      show ?thesis unfolding None option.case by (rule grant) (use passed [OF 1 [unfolded None option.case]] in auto)
    next
      case (Some o')
      then show ?thesis using 1 True by (auto simp: wp_ret wrong_secret_def entitled_def split: if_splits)
    qed
  next
    case (2 e v)
    then show ?case using True by (auto simp: interrupted_def untouched_def spent_def codes_after_def by_code_def wrong_secret_def)
  qed
qed

text \<open>The state the secrets are checked in: an expired lock has been lifted.\<close>

definition lifted :: "string \<Rightarrow> world \<Rightarrow> world \<Rightarrow> bool" where
  "lifted uid w v \<longleftrightarrow> same_users w v \<and> backup_rows (db v) = backup_rows (db w) \<and>
     (if lg_locked (logins (db w) uid) = None then logins (db v) = logins (db w)
      else logins (db v) = (logins (db w))(uid := clear_failures (logins (db w) uid)))"

lemma wp_lift_lock:
  assumes "user_by_id (db w) uid = Some u"
  shows "wp (lift_lock uid (logins (db w) uid)) (\<lambda>_. lifted uid w) (\<lambda>_. untouched w) w"
  using assms by (simp add: lift_lock_def wps lifted_def untouched_def same_users_def logins_set_login)

definition unlocked_row :: "world \<Rightarrow> login_req \<Rightarrow> user \<Rightarrow> login_cols \<Rightarrow> bool" where
  "unlocked_row w q u c \<longleftrightarrow> (\<exists>pk. login_row (db w) (lq_email q) = Some (u, c, pk)) \<and> \<not> u_suspended u \<and> \<not> locked (now w) c"

definition login_done :: "auth_env \<Rightarrow> draws \<Rightarrow> login_req \<Rightarrow> world \<Rightarrow> outcome \<Rightarrow> world \<Rightarrow> bool" where
  "login_done env rnd q w r v \<longleftrightarrow>
     untouched w v \<and> status_of r \<noteq> Some 200 \<and> (status_of r = None \<or> \<not> (\<exists>u c. unlocked_row w q u c)) \<or>
     (\<exists>u c x. unlocked_row w q u c \<and> lifted (u_id u) w x \<and>
       (if status_of r = None then interrupted env q x u c v
        else if wrong_secret env q x u c then status_of r \<in> {Some 401, Some 423} \<and> bumped (u_id u) x v
        else if status_of r = Some 200 then entitled env q x u c \<and> logged_in env rnd q x u c v
        else \<not> entitled env q x u c \<and> untouched x v))"

lemma login_doneI:
  assumes "unlocked_row w q u c" and "lifted (u_id u) w x"
    and "if status_of r = None then interrupted env q x u c v
        else if wrong_secret env q x u c then status_of r \<in> {Some 401, Some 423} \<and> bumped (u_id u) x v
        else if status_of r = Some 200 then entitled env q x u c \<and> logged_in env rnd q x u c v
        else \<not> entitled env q x u c \<and> untouched x v"
  shows "login_done env rnd q w r v"
  using assms unfolding login_done_def by blast

lemma wp_login: "wp (login env rnd q) (login_done env rnd q w) (\<lambda>_ _. False) w"
proof -
  define v where "v = ticked w"
  have v: "db v = db w" "now v = now w" by (simp_all add: v_def)
  have "wp (login env rnd q) (login_done env rnd q w) (\<lambda>_ _. False) w \<longleftrightarrow> (if faulty w then login_done env rnd q w (NextErr dbError) v
      else wp (case login_row (db w) (lq_email q) of
        None \<Rightarrow> ret (Reply 401 (jerr ''Invalid email or password''))
      | Some (u, c, pk) \<Rightarrow>
        if u_suspended u then ret (suspended_login u)
        else bnd (gets now) (\<lambda>t.
          if locked t c then ret (account_locked ''Account locked. Try again after '' (the (lg_locked c)))
          else andThen (lift_lock (u_id u) c) (check_secrets env rnd q (u, c, pk)))) (login_done env rnd q w) (\<lambda>e. login_done env rnd q w (NextErr e)) v)"
    by (simp add: login_def wp_handler wp_bnd wp_select v_def)
  also have "\<dots>"
  proof (cases "login_row (db w) (lq_email q)")
    case None
    then show ?thesis by (simp add: wp_ret login_done_def untouched_def same_users_def v unlocked_row_def)
  next
    case (Some r)
    obtain u c pk where r: "r = (u, c, pk)" by (cases r) auto
    have row: "login_row (db w) (lq_email q) = Some (u, c, pk)" using Some r by simp
    from login_row_user [OF row] obtain y where y: "user_by_id (db w) (u_id u) = Some y" and c: "c = logins (db w) (u_id u)" by blast
    have same: "untouched w v" by (simp add: untouched_def same_users_def v)
    have err: "login_done env rnd q w (NextErr dbError) v" using same by (simp add: login_done_def)
    show ?thesis
    proof (cases "u_suspended u \<or> locked (now w) c")
      case True
      then have "\<not> (\<exists>u c. unlocked_row w q u c)" using row by (auto simp: unlocked_row_def)
      then show ?thesis using True same err
        by (auto simp: row wp_ret wp_bnd wp_gets v login_done_def suspended_login_def account_locked_def Let_def)
    next
      case False
      then have unl: "unlocked_row w q u c" using row by (auto simp: unlocked_row_def)
      have "wp (lift_lock (u_id u) c) (\<lambda>_. lifted (u_id u) v) (\<lambda>_. untouched v) v"
        using wp_lift_lock [of v "u_id u" y] y c v by simp
      moreover have "wp (check_secrets env rnd q (u, c, pk)) (login_done env rnd q w) (\<lambda>e. login_done env rnd q w (NextErr e)) x" if x: "lifted (u_id u) v x" for x
      proof -
        have lx: "lifted (u_id u) w x" using x by (simp add: lifted_def same_users_def v)
        have "user_by_id (db x) (u_id u) = Some y" using y x by (simp add: lifted_def same_users_def v user_by_id_def)
        from wp_check_secrets [OF this, of env rnd q c pk] show ?thesis
          by (rule wp_mono) (rule login_doneI [OF unl lx], auto simp: interrupted_def untouched_def split: if_splits)+
      qed
      ultimately have "wp (andThen (lift_lock (u_id u) c) (check_secrets env rnd q (u, c, pk))) (login_done env rnd q w) (\<lambda>e. login_done env rnd q w (NextErr e)) v"
        unfolding wp_andThen by (rule wp_mono) (auto simp: login_done_def untouched_def same_users_def v)
      then show ?thesis using False err by (simp add: row wp_bnd wp_gets v)
    qed
  qed
  finally show ?thesis .
qed

section \<open>Properties\<close>

lemma lifted_entitled: "lifted uid w x \<Longrightarrow> entitled env q x u c = entitled env q w u c"
  by (simp add: lifted_def same_users_def entitled_def unused_codes_def)

lemma use_code_used:
  assumes "r \<in> set (backup_rows (use_code i t d))" and "bk_id r = i"
  shows "bk_used r \<noteq> None"
proof -
  from assms(1) have "r \<in> (\<lambda>x. if bk_id x = i then if bk_used x = None then x\<lparr>bk_used := Some t\<rparr> else x else x) ` set (backup_rows d)"
    by (simp add: use_code_def update_where_def)
  then obtain x where "r = (if bk_id x = i then if bk_used x = None then x\<lparr>bk_used := Some t\<rparr> else x else x)" by (rule imageE)
  then show ?thesis using assms(2) by (cases "bk_id x = i"; cases "bk_used x") simp_all
qed

lemma use_code_spends: "backup_rows d = backup_rows (use_code i t e) \<Longrightarrow> i \<notin> set (map bk_id (unused_codes d uid))"
  by (auto simp: unused_codes_def dest: use_code_used)

lemma login_done_cases [consumes 1]:
  assumes "login_done env rnd q w r v"
  obtains (1) "untouched w v" "status_of r \<noteq> Some 200"
    | (2) u c x where "unlocked_row w q u c" "lifted (u_id u) w x" "status_of r \<noteq> Some 200" "interrupted env q x u c v \<or> wrong_secret env q x u c \<and> bumped (u_id u) x v \<or> untouched x v"
    | (3) u c x where "unlocked_row w q u c" "lifted (u_id u) w x" "status_of r = Some 200" "entitled env q x u c" "logged_in env rnd q x u c v"
proof -
  from assms consider "untouched w v" "status_of r \<noteq> Some 200"
    | u c x where "unlocked_row w q u c" "lifted (u_id u) w x"
       "if status_of r = None then interrupted env q x u c v
        else if wrong_secret env q x u c then status_of r \<in> {Some 401, Some 423} \<and> bumped (u_id u) x v
        else if status_of r = Some 200 then entitled env q x u c \<and> logged_in env rnd q x u c v
        else \<not> entitled env q x u c \<and> untouched x v"
    unfolding login_done_def by blast
  then show ?thesis
  proof cases
    case 1
    then show ?thesis by (rule that(1))
  next
    case (2 u c x)
    show ?thesis
    proof (cases "status_of r = Some 200")
      case True
      with 2(3) have "\<not> wrong_secret env q x u c" by (auto split: if_splits)
      with True 2(3) show ?thesis by (intro that(3) [OF 2(1,2)]) simp_all
    next
      case False
      with 2(3) show ?thesis by (intro that(2) [OF 2(1,2)]) (auto split: if_splits)
    qed
  qed
qed

text \<open>
  C4: under any failures a login answers with a token only for a user the table has, who is neither suspended nor
  locked, with the password, a verified e-mail and, where the second factor is on, an unused backup code, a
  trusted device or a valid TOTP code; it stores one refresh token, of a new family, and the backup code is no
  longer usable. Any other answer stores no refresh token.
\<close>

theorem login_guarded:
  "wp (login env rnd q) (\<lambda>r v. if status_of r = Some 200
     then \<exists>u c pk. login_row (db w) (lq_email q) = Some (u, c, pk) \<and> \<not> u_suspended u \<and> \<not> locked (now w) c \<and> entitled env q w u c \<and>
       refresh_rows (db v) = refresh_rows (db w) @ [new_refresh env (dr_id rnd) (u_id u) (sha256 env (dr_raw rnd)) (dr_family rnd) (now w)] \<and>
       (if by_code q c then the (match_code env (the (lq_backup q)) (unused_codes (db w) (u_id u))) \<notin> set (map bk_id (unused_codes (db v) (u_id u))) else True)
     else refresh_rows (db v) = refresh_rows (db w)) (\<lambda>_ _. False) w"
proof (rule wp_mono [OF wp_login])
  fix r v assume "login_done env rnd q w r v"
  then show "if status_of r = Some 200
     then \<exists>u c pk. login_row (db w) (lq_email q) = Some (u, c, pk) \<and> \<not> u_suspended u \<and> \<not> locked (now w) c \<and> entitled env q w u c \<and>
       refresh_rows (db v) = refresh_rows (db w) @ [new_refresh env (dr_id rnd) (u_id u) (sha256 env (dr_raw rnd)) (dr_family rnd) (now w)] \<and>
       (if by_code q c then the (match_code env (the (lq_backup q)) (unused_codes (db w) (u_id u))) \<notin> set (map bk_id (unused_codes (db v) (u_id u))) else True)
     else refresh_rows (db v) = refresh_rows (db w)"
  proof (cases rule: login_done_cases)
    case 1
    then show ?thesis by (simp add: untouched_def same_users_def)
  next
    case (2 u c x)
    then show ?thesis by (auto simp: interrupted_def bumped_def untouched_def lifted_def same_users_def)
  next
    case (3 u c x)
    have same: "refresh_rows (db x) = refresh_rows (db w)" "now x = now w" "unused_codes (db x) = unused_codes (db w)"
      using 3(2) by (simp_all add: lifted_def same_users_def unused_codes_def fun_eq_iff)
    have spent: "i \<notin> set (map bk_id (unused_codes (db v) (u_id u)))" if "backup_rows (db v) = backup_rows (use_code i (now x) (db x))" for i
      using that by (rule use_code_spends)
    from 3(1) obtain pk where "login_row (db w) (lq_email q) = Some (u, c, pk)" "\<not> u_suspended u" "\<not> locked (now w) c"
      by (auto simp: unlocked_row_def)
    then show ?thesis using 3(3-5) spent lifted_entitled [OF 3(2)]
      by (fastforce simp: logged_in_def codes_after_def same split: if_splits)
  qed
qed simp

section \<open>The lockout bounds the guesses\<close>

definition WINDOW :: int where "WINDOW = 900000"

lemma window_minutes: "ATTEMPT_WINDOW_MINUTES * 60 * 1000 = WINDOW" "LOCKOUT_DURATION_MINUTES * 60 * 1000 = WINDOW"
  by (simp_all add: ATTEMPT_WINDOW_MINUTES_def LOCKOUT_DURATION_MINUTES_def WINDOW_def)

definition lock_cols :: "login_cols \<Rightarrow> nat \<times> int option \<times> int option" where
  "lock_cols c = (lg_failed c, lg_last_failed c, lg_locked c)"

text \<open>The wrong guesses for one account since its last login with the right secrets, by their times, newest first.\<close>

inductive guess_run :: "auth_env \<Rightarrow> string \<Rightarrow> world \<Rightarrow> int list \<Rightarrow> bool" for env uid where
  Start: "lock_cols (logins (db w) uid) = (0, None, None) \<Longrightarrow> guess_run env uid w []"
| Guess: "guess_run env uid w ts \<Longrightarrow> unlocked_row w q u c \<Longrightarrow> u_id u = uid \<Longrightarrow> wrong_secret env q w u c \<Longrightarrow>
    login env rnd q w = (Inr (Reply s b), v) \<Longrightarrow> guess_run env uid v (now w # ts)"
| Right: "guess_run env uid w ts \<Longrightarrow> unlocked_row w q u c \<Longrightarrow> u_id u = uid \<Longrightarrow> entitled env q w u c \<Longrightarrow>
    login env rnd q w = (r, v) \<Longrightarrow> guess_run env uid v []"
| Login: "guess_run env uid w ts \<Longrightarrow> \<not> (\<exists>u c. unlocked_row w q u c \<and> u_id u = uid \<and> (wrong_secret env q w u c \<or> entitled env q w u c)) \<Longrightarrow>
    login env rnd q w = (r, v) \<Longrightarrow> guess_run env uid v ts"
| Failed: "guess_run env uid w ts \<Longrightarrow> unlocked_row w q u c \<Longrightarrow> u_id u = uid \<Longrightarrow> wrong_secret env q w u c \<Longrightarrow>
    login env rnd q w = (Inr (NextErr e), v) \<Longrightarrow> guess_run env uid v ts"
| Other: "guess_run env uid w ts \<Longrightarrow> lock_cols (logins (db v) uid) = lock_cols (logins (db w) uid) \<Longrightarrow> now w \<le> now v \<Longrightarrow> guess_run env uid v ts"

text \<open>The invariant, over the lock columns and the clock.\<close>

definition spaced :: "int list \<Rightarrow> bool" where
  "spaced ts \<longleftrightarrow> sorted_wrt (\<lambda>a b. b \<le> a) ts \<and> (\<forall>i. i + 5 < length ts \<longrightarrow> ts ! (i + 5) + WINDOW \<le> ts ! i)"

definition counted :: "int \<Rightarrow> nat \<times> int option \<times> int option \<Rightarrow> int list \<Rightarrow> bool" where
  "counted t = (\<lambda>(k, l0, lock) ts. spaced ts \<and> (\<forall>g\<in>set ts. g \<le> t) \<and> (case lock of
      Some x \<Rightarrow> \<forall>g\<in>set ts. g + WINDOW \<le> x
    | None \<Rightarrow> k < 5 \<and> (case l0 of
        None \<Rightarrow> \<forall>g\<in>set ts. g + WINDOW \<le> t
      | Some l \<Rightarrow> l \<le> t \<and> 0 < k \<and> (\<forall>g\<in>set ts. g \<le> l) \<and> (k < length ts \<longrightarrow> ts ! k + WINDOW \<le> ts ! (k - 1)))))"

lemma counted_wait: "counted t s ts \<Longrightarrow> t \<le> t' \<Longrightarrow> counted t' s ts"
  by (fastforce simp: counted_def split: prod.splits option.splits)

lemma counted_clear: "counted t (0, None, None) []"
  by (simp add: counted_def spaced_def)

lemma counted_lift: "counted t (k, l0, Some x) ts \<Longrightarrow> x \<le> t \<Longrightarrow> counted t (0, None, None) ts"
  by (fastforce simp: counted_def)

lemma counted_restart: "counted t s ts \<Longrightarrow> counted t s []"
  by (auto simp: counted_def spaced_def split: option.splits prod.splits)

lemma spaced_Cons:
  assumes "spaced ts" and "\<forall>g\<in>set ts. g \<le> t" and "\<And>g. 4 < length ts \<Longrightarrow> g = ts ! 4 \<Longrightarrow> g + WINDOW \<le> t"
  shows "spaced (t # ts)"
  unfolding spaced_def
proof (intro conjI allI impI)
  show "sorted_wrt (\<lambda>a b. b \<le> a) (t # ts)" using assms(1,2) by (simp add: spaced_def)
  fix i assume "i + 5 < length (t # ts)"
  then show "(t # ts) ! (i + 5) + WINDOW \<le> (t # ts) ! i"
    using assms(1,3) by (cases i) (auto simp: spaced_def add.commute)
qed

lemma spaced_nth: "spaced ts \<Longrightarrow> i \<le> j \<Longrightarrow> j < length ts \<Longrightarrow> ts ! j \<le> ts ! i"
  by (cases "i = j") (auto simp: spaced_def sorted_wrt_iff_nth_less)

lemma counted_bump:
  assumes "counted t (lock_cols c) ts" and "lg_locked c = None"
  shows "counted t (lock_cols (bump t c)) (t # ts)"
proof -
  let ?k = "lg_failed c"
  have ts: "spaced ts" "\<forall>g\<in>set ts. g \<le> t" "?k < 5" using assms by (auto simp: counted_def lock_cols_def)
  show ?thesis
  proof (cases "\<exists>l. lg_last_failed c = Some l \<and> t - l \<le> WINDOW")
    case False
    then have old: "\<forall>g\<in>set ts. g + WINDOW \<le> t"
      using assms by (fastforce simp: counted_def lock_cols_def split: option.splits)
    have "spaced (t # ts)" by (rule spaced_Cons) (use ts old in auto)
    moreover have "lock_cols (bump t c) = (1, Some t, None)"
      using False assms(2) by (auto simp: bump_def lock_cols_def window_minutes MAX_FAILED_ATTEMPTS_def split: option.split)
    ultimately show ?thesis using old ts by (auto simp: counted_def)
  next
    case True
    then obtain l where l: "lg_last_failed c = Some l" "t - l \<le> WINDOW" by blast
    with assms have inv: "l \<le> t" "0 < ?k" "\<forall>g\<in>set ts. g \<le> l" "?k < length ts \<longrightarrow> ts ! ?k + WINDOW \<le> ts ! (?k - 1)"
      by (auto simp: counted_def lock_cols_def)
    have "spaced (t # ts)"
    proof (rule spaced_Cons [OF ts(1,2)])
      fix g assume g: "4 < length ts" "g = ts ! 4"
      then have "ts ! 4 \<le> ts ! ?k" using ts by (intro spaced_nth) auto
      moreover have "ts ! ?k + WINDOW \<le> ts ! (?k - 1)" using inv g ts(3) by auto
      moreover have "ts ! (?k - 1) \<le> t" using g ts by (auto simp: less_imp_diff_less)
      ultimately show "g + WINDOW \<le> t" using g by simp
    qed
    moreover have "lock_cols (bump t c) = (?k + 1, Some t, if ?k = 4 then Some (t + WINDOW) else None)"
      using l ts(3) assms(2) by (auto simp: bump_def lock_cols_def window_minutes MAX_FAILED_ATTEMPTS_def Let_def)
    moreover have "?k + 1 < length (t # ts) \<longrightarrow> (t # ts) ! (?k + 1) + WINDOW \<le> (t # ts) ! ?k"
      using inv by (cases ?k) auto
    ultimately show ?thesis using ts inv by (auto simp: counted_def)
  qed
qed

text \<open>The columns through a login.\<close>

lemma counted_lifted:
  assumes "counted (now w) (lock_cols (logins (db w) uid)) ts" and "lifted uid w x" and "\<not> locked (now w) (logins (db w) uid)"
  shows "counted (now x) (lock_cols (logins (db x) uid)) ts \<and> lg_locked (logins (db x) uid) = None"
  using assms
  by (auto simp: lifted_def same_users_def lock_cols_def clear_failures_def locked_def not_less split: if_splits option.splits dest: counted_lift)

lemma lock_cols_clear [simp]: "lock_cols (clear_failures c) = (0, None, None)"
  by (simp add: lock_cols_def clear_failures_def)

lemma lock_cols_lg: "lock_cols c = lock_cols c' \<Longrightarrow> lg_locked c = lg_locked c'"
  by (simp add: lock_cols_def)

lemma other_user:
  assumes "login_done env rnd q w r v" and "\<not> (\<exists>u c. unlocked_row w q u c \<and> u_id u = uid)"
  shows "logins (db v) uid = logins (db w) uid \<and> now v = now w"
  using assms unfolding login_done_def
  by (fastforce simp: untouched_def same_users_def lifted_def interrupted_def bumped_def logged_in_def split: if_splits)

lemma lifted_wrong: "lifted uid w x \<Longrightarrow> wrong_secret env q x u c = wrong_secret env q w u c"
  by (simp add: lifted_def same_users_def wrong_secret_def unused_codes_def)

text \<open>What a login may leave in the columns of the account it is for.\<close>

lemma login_columns:
  assumes "login_done env rnd q w r v" and u: "unlocked_row w q u c" "u_id u = uid"
    and I: "counted (now w) (lock_cols (logins (db w) uid)) ts"
  shows "now v = now w"
    and "wrong_secret env q w u c \<Longrightarrow> status_of r \<noteq> None \<Longrightarrow> counted (now v) (lock_cols (logins (db v) uid)) (now w # ts)"
    and "\<not> entitled env q w u c \<Longrightarrow> \<not> wrong_secret env q w u c \<or> status_of r = None \<Longrightarrow> counted (now v) (lock_cols (logins (db v) uid)) ts"
    and "entitled env q w u c \<Longrightarrow> counted (now v) (lock_cols (logins (db v) uid)) []"
proof -
  have c: "c = logins (db w) uid" "\<not> locked (now w) c"
    using u by (auto simp: unlocked_row_def dest: login_row_user)
  have not_both: "\<not> (entitled env q w u c \<and> wrong_secret env q w u c)" by (auto simp: entitled_def wrong_secret_def)
  from assms(1) consider (stay) "untouched w v" "status_of r = None"
    | (go) x where "lifted uid w x"
       "if status_of r = None then interrupted env q x u c v
        else if wrong_secret env q x u c then bumped uid x v
        else if status_of r = Some 200 then entitled env q x u c \<and> logged_in env rnd q x u c v
        else \<not> entitled env q x u c \<and> untouched x v"
  proof -
    have uniq: "u' = u \<and> c' = c" if "unlocked_row w q u' c'" for u' c' using that u(1) by (auto simp: unlocked_row_def)
    show ?thesis
      using assms(1) unfolding login_done_def
    proof (elim disjE exE conjE)
      assume "status_of r = None" "untouched w v"
      then show thesis by (intro that(1))
    next
      assume "\<not> (\<exists>u c. unlocked_row w q u c)"
      then show thesis using u(1) by blast
    next
      fix u' c' x assume "unlocked_row w q u' c'" and x: "lifted (u_id u') w x" and out: "if status_of r = None then interrupted env q x u' c' v
        else if wrong_secret env q x u' c' then status_of r \<in> {Some 401, Some 423} \<and> bumped (u_id u') x v
        else if status_of r = Some 200 then entitled env q x u' c' \<and> logged_in env rnd q x u' c' v
        else \<not> entitled env q x u' c' \<and> untouched x v"
      then have "u' = u" "c' = c" using uniq by blast+
      with x out u(2) show thesis by (intro that(2)) (auto split: if_splits)
    qed
  qed
  then have "now v = now w \<and>
    (wrong_secret env q w u c \<and> status_of r \<noteq> None \<longrightarrow> counted (now v) (lock_cols (logins (db v) uid)) (now w # ts)) \<and>
    (\<not> entitled env q w u c \<and> (\<not> wrong_secret env q w u c \<or> status_of r = None) \<longrightarrow> counted (now v) (lock_cols (logins (db v) uid)) ts) \<and>
    (entitled env q w u c \<longrightarrow> counted (now v) (lock_cols (logins (db v) uid)) [])"
  proof cases
    case stay
    then show ?thesis using I counted_restart [OF I] by (auto simp: untouched_def same_users_def)
  next
    case (go x)
    have x: "now x = now w" "counted (now w) (lock_cols (logins (db x) uid)) ts" "lg_locked (logins (db x) uid) = None"
      using counted_lifted [OF I go(1)] c go(1) by (auto simp: lifted_def same_users_def)
    note restart = counted_restart [OF x(2)] and bump = counted_bump [OF x(2,3)]
    show ?thesis
    proof (cases "wrong_secret env q w u c")
      case True
      then show ?thesis using go x bump not_both
        by (auto simp: lifted_wrong [OF go(1)] interrupted_def untouched_def bumped_def same_users_def split: if_splits)
    next
      case False
      then show ?thesis using go x restart counted_clear u(2)
        by (auto simp: lifted_wrong [OF go(1)] lifted_entitled [OF go(1)] interrupted_def untouched_def logged_in_def same_users_def split: if_splits)
    qed
  qed
  then show "now v = now w"
    and "wrong_secret env q w u c \<Longrightarrow> status_of r \<noteq> None \<Longrightarrow> counted (now v) (lock_cols (logins (db v) uid)) (now w # ts)"
    and "\<not> entitled env q w u c \<Longrightarrow> \<not> wrong_secret env q w u c \<or> status_of r = None \<Longrightarrow> counted (now v) (lock_cols (logins (db v) uid)) ts"
    and "entitled env q w u c \<Longrightarrow> counted (now v) (lock_cols (logins (db v) uid)) []" by auto
qed

lemma login_run: "login env rnd q w = (r, v) \<Longrightarrow> \<exists>o'. r = Inr o' \<and> login_done env rnd q w o' v"
  using wp_login [of env rnd q w] by (cases r) (auto simp: wp_def)

lemma guess_run_counted: "guess_run env uid w ts \<Longrightarrow> counted (now w) (lock_cols (logins (db w) uid)) ts"
proof (induction rule: guess_run.induct)
  case (Start w)
  then show ?case by (simp add: counted_clear)
next
  case (Guess w ts q u c rnd s b v)
  from login_run [OF Guess.hyps(5)] have "login_done env rnd q w (Reply s b) v" by simp
  from login_columns(2) [OF this Guess.hyps(2,3) Guess.IH Guess.hyps(4)] show ?case by simp
next
  case (Right w ts q u c rnd r v)
  from login_run [OF Right.hyps(5)] obtain o' where "login_done env rnd q w o' v" by blast
  from login_columns(4) [OF this Right.hyps(2,3) Right.IH Right.hyps(4)] show ?case .
next
  case (Login w ts q rnd r v)
  from login_run [OF Login.hyps(3)] obtain o' where out: "login_done env rnd q w o' v" by blast
  show ?case
  proof (cases "\<exists>u c. unlocked_row w q u c \<and> u_id u = uid")
    case True
    then obtain u c where u: "unlocked_row w q u c" "u_id u = uid" by blast
    with Login.hyps(2) have "\<not> entitled env q w u c" "\<not> wrong_secret env q w u c" by blast+
    with login_columns(3) [OF out u Login.IH] show ?thesis by simp
  next
    case False
    from other_user [OF out False] Login.IH show ?thesis by simp
  qed
next
  case (Failed w ts q u c rnd e v)
  from login_run [OF Failed.hyps(5)] have out: "login_done env rnd q w (NextErr e) v" by simp
  have "\<not> entitled env q w u c" using Failed.hyps(4) by (auto simp: entitled_def wrong_secret_def)
  from login_columns(3) [OF out Failed.hyps(2,3) Failed.IH this] show ?case by simp
next
  case (Other w ts v)
  then show ?case by (simp add: counted_wait)
qed

lemma recent_prefix:
  fixes ts :: "int list"
  assumes "sorted_wrt (\<lambda>a b. b \<le> a) ts" and "k < length ts" and "\<not> p < ts ! k"
  shows "length (filter (\<lambda>g. p < g) ts) \<le> k"
proof -
  have "filter (\<lambda>g. p < g) (drop k ts) = []"
  proof (rule filter_False, rule ballI)
    fix g assume "g \<in> set (drop k ts)"
    then obtain i where "g = ts ! i" "k \<le> i" "i < length ts"
      by (auto simp: in_set_conv_nth)
    then have "g \<le> ts ! k" using assms(1) by (cases "i = k") (auto simp: sorted_wrt_iff_nth_less)
    then show "\<not> p < g" using assms(3) by simp
  qed
  then have "filter (\<lambda>g. p < g) ts = filter (\<lambda>g. p < g) (take k ts)"
    by (metis append_Nil2 append_take_drop_id filter_append)
  then show ?thesis using length_filter_le [of "\<lambda>g. p < g" "take k ts"] by simp
qed


definition demo_env :: auth_env where
  "demo_env = \<lparr>sha256 = (\<lambda>s. s), hmac_sha256 = (\<lambda>k m. ''m''), bcrypt_hash = (\<lambda>s p. p), bcrypt_compare = (\<lambda>p h. p = h),
     totp_verify = (\<lambda>s c t. False), jwt_verify = (\<lambda>t s. Inl (mkError ''jwt malformed'')), jwt_sign = (\<lambda>c. ''t''),
     seal = (\<lambda>s. s), unseal = (\<lambda>s. Inr s), jwt_secret = ''secret'', access_ttl_s = 900, refresh_ttl_ms = 2592000000\<rparr>"

definition demo_draws :: draws where
  "demo_draws = \<lparr>dr_raw = ''raw'', dr_id = ''r1'', dr_id2 = ''r2'', dr_family = ''f1'', dr_jti = ''j1'', dr_nonce = ''n'', dr_salt = ''s''\<rparr>"

definition demo_guess :: login_req where
  "demo_guess = \<lparr>lq_email = ''a@x'', lq_password = ''wrong'', lq_totp = None, lq_backup = None, lq_remember = False, lq_device = None\<rparr>"

definition demo_account :: world where
  "demo_account = init_world\<lparr>now := 1000, db := empty_db\<lparr>users := [\<lparr>u_id = ''u1'', u_email = ''a@x'', u_full_name = ''A'', u_role = ''user'',
     u_kyc_status = ''none'', u_kyc_identity = None, u_kyc_submitted = None, u_kyc_expiry = None, u_kyc_reminders = [],
     u_phone_verified = False, u_suspended = False, u_suspension_reason = None, u_referral_code = None, u_referred_by = None\<rparr>],
     logins := (\<lambda>_. fresh_login\<lparr>lg_password := ''right'', lg_email_verified := True\<rparr>)\<rparr>\<rparr>"

fun demo_guesses :: "nat \<Rightarrow> world" where
  "demo_guesses 0 = demo_account"
| "demo_guesses (Suc n) = snd (login demo_env demo_draws demo_guess (demo_guesses n))"

definition demo_looks :: "world \<Rightarrow> bool" where
  "demo_looks w \<longleftrightarrow> (case login_row (db w) (lq_email demo_guess) of None \<Rightarrow> False
     | Some (u, c, pk) \<Rightarrow> \<not> u_suspended u \<and> \<not> locked (now w) c \<and> u_id u = ''u1'' \<and> \<not> bcrypt_compare demo_env (lq_password demo_guess) (lg_password c)) \<and>
     now w = 1000 \<and> (case fst (login demo_env demo_draws demo_guess w) of Inr (Reply s b) \<Rightarrow> True | _ \<Rightarrow> False)"

lemma demo_guess_step:
  assumes "guess_run demo_env ''u1'' w ts" and "demo_looks w"
  shows "guess_run demo_env ''u1'' (snd (login demo_env demo_draws demo_guess w)) (1000 # ts)"
proof -
  from assms(2) obtain u c pk where row: "login_row (db w) (lq_email demo_guess) = Some (u, c, pk)" "\<not> u_suspended u" "\<not> locked (now w) c" "u_id u = ''u1''"
      "\<not> bcrypt_compare demo_env (lq_password demo_guess) (lg_password c)" and now: "now w = 1000"
    by (auto simp: demo_looks_def split: option.splits)
  obtain s b where "login demo_env demo_draws demo_guess w = (Inr (Reply s b), snd (login demo_env demo_draws demo_guess w))"
    using assms(2) by (cases "login demo_env demo_draws demo_guess w") (auto simp: demo_looks_def split: sum.splits outcome.splits)
  from guess_run.Guess [OF assms(1) _ row(4) _ this, of c] row now show ?thesis
    by (auto simp: unlocked_row_def wrong_secret_def)
qed


end
