(* ===== verification/Credentials.thy ===== *)
theory Credentials
  imports Accounts
begin

text \<open>
  The life of an account (\<^verbatim>\<open>controllers/authController.js\<close>): registration, the verification of e-mail addresses and
  phones, the second factor, the profile, and the change and reset of the password. Wallet keys come from
  \<^verbatim>\<open>services/stellar.js\<close> and are the record \<open>key_env\<close>; a mail that has to be queued before the answer may fail like a
  Redis command. Left out: the sessions closed by a password change, the timers that retry a trustline, and the files
  of \<open>uploadAvatar\<close>; of the profile, the avatar, the account type, the language and the flag of the PIN.
\<close>

record key_env =
  ke_valid :: "string \<Rightarrow> bool"
  ke_public :: "string \<Rightarrow> string"
  ke_encrypt :: "string \<Rightarrow> string"
  ke_create :: "jserr + string \<times> string"
  ke_trustline :: "(jserr + unit) option"

definition TOKEN_TTL_MS :: int where "TOKEN_TTL_MS = 24 * 60 * 60 * 1000"
definition PASSWORD_RESET_TTL_MS :: int where "PASSWORD_RESET_TTL_MS = 60 * 60 * 1000"
definition PHONE_OTP_TTL_MS :: int where "PHONE_OTP_TTL_MS = 10 * 60 * 1000"

definition mail :: "string \<Rightarrow> string \<Rightarrow> json \<Rightarrow> (world, unit) proc" where
  "mail to subject body = andThen tick (emit (Email to subject body))"

definition message :: "nat \<Rightarrow> string \<Rightarrow> outcome" where
  "message s m = Reply s (JObj [(''message'', JStr m)])"

section \<open>Registration\<close>

text \<open>\<open>value.replace(/<[^>]*>/g, '').trim().slice(0, 100)\<close>.\<close>

function strip_tags :: "string \<Rightarrow> string" where
  "strip_tags [] = []"
| "strip_tags (c # s) = (if c = CHR ''<'' \<and> CHR ''>'' \<in> set s then strip_tags (tl (dropWhile (\<lambda>d. d \<noteq> CHR ''>'') s)) else c # strip_tags s)"
  by pat_completeness auto
termination
proof (relation "measure length")
  fix c :: char and s :: string
  show "(tl (dropWhile (\<lambda>d. d \<noteq> CHR ''>'') s), c # s) \<in> measure length"
    using length_dropWhile_le [of "\<lambda>d. d \<noteq> CHR ''>''" s] by (simp only: in_measure length_tl list.size)
qed simp_all

definition sanitizeFullName :: "string option \<Rightarrow> string" where
  "sanitizeFullName v = (case v of None \<Rightarrow> [] | Some s \<Rightarrow> take 100 (trim (strip_tags s)))"

text \<open>\<open>/^\+[1-9]\d{7,14}$/\<close>.\<close>

definition isValidE164 :: "string \<Rightarrow> bool" where
  "isValidE164 phone = (case phone of c # d # ds \<Rightarrow> c = CHR ''+'' \<and> is_digit d \<and> d \<noteq> CHR ''0'' \<and> list_all is_digit ds \<and> 7 \<le> length ds \<and> length ds \<le> 14
     | _ \<Rightarrow> False)"

record register_req =
  rg_name :: "string option"
  rg_email :: string
  rg_password :: string
  rg_phone :: "string option"
  rg_secret :: "string option"
  rg_code :: "string option"

text \<open>The random values a registration draws besides those of \<open>draws\<close>.\<close>

record register_draws =
  rd_user :: string
  rd_wallet :: string
  rd_token :: string
  rd_otp :: string
  rd_salt :: string
  rd_code :: string

definition register_keys :: "key_env \<Rightarrow> string option \<Rightarrow> jserr + outcome + string \<times> string" where
  "register_keys ke secret = (if given secret then
       (if \<not> ke_valid ke (the secret) then Inr (Inl (Reply 400 (jerr ''Invalid Stellar secret key'')))
        else Inr (Inr (ke_public ke (the secret), ke_encrypt ke (the secret))))
     else (case ke_create ke of Inl e \<Rightarrow> Inl e | Inr p \<Rightarrow> Inr (Inr p)))"

definition new_user :: "register_draws \<Rightarrow> register_req \<Rightarrow> user" where
  "new_user rd q = \<lparr>u_id = rd_user rd, u_email = rg_email q, u_full_name = sanitizeFullName (rg_name q), u_role = ''user'',
     u_kyc_status = ''unverified'', u_kyc_identity = None, u_kyc_submitted = None, u_kyc_expiry = None, u_kyc_reminders = [],
     u_phone_verified = False, u_suspended = False, u_suspension_reason = None, u_referral_code = None, u_referred_by = None\<rparr>"

definition new_login :: "auth_env \<Rightarrow> register_draws \<Rightarrow> register_req \<Rightarrow> int \<Rightarrow> login_cols" where
  "new_login env rd q t = fresh_login\<lparr>lg_password := bcrypt_hash env (rd_salt rd) (rg_password q), lg_phone := (if given (rg_phone q) then rg_phone q else None),
     lg_verification := Some (sha256 env (rd_token rd), t + TOKEN_TTL_MS),
     lg_otp := (if given (rg_phone q) then Some (sha256 env (rd_otp rd), t + PHONE_OTP_TTL_MS) else None)\<rparr>"

definition insert_user :: "user \<Rightarrow> login_cols \<Rightarrow> database \<Rightarrow> jserr + database" where
  "insert_user u c d = (if u_id u \<in> set (map u_id (users d)) \<or> u_email u \<in> set (map u_email (users d)) then Inl uniqueViolation
     else Inr (d\<lparr>users := users d @ [u], logins := (logins d)(u_id u := c)\<rparr>))"

definition insert_wallet :: "wallet \<Rightarrow> database \<Rightarrow> jserr + database" where
  "insert_wallet k d = (if w_id k \<in> set (map w_id (wallets d)) \<or> w_public_key k \<in> set (map w_public_key (wallets d)) then Inl uniqueViolation
     else if user_by_id d (w_user k) = None then Inl foreignKeyViolation
     else Inr (d\<lparr>wallets := wallets d @ [k]\<rparr>))"

definition new_wallet :: "register_draws \<Rightarrow> string \<times> string \<Rightarrow> int \<Rightarrow> wallet" where
  "new_wallet rd kp t = \<lparr>w_id = rd_wallet rd, w_user = rd_user rd, w_public_key = fst kp, w_secret = snd kp, w_default = False, w_created = t\<rparr>"

definition save_account :: "auth_env \<Rightarrow> register_draws \<Rightarrow> register_req \<Rightarrow> string \<times> string \<Rightarrow> (world, unit) proc" where
  "save_account env rd q kp = transaction (\<lambda>_. None)
     (andThen (execE (\<lambda>w. insert_user (new_user rd q) (new_login env rd q (now w)) (db w)))
       (execE (\<lambda>w. insert_wallet (new_wallet rd kp (now w)) (db w))))"

definition registered :: "auth_env \<Rightarrow> key_env \<Rightarrow> register_draws \<Rightarrow> register_req \<Rightarrow> (world, outcome) proc" where
  "registered env ke rd q =
     andThen (mail (rg_email q) ''verification'' (JStr (rd_token rd)))
     (andThen (if given (rg_phone q) then emit (Sms (the (rg_phone q)) (rd_otp rd)) else ret ())
       (ret (Reply 201 (JObj [(''message'', JStr ''Account created. Please verify your email and phone number.''),
         (''trustline_status'', JStr (case ke_trustline ke of None \<Rightarrow> ''skipped'' | Some (Inr _) \<Rightarrow> ''active'' | Some (Inl _) \<Rightarrow> ''pending''))]))))"

text \<open>The referral code given is looked up; its result and the user's own code are not used.\<close>

definition look_up_code :: "string option \<Rightarrow> (world, string option) proc" where
  "look_up_code code = (if given code then select (\<lambda>w. if list_ex (\<lambda>u. u_referral_code u = code) (users (db w)) then code else None) else ret None)"

definition register :: "auth_env \<Rightarrow> key_env \<Rightarrow> register_draws \<Rightarrow> register_req \<Rightarrow> (world, outcome) proc" where
  "register env ke rd q = handler (
     if sanitizeFullName (rg_name q) = [] then ret (Reply 400 (JObj [(''error'', JStr ''full_name is required''), (''field'', JStr ''full_name'')]))
     else if given (rg_phone q) \<and> \<not> isValidE164 (the (rg_phone q)) then
       ret (Reply 400 (JObj [(''error'', JStr ''phone must be a valid E.164 number (e.g. +2348012345678)''), (''field'', JStr ''phone'')]))
     else bnd (select (\<lambda>w. rg_email q \<in> set (map u_email (users (db w))))) (\<lambda>existing.
     if existing then ret (Reply 409 (jerr ''Email already registered''))
     else bnd (look_up_code (rg_code q)) (\<lambda>validReferredBy.
     bnd (lift (register_keys ke (rg_secret q))) (\<lambda>keys. case keys of
       Inl refusal \<Rightarrow> ret refusal
     | Inr kp \<Rightarrow> andThen (save_account env rd q kp) (registered env ke rd q)))))"

section \<open>E-mail and phone\<close>

text \<open>The answer of \<open>resendVerification\<close> precedes its work, whose failures are dropped.\<close>

definition resendVerification :: "auth_env \<Rightarrow> string \<Rightarrow> string \<Rightarrow> (world, outcome) proc" where
  "resendVerification env token email = catch (bnd (select (\<lambda>w. find (\<lambda>u. u_email u = email \<and> \<not> lg_email_verified (logins (db w) (u_id u))) (users (db w)))) (\<lambda>found.
     andThen (case found of None \<Rightarrow> ret ()
       | Some u \<Rightarrow> ignore (andThen (exec (\<lambda>w. set_login (u_id u) (\<lambda>c. c\<lparr>lg_verification := Some (sha256 env token, now w + TOKEN_TTL_MS)\<rparr>) (db w)))
           (mail email ''verification'' (JStr token))))
     (ret (message 200 ''If that account exists and is unverified, a new verification email has been sent.''))))
     (\<lambda>_. ret (message 200 ''If that account exists and is unverified, a new verification email has been sent.''))"

definition verifyEmail :: "auth_env \<Rightarrow> string option \<Rightarrow> (world, outcome) proc" where
  "verifyEmail env token = handler (
     if \<not> given token then ret (Reply 400 (jerr ''Verification token is required''))
     else bnd (select (\<lambda>w. (find (\<lambda>u. map_option fst (lg_verification (logins (db w) (u_id u))) = Some (sha256 env (the token))) (users (db w)), logins (db w), now w)))
       (\<lambda>(row, lg, t). case row of
         None \<Rightarrow> ret (Reply 400 (jerr ''Invalid verification token''))
       | Some u \<Rightarrow>
         if snd (the (lg_verification (lg (u_id u)))) < t then ret (Reply 400 (jerr ''Verification token has expired''))
         else andThen (exec (\<lambda>w. set_login (u_id u) (\<lambda>c. c\<lparr>lg_email_verified := True, lg_verification := None\<rparr>) (db w)))
           (ret (message 200 ''Email verified successfully. You can now log in.''))))"

definition set_phone_verified :: "string \<Rightarrow> bool \<Rightarrow> database \<Rightarrow> database" where
  "set_phone_verified uid b d = d\<lparr>users := update_where (\<lambda>u. u_id u = uid) (\<lambda>u. u\<lparr>u_phone_verified := b\<rparr>) (users d)\<rparr>"

definition verifyPhone :: "auth_env \<Rightarrow> string \<Rightarrow> string option \<Rightarrow> (world, outcome) proc" where
  "verifyPhone env uid otp = handler (
     if \<not> given otp then ret (Reply 400 (jerr ''OTP is required''))
     else bnd (select (\<lambda>w. if user_by_id (db w) uid = None then None else lg_otp (logins (db w) uid))) (\<lambda>row. bnd (gets now) (\<lambda>t. case row of
         None \<Rightarrow> ret (Reply 400 (jerr ''Invalid OTP''))
       | Some (hash, until) \<Rightarrow>
         if hash \<noteq> sha256 env (the otp) then ret (Reply 400 (jerr ''Invalid OTP''))
         else if until < t then ret (Reply 400 (jerr ''OTP has expired''))
         else andThen (exec (\<lambda>w. set_phone_verified uid True (set_login uid (\<lambda>c. c\<lparr>lg_otp := None\<rparr>) (db w))))
           (andThen (audit_log (Some uid) ''phone_verified'' JNull) (ret (message 200 ''Phone number verified successfully.''))))))"

definition find_pending :: "database \<Rightarrow> string \<Rightarrow> user option" where
  "find_pending d hash = find (\<lambda>u. case lg_pending (logins d (u_id u)) of Some (_, h, _) \<Rightarrow> h = hash | None \<Rightarrow> False) (users d)"

definition changeEmail :: "auth_env \<Rightarrow> string \<Rightarrow> string \<Rightarrow> string \<Rightarrow> string \<Rightarrow> (world, outcome) proc" where
  "changeEmail env token uid new_email password = handler (
     bnd (select (\<lambda>w. map_option (\<lambda>u. (u, logins (db w) uid)) (user_by_id (db w) uid))) (\<lambda>row. case row of
       None \<Rightarrow> ret (Reply 404 (jerr ''User not found''))
     | Some (u, c) \<Rightarrow>
       if \<not> bcrypt_compare env password (lg_password c) then ret (Reply 401 (jerr ''Invalid password''))
       else bnd (select (\<lambda>w. list_ex (\<lambda>v. u_email v = new_email \<and> u_id v \<noteq> uid) (users (db w)))) (\<lambda>existing.
       if existing then ret (Reply 409 (jerr ''Email already in use''))
       else andThen (exec (\<lambda>w. set_login uid (\<lambda>c. c\<lparr>lg_pending := Some (new_email, sha256 env token, now w + TOKEN_TTL_MS)\<rparr>) (db w)))
         (andThen (mail new_email ''verification'' (JStr token))
         (andThen (mail (u_email u) ''email_change_requested'' (JStr new_email))
         (andThen (audit_log (Some uid) ''email_change_requested'' (JObj [(''new_email'', JStr new_email)]))
           (ret (message 200 ''Verification email sent to new address. Check your inbox to confirm the change.''))))))))"

text \<open>The address becomes the pending one, unless another account has taken it.\<close>

definition take_email :: "string \<Rightarrow> string \<Rightarrow> database \<Rightarrow> jserr + database" where
  "take_email uid email d = (if list_ex (\<lambda>u. u_email u = email \<and> u_id u \<noteq> uid) (users d) then Inl uniqueViolation
     else Inr ((set_login uid (\<lambda>c. c\<lparr>lg_pending := None\<rparr>) d)\<lparr>users := update_where (\<lambda>u. u_id u = uid) (\<lambda>u. u\<lparr>u_email := email\<rparr>) (users d)\<rparr>))"

definition verifyEmailChange :: "auth_env \<Rightarrow> string option \<Rightarrow> (world, outcome) proc" where
  "verifyEmailChange env token = handler (
     if \<not> given token then ret (Reply 400 (jerr ''Token is required''))
     else bnd (select (\<lambda>w. map_option (\<lambda>u. (u, the (lg_pending (logins (db w) (u_id u))))) (find_pending (db w) (sha256 env (the token))))) (\<lambda>row. bnd (gets now) (\<lambda>t. case row of
       None \<Rightarrow> ret (Reply 400 (jerr ''Invalid or expired token''))
     | Some (u, email, hash, until) \<Rightarrow>
       if until < t then ret (Reply 400 (jerr ''Token has expired''))
       else andThen (execE (\<lambda>w. take_email (u_id u) email (db w)))
         (andThen (audit_log (Some (u_id u)) ''email_changed'' (JObj [(''new_email'', JStr email)]))
           (ret (message 200 ''Email address updated successfully.''))))))"

section \<open>The second factor\<close>

text \<open>The column holds 32 characters; \<open>secret\<close> and the codes are what \<open>generateSecret\<close> and \<open>generateBackupCodes\<close> give.\<close>

definition valueTooLong :: jserr where
  "valueTooLong = (mkError ''value too long for type character varying(32)'')\<lparr>err_code := Some ''22001''\<rparr>"

definition setup2FA :: "string \<Rightarrow> string \<Rightarrow> string list \<Rightarrow> (world, outcome) proc" where
  "setup2FA uid secret codes = handler (
     bnd (select (\<lambda>w. map_option (\<lambda>_. lg_totp_enabled (logins (db w) uid)) (user_by_id (db w) uid))) (\<lambda>row. case row of
       None \<Rightarrow> ret (Reply 404 (jerr ''User not found''))
     | Some enabled \<Rightarrow>
       if enabled then ret (Reply 400 (jerrc ''2FA is already enabled on this account. Please disable it first if you need to set up a new authenticator.'' ''TOTP_ALREADY_ENABLED''))
       else andThen (execE (\<lambda>w. if 32 < length secret \<and> user_by_id (db w) uid \<noteq> None then Inl valueTooLong
              else Inr (set_login uid (\<lambda>c. c\<lparr>lg_totp_secret := Some secret\<rparr>) (db w))))
         (ret (Reply 200 (JObj [(''backupCodes'', JArr (map JStr codes)), (''secret'', JStr secret)])))))"

text \<open>The codes of a user replaced: each new one is a row id, its code and the salt of its hash.\<close>

definition delete_codes :: "string \<Rightarrow> database \<Rightarrow> database" where
  "delete_codes uid d = d\<lparr>backup_rows := filter (\<lambda>r. bk_user r \<noteq> uid) (backup_rows d)\<rparr>"

definition insert_code :: "auth_env \<Rightarrow> string \<Rightarrow> string \<times> string \<times> string \<Rightarrow> database \<Rightarrow> jserr + database" where
  "insert_code env uid x d = (let (i, code, salt) = x in
     if i \<in> set (map bk_id (backup_rows d)) then Inl uniqueViolation
     else if user_by_id d uid = None then Inl foreignKeyViolation
     else Inr (d\<lparr>backup_rows := backup_rows d @ [\<lparr>bk_id = i, bk_user = uid, bk_hash = bcrypt_hash env salt code, bk_used = None\<rparr>]\<rparr>))"

definition replace_codes :: "auth_env \<Rightarrow> string \<Rightarrow> (string \<times> string \<times> string) list \<Rightarrow> (world, unit) proc" where
  "replace_codes env uid codes = andThen (exec (\<lambda>w. delete_codes uid (db w)))
     (forEach codes (\<lambda>x. execE (\<lambda>w. insert_code env uid x (db w))))"

definition raw_codes :: "(string \<times> string \<times> string) list \<Rightarrow> json" where
  "raw_codes codes = JArr (map (\<lambda>(i, code, salt). JStr code) codes)"

definition verify2FA :: "auth_env \<Rightarrow> (string \<times> string \<times> string) list \<Rightarrow> string \<Rightarrow> string \<Rightarrow> (world, outcome) proc" where
  "verify2FA env codes uid totp_code = handler (
     bnd (select (\<lambda>w. if user_by_id (db w) uid = None then None else lg_totp_secret (logins (db w) uid))) (\<lambda>secret.
       if \<not> given secret then ret (Reply 400 (jerr ''2FA setup not initiated''))
       else bnd (gets now) (\<lambda>t.
       if \<not> totp_verify env secret totp_code t then ret (Reply 401 (jerr ''Invalid TOTP code''))
       else andThen (exec (\<lambda>w. set_login uid (\<lambda>c. c\<lparr>lg_totp_enabled := True\<rparr>) (db w)))
         (andThen (replace_codes env uid codes)
         (andThen (audit_log (Some uid) ''2fa_enabled'' JNull)
           (ret (Reply 200 (JObj [(''message'', JStr ''2FA enabled successfully''), (''backup_codes'', raw_codes codes)]))))))))"

definition regenerateBackupCodes :: "auth_env \<Rightarrow> (string \<times> string \<times> string) list \<Rightarrow> string \<Rightarrow> string \<Rightarrow> (world, outcome) proc" where
  "regenerateBackupCodes env codes uid totp_code = handler (
     bnd (select (\<lambda>w. if user_by_id (db w) uid = None then None else Some (logins (db w) uid))) (\<lambda>row. case row of
       None \<Rightarrow> ret (Reply 400 (jerr ''2FA is not enabled''))
     | Some c \<Rightarrow>
       if \<not> lg_totp_enabled c then ret (Reply 400 (jerr ''2FA is not enabled''))
       else bnd (gets now) (\<lambda>t.
       if \<not> totp_verify env (lg_totp_secret c) totp_code t then ret (Reply 401 (jerr ''Invalid TOTP code''))
       else andThen (replace_codes env uid codes)
         (andThen (audit_log (Some uid) ''2fa_backup_codes_regenerated'' JNull)
           (ret (Reply 200 (JObj [(''backup_codes'', raw_codes codes)])))))))"

definition getBackupCodeCount :: "string \<Rightarrow> (world, outcome) proc" where
  "getBackupCodeCount uid = handler (bnd (select (\<lambda>w. length (unused_codes (db w) uid))) (\<lambda>n.
     ret (Reply 200 (JObj [(''remaining'', nat_json n)]))))"

definition disable2FA :: "auth_env \<Rightarrow> string \<Rightarrow> string \<Rightarrow> (world, outcome) proc" where
  "disable2FA env uid password = handler (
     bnd (select (\<lambda>w. if user_by_id (db w) uid = None then None else Some (lg_password (logins (db w) uid)))) (\<lambda>row.
       if (case row of None \<Rightarrow> True | Some h \<Rightarrow> \<not> bcrypt_compare env password h) then ret (Reply 401 (jerr ''Invalid password''))
       else andThen (exec (\<lambda>w. set_login uid (\<lambda>c. c\<lparr>lg_totp_enabled := False, lg_totp_secret := None\<rparr>) (db w)))
         (andThen (audit_log (Some uid) ''2fa_disabled'' JNull) (ret (message 200 ''2FA disabled'')))))"

section \<open>Passwords\<close>

definition FORGOT_PASSWORD_MESSAGE :: outcome where
  "FORGOT_PASSWORD_MESSAGE = message 200 ''If an account exists for this email, you will receive password reset instructions shortly.''"

definition new_reset :: "auth_env \<Rightarrow> string \<Rightarrow> string \<Rightarrow> string \<Rightarrow> int \<Rightarrow> reset_row" where
  "new_reset env i uid raw t = \<lparr>rs_id = i, rs_user = uid, rs_hash = sha256 env raw, rs_expires = t + PASSWORD_RESET_TTL_MS, rs_used = None\<rparr>"

definition forgotPassword :: "auth_env \<Rightarrow> string \<Rightarrow> string \<Rightarrow> string \<Rightarrow> (world, outcome) proc" where
  "forgotPassword env i raw email = handler (
     bnd (select (\<lambda>w. find (\<lambda>u. u_email u = email) (users (db w)))) (\<lambda>found.
       andThen (case found of None \<Rightarrow> ret ()
         | Some u \<Rightarrow> ignore
            (andThen (exec (\<lambda>w. (db w)\<lparr>reset_rows := filter (\<lambda>r. \<not> (rs_user r = u_id u \<and> rs_used r = None)) (reset_rows (db w))\<rparr>))
            (andThen (exec (\<lambda>w. (db w)\<lparr>reset_rows := reset_rows (db w) @ [new_reset env i (u_id u) raw (now w)]\<rparr>))
              (mail email ''password_reset'' (JStr raw)))))
       (ret FORGOT_PASSWORD_MESSAGE)))"

text \<open>\<open>WHERE token_hash = $1 AND used_at IS NULL AND expires_at > NOW()\<close>.\<close>

definition usable_reset :: "int \<Rightarrow> database \<Rightarrow> string \<Rightarrow> reset_row option" where
  "usable_reset t d hash = find (\<lambda>r. rs_hash r = hash \<and> rs_used r = None \<and> t < rs_expires r) (reset_rows d)"

definition use_resets :: "string \<Rightarrow> int \<Rightarrow> database \<Rightarrow> database" where
  "use_resets uid t d = d\<lparr>reset_rows := update_where (\<lambda>r. rs_user r = uid \<and> rs_used r = None) (\<lambda>r. r\<lparr>rs_used := Some t\<rparr>) (reset_rows d)\<rparr>"

definition drop_refresh :: "string \<Rightarrow> database \<Rightarrow> database" where
  "drop_refresh uid d = d\<lparr>refresh_rows := filter (\<lambda>r. rf_user r \<noteq> uid) (refresh_rows d)\<rparr>"

definition set_password :: "string \<Rightarrow> string \<Rightarrow> database \<Rightarrow> database" where
  "set_password uid hash = set_login uid (\<lambda>c. c\<lparr>lg_password := hash\<rparr>)"

definition reset_writes :: "string \<Rightarrow> string \<Rightarrow> (world, unit) proc" where
  "reset_writes uid hash = transaction (\<lambda>_. None)
     (andThen (exec (\<lambda>w. set_password uid hash (db w)))
     (andThen (exec (\<lambda>w. use_resets uid (now w) (db w)))
       (exec (\<lambda>w. drop_refresh uid (db w)))))"

definition resetPassword :: "auth_env \<Rightarrow> draws \<Rightarrow> string option \<Rightarrow> string \<Rightarrow> (world, outcome) proc" where
  "resetPassword env rnd token password = handler (
     if \<not> given token then ret (Reply 400 (jerr ''Reset token is required''))
     else bnd (select (\<lambda>w. usable_reset (now w) (db w) (sha256 env (the token)))) (\<lambda>found. case found of
       None \<Rightarrow> ret (Reply 400 (jerr ''Invalid or expired reset token''))
     | Some r \<Rightarrow> andThen (reset_writes (rs_user r) (bcrypt_hash env (dr_salt rnd) password))
         (andThen (emit (Disconnect (rs_user r)))
         (andThen (audit_log (Some (rs_user r)) ''password_change'' JNull)
         (andThen (audit_log (Some (rs_user r)) ''password_reset_sessions_invalidated'' JNull)
           (ret (message 200 ''Password has been reset. You can now log in.'')))))))"

definition validateResetToken :: "auth_env \<Rightarrow> string option \<Rightarrow> (world, outcome) proc" where
  "validateResetToken env token = handler (
     if \<not> given token then ret (Reply 400 (jerr ''Token is required''))
     else bnd (select (\<lambda>w. usable_reset (now w) (db w) (sha256 env (the token)))) (\<lambda>found. case found of
       None \<Rightarrow> ret (Reply 401 (jerr ''Invalid or expired reset token''))
     | Some r \<Rightarrow> ret (Reply 200 (JObj [(''expires_at'', JStr (toISOString (rs_expires r)))]))))"

definition changePassword :: "auth_env \<Rightarrow> draws \<Rightarrow> string \<Rightarrow> string \<Rightarrow> string \<Rightarrow> (world, outcome) proc" where
  "changePassword env rnd uid current new_password = handler (
     bnd (select (\<lambda>w. if user_by_id (db w) uid = None then None else Some (lg_password (logins (db w) uid)))) (\<lambda>row.
       if (case row of None \<Rightarrow> True | Some h \<Rightarrow> \<not> bcrypt_compare env current h) then ret (Reply 401 (jerr ''Current password is incorrect''))
       else andThen (exec (\<lambda>w. set_password uid (bcrypt_hash env (dr_salt rnd) new_password) (db w)))
         (andThen (audit_log (Some uid) ''password_change'' JNull) (ret (message 200 ''Password changed successfully'')))))"

section \<open>Profile\<close>

definition updateProfile :: "auth_env \<Rightarrow> string \<Rightarrow> string \<Rightarrow> string option \<Rightarrow> string option \<Rightarrow> (world, outcome) proc" where
  "updateProfile env otp uid full_name phone = handler (
     bnd (select (\<lambda>w. if user_by_id (db w) uid = None then None else lg_phone (logins (db w) uid))) (\<lambda>oldPhone.
       let fresh = given phone \<and> phone \<noteq> oldPhone in
       andThen (exec (\<lambda>w. let d = set_login uid (\<lambda>c. c\<lparr>lg_phone := (if given phone then phone else lg_phone c),
              lg_otp := (if fresh then Some (sha256 env otp, now w + PHONE_OTP_TTL_MS) else lg_otp c)\<rparr>) (db w)
            in d\<lparr>users := update_where (\<lambda>u. u_id u = uid) (\<lambda>u. u\<lparr>u_full_name := (if given full_name then the full_name else u_full_name u),
              u_phone_verified := (if fresh then False else u_phone_verified u)\<rparr>) (users d)\<rparr>))
       (andThen (if fresh then emit (Sms (the phone) otp) else ret ())
       (andThen (audit_log (Some uid) ''profile_update'' JNull)
         (ret (Reply 200 (JObj [(''message'', JStr ''Profile updated''), (''phone_verification_required'', JBool fresh)])))))))"

definition getMe :: "string \<Rightarrow> (world, outcome) proc" where
  "getMe uid = handler (
     bnd (select (\<lambda>w. map_option (\<lambda>u. (u, logins (db w) uid, first_row (wallets_of (db w) uid))) (user_by_id (db w) uid))) (\<lambda>row. case row of
       None \<Rightarrow> ret (Reply 404 (jerr ''User not found''))
     | Some (u, c, pk) \<Rightarrow> ret (Reply 200 (JObj [(''id'', JStr (u_id u)), (''full_name'', JStr (u_full_name u)), (''email'', JStr (u_email u)),
         (''email_verified'', JBool (lg_email_verified c)), (''phone'', json_opt (lg_phone c)), (''phone_verified'', JBool (u_phone_verified u)),
         (''wallet_address'', json_opt pk), (''totp_enabled'', JBool (lg_totp_enabled c)), (''onboarding_completed'', JBool (lg_onboarded c))]))))"

definition completeOnboarding :: "string \<Rightarrow> (world, outcome) proc" where
  "completeOnboarding uid = handler (
     andThen (exec (\<lambda>w. set_login uid (\<lambda>c. c\<lparr>lg_onboarded := True\<rparr>) (db w)))
     (andThen (audit_log (Some uid) ''onboarding_completed'' JNull) (ret (message 200 ''Onboarding completed''))))"

section \<open>The policy of passwords\<close>

text \<open>\<^verbatim>\<open>services/passwordPolicy.js\<close>; \<open>PASSWORD_MIN_LENGTH\<close> is a text or unset.\<close>

definition min_length :: "string option \<Rightarrow> jsnum" where
  "min_length v = jor (parseInt (case v of None \<Rightarrow> ''undefined'' | Some s \<Rightarrow> s)) (Fin 8)"

definition upper :: "char \<Rightarrow> bool" where "upper c = (let n = (of_char c :: nat) in 65 \<le> n \<and> n \<le> 90)"
definition lower :: "char \<Rightarrow> bool" where "lower c = (let n = (of_char c :: nat) in 97 \<le> n \<and> n \<le> 122)"

definition checkPasswordStrength :: "string option \<Rightarrow> string \<Rightarrow> string list" where
  "checkPasswordStrength v password =
     (if jlt (Fin (of_nat (length password))) (min_length v) then [''at least '' @ (case min_length v of Fin x \<Rightarrow> show_int \<lfloor>x\<rfloor> | _ \<Rightarrow> ''Infinity'') @ '' characters''] else []) @
     (if list_ex upper password then [] else [''at least one uppercase letter'']) @
     (if list_ex lower password then [] else [''at least one lowercase letter'']) @
     (if list_ex is_digit password then [] else [''at least one digit'']) @
     (if list_ex (\<lambda>c. \<not> (upper c \<or> lower c \<or> is_digit c)) password then [] else [''at least one special character''])"

section \<open>Properties\<close>

lemma insert_user_Inr: "insert_user u c d = Inr d' \<Longrightarrow> u_id u \<notin> set (map u_id (users d)) \<and> u_email u \<notin> set (map u_email (users d)) \<and> d' = d\<lparr>users := users d @ [u], logins := (logins d)(u_id u := c)\<rparr>"
  by (auto simp: insert_user_def split: if_splits)

lemma insert_wallet_Inr: "insert_wallet k d = Inr d' \<Longrightarrow> d' = d\<lparr>wallets := wallets d @ [k]\<rparr>"
  by (auto simp: insert_wallet_def split: if_splits)

definition same_accounts :: "world \<Rightarrow> world \<Rightarrow> bool" where
  "same_accounts w v \<longleftrightarrow> users (db v) = users (db w) \<and> wallets (db v) = wallets (db w) \<and> logins (db v) = logins (db w) \<and> now v = now w"

definition account_added :: "auth_env \<Rightarrow> register_draws \<Rightarrow> register_req \<Rightarrow> world \<Rightarrow> world \<Rightarrow> bool" where
  "account_added env rd q w v \<longleftrightarrow> rd_user rd \<notin> set (map u_id (users (db w))) \<and> rg_email q \<notin> set (map u_email (users (db w))) \<and> users (db v) = users (db w) @ [new_user rd q] \<and>
     (\<exists>kp. wallets (db v) = wallets (db w) @ [new_wallet rd kp (now w)]) \<and> logins (db v) = (logins (db w))(rd_user rd := new_login env rd q (now w))"

lemma new_user_sel [simp]: "u_id (new_user rd q) = rd_user rd" "u_email (new_user rd q) = rg_email q"
  by (simp_all add: new_user_def)

lemma wp_save_account: "wp (save_account env rd q kp) (\<lambda>_ v. account_added env rd q w v) (\<lambda>_ v. same_accounts w v) w"
  unfolding save_account_def transaction_def
  by (auto simp: wps same_accounts_def account_added_def split: sum.split dest!: insert_user_Inr insert_wallet_Inr)
    (metis surj_pair)

lemma wp_registered: "wp (registered env ke rd q) (\<lambda>r v. db v = db w \<and> status_of r = Some 201) (\<lambda>_ v. db v = db w) w"
  by (auto simp: registered_def mail_def wps)

lemma wp_register:
  "wp (register env ke rd q) (\<lambda>r v. same_accounts w v \<and> status_of r \<noteq> Some 201 \<or> account_added env rd q w v \<and> status_of r \<in> {Some 201, None}) (\<lambda>_ _. False) w"
proof -
  let ?Q = "\<lambda>r v. same_accounts w v \<and> status_of r \<noteq> Some 201 \<or> account_added env rd q w v \<and> status_of r \<in> {Some 201, None}"
  have step: "wp (andThen (save_account env rd q kp) (registered env ke rd q)) ?Q (\<lambda>e. ?Q (NextErr e)) x" if x: "same_accounts w x" for x kp
    unfolding wp_andThen
  proof (rule wp_mono [OF wp_save_account], goal_cases)
    case (1 _ y)
    then have y: "account_added env rd q w y" using x by (simp add: account_added_def same_accounts_def)
    show ?case by (rule wp_mono [OF wp_registered]) (use y in \<open>auto simp: account_added_def\<close>)
  next
    case (2 e y)
    then show ?case using x by (simp add: same_accounts_def)
  qed
  have keys: "keys = Inl r \<Longrightarrow> status_of r = Some 400" if "register_keys ke s = Inr keys" for keys r s
    using that by (auto simp: register_keys_def split: if_splits sum.splits)
  have ticked: "same_accounts w (ticked x)" if "same_accounts w x" for x using that by (simp add: same_accounts_def)
  have refl: "same_accounts w w" by (simp add: same_accounts_def)
  have rest: "wp (bnd (lift (register_keys ke (rg_secret q))) (\<lambda>keys. case keys of
       Inl refusal \<Rightarrow> ret refusal
     | Inr kp \<Rightarrow> andThen (save_account env rd q kp) (registered env ke rd q))) ?Q (\<lambda>e. ?Q (NextErr e)) x" if "same_accounts w x" for x
    using that step [OF that] keys by (cases "register_keys ke (rg_secret q)") (auto simp: wp_bnd wp_lift wp_ret split: sum.split)
  show ?thesis
    unfolding register_def look_up_code_def
    using rest [OF ticked [OF refl]] rest [OF ticked [OF ticked [OF refl]]] ticked [OF refl] ticked [OF ticked [OF refl]] refl
    by (simp add: wp_handler wp_bnd wp_if wp_ret wp_select)
qed

text \<open>
  C25: under any failures a registration leaves users, wallets and credentials as they were, or adds one user with
  an address nobody has, its wallet and its unverified credentials; only then it may answer 201.
\<close>

theorem register_all_or_nothing:
  "wp (register env ke rd q) (\<lambda>r v. same_accounts w v \<and> status_of r \<noteq> Some 201 \<or> account_added env rd q w v \<and> status_of r \<in> {Some 201, None}) (\<lambda>_ _. False) w"
  by (rule wp_register)

text \<open>The referral code a registration brings is not stored, and the user gets none.\<close>

lemma registration_drops_referral: "u_referral_code (new_user rd q) = None \<and> u_referred_by (new_user rd q) = None"
  by (simp add: new_user_def)

text \<open>The link of \<open>changeEmail\<close> leads to \<open>verifyEmail\<close>, which looks for the token in another column.\<close>

lemma email_change_link_refused:
  assumes "\<And>uid. map_option fst (lg_verification (logins (db w) uid)) \<noteq> Some (sha256 env token)"
  shows "wp (verifyEmail env (Some token)) (\<lambda>r v. status_of r \<noteq> Some 200 \<and> logins (db v) = logins (db w)) (\<lambda>_ _. False) w"
proof -
  have "find (\<lambda>u. map_option fst (lg_verification (logins (db w) (u_id u))) = Some (sha256 env token)) (users (db w)) = None"
    using assms by (auto simp: find_None_iff)
  then show ?thesis by (auto simp: verifyEmail_def wps)
qed

lemma changeEmail_keeps_verification:
  "wp (changeEmail env token uid email password) (\<lambda>r v. lg_verification (logins (db v) i) = lg_verification (logins (db w) i)) (\<lambda>_ _. False) w"
  by (auto simp: changeEmail_def mail_def set_login_def wps split: option.split)

text \<open>A TOTP secret longer than its column, as a base-32 secret of 32 bytes is, cannot be set up.\<close>

lemma long_secret_refused:
  assumes "32 < length secret"
  shows "wp (setup2FA uid secret codes) (\<lambda>r v. status_of r \<noteq> Some 200 \<and> db v = db w) (\<lambda>_ _. False) w"
  using assms by (cases "user_by_id (db w) uid") (auto simp: setup2FA_def wps)

text \<open>Wrong TOTP codes are not counted, whatever their number.\<close>

lemma totp_guesses_uncounted:
  assumes "login env rnd q w = (Inr r, v)" and "unlocked_row w q u c"
    and "bcrypt_compare env (lq_password q) (lg_password c)" and "\<not> given (lq_backup q)" and "\<not> entitled env q w u c"
  shows "lg_failed (logins (db v) (u_id u)) \<le> lg_failed c"
proof -
  have wrong: "\<not> wrong_secret env q w u c" using assms(3,4) by (simp add: wrong_secret_def)
  have c: "c = logins (db w) (u_id u)" using assms(2) by (auto simp: unlocked_row_def dest: login_row_user)
  from login_run [OF assms(1)] have "login_done env rnd q w r v" by simp
  then show ?thesis
  proof (cases rule: login_done_cases)
    case 1
    then show ?thesis by (simp add: untouched_def c)
  next
    case (2 u' c' x)
    then have u: "u' = u" "c' = c" using assms(2) by (auto simp: unlocked_row_def)
    have "logins (db v) (u_id u) = logins (db x) (u_id u)"
      using 2(4) wrong assms(5) by (auto simp: u lifted_wrong [OF 2(2)] lifted_entitled [OF 2(2)] interrupted_def untouched_def)
    then show ?thesis using 2(2) by (auto simp: lifted_def u c clear_failures_def split: if_splits)
  next
    case (3 u' c' x)
    then show ?thesis using assms(2,5) lifted_entitled [OF 3(2)] by (auto simp: unlocked_row_def)
  qed
qed

section \<open>A reset token works once\<close>

lemma use_resets_used: "filter (\<lambda>r. rs_user r = uid \<and> rs_used r = None) (reset_rows (use_resets uid t d)) = []"
  by (simp add: use_resets_def filter_update_where_none)

lemma reset_sel [simp]:
  "reset_rows (set_login uid f d) = reset_rows d" "refresh_rows (use_resets uid t d) = refresh_rows d" "logins (use_resets uid t d) = logins d"
  "logins (drop_refresh uid d) = logins d" "reset_rows (drop_refresh uid d) = reset_rows d"
  "filter (\<lambda>r. rf_user r = uid) (refresh_rows (drop_refresh uid d)) = []"
  by (simp_all add: set_login_def use_resets_def drop_refresh_def)

definition reset_done :: "string \<Rightarrow> string \<Rightarrow> world \<Rightarrow> world \<Rightarrow> bool" where
  "reset_done uid hash w v \<longleftrightarrow> logins (db v) = logins (set_password uid hash (db w)) \<and>
     filter (\<lambda>r. rs_user r = uid \<and> rs_used r = None) (reset_rows (db v)) = [] \<and> filter (\<lambda>r. rf_user r = uid) (refresh_rows (db v)) = []"

lemma wp_reset_writes: "wp (reset_writes uid hash) (\<lambda>_ v. reset_done uid hash w v) (\<lambda>_ v. db v = db w) w"
  unfolding reset_writes_def transaction_def
  by (simp add: wps reset_done_def set_password_def use_resets_used)

text \<open>
  C26: under any failures a password reset changes neither credentials, reset tokens nor refresh tokens, or its
  token was unused and unexpired; then the password of that user is the new one, none of the user's reset tokens is
  usable and none of the user's refresh tokens is left.
\<close>

theorem reset_token_once:
  "wp (resetPassword env rnd token password) (\<lambda>r v.
      status_of r \<noteq> Some 200 \<and> logins (db v) = logins (db w) \<and> reset_rows (db v) = reset_rows (db w) \<and> refresh_rows (db v) = refresh_rows (db w) \<or>
      status_of r = Some 200 \<and> (\<exists>row. usable_reset (now w) (db w) (sha256 env (the token)) = Some row \<and>
        logins (db v) = logins (set_password (rs_user row) (bcrypt_hash env (dr_salt rnd) password) (db w)) \<and>
        filter (\<lambda>r. rs_user r = rs_user row \<and> rs_used r = None) (reset_rows (db v)) = [] \<and>
        filter (\<lambda>r. rf_user r = rs_user row) (refresh_rows (db v)) = [])) (\<lambda>_ _. False) w"
proof (cases "given token")
  case True
  show ?thesis
  proof (cases "usable_reset (now w) (db w) (sha256 env (the token))")
    case None
    with True show ?thesis by (simp add: resetPassword_def wps)
  next
    case (Some row)
    have "wp (reset_writes (rs_user row) h) (\<lambda>_ v. reset_done (rs_user row) h w v) (\<lambda>_ v. db v = db w) (ticked w)" for h
      using wp_reset_writes [of "rs_user row" h "ticked w"] by (simp add: reset_done_def)
    note writes = wp_mono [OF this]
    show ?thesis
      by (simp add: resetPassword_def True wp_handler wp_bnd wp_select Some wp_andThen wp_if)
        (rule impI, rule writes, auto simp: wps reset_done_def message_def)
  qed
next
  case False
  then show ?thesis by (simp add: resetPassword_def wps)
qed

section \<open>A backup code works once\<close>

text \<open>The rows of the codes that let a login through, over any history of logins and replacements by fresh codes.\<close>

inductive code_run :: "auth_env \<Rightarrow> world \<Rightarrow> string list \<Rightarrow> bool" for env where
  Start: "code_run env w []"
| Code: "code_run env w acc \<Longrightarrow> login env rnd q w = (Inr r, v) \<Longrightarrow> status_of r = Some 200 \<Longrightarrow> unlocked_row w q u c \<Longrightarrow> by_code q c \<Longrightarrow>
    match_code env (the (lq_backup q)) (unused_codes (db w) (u_id u)) = Some i \<Longrightarrow> code_run env v (i # acc)"
| Login: "code_run env w acc \<Longrightarrow> login env rnd q w = (r, v) \<Longrightarrow> code_run env v acc"
| Enable: "code_run env w acc \<Longrightarrow> set (map fst codes) \<inter> set acc = {} \<Longrightarrow> verify2FA env codes uid totp w = (r, v) \<Longrightarrow> code_run env v acc"
| Regenerate: "code_run env w acc \<Longrightarrow> set (map fst codes) \<inter> set acc = {} \<Longrightarrow> regenerateBackupCodes env codes uid totp w = (r, v) \<Longrightarrow> code_run env v acc"
| Other: "code_run env w acc \<Longrightarrow> backup_rows (db v) = backup_rows (db w) \<Longrightarrow> code_run env v acc"

definition no_reuse :: "string list \<Rightarrow> database \<Rightarrow> bool" where
  "no_reuse acc d \<longleftrightarrow> (\<forall>r\<in>set (backup_rows d). bk_used r = None \<longrightarrow> bk_id r \<notin> set acc)"

lemma no_reuse_code: "no_reuse acc d \<Longrightarrow> match_code env code (unused_codes d uid) = Some i \<Longrightarrow> i \<notin> set acc"
  by (auto simp: no_reuse_def dest: match_code_unused)

lemma use_code_unused: "r \<in> set (backup_rows (use_code i t d)) \<Longrightarrow> bk_used r = None \<Longrightarrow> r \<in> set (backup_rows d) \<and> bk_id r \<noteq> i"
proof -
  assume r: "r \<in> set (backup_rows (use_code i t d))" "bk_used r = None"
  then have "r \<in> (\<lambda>x. if bk_id x = i then if bk_used x = None then x\<lparr>bk_used := Some t\<rparr> else x else x) ` set (backup_rows d)"
    by (simp add: use_code_def update_where_def)
  then obtain x where "r = (if bk_id x = i then if bk_used x = None then x\<lparr>bk_used := Some t\<rparr> else x else x)" "x \<in> set (backup_rows d)" by (rule imageE)
  with r(2) show ?thesis by (cases "bk_id x = i"; cases "bk_used x") simp_all
qed

lemma no_reuse_use: "no_reuse acc d \<Longrightarrow> no_reuse (i # acc) (use_code i t d)"
  unfolding no_reuse_def using use_code_unused by fastforce

lemma no_reuse_Cons: "no_reuse (i # acc) d \<Longrightarrow> no_reuse acc d"
  by (simp add: no_reuse_def)

lemma no_reuse_rows: "backup_rows d = backup_rows d' \<Longrightarrow> no_reuse acc d = no_reuse acc d'"
  by (simp add: no_reuse_def)

lemma keeps_replace:
  assumes "set (map fst codes) \<inter> set acc = {}"
  shows "keeps (\<lambda>w. no_reuse acc (db w)) (replace_codes env uid codes)"
proof -
  have one: "keeps (\<lambda>w. no_reuse acc (db w)) (execE (\<lambda>w. insert_code env uid x (db w)))" if "x \<in> set codes" for x
  proof -
    have "fst x \<notin> set acc" using that assms by auto
    then show ?thesis by (intro keeps_execE) (auto simp: insert_code_def no_reuse_def Let_def split: prod.splits if_splits)
  qed
  have "keeps (\<lambda>w. no_reuse acc (db w)) (forEach cs (\<lambda>x. execE (\<lambda>w. insert_code env uid x (db w))))" if "set cs \<subseteq> set codes" for cs
    using that by (induction cs) (auto intro!: keep one)
  then show ?thesis unfolding replace_codes_def
    by (intro keeps_andThen keeps_exec) (auto simp: delete_codes_def no_reuse_def)
qed

lemma keeps_login_rows: "keeps (\<lambda>w. no_reuse acc (db w)) (exec (\<lambda>w. set_login uid (f w) (db w)))"
  by (rule keeps_exec) (simp add: no_reuse_rows [of _ "db _"] no_reuse_def)

lemma keeps_audit: "keeps (\<lambda>w. no_reuse acc (db w)) (audit_log uid a x)"
  unfolding audit_log_def by (intro keep keeps_exec) (simp add: no_reuse_def)

lemmas keeps_codes = keep keeps_login_rows keeps_audit keeps_replace

lemma keeps_verify2FA: "set (map fst codes) \<inter> set acc = {} \<Longrightarrow> keeps (\<lambda>w. no_reuse acc (db w)) (verify2FA env codes uid totp)"
  unfolding verify2FA_def by (intro keeps_codes) auto

lemma keeps_regenerate: "set (map fst codes) \<inter> set acc = {} \<Longrightarrow> keeps (\<lambda>w. no_reuse acc (db w)) (regenerateBackupCodes env codes uid totp)"
  unfolding regenerateBackupCodes_def by (intro keeps_codes) auto

text \<open>A login adds no unused code, and one that a code let through has spent it.\<close>

lemma login_codes:
  assumes "login_done env rnd q w r v" and "no_reuse acc (db w)"
  shows "no_reuse acc (db v)"
    and "status_of r = Some 200 \<Longrightarrow> unlocked_row w q u c \<Longrightarrow> by_code q c \<Longrightarrow>
      match_code env (the (lq_backup q)) (unused_codes (db w) (u_id u)) = Some i \<Longrightarrow> no_reuse (i # acc) (db v)"
proof -
  have after: "no_reuse acc (db v)" if "codes_after env q x u' c' v" "no_reuse acc (db x)" for x u' c'
    using that no_reuse_Cons [OF no_reuse_use [OF that(2)]] no_reuse_rows [of "db v" "db x"] no_reuse_rows [of "db v" "use_code _ (now x) (db x)"]
    by (auto simp: codes_after_def split: if_splits)
  have x: "no_reuse acc (db x)" if "lifted uid w x" for uid x
    using that assms(2) no_reuse_rows [of "db x" "db w"] by (simp add: lifted_def)
  show "no_reuse acc (db v)"
    using assms(1)
  proof (cases rule: login_done_cases)
    case 1
    then show ?thesis using assms(2) no_reuse_rows [of "db v" "db w"] by (simp add: untouched_def)
  next
    case (2 u' c' y)
    then show ?thesis using x [OF 2(2)] no_reuse_rows [of "db v" "db y"] after
      by (auto simp: interrupted_def bumped_def untouched_def)
  next
    case (3 u' c' y)
    then show ?thesis using x [OF 3(2)] after by (auto simp: logged_in_def)
  qed
  assume ok: "status_of r = Some 200" and u: "unlocked_row w q u c" "by_code q c"
    and i: "match_code env (the (lq_backup q)) (unused_codes (db w) (u_id u)) = Some i"
  from assms(1) show "no_reuse (i # acc) (db v)"
  proof (cases rule: login_done_cases)
    case (3 u' c' y)
    then have same: "u' = u" "c' = c" using u(1) by (auto simp: unlocked_row_def)
    have "unused_codes (db y) = unused_codes (db w)" using 3(2) by (simp add: lifted_def unused_codes_def fun_eq_iff)
    with 3(5) u(2) i have "backup_rows (db v) = backup_rows (use_code i (now y) (db y))"
      by (simp add: same logged_in_def codes_after_def)
    then show ?thesis using no_reuse_use [OF x [OF 3(2)], of i "now y"] no_reuse_rows by blast
  qed (use ok in simp_all)
qed


definition demo_code_login :: login_req where
  "demo_code_login = demo_guess\<lparr>lq_password := ''right'', lq_backup := Some ''CODE1''\<rparr>"

definition demo_2fa :: world where
  "demo_2fa = demo_account\<lparr>db := (db demo_account)\<lparr>logins := (\<lambda>_. fresh_login\<lparr>lg_password := ''right'', lg_email_verified := True, lg_totp_enabled := True\<rparr>),
     backup_rows := [\<lparr>bk_id = ''b1'', bk_user = ''u1'', bk_hash = ''CODE1'', bk_used = None\<rparr>, \<lparr>bk_id = ''b2'', bk_user = ''u1'', bk_hash = ''CODE2'', bk_used = None\<rparr>]\<rparr>\<rparr>"


section \<open>From the PIN to the payment\<close>

text \<open>What is relied on of \<open>jsonwebtoken\<close>: a signed token reads back as its claims until it expires.\<close>

definition reads_back :: "auth_env \<Rightarrow> claims \<Rightarrow> bool" where
  "reads_back env c \<longleftrightarrow> jwt_sign env c \<noteq> [] \<and>
     (\<forall>t. jwt_verify env t (jwt_sign env c) = (if t div 1000 < cl_exp c then Inr c else Inl ((mkError ''jwt expired'')\<lparr>err_name := ''TokenExpiredError''\<rparr>)))"

lemma wp_verifyPIN:
  "wp (verifyPIN env rnd uid pin) (\<lambda>r v. status_of r \<noteq> Some 200 \<or>
      (\<exists>h. lg_pin (logins (db w) uid) = Some h \<and> comparePIN env pin h) \<and> \<not> locked (now w) (logins (db w) uid)) (\<lambda>_ _. False) w"
proof -
  have wrong: "wp (wrong_pin uid) (\<lambda>r v. status_of r \<noteq> Some 200) (\<lambda>e v. True) x" for x
    by (auto simp: wrong_pin_def recordFailedAuthAttempt_def bump_login_def wps pin_locked_def)
  then have wrong': "wp (wrong_pin uid) (\<lambda>r v. status_of r \<noteq> Some 200 \<or> P) (\<lambda>e v. True) x" for x P
    by (rule wp_mono) auto
  show ?thesis
    by (auto simp: verifyPIN_def wps pin_locked_def wrong wrong' split: option.split)
qed

lemma requireStepUp_fresh:
  assumes "reads_back env c" and "c = issueStepUpToken uid j t" and "j \<noteq> []" and "now x div 1000 < cl_exp c" and "faults x = []" and "\<not> claimed x j"
  shows "fst (requireStepUp (jwt_verify env) uid' (Some (jwt_sign env c)) x) = Inr (if uid' = uid then Next else rejectStepUp)"
proof -
  have "jwt_verify env (now x) (jwt_sign env c) = Inr c" "jwt_sign env c \<noteq> []" using assms(1,4) by (simp_all add: reads_back_def)
  moreover have "cl_purpose c = Some ''transaction_step_up''" "cl_jti c = Some j" "cl_sub c = Some uid" by (simp_all add: assms(2) issueStepUpToken_def)
  ultimately show ?thesis
    using assms(3,5,6)
    by (auto simp: requireStepUp_def catch_def bnd_def gets_def lift_def ret_def setIfAbsent_def redisSetNX_def andThen_def tick_def modify_def
        claimed_def used_until_def live_def split: option.splits prod.splits if_splits)
qed

text \<open>
  a confirmed PIN is the PIN of an account that is not locked, and the confirmation it gives passes the check
  of a payment of the same user within two minutes, once, and of no other user.
\<close>

theorem pin_confirms_payment:
  assumes "verifyPIN env rnd uid pin w = (Inr (Reply 200 b), v)" and "dr_jti rnd \<noteq> []"
    and "reads_back env (issueStepUpToken uid (dr_jti rnd) (now w))"
    and "now x div 1000 < now w div 1000 + 120" and "faults x = []" and "\<not> claimed x (dr_jti rnd)"
  shows "(\<exists>h. lg_pin (logins (db w) uid) = Some h \<and> comparePIN env pin h) \<and> \<not> locked (now w) (logins (db w) uid) \<and>
    fst (requireStepUp (jwt_verify env) uid' (Some (jwt_sign env (issueStepUpToken uid (dr_jti rnd) (now w)))) x) = Inr (if uid' = uid then Next else rejectStepUp)"
proof -
  have "now x div 1000 < cl_exp (issueStepUpToken uid (dr_jti rnd) (now w))" using assms(4) by (simp add: issueStepUpToken_def STEP_UP_TTL_SECONDS_def)
  from requireStepUp_fresh [OF assms(3) refl assms(2) this assms(5,6)] wp_run [OF wp_verifyPIN assms(1)]
  show ?thesis by simp
qed

definition demo_pin_env :: auth_env where
  "demo_pin_env = demo_env\<lparr>jwt_verify := (\<lambda>t s. if t div 1000 < 121 then Inr (issueStepUpToken ''u1'' ''j1'' 1000)
     else Inl ((mkError ''jwt expired'')\<lparr>err_name := ''TokenExpiredError''\<rparr>))\<rparr>"

definition demo_pin :: world where
  "demo_pin = demo_account\<lparr>db := (db demo_account)\<lparr>logins := (\<lambda>_. fresh_login\<lparr>lg_pin := Some ''1234''\<rparr>)\<rparr>\<rparr>"

lemma pin_confirms_payment_witness:
  "(\<exists>h. lg_pin (logins (db demo_pin) ''u1'') = Some h \<and> comparePIN demo_pin_env ''1234'' h) \<and> \<not> locked (now demo_pin) (logins (db demo_pin) ''u1'') \<and>
    fst (requireStepUp (jwt_verify demo_pin_env) ''u1'' (Some (jwt_sign demo_pin_env (issueStepUpToken ''u1'' (dr_jti demo_draws) (now demo_pin)))) demo_pin) = Inr (if ''u1'' = ''u1'' then Next else rejectStepUp)"
proof -
  have ok: "case verifyPIN demo_pin_env demo_draws ''u1'' ''1234'' demo_pin of (Inr (Reply s b), v) \<Rightarrow> s = 200 | _ \<Rightarrow> False" by code_simp
  have reads: "reads_back demo_pin_env (issueStepUpToken ''u1'' (dr_jti demo_draws) (now demo_pin))"
    by (simp add: reads_back_def demo_pin_env_def demo_env_def demo_draws_def demo_pin_def demo_account_def issueStepUpToken_def STEP_UP_TTL_SECONDS_def)
  obtain b v where "verifyPIN demo_pin_env demo_draws ''u1'' ''1234'' demo_pin = (Inr (Reply 200 b), v)"
    using ok by (auto split: prod.splits sum.splits outcome.splits)
  moreover have "dr_jti demo_draws \<noteq> []" by code_simp
  moreover note reads
  moreover have "now demo_pin div 1000 < now demo_pin div 1000 + 120" "faults demo_pin = []" "\<not> claimed demo_pin (dr_jti demo_draws)" by code_simp+
  ultimately show ?thesis by (rule pin_confirms_payment)
qed

end
