(* ===== verification/Rotation.thy ===== *)
theory Rotation
  imports Accounts
begin

text \<open>
  Refresh tokens and their CSRF cookie: \<open>refresh\<close>, \<open>logout\<close> and their helpers of \<^verbatim>\<open>controllers/authController.js\<close>, and
  \<^verbatim>\<open>middleware/csrf.js\<close>. The query of \<open>refresh\<close> is the argument \<open>lookup\<close>: the text in the source is not valid SQL
  (\<open>u.role u.email\<close>, a comma is missing), which is \<open>lookup_written\<close>; \<open>lookup_meant\<close> is the query with the comma.
\<close>

section \<open>Refreshing\<close>

type_synonym lookup = "string \<Rightarrow> (world, (refresh_row \<times> user) option) proc"

definition refresh_by_hash :: "database \<Rightarrow> string \<Rightarrow> refresh_row option" where
  "refresh_by_hash d hash = find (\<lambda>r. rf_hash r = hash) (refresh_rows d)"

definition syntaxError :: jserr where
  "syntaxError = (mkError ''syntax error at or near'')\<lparr>err_code := Some ''42601''\<rparr>"

definition lookup_written :: lookup where
  "lookup_written hash = andThen tick (throw syntaxError)"

definition lookup_meant :: lookup where
  "lookup_meant hash = select (\<lambda>w. case refresh_by_hash (db w) hash of None \<Rightarrow> None
     | Some r \<Rightarrow> map_option (\<lambda>u. (r, u)) (user_by_id (db w) (rf_user r)))"

definition REFRESH_GRACE_MS :: int where "REFRESH_GRACE_MS = 20000"

definition withinGrace :: "int \<Rightarrow> refresh_row \<Rightarrow> bool" where
  "withinGrace t r = (case rf_revoked_at r of None \<Rightarrow> False | Some x \<Rightarrow> given (rf_replaced r) \<and> t - x \<le> REFRESH_GRACE_MS)"

definition clear_refresh :: "(world, unit) proc" where
  "clear_refresh = emit (ClearCookie ''refreshToken'')"

definition revoke_family :: "string \<Rightarrow> int \<Rightarrow> database \<Rightarrow> database" where
  "revoke_family f t d = d\<lparr>refresh_rows := update_where (\<lambda>r. rf_family r = f)
     (\<lambda>r. r\<lparr>rf_revoked := True, rf_revoked_at := (case rf_revoked_at r of None \<Rightarrow> Some t | Some x \<Rightarrow> Some x), rf_replaced := None\<rparr>) (refresh_rows d)\<rparr>"

definition revokeFamilyForReuse :: "refresh_row \<Rightarrow> (world, outcome) proc" where
  "revokeFamilyForReuse r = andThen (exec (\<lambda>w. revoke_family (rf_family r) (now w) (db w)))
     (andThen clear_refresh (ret (Reply 401 (jerr ''Refresh token reuse detected. Please log in again.''))))"

definition issueRefreshResponse :: "auth_env \<Rightarrow> draws \<Rightarrow> refresh_row \<Rightarrow> user \<Rightarrow> string \<Rightarrow> (world, outcome) proc" where
  "issueRefreshResponse env rnd r u raw = bnd (gets now) (\<lambda>t.
     andThen (emit (Cookie ''refreshToken'' raw))
     (andThen (setCsrfCookie env (Some (rf_family r)) (dr_nonce rnd))
       (ret (Reply 200 (JObj [(''token'', JStr (signAccessToken env (rf_user r) (u_role u) (dr_jti rnd) t))])))))"

definition claim_row :: "string \<Rightarrow> int \<Rightarrow> string \<Rightarrow> database \<Rightarrow> database" where
  "claim_row i t enc d = d\<lparr>refresh_rows := update_where (\<lambda>r. rf_id r = i \<and> \<not> rf_revoked r)
     (\<lambda>r. r\<lparr>rf_revoked := True, rf_revoked_at := Some t, rf_replaced := Some enc\<rparr>) (refresh_rows d)\<rparr>"

definition delete_row :: "string \<Rightarrow> database \<Rightarrow> database" where
  "delete_row i d = d\<lparr>refresh_rows := filter (\<lambda>r. rf_id r \<noteq> i) (refresh_rows d)\<rparr>"

definition claim_token :: "string \<Rightarrow> string \<Rightarrow> (world, bool) proc" where
  "claim_token i enc = bnd (select (\<lambda>w. list_ex (\<lambda>r. rf_id r = i \<and> \<not> rf_revoked r) (refresh_rows (db w)))) (\<lambda>hit.
     andThen (modify (\<lambda>w. w\<lparr>db := claim_row i (now w) enc (db w)\<rparr>)) (ret hit))"

text \<open>The race lost: the successor goes, and the winner's is handed back.\<close>

definition lost_race :: "lookup \<Rightarrow> auth_env \<Rightarrow> draws \<Rightarrow> string \<Rightarrow> refresh_row \<Rightarrow> (world, outcome) proc" where
  "lost_race lookup env rnd hash r = andThen (exec (\<lambda>w. delete_row (dr_id rnd) (db w)))
     (bnd (lookup hash) (\<lambda>winner. bnd (gets now) (\<lambda>t. case winner of
        None \<Rightarrow> revokeFamilyForReuse r
      | Some (x, u) \<Rightarrow> if withinGrace t x then bnd (lift (unseal env (the (rf_replaced x)))) (issueRefreshResponse env rnd x u)
          else revokeFamilyForReuse r)))"

definition rotate_token :: "lookup \<Rightarrow> auth_env \<Rightarrow> draws \<Rightarrow> string \<Rightarrow> refresh_row \<Rightarrow> user \<Rightarrow> (world, outcome) proc" where
  "rotate_token lookup env rnd hash r u = (let (newRaw, newHash) = generateRefreshToken env rnd in
     andThen (execE (\<lambda>w. insert_refresh (new_refresh env (dr_id rnd) (rf_user r) newHash (rf_family r) (now w)) (db w)))
     (bnd (claim_token (rf_id r) (seal env newRaw)) (\<lambda>claimed.
        if \<not> claimed then lost_race lookup env rnd hash r
        else issueRefreshResponse env rnd r u newRaw)))"

definition suspended_refresh :: "user \<Rightarrow> (world, outcome) proc" where
  "suspended_refresh u = andThen clear_refresh (ret (suspended_login u))"

definition refresh_found :: "lookup \<Rightarrow> auth_env \<Rightarrow> draws \<Rightarrow> string \<Rightarrow> refresh_row \<times> user \<Rightarrow> (world, outcome) proc" where
  "refresh_found lookup env rnd hash = (\<lambda>(r, u). bnd (gets now) (\<lambda>t.
     if rf_revoked r then
       (if withinGrace t r then bnd (lift (unseal env (the (rf_replaced r)))) (issueRefreshResponse env rnd r u)
        else revokeFamilyForReuse r)
     else if u_suspended u then suspended_refresh u
     else if rf_expires r < t then
       andThen (exec (\<lambda>w. delete_row (rf_id r) (db w))) (andThen clear_refresh (ret (Reply 401 (jerr ''Refresh token expired''))))
     else rotate_token lookup env rnd hash r u))"

definition rt_key :: "string \<Rightarrow> string" where
  "rt_key hash = ''blacklist:rt:'' @ hash"

definition blacklisted :: "cval option \<Rightarrow> bool" where
  "blacklisted v = (case v of None \<Rightarrow> False | Some (CJson j) \<Rightarrow> truthy (Some j) | Some _ \<Rightarrow> True)"

definition refresh :: "lookup \<Rightarrow> auth_env \<Rightarrow> draws \<Rightarrow> string option \<Rightarrow> (world, outcome) proc" where
  "refresh lookup env rnd raw = handler (
     if \<not> given raw then ret (Reply 401 (jerr ''No refresh token''))
     else let hash = sha256 env (the raw) in bnd (cacheGet (rt_key hash)) (\<lambda>b.
       if blacklisted b then andThen clear_refresh (ret (Reply 401 (jerr ''Refresh token has been revoked. Please log in again.'')))
       else bnd (lookup hash) (\<lambda>record. case record of
         None \<Rightarrow> ret (Reply 401 (jerr ''Invalid refresh token''))
       | Some x \<Rightarrow> refresh_found lookup env rnd hash x)))"

section \<open>Logging out\<close>

definition delete_family :: "string \<Rightarrow> database \<Rightarrow> database" where
  "delete_family f d = d\<lparr>refresh_rows := filter (\<lambda>r. rf_family r \<noteq> f) (refresh_rows d)\<rparr>"

definition drop_token :: "string \<Rightarrow> (world, unit) proc" where
  "drop_token hash = bnd (select (\<lambda>w. refresh_by_hash (db w) hash)) (\<lambda>found. case found of
     None \<Rightarrow> ret ()
   | Some r \<Rightarrow> andThen (exec (\<lambda>w. delete_family (rf_family r) (db w)))
       (bnd (gets now) (\<lambda>t. let ttl = max 0 ((rf_expires r - t) div 1000) in
         if 0 < ttl then cacheSet (rt_key hash) (CJson (JStr ''1'')) ttl else ret ())))"

definition logout :: "auth_env \<Rightarrow> string option \<Rightarrow> string option \<Rightarrow> (world, outcome) proc" where
  "logout env raw jti = handler (
     andThen (if given raw then drop_token (sha256 env (the raw)) else ret ())
     (andThen (if given jti then emit (Disconnect (the jti)) else ret ())
     (andThen clear_refresh (ret (Reply 200 (JObj [(''message'', JStr ''Logged out successfully'')]))))))"

section \<open>The CSRF cookie\<close>

definition verifyCsrfToken :: "auth_env \<Rightarrow> string \<Rightarrow> string \<Rightarrow> bool" where
  "verifyCsrfToken env token family =
     (if token = [] \<or> family = [] then False
      else (case split_on (CHR ''.'') token of
        [nonce, mac] \<Rightarrow> nonce \<noteq> [] \<and> mac \<noteq> [] \<and> mac = split_on (CHR ''.'') (signCsrfToken env (Some family) nonce) ! 1
      | _ \<Rightarrow> False))"

definition verifyCsrf :: "auth_env \<Rightarrow> string option \<Rightarrow> string option \<Rightarrow> string option \<Rightarrow> (world, outcome) proc" where
  "verifyCsrf env cookie header raw = handler (
     if \<not> given cookie \<or> \<not> given header \<or> \<not> given raw then ret (Reply 403 (jerr ''CSRF token missing''))
     else if the cookie \<noteq> the header then ret (Reply 403 (jerr ''CSRF token invalid''))
     else bnd (select (\<lambda>w. refresh_by_hash (db w) (sha256 env (the raw)))) (\<lambda>row. case row of
       None \<Rightarrow> ret (Reply 403 (jerr ''CSRF token not valid for this session''))
     | Some r \<Rightarrow> if \<not> verifyCsrfToken env (the cookie) (rf_family r) then ret (Reply 403 (jerr ''CSRF token not valid for this session''))
         else ret Next))"

section \<open>Properties\<close>

lemma split_on_none: "c \<notin> set s \<Longrightarrow> split_on c s = [s]"
  by (induction s) auto

lemma split_on_dot: "c \<notin> set s \<Longrightarrow> split_on c (s @ c # t) = s # split_on c t"
  by (induction s) auto

text \<open>What is relied on of \<open>crypto\<close>: texts without dots, and no two families with one code for a nonce.\<close>

definition hex_codes :: "auth_env \<Rightarrow> bool" where
  "hex_codes env \<longleftrightarrow> (\<forall>m. hmac_sha256 env (jwt_secret env) m \<noteq> [] \<and> CHR ''.'' \<notin> set (hmac_sha256 env (jwt_secret env) m))"

lemma csrf_parts:
  assumes "hex_codes env" and "CHR ''.'' \<notin> set nonce"
  shows "split_on (CHR ''.'') (signCsrfToken env f nonce) = [nonce, hmac_sha256 env (jwt_secret env) ((case f of None \<Rightarrow> ''undefined'' | Some g \<Rightarrow> g) @ '':'' @ nonce)]"
  using assms split_on_dot [OF assms(2)] by (simp add: signCsrfToken_def hex_codes_def split_on_none)

lemma csrf_verdict:
  assumes "hex_codes env" and "CHR ''.'' \<notin> set nonce" and "nonce \<noteq> []" and "f \<noteq> []"
  shows "verifyCsrfToken env (signCsrfToken env g nonce) f \<longleftrightarrow>
    hmac_sha256 env (jwt_secret env) ((case g of None \<Rightarrow> ''undefined'' | Some h \<Rightarrow> h) @ '':'' @ nonce) = hmac_sha256 env (jwt_secret env) (f @ '':'' @ nonce)"
proof -
  have "signCsrfToken env g nonce \<noteq> []" by (simp add: signCsrfToken_def)
  moreover have "hmac_sha256 env (jwt_secret env) m \<noteq> []" for m using assms(1) by (simp add: hex_codes_def)
  ultimately show ?thesis
    using assms(3,4) by (simp add: verifyCsrfToken_def csrf_parts [OF assms(1,2)])
qed

text \<open>
  The CSRF token made for a family is accepted for that family and no other.
\<close>

theorem csrf_binds_family:
  assumes "hex_codes env" and "CHR ''.'' \<notin> set nonce" and "nonce \<noteq> []" and "f \<noteq> []"
    and "inj_on (hmac_sha256 env (jwt_secret env)) {f @ '':'' @ nonce, g @ '':'' @ nonce}"
  shows "verifyCsrfToken env (signCsrfToken env (Some g) nonce) f \<longleftrightarrow> f = g"
  using assms(5) unfolding csrf_verdict [OF assms(1-4)] by (auto dest: inj_onD)

definition csrf_env :: auth_env where
  "csrf_env = demo_env\<lparr>hmac_sha256 := (\<lambda>k m. CHR ''h'' # filter (\<lambda>c. c \<noteq> CHR ''.'') m)\<rparr>"

lemma csrf_binds_family_witness:
  "verifyCsrfToken csrf_env (signCsrfToken csrf_env (Some ''f2'') ''n'') ''f1'' \<longleftrightarrow> ''f1'' = ''f2''"
  by (rule csrf_binds_family) (auto simp: hex_codes_def csrf_env_def demo_env_def inj_on_def)

text \<open>A token made without a family, as after a WebAuthn login, is refused for every family.\<close>

lemma undefined_family_refused:
  assumes "hex_codes env" and "CHR ''.'' \<notin> set nonce" and "nonce \<noteq> []" and "f \<noteq> []" and "f \<noteq> ''undefined''"
    and "inj_on (hmac_sha256 env (jwt_secret env)) {f @ '':'' @ nonce, ''undefined'' @ '':'' @ nonce}"
  shows "\<not> verifyCsrfToken env (signCsrfToken env None nonce) f"
  using assms(5,6) unfolding csrf_verdict [OF assms(1-4)] by (auto dest: inj_onD)

text \<open>
  Under any failures a refresh or logout goes on only when the header repeats the cookie and the cookie was
  made for the family of the refresh token presented.
\<close>

theorem csrf_guard:
  "wp (verifyCsrf env cookie header raw) (\<lambda>r v. case r of
      Next \<Rightarrow> header = cookie \<and> (\<exists>x. refresh_by_hash (db w) (sha256 env (the raw)) = Some x \<and> verifyCsrfToken env (the cookie) (rf_family x))
    | Reply s b \<Rightarrow> s = 403
    | NextErr e \<Rightarrow> True) (\<lambda>_ _. False) w"
  by (auto simp: verifyCsrf_def wps given_def split: option.split)

text \<open>As written no refresh ever succeeds, and none rotates a token.\<close>

lemma wp_cached:
  assumes "\<And>b v. db v = db w \<Longrightarrow> now v = now w \<Longrightarrow> Q b v"
  shows "wp (cacheGet k) Q E w"
  using assms by (auto simp: cacheGet_def redisGet_def memGet_def wps)

lemma refresh_never_rotates:
  "wp (refresh lookup_written env rnd raw) (\<lambda>r v. status_of r \<noteq> Some 200 \<and> db v = db w) (\<lambda>_ _. False) w"
  by (auto simp: refresh_def lookup_written_def clear_refresh_def wps Let_def intro!: wp_cached)

section \<open>Rotation\<close>

text \<open>The tokens of a family that are still good.\<close>

definition active :: "database \<Rightarrow> string \<Rightarrow> refresh_row list" where
  "active d f = filter (\<lambda>r. rf_family r = f \<and> \<not> rf_revoked r) (refresh_rows d)"

definition one_active :: "database \<Rightarrow> bool" where
  "one_active d \<longleftrightarrow> (\<forall>f. length (active d f) \<le> 1)"

lemma active_shrinks:
  assumes "\<And>f. \<exists>p. active d' f = filter p (active d f)" and "one_active d"
  shows "one_active d'"
  unfolding one_active_def
proof
  fix f
  from assms(1) [of f] obtain p where "active d' f = filter p (active d f)" by blast
  then show "length (active d' f) \<le> 1"
    using assms(2) le_trans [OF length_filter_le [of p "active d f"]] by (simp add: one_active_def)
qed

lemma one_active_revoke: "one_active d \<Longrightarrow> one_active (revoke_family g t d)"
  by (rule active_shrinks [where d = d])
    (auto simp: active_def revoke_family_def filter_update_where_drop intro: exI [of _ "\<lambda>r. rf_family r \<noteq> g"])

lemma one_active_delete: "one_active d \<Longrightarrow> one_active (delete_row i d)"
  by (rule active_shrinks [where d = d]) (auto simp: active_def delete_row_def conj_commute conj_left_commute intro: exI [of _ "\<lambda>r. rf_id r \<noteq> i"])

lemma one_active_rows: "refresh_rows d = refresh_rows d' \<Longrightarrow> one_active d = one_active d'"
  by (simp add: one_active_def active_def)

lemma one_active_rotate:
  assumes "one_active d" and r: "r \<in> set (refresh_rows d)" "\<not> rf_revoked r"
    and new: "rf_family n = rf_family r" "\<not> rf_revoked n" "rf_id n \<notin> set (map rf_id (refresh_rows d))"
  shows "active (claim_row (rf_id r) t enc (d\<lparr>refresh_rows := refresh_rows d @ [n]\<rparr>)) (rf_family r) = [n]"
    and "one_active (claim_row (rf_id r) t enc (d\<lparr>refresh_rows := refresh_rows d @ [n]\<rparr>))"
proof -
  let ?d = "claim_row (rf_id r) t enc (d\<lparr>refresh_rows := refresh_rows d @ [n]\<rparr>)"
  have act: "active ?d f = filter (\<lambda>x. rf_id x \<noteq> rf_id r) (active d f @ (if f = rf_family r then [n] else []))" for f
    using new by (auto simp: active_def claim_row_def filter_update_where_drop intro: filter_cong)
  have "r \<in> set (active d (rf_family r))" using r by (simp add: active_def)
  moreover have "length (active d (rf_family r)) \<le> 1" using assms(1) by (simp add: one_active_def)
  ultimately have "active d (rf_family r) = [r]" by (cases "active d (rf_family r)") auto
  moreover have "rf_id n \<noteq> rf_id r" using r(1) new(3) by auto
  ultimately show first: "active ?d (rf_family r) = [n]" by (simp add: act)
  have "length (active ?d f) \<le> 1" for f
  proof (cases "f = rf_family r")
    case False
    have "length (filter (\<lambda>x. rf_id x \<noteq> rf_id r) (active d f)) \<le> length (active d f)" by (rule length_filter_le)
    also have "\<dots> \<le> 1" using assms(1) by (simp add: one_active_def)
    finally show ?thesis using False by (simp add: act)
  qed (simp add: first)
  then show "one_active ?d" by (simp add: one_active_def)
qed

lemma insert_refresh_fresh: "insert_refresh n d = Inr d' \<Longrightarrow> rf_id n \<notin> set (map rf_id (refresh_rows d))"
  by (auto simp: insert_refresh_def split: if_splits)

text \<open>What the answer of a refresh leaves.\<close>

definition rotated :: "auth_env \<Rightarrow> draws \<Rightarrow> refresh_row \<Rightarrow> world \<Rightarrow> world \<Rightarrow> bool" where
  "rotated env rnd r w v \<longleftrightarrow> one_active (db v) \<and>
     active (db v) (rf_family r) = [new_refresh env (dr_id rnd) (rf_user r) (sha256 env (dr_raw rnd)) (rf_family r) (now w)]"

lemma wp_rotate_token:
  assumes "one_active (db w)" and r: "r \<in> set (refresh_rows (db w))" "\<not> rf_revoked r"
  shows "wp (rotate_token lookup env rnd hash r u) (\<lambda>o' v. status_of o' = Some 200 \<and> rotated env rnd r w v) (\<lambda>_ _. True) w"
proof -
  have hit: "list_ex (\<lambda>x. rf_id x = rf_id r \<and> \<not> rf_revoked x) (refresh_rows (db w) @ ys)" for ys
    using r by (auto simp: list_ex_iff)
  let ?n = "new_refresh env (dr_id rnd) (rf_user r) (sha256 env (dr_raw rnd)) (rf_family r) (now w)"
  have n: "rf_family ?n = rf_family r" "\<not> rf_revoked ?n" by (simp_all add: new_refresh_def)
  show ?thesis
  proof (cases "insert_refresh ?n (db w)")
    case (Inl e)
    then show ?thesis by (simp add: rotate_token_def generateRefreshToken_def wps)
  next
    case (Inr d)
    from insert_refresh_Inr [OF Inr] have d: "d = (db w)\<lparr>refresh_rows := refresh_rows (db w) @ [?n]\<rparr>" .
    note one = one_active_rotate [OF assms n insert_refresh_fresh [OF Inr]]
    show ?thesis
      using Inr hit [of "[?n]"] one
      by (simp add: rotate_token_def generateRefreshToken_def claim_token_def issueRefreshResponse_def setCsrfCookie_def wps d rotated_def)
  qed
qed

definition rotation_ok :: "auth_env \<Rightarrow> draws \<Rightarrow> string \<Rightarrow> world \<Rightarrow> outcome \<Rightarrow> world \<Rightarrow> bool" where
  "rotation_ok env rnd raw w = (\<lambda>o' v. status_of o' = None \<or> one_active (db v) \<and>
     (status_of o' \<noteq> Some 200 \<or> (\<exists>r. refresh_by_hash (db w) (sha256 env raw) = Some r \<and>
        (if rf_revoked r then withinGrace (now w) r \<and> refresh_rows (db v) = refresh_rows (db w) else rotated env rnd r w v))))"


definition demo_session :: world where
  "demo_session = demo_account\<lparr>db := (db demo_account)\<lparr>refresh_rows := [new_refresh demo_env ''r0'' ''u1'' ''old'' ''f1'' 0]\<rparr>\<rparr>"


text \<open>A token rotated earlier than that brings its whole family down.\<close>

lemma reuse_revokes_family:
  assumes "refresh_by_hash (db w) (sha256 env raw) = Some r" and "rf_revoked r" and "\<not> withinGrace (now w) r"
  shows "wp (refresh lookup_meant env rnd (Some raw)) (\<lambda>o' v. status_of o' = None \<or> status_of o' = Some 401 \<and> (db v = db w \<or> active (db v) (rf_family r) = []))
    (\<lambda>_ _. False) w"
proof -
  have "active (revoke_family f t d) f = []" for f t d
    by (auto simp: active_def revoke_family_def filter_update_where_drop)
  then show ?thesis
    using assms unfolding refresh_def wp_handler
    by (auto simp: wps Let_def clear_refresh_def lookup_meant_def refresh_found_def revokeFamilyForReuse_def intro!: wp_cached split: option.split)
qed

section \<open>A logout\<close>

lemma delete_family_gone:
  assumes "distinct (map rf_hash (refresh_rows d))" and "refresh_by_hash d h = Some r"
  shows "refresh_by_hash (delete_family (rf_family r) d) h = None"
proof -
  have "x = r" if "x \<in> set (refresh_rows d)" "rf_hash x = h" for x
    using assms that find_SomeD [OF assms(2) [unfolded refresh_by_hash_def]]
    by (metis distinct_map inj_onD)
  then show ?thesis by (auto simp: refresh_by_hash_def delete_family_def find_None_iff)
qed

lemma refresh_unknown:
  assumes "refresh_by_hash (db w) (sha256 env raw) = None"
  shows "wp (refresh lookup_meant env rnd (Some raw)) (\<lambda>r v. status_of r \<in> {Some 401, None} \<and> refresh_rows (db v) = refresh_rows (db w)) (\<lambda>_ _. False) w"
  using assms unfolding refresh_def
  by (auto simp: wps Let_def clear_refresh_def lookup_meant_def intro!: wp_cached)

lemma wp_cache_put:
  assumes "\<And>v. db v = db w \<Longrightarrow> Q () v"
  shows "wp (cacheSet k x t) Q E w"
  using assms by (auto simp: cacheSet_def redisSet_def memSet_def wps)

text \<open>
  under any failures, a logout answered with success leaves no row for its refresh token, and with the query as
  meant no later refresh with that token succeeds.
\<close>

theorem logged_out_stays_out:
  assumes "distinct (map rf_hash (refresh_rows (db w)))" and "raw \<noteq> []"
  shows "wp (logout env (Some raw) jti) (\<lambda>r v. status_of r = None \<or> refresh_by_hash (db v) (sha256 env raw) = None \<and>
     wp (refresh lookup_meant env rnd (Some raw)) (\<lambda>r' x. status_of r' \<in> {Some 401, None} \<and> refresh_rows (db x) = refresh_rows (db v)) (\<lambda>_ _. False) v) (\<lambda>_ _. False) w"
proof -
  let ?h = "sha256 env raw"
  have drop: "wp (drop_token ?h) (\<lambda>_ v. refresh_by_hash (db v) ?h = None) (\<lambda>_ _. True) w"
  proof (cases "refresh_by_hash (db w) ?h")
    case None
    then show ?thesis by (simp add: drop_token_def wps)
  next
    case (Some r)
    then show ?thesis using delete_family_gone [OF assms(1) Some]
      by (auto simp: drop_token_def wps Let_def intro!: wp_cache_put)
  qed
  have "wp (logout env (Some raw) jti) (\<lambda>r v. status_of r = None \<or> refresh_by_hash (db v) ?h = None) (\<lambda>_ _. False) w"
    using assms(2) by (simp add: logout_def given_def wp_handler wp_andThen) (intro conjI impI; rule wp_mono [OF drop]; simp add: wps clear_refresh_def)
  then show ?thesis by (rule wp_mono) (blast intro: refresh_unknown)+
qed

lemma logged_out_stays_out_witness:
  "wp (logout demo_env (Some ''old'') None) (\<lambda>r v. status_of r = None \<or> refresh_by_hash (db v) (sha256 demo_env ''old'') = None \<and>
     wp (refresh lookup_meant demo_env demo_draws (Some ''old'')) (\<lambda>r' x. status_of r' \<in> {Some 401, None} \<and> refresh_rows (db x) = refresh_rows (db v)) (\<lambda>_ _. False) v) (\<lambda>_ _. False) demo_session"
  by (rule logged_out_stays_out) (simp_all add: demo_session_def)

end
