(* ===== verification/Contacts.thy ===== *)
theory Contacts
  imports Accounts
begin

text \<open>
  The address book (\<^verbatim>\<open>controllers/contactsController.js\<close>): its entries, and the import of a CSV file, which is split into
  lines, checked row by row and inserted in one transaction. \<open>valid\<close> is the SDK's check of a public key, \<open>collate\<close> the
  order of the database. A text is a list of 8-bit characters, so the byte order mark the code strips is outside it.
\<close>

section \<open>Entries\<close>

definition contact_json :: "contact \<Rightarrow> json" where
  "contact_json c = JObj [(''id'', JStr (ct_id c)), (''name'', JStr (ct_name c)), (''wallet_address'', JStr (ct_wallet c)),
     (''notes'', json_opt (ct_notes c)), (''memo_required'', JBool (ct_memo_required c)), (''default_memo'', json_opt (ct_default_memo c)),
     (''tags'', JArr (map JStr (ct_tags c)))]"

definition getContacts :: "(contact list \<Rightarrow> contact list) \<Rightarrow> string \<Rightarrow> string option \<Rightarrow> (world, outcome) proc" where
  "getContacts collate uid tag = handler (
     bnd (select (\<lambda>w. filter (\<lambda>c. ct_user c = uid \<and> (\<not> given tag \<or> the tag \<in> set (ct_tags c))) (contacts (db w)))) (\<lambda>rows.
       ret (Reply 200 (JObj [(''contacts'', JArr (map contact_json (collate rows)))]))))"

record contact_req =
  cq_name :: string
  cq_wallet :: string
  cq_notes :: "string option"
  cq_memo_required :: bool
  cq_default_memo :: "string option"
  cq_tags :: "string list"

definition or_null :: "string option \<Rightarrow> string option" where
  "or_null v = (if given v then v else None)"

definition edit_contact :: "contact_req \<Rightarrow> contact \<Rightarrow> contact" where
  "edit_contact q c = c\<lparr>ct_name := cq_name q, ct_notes := or_null (cq_notes q), ct_memo_required := cq_memo_required q,
     ct_default_memo := or_null (cq_default_memo q), ct_tags := cq_tags q\<rparr>"

definition new_contact :: "string \<Rightarrow> string \<Rightarrow> contact_req \<Rightarrow> int \<Rightarrow> contact" where
  "new_contact i uid q t = \<lparr>ct_id = i, ct_user = uid, ct_name = cq_name q, ct_wallet = cq_wallet q, ct_notes = or_null (cq_notes q),
     ct_memo_required = cq_memo_required q, ct_default_memo = or_null (cq_default_memo q), ct_tags = cq_tags q, ct_created = t\<rparr>"

definition has_contact :: "database \<Rightarrow> string \<Rightarrow> string \<Rightarrow> bool" where
  "has_contact d uid a = list_ex (\<lambda>c. ct_user c = uid \<and> ct_wallet c = a) (contacts d)"

text \<open>\<open>INSERT ... ON CONFLICT (user_id, wallet_address) DO UPDATE\<close>, and whether the row is new.\<close>

definition upsert_contact :: "string \<Rightarrow> string \<Rightarrow> contact_req \<Rightarrow> int \<Rightarrow> database \<Rightarrow> jserr + database" where
  "upsert_contact i uid q t d = (if 100 < length (cq_name q) then Inl (mkError ''value too long for type character varying(100)'')
     else if has_contact d uid (cq_wallet q) then
       Inr (d\<lparr>contacts := update_where (\<lambda>c. ct_user c = uid \<and> ct_wallet c = cq_wallet q) (edit_contact q) (contacts d)\<rparr>)
     else if i \<in> set (map ct_id (contacts d)) then Inl uniqueViolation
     else Inr (d\<lparr>contacts := contacts d @ [new_contact i uid q t]\<rparr>))"

definition addContact :: "string \<Rightarrow> string \<Rightarrow> contact_req \<Rightarrow> (world, outcome) proc" where
  "addContact i uid q = catch
     (bnd (gets (\<lambda>w. has_contact (db w) uid (cq_wallet q))) (\<lambda>old.
      andThen (execE (\<lambda>w. upsert_contact i uid q (now w) (db w)))
      (bnd (gets (\<lambda>w. find (\<lambda>c. ct_user c = uid \<and> ct_wallet c = cq_wallet q) (contacts (db w)))) (\<lambda>row.
        ret (Reply (if old then 200 else 201) (JObj [(''message'', JStr (if old then ''Contact updated'' else ''Contact saved'')),
          (''contact'', case row of None \<Rightarrow> JNull | Some c \<Rightarrow> contact_json c)]))))))
     (\<lambda>e. if err_code e = Some ''23505'' then ret (Reply 409 (jerr ''A contact with this Stellar address already exists.''))
       else ret (NextErr e))"

definition deleteContact :: "string \<Rightarrow> string \<Rightarrow> (world, outcome) proc" where
  "deleteContact uid i = handler (
     bnd (select (\<lambda>w. list_ex (\<lambda>c. ct_id c = i \<and> ct_user c = uid) (contacts (db w)))) (\<lambda>hit.
     andThen (modify (\<lambda>w. w\<lparr>db := (db w)\<lparr>contacts := filter (\<lambda>c. \<not> (ct_id c = i \<and> ct_user c = uid)) (contacts (db w))\<rparr>\<rparr>))
       (ret (if hit then Reply 200 (JObj [(''message'', JStr ''Contact deleted'')]) else Reply 404 (jerr ''Contact not found'')))))"

section \<open>CSV\<close>

definition QT :: char where "QT = CHR 0x22"
definition LF :: char where "LF = CHR 0x0A"
definition CR :: char where "CR = CHR 0x0D"

lemma csv_chars [simp]:
  "LF \<noteq> QT" "CR \<noteq> QT" "LF \<noteq> CR" "CR \<noteq> LF" "QT \<noteq> LF" "QT \<noteq> CR" "CHR '','' \<noteq> QT" "CHR '','' \<noteq> LF" "CHR '','' \<noteq> CR" "QT \<noteq> CHR '',''" "LF \<noteq> CHR '',''" "CR \<noteq> CHR '',''"
  by (simp_all add: QT_def LF_def CR_def)

definition starts :: "char \<Rightarrow> string \<Rightarrow> bool" where
  "starts c s = (case s of [] \<Rightarrow> False | d # _ \<Rightarrow> d = c)"

text \<open>The loop of \<open>splitCsvLines\<close>: the lines pushed, and the text left in \<open>current\<close>.\<close>

function csv_lines :: "bool \<Rightarrow> string \<Rightarrow> string \<Rightarrow> string list \<times> string" where
  "csv_lines inQuotes current [] = ([], current)"
| "csv_lines inQuotes current (c # s) =
     (if c = QT then
        (if inQuotes \<and> starts QT s then csv_lines inQuotes (current @ [QT]) (tl s) else csv_lines (\<not> inQuotes) current s)
      else if (c = LF \<or> c = CR \<and> starts LF s) \<and> \<not> inQuotes then
        (case csv_lines inQuotes [] (if c = CR then tl s else s) of (ls, rest) \<Rightarrow> (current # ls, rest))
      else if c = CR \<and> \<not> inQuotes then (case csv_lines inQuotes [] s of (ls, rest) \<Rightarrow> (current # ls, rest))
      else csv_lines inQuotes (current @ [c]) s)"
  by pat_completeness auto
termination by (relation "measure (\<lambda>(q, cur, s). length s)") auto

definition splitCsvLines :: "string \<Rightarrow> string list" where
  "splitCsvLines text = (case csv_lines False [] text of (ls, current) \<Rightarrow>
     if current \<noteq> [] \<or> (text \<noteq> [] \<and> last text = LF) then ls @ [current] else ls)"

function csv_fields :: "bool \<Rightarrow> string \<Rightarrow> string \<Rightarrow> string list" where
  "csv_fields inQuotes current [] = [trim current]"
| "csv_fields inQuotes current (c # s) =
     (if c = QT then
        (if inQuotes \<and> starts QT s then csv_fields inQuotes (current @ [QT]) (tl s) else csv_fields (\<not> inQuotes) current s)
      else if c = CHR '','' \<and> \<not> inQuotes then trim current # csv_fields inQuotes [] s
      else csv_fields inQuotes (current @ [c]) s)"
  by pat_completeness auto
termination by (relation "measure (\<lambda>(q, cur, s). length s)") auto

definition parseCsvFields :: "string \<Rightarrow> string list" where
  "parseCsvFields line = csv_fields False [] line"

section \<open>The import\<close>

definition MAX_IMPORT_ROWS :: nat where "MAX_IMPORT_ROWS = 500"
definition MAX_NAME_LENGTH :: nat where "MAX_NAME_LENGTH = 100"

fun indexOf :: "string \<Rightarrow> string list \<Rightarrow> nat option" where
  "indexOf x [] = None"
| "indexOf x (y # ys) = (if x = y then Some 0 else map_option Suc (indexOf x ys))"

definition field_at :: "nat option \<Rightarrow> string list \<Rightarrow> string" where
  "field_at i fs = (case i of None \<Rightarrow> [] | Some n \<Rightarrow> if n < length fs then trim (fs ! n) else [])"

type_synonym import_row = "string \<times> string \<times> string option"

text \<open>One row: the reason it fails, or what it gives.\<close>

definition check_row :: "(string \<Rightarrow> bool) \<Rightarrow> nat option \<times> nat option \<times> nat option \<Rightarrow> string \<Rightarrow> string + import_row" where
  "check_row valid = (\<lambda>(nameIdx, addressIdx, emailIdx) line.
     let fields = parseCsvFields line; name = field_at nameIdx fields; address = field_at addressIdx fields; email = field_at emailIdx fields in
     if name = [] then Inl ''name is required''
     else if MAX_NAME_LENGTH < length name then Inl ''name exceeds 100 characters''
     else if address = [] then Inl ''address is required''
     else if \<not> valid address then Inl ''Invalid Stellar address''
     else Inr (name, address, if email = [] then None else Some email))"

fun check_rows :: "(string \<Rightarrow> string + import_row) \<Rightarrow> nat \<Rightarrow> string list \<Rightarrow> (nat \<times> string) list \<times> import_row list" where
  "check_rows f n [] = ([], [])"
| "check_rows f n (l # ls) = (let (errors, rows) = check_rows f (Suc n) ls in
     case f l of Inl e \<Rightarrow> ((n, e) # errors, rows) | Inr r \<Rightarrow> (errors, r # rows))"

definition imported_contact :: "string \<Rightarrow> string \<Rightarrow> import_row \<Rightarrow> int \<Rightarrow> contact" where
  "imported_contact i uid r t = \<lparr>ct_id = i, ct_user = uid, ct_name = fst r, ct_wallet = fst (snd r), ct_notes = snd (snd r),
     ct_memo_required = False, ct_default_memo = None, ct_tags = [], ct_created = t\<rparr>"

definition insert_contact :: "contact \<Rightarrow> database \<Rightarrow> jserr + database" where
  "insert_contact c d = (if has_contact d (ct_user c) (ct_wallet c) \<or> ct_id c \<in> set (map ct_id (contacts d)) then Inl uniqueViolation
     else Inr (d\<lparr>contacts := contacts d @ [c]\<rparr>))"

text \<open>\<open>ids\<close> gives the identifier drawn for each row.\<close>

definition insert_rows :: "(nat \<Rightarrow> string) \<Rightarrow> string \<Rightarrow> import_row list \<Rightarrow> (world, unit) proc" where
  "insert_rows ids uid rows = (if rows = [] then ret ()
     else transaction (\<lambda>_. None) (forEach (zip [0..<length rows] rows) (\<lambda>(n, r). execE (\<lambda>w. insert_contact (imported_contact (ids n) uid r (now w)) (db w)))))"

definition import_answer :: "nat \<Rightarrow> nat \<Rightarrow> (nat \<times> string) list \<Rightarrow> outcome" where
  "import_answer imported skipped errors = Reply 200 (JObj [(''imported'', nat_json imported), (''skipped_duplicates'', nat_json skipped),
     (''failed'', nat_json (length errors)), (''errors'', JArr (map (\<lambda>(n, e). JObj [(''row'', nat_json n), (''error'', JStr e)]) errors))])"

definition import_rows :: "(nat \<Rightarrow> string) \<Rightarrow> string \<Rightarrow> (nat \<times> string) list \<times> import_row list \<Rightarrow> (world, outcome) proc" where
  "import_rows ids uid = (\<lambda>(errors, rows).
     bnd (if rows = [] then ret [] else select (\<lambda>w. filter (\<lambda>r. \<not> has_contact (db w) uid (fst (snd r))) rows)) (\<lambda>toInsert.
       andThen (insert_rows ids uid toInsert) (ret (import_answer (length toInsert) (length rows - length toInsert) errors))))"

definition columns_of :: "string \<Rightarrow> nat option \<times> nat option \<times> nat option" where
  "columns_of header = (let hs = parseCsvFields (toLowerCase header) in (indexOf ''name'' hs, indexOf ''address'' hs, indexOf ''email'' hs))"

definition data_lines :: "string \<Rightarrow> string list" where
  "data_lines csv = filter (\<lambda>l. trim l \<noteq> []) (tl (splitCsvLines csv))"

definition quoted :: "string \<Rightarrow> string" where
  "quoted s = QT # s @ [QT]"

definition importContacts :: "(string \<Rightarrow> bool) \<Rightarrow> (nat \<Rightarrow> string) \<Rightarrow> string \<Rightarrow> string option \<Rightarrow> (world, outcome) proc" where
  "importContacts valid ids uid upload = handler (case upload of
     None \<Rightarrow> ret (Reply 400 (jerr (''No CSV file uploaded. Use field name '' @ quoted ''file'' @ ''.'')))
   | Some csv \<Rightarrow>
     if length (splitCsvLines csv) < 2 then ret (Reply 400 (jerr ''CSV file must contain a header row and at least one data row.''))
     else let cols = columns_of (hd (splitCsvLines csv)) in
     if fst cols = None \<or> fst (snd cols) = None then ret (Reply 400 (jerr (''CSV must contain '' @ quoted ''name'' @ '' and '' @ quoted ''address'' @ '' columns.'')))
     else if data_lines csv = [] then ret (Reply 400 (jerr ''CSV file contains no data rows.''))
     else if MAX_IMPORT_ROWS < length (data_lines csv) then ret (Reply 400 (jerr (''Import is limited to 500 contacts per request. This file has '' @ show_int (int (length (data_lines csv))) @ '' rows.'')))
     else import_rows ids uid (check_rows (check_row valid cols) 2 (data_lines csv)))"

section \<open>Properties of the parser\<close>

definition plain :: "string \<Rightarrow> bool" where
  "plain s \<longleftrightarrow> QT \<notin> set s \<and> LF \<notin> set s \<and> CR \<notin> set s"

lemma csv_lines_plain: "plain s \<Longrightarrow> csv_lines False current (s @ t) = csv_lines False (current @ s) t"
  by (induction s arbitrary: current) (auto simp: plain_def)

lemma csv_lines_LF: "csv_lines False current (LF # t) = (case csv_lines False [] t of (ls, rest) \<Rightarrow> (current # ls, rest))"
  by simp

lemma csv_fields_plain: "plain s \<Longrightarrow> CHR '','' \<notin> set s \<Longrightarrow> csv_fields False current (s @ t) = csv_fields False (current @ s) t"
  by (induction s arbitrary: current) (auto simp: plain_def)

lemma csv_fields_comma: "csv_fields False current (CHR '','' # t) = trim current # csv_fields False [] t"
  by simp

text \<open>The text of a table of plain fields.\<close>

fun csv_row :: "string list \<Rightarrow> string" where
  "csv_row [] = []"
| "csv_row [f] = f"
| "csv_row (f # fs) = f @ CHR '','' # csv_row fs"

fun csv_text :: "string list list \<Rightarrow> string" where
  "csv_text [] = []"
| "csv_text [r] = csv_row r"
| "csv_text (r # rs) = csv_row r @ LF # csv_text rs"

definition plain_field :: "string \<Rightarrow> bool" where
  "plain_field f \<longleftrightarrow> plain f \<and> CHR '','' \<notin> set f \<and> trim f = f"

lemma plain_append: "plain (s @ t) \<longleftrightarrow> plain s \<and> plain t"
  by (auto simp: plain_def)

lemma plain_csv_row: "list_all plain_field fs \<Longrightarrow> plain (csv_row fs)"
  by (induction fs rule: csv_row.induct) (auto simp: plain_field_def plain_def)

lemma parse_csv_row: "list_all plain_field fs \<Longrightarrow> fs \<noteq> [] \<Longrightarrow> parseCsvFields (csv_row fs) = fs"
  unfolding parseCsvFields_def
proof (induction fs rule: csv_row.induct)
  case (2 f)
  then show ?case using csv_fields_plain [of f "[]" "[]"] by (simp add: plain_field_def)
next
  case (3 f g fs)
  then show ?case using csv_fields_plain [of f "[]" "CHR '','' # csv_row (g # fs)"] by (simp add: plain_field_def csv_fields_comma)
qed simp

lemma csv_lines_text:
  "list_all (list_all plain_field) rows \<Longrightarrow> rows \<noteq> [] \<Longrightarrow> csv_lines False [] (csv_text rows) = (map csv_row (butlast rows), csv_row (last rows))"
proof (induction rows rule: csv_text.induct)
  case (2 r)
  then show ?case using csv_lines_plain [OF plain_csv_row, of r "[]" "[]"] by simp
next
  case (3 r s rs)
  then show ?case using csv_lines_plain [OF plain_csv_row, of r "[]" "LF # csv_text (s # rs)"] by (simp add: csv_lines_LF)
qed simp

text \<open>
  The rows of plain fields come back from their CSV text: splitting it into lines and the lines into fields
  gives the table that was written.
\<close>

theorem csv_roundtrip:
  assumes "list_all (list_all plain_field) rows" and "list_all (\<lambda>r. r \<noteq> []) rows" and "rows \<noteq> []" and "csv_row (last rows) \<noteq> []"
  shows "map parseCsvFields (splitCsvLines (csv_text rows)) = rows"
proof -
  have "splitCsvLines (csv_text rows) = map csv_row (butlast rows) @ [csv_row (last rows)]"
    using assms(4) by (simp add: splitCsvLines_def csv_lines_text [OF assms(1,3)])
  also have "\<dots> = map csv_row rows" using assms(3) by (metis append_butlast_last_id list.simps(8,9) map_append)
  finally show ?thesis using assms(1,2) by (auto simp: list_all_iff parse_csv_row intro!: map_idI)
qed

lemma csv_roundtrip_witness:
  "map parseCsvFields (splitCsvLines (csv_text [[''name'', ''address''], [''Ada'', ''G1'']])) = [[''name'', ''address''], [''Ada'', ''G1'']]"
  by (rule csv_roundtrip) (simp_all add: plain_field_def plain_def QT_def LF_def CR_def trim_def is_space_def)

text \<open>The lines lose their quotes, so a comma inside a quoted field separates two fields.\<close>

lemma csv_lines_quoted: "plain s \<Longrightarrow> csv_lines True current (s @ QT # t) = csv_lines False (current @ s) t" if "\<not> starts QT t"
  using that by (induction s arbitrary: current) (auto simp: plain_def)

lemma quoted_commas_split:
  assumes "plain_field a" and "plain_field b" and "plain_field c" and "c \<noteq> []"
  shows "map parseCsvFields (splitCsvLines (QT # a @ CHR '','' # b @ QT # CHR '','' # c)) = [[a, b, c]]"
proof -
  have pl: "plain (a @ CHR '','' # b)" "plain (CHR '','' # c)" using assms by (auto simp: plain_field_def plain_def)
  have "csv_lines True [] ((a @ CHR '','' # b) @ QT # CHR '','' # c) = csv_lines False (a @ CHR '','' # b) (CHR '','' # c)"
    using csv_lines_quoted [of "CHR '','' # c" "a @ CHR '','' # b" "[]"] pl by (simp add: starts_def)
  also have "\<dots> = ([], csv_row [a, b, c])" using csv_lines_plain [OF pl(2), of "a @ CHR '','' # b" "[]"] by simp
  finally have "splitCsvLines (QT # a @ CHR '','' # b @ QT # CHR '','' # c) = [csv_row [a, b, c]]"
    by (simp add: splitCsvLines_def starts_def)
  then show ?thesis using parse_csv_row [of "[a, b, c]"] assms by simp
qed

section \<open>Properties of the import\<close>

lemma check_rows_length: "check_rows f n ls = (errors, rows) \<Longrightarrow> length errors + length rows = length ls"
  by (induction ls arbitrary: n errors rows) (auto split: prod.splits sum.splits)

lemma check_rows_rows: "check_rows f n ls = (errors, rows) \<Longrightarrow> r \<in> set rows \<Longrightarrow> \<exists>l\<in>set ls. f l = Inr r"
  by (induction ls arbitrary: n errors rows) (fastforce split: prod.splits sum.splits)+

lemma check_row_valid: "check_row valid cols l = Inr r \<Longrightarrow> valid (fst (snd r))"
  by (auto simp: check_row_def Let_def split: prod.splits if_splits)

lemma insert_contact_Inr: "insert_contact c d = Inr d' \<Longrightarrow> \<not> has_contact d (ct_user c) (ct_wallet c) \<and> d' = d\<lparr>contacts := contacts d @ [c]\<rparr>"
  by (auto simp: insert_contact_def split: if_splits)

text \<open>The rows of the transaction, inserted one after the other.\<close>

definition added :: "string \<Rightarrow> (nat \<times> import_row) list \<Rightarrow> contact list \<Rightarrow> world \<Rightarrow> bool" where
  "added uid done old v \<longleftrightarrow> (\<exists>new. contacts (db v) = old @ new \<and> length new = length done \<and> list_all (\<lambda>c. ct_user c = uid) new \<and>
     map ct_wallet new = map (fst \<circ> snd \<circ> snd) done \<and> distinct (map ct_wallet new) \<and>
     (\<forall>a\<in>set (map ct_wallet new). \<not> list_ex (\<lambda>c. ct_user c = uid \<and> ct_wallet c = a) old))"

lemma wp_insert_one:
  assumes "added uid ds old v"
  shows "wp (case x of (n, r) \<Rightarrow> execE (\<lambda>w. insert_contact (imported_contact (ids n) uid r (now w)) (db w))) (\<lambda>_. added uid (ds @ [x]) old) (\<lambda>_ _. True) v"
proof -
  obtain n r where x: "x = (n, r)" by (cases x)
  let ?c = "imported_contact (ids n) uid r (now v)"
  have c: "ct_user ?c = uid" "ct_wallet ?c = fst (snd r)" by (simp_all add: imported_contact_def)
  have "added uid (ds @ [x]) old u" if d: "insert_contact ?c (db v) = Inr d" and u: "db u = d" for d u
  proof -
    from assms obtain new where new: "contacts (db v) = old @ new" "length new = length ds" "list_all (\<lambda>c. ct_user c = uid) new"
      "map ct_wallet new = map (fst \<circ> snd \<circ> snd) ds" "distinct (map ct_wallet new)"
      "\<forall>a\<in>set (map ct_wallet new). \<not> list_ex (\<lambda>c. ct_user c = uid \<and> ct_wallet c = a) old"
      unfolding added_def by blast
    from insert_contact_Inr [OF d] have fresh: "\<not> list_ex (\<lambda>e. ct_user e = uid \<and> ct_wallet e = fst (snd r)) (old @ new)"
      and d': "contacts d = (old @ new) @ [?c]" by (auto simp: has_contact_def c new(1))
    have "fst (snd r) \<notin> set (map ct_wallet new)" using fresh new(3) by (auto simp: list_ex_iff list_all_iff)
    then show ?thesis unfolding added_def using new fresh
      by (intro exI [of _ "new @ [?c]"]) (auto simp: u d' c x)
  qed
  then show ?thesis by (simp add: x wp_execE split: sum.split)
qed

lemma wp_insert_rows:
  "wp (insert_rows ids uid rows) (\<lambda>_ v. added uid (zip [0..<length rows] rows) (contacts (db w)) v) (\<lambda>_ v. db v = db w) w"
proof (cases "rows = []")
  case True
  then show ?thesis by (simp add: insert_rows_def wps added_def)
next
  case False
  let ?xs = "zip [0..<length rows] rows" and ?f = "\<lambda>(n, r). execE (\<lambda>w. insert_contact (imported_contact (ids n) uid r (now w)) (db w))"
  have loop: "wp (forEach ?xs ?f) (\<lambda>_. added uid ?xs (contacts (db w))) (\<lambda>_ _. True) v" if "db v = db w" for v
    by (rule wp_forEach) (use that in \<open>simp add: added_def\<close>, rule wp_insert_one)
  have body: "wp (forEach ?xs ?f) Q E v" if "db v = db w" "\<And>u. added uid ?xs (contacts (db w)) u \<Longrightarrow> Q () u" "\<And>e u. E e u" for Q E v
    by (rule wp_mono [OF loop]) (use that in auto)
  have tick: "added uid ?xs (contacts (db w)) (ticked u)" if "added uid ?xs (contacts (db w)) u" for u
    using that by (simp add: added_def)
  show ?thesis
    unfolding insert_rows_def if_not_P [OF False] transaction_def
    by (simp add: wp_andThen wp_tick wp_bnd wp_gets wp_catch wp_modify wp_throw wp_ret)
      (intro impI body, auto simp: wp_andThen wp_tick wp_modify wp_throw tick)
qed

text \<open>
  Under any failures an import changes no contact, or it answers with counts that add up to the data rows of
  the file: as many new contacts of this user as it says are stored, with valid addresses, all different and none
  known before.
\<close>

theorem import_counts_add_up:
  "wp (importContacts valid ids uid upload) (\<lambda>r v. contacts (db v) = contacts (db w) \<and> status_of r \<noteq> Some 200 \<or>
     (\<exists>new skipped errors. contacts (db v) = contacts (db w) @ new \<and> r = import_answer (length new) skipped errors \<and>
        length new + skipped + length errors = length (data_lines (the upload)) \<and>
        list_all (\<lambda>c. ct_user c = uid \<and> valid (ct_wallet c) \<and> \<not> has_contact (db w) uid (ct_wallet c)) new \<and>
        distinct (map ct_wallet new))) (\<lambda>_ _. False) w"
proof -
  let ?P = "\<lambda>r v. contacts (db v) = contacts (db w) \<and> status_of r \<noteq> Some 200 \<or>
     (\<exists>new skipped errors. contacts (db v) = contacts (db w) @ new \<and> r = import_answer (length new) skipped errors \<and>
        length new + skipped + length errors = length (data_lines (the upload)) \<and>
        list_all (\<lambda>c. ct_user c = uid \<and> valid (ct_wallet c) \<and> \<not> has_contact (db w) uid (ct_wallet c)) new \<and>
        distinct (map ct_wallet new))"
  have rows: "wp (import_rows ids uid (errors, rows)) ?P (\<lambda>e. ?P (NextErr e)) w"
    if chk: "check_rows (check_row valid cols) 2 (data_lines csv) = (errors, rows)" and up: "upload = Some csv" for cols csv errors rows
  proof -
    let ?ins = "filter (\<lambda>r. \<not> has_contact (db w) uid (fst (snd r))) rows"
    have zipped: "map (fst \<circ> snd \<circ> snd) (zip [0..<length xs] xs) = map (fst \<circ> snd) xs" for xs :: "import_row list"
      by (rule nth_equalityI) simp_all
    have zipped_length: "length (zip [0..<length xs] xs) = length xs" for xs :: "import_row list" by simp
    have ok: "?P (import_answer (length ?ins) (length rows - length ?ins) errors) v" if a: "added uid (zip [0..<length ?ins] ?ins) (contacts (db w)) v" for v
    proof -
      from a obtain new where new: "contacts (db v) = contacts (db w) @ new" "length new = length ?ins" "list_all (\<lambda>c. ct_user c = uid) new"
        "map ct_wallet new = map (fst \<circ> snd) ?ins" "distinct (map ct_wallet new)"
        "\<forall>a\<in>set (map ct_wallet new). \<not> list_ex (\<lambda>c. ct_user c = uid \<and> ct_wallet c = a) (contacts (db w))"
        unfolding added_def zipped using zipped_length by (auto simp del: set_map)
      have valid: "valid (ct_wallet c)" if "c \<in> set new" for c
      proof -
        have "ct_wallet c \<in> set (map (fst \<circ> snd) ?ins)" using that new(4) by (metis image_eqI set_map)
        then obtain r where "r \<in> set rows" "ct_wallet c = fst (snd r)" by auto
        then show ?thesis using check_rows_rows [OF chk] check_row_valid by metis
      qed
      have "length new + (length rows - length ?ins) + length errors = length (data_lines csv)"
        using new(2) length_filter_le [of "\<lambda>r. \<not> has_contact (db w) uid (fst (snd r))" rows] check_rows_length [OF chk] by linarith
      moreover have "list_all (\<lambda>c. ct_user c = uid \<and> valid (ct_wallet c) \<and> \<not> has_contact (db w) uid (ct_wallet c)) new"
        using new(3,6) valid by (auto simp: list_all_iff has_contact_def)
      ultimately show ?thesis using new(1,2,5) up 
        by (intro disjI2 exI [of _ new] exI [of _ "length rows - length ?ins"] exI [of _ errors] conjI) (simp_all only: option.sel)
    qed
    have ins: "wp (insert_rows ids uid ?ins) Q E v"
      if "db v = db w" "\<And>u. added uid (zip [0..<length ?ins] ?ins) (contacts (db w)) u \<Longrightarrow> Q () u" "\<And>e u. db u = db w \<Longrightarrow> E e u" for Q E v
      using wp_mono [OF wp_insert_rows [of ids uid ?ins v]] that by simp
    show ?thesis
    proof (cases "rows = []")
      case True
      then show ?thesis using ok [of w] check_rows_length [OF chk]
        by (simp add: import_rows_def wp_bnd wp_ret wp_andThen insert_rows_def added_def)
    next
      case False
      have "wp (andThen (insert_rows ids uid ?ins) (ret (import_answer (length ?ins) (length rows - length ?ins) errors))) ?P (\<lambda>e. ?P (NextErr e)) (ticked w)"
        unfolding wp_andThen by (rule ins) (simp_all only: wp_ret ok ticked_sel status_of.simps, simp_all)
      then show ?thesis using False by (simp only: import_rows_def prod.case if_False wp_bnd wp_select) simp
    qed
  qed
  show ?thesis
  proof (cases upload)
    case None
    then show ?thesis by (simp add: importContacts_def wp_handler wp_ret)
  next
    case (Some csv)
    obtain errors rows' where chk: "check_rows (check_row valid (columns_of (hd (splitCsvLines csv)))) 2 (data_lines csv) = (errors, rows')" by fastforce
    from rows [OF this Some] show ?thesis
      by (simp only: importContacts_def Some option.case wp_handler Let_def wp_if wp_ret chk) simp
  qed
qed

end
