(* ===== verification/Assets.thy ===== *)
theory Assets
  imports JsText
begin

text \<open>
  Assets of the network (\<open>resolveAsset\<close> of \<^verbatim>\<open>services/stellar.js\<close>), which payments and payment requests name by their codes.
\<close>

text \<open>The native asset is \<open>None\<close>, any other its code and issuer.\<close>

type_synonym asset = "(string \<times> string) option"

text \<open>\<open>resolveAsset\<close>: the issuer of any other asset than XLM comes from the environment.\<close>

definition issuer_missing :: "string \<Rightarrow> jserr" where
  "issuer_missing code = withStatus 500 (mkError (code @ ''_ISSUER is not configured. Cannot send '' @ code @ '' payments.''))"

definition asset_by_code :: "(string \<Rightarrow> string option) \<Rightarrow> string \<Rightarrow> jserr + asset" where
  "asset_by_code issuer code = (if code = ''XLM'' then Inr None
     else (case issuer code of
        Some i \<Rightarrow> if i = [] then Inl (issuer_missing code) else Inr (Some (code, i))
      | None \<Rightarrow> Inl (issuer_missing code)))"

end
