(* ===== verification/Requests.thy ===== *)
theory Requests
  imports Accounts Assets "HOL-Library.Multiset"
begin

text \<open>
  Requests for a payment (\<^verbatim>\<open>controllers/paymentRequestController.js\<close>), the check of the payment that answers one
  (\<open>verifyIncomingPayment\<close> of \<^verbatim>\<open>services/stellar.js\<close>), and the job that expires and archives them
  (\<^verbatim>\<open>jobs/paymentRequestCleanupJob.js\<close>). The answers of Horizon are the record \<open>payments_net\<close>; an amount in a request body is
  its text.
\<close>

section \<open>The payment on the network\<close>

text \<open>The asset of an operation: \<open>None\<close> is the native one, else its code and issuer.\<close>

record operation =
  op_type :: string
  op_to :: string
  op_asset :: "(string \<times> string) option"
  op_amount :: string

text \<open>\<open>hz_tx\<close> says whether a transaction was successful; a response status is the status of the error.\<close>

record payments_net =
  hz_tx :: "string \<Rightarrow> jserr + bool"
  hz_ops :: "string \<Rightarrow> jserr + operation list"
  hz_issuer :: "string \<Rightarrow> string option"

definition resolveAsset :: "payments_net \<Rightarrow> string \<Rightarrow> jserr + asset" where
  "resolveAsset hz = asset_by_code (hz_issuer hz)"

definition tx_hash_ok :: "string option \<Rightarrow> bool" where
  "tx_hash_ok h = (case h of None \<Rightarrow> False | Some s \<Rightarrow> length s = 64 \<and> list_all (\<lambda>c. radix_digit c \<noteq> None) s)"

definition pays :: "string \<Rightarrow> (string \<times> string) option \<Rightarrow> jsnum \<Rightarrow> operation \<Rightarrow> bool" where
  "pays destination asset least x \<longleftrightarrow> op_type x \<in> {''payment'', ''path_payment_strict_receive'', ''path_payment_strict_send''} \<and>
     op_to x = destination \<and> op_asset x = asset \<and> jle least (parseFloat (op_amount x))"

text \<open>\<open>Inl\<close>: the error thrown; else the reason it is not verified, or \<open>None\<close>.\<close>

definition verifyIncomingPayment :: "payments_net \<Rightarrow> string option \<Rightarrow> string \<Rightarrow> string \<Rightarrow> string \<Rightarrow> jserr + string option" where
  "verifyIncomingPayment hz txHash destination asset minAmount =
     (if \<not> tx_hash_ok txHash then Inr (Some ''txHash must be a 64-character hex transaction hash'')
      else let h = toLowerCase (the txHash) in case hz_tx hz h of
        Inl e \<Rightarrow> if err_status e = Some 404 then Inr (Some ''Transaction not found'') else Inl e
      | Inr successful \<Rightarrow>
        if \<not> successful then Inr (Some ''Transaction was not successful'')
        else (case hz_ops hz h of Inl e \<Rightarrow> Inl e
          | Inr ops \<Rightarrow> (case resolveAsset hz asset of Inl e \<Rightarrow> Inl e
            | Inr a \<Rightarrow> if list_ex (pays destination a (parseFloat minAmount)) ops then Inr None
                else Inr (Some (''No payment of at least '' @ minAmount @ '' '' @ asset @ '' to '' @ destination @ '' found on this transaction'')))))"

section \<open>The handlers\<close>

definition find_request :: "database \<Rightarrow> string \<Rightarrow> pay_request option" where
  "find_request d i = find (\<lambda>r. pq_id r = i) (pay_requests d)"

definition set_request :: "string \<Rightarrow> (pay_request \<Rightarrow> pay_request) \<Rightarrow> database \<Rightarrow> database" where
  "set_request i f d = d\<lparr>pay_requests := update_where (\<lambda>r. pq_id r = i) f (pay_requests d)\<rparr>"

definition new_request :: "string \<Rightarrow> string \<Rightarrow> string \<Rightarrow> int \<Rightarrow> string \<Rightarrow> string option \<Rightarrow> int \<Rightarrow> pay_request" where
  "new_request i uid pk n asset memo t = \<lparr>pq_id = i, pq_requester = uid, pq_wallet = pk, pq_amount = n, pq_asset = asset,
     pq_memo = (if given memo then memo else None), pq_expires = t + 7 * 24 * 60 * 60 * 1000, pq_claimed = False, pq_hash = None,
     pq_status = ''pending'', pq_created = t\<rparr>"

definition insert_request :: "string \<Rightarrow> string \<Rightarrow> string \<Rightarrow> string \<Rightarrow> string \<Rightarrow> string option \<Rightarrow> int \<Rightarrow> database \<Rightarrow> jserr + database" where
  "insert_request i uid pk amount asset memo t d = (case numeric_20_7 amount of Inl e \<Rightarrow> Inl e
     | Inr n \<Rightarrow> if i \<in> set (map pq_id (pay_requests d)) then Inl uniqueViolation
         else Inr (d\<lparr>pay_requests := pay_requests d @ [new_request i uid pk n asset memo t]\<rparr>))"

definition createRequest :: "string \<Rightarrow> string \<Rightarrow> string \<Rightarrow> string option \<Rightarrow> string \<Rightarrow> string option \<Rightarrow> (world, outcome) proc" where
  "createRequest domain i uid amount asset memo = handler (
     if \<not> given amount \<or> jle (parseFloat (the amount)) (Fin 0) then ret (Reply 400 (jerr ''Amount must be greater than 0''))
     else bnd (select (\<lambda>w. default_wallet (db w) uid)) (\<lambda>wal. case wal of
       None \<Rightarrow> ret (Reply 404 (jerr ''Wallet not found''))
     | Some k \<Rightarrow> andThen (execE (\<lambda>w. insert_request i uid (w_public_key k) (the amount) asset memo (now w) (db w)))
         (ret (Reply 200 (JObj [(''id'', JStr i), (''amount'', JStr (the amount)), (''asset'', JStr asset), (''memo'', json_opt memo),
            (''paymentLink'', JStr (domain @ ''/send?request='' @ i))])))))"

definition request_json :: "pay_request \<Rightarrow> json" where
  "request_json r = JObj [(''id'', JStr (pq_id r)), (''requester_wallet'', JStr (pq_wallet r)), (''amount'', JStr (dec7_text (pq_amount r))),
     (''asset'', JStr (pq_asset r)), (''memo'', json_opt (pq_memo r)), (''expires_at'', JStr (toISOString (pq_expires r))),
     (''claimed'', JBool (pq_claimed r)), (''claimed_tx_hash'', json_opt (pq_hash r)), (''status'', JStr (pq_status r))]"

definition getById :: "string \<Rightarrow> (world, outcome) proc" where
  "getById i = handler (
     bnd (select (\<lambda>w. find_request (db w) i)) (\<lambda>row. bnd (gets now) (\<lambda>t. case row of
       None \<Rightarrow> ret (Reply 404 (jerr ''Payment request not found''))
     | Some r \<Rightarrow>
       if pq_status r = ''cancelled'' then ret (Reply 410 (jerr ''Payment request was cancelled''))
       else if pq_expires r \<le> t then ret (Reply 410 (jerr ''Payment request has expired''))
       else ret (Reply 200 (request_json r)))))"

definition markClaimed :: "payments_net \<Rightarrow> string \<Rightarrow> string \<Rightarrow> string option \<Rightarrow> (world, outcome) proc" where
  "markClaimed hz uid i txHash = handler (
     bnd (select (\<lambda>w. find_request (db w) i)) (\<lambda>row. bnd (gets now) (\<lambda>t. case row of
       None \<Rightarrow> ret (Reply 404 (jerr ''Payment request not found''))
     | Some r \<Rightarrow>
       if pq_expires r \<le> t then ret (Reply 410 (jerr ''Payment request has expired''))
       else if pq_requester r \<noteq> uid then ret (Reply 403 (jerr ''Only the intended recipient can claim this payment request''))
       else if pq_status r = ''cancelled'' then ret (Reply 410 (jerr ''Payment request was cancelled''))
       else if pq_claimed r then ret (Reply 409 (jerr ''Payment request already claimed''))
       else bnd (lift (verifyIncomingPayment hz txHash (pq_wallet r) (pq_asset r) (dec7_text (pq_amount r)))) (\<lambda>reason. case reason of
         Some m \<Rightarrow> ret (Reply 422 (jerr m))
       | None \<Rightarrow> andThen (exec (\<lambda>w. set_request i (\<lambda>r. r\<lparr>pq_claimed := True, pq_hash := txHash\<rparr>) (db w)))
           (ret (Reply 200 (JObj [(''message'', JStr ''Payment request marked as claimed'')])))))))"

definition cancelRequest :: "string \<Rightarrow> string \<Rightarrow> (world, outcome) proc" where
  "cancelRequest uid i = handler (
     bnd (select (\<lambda>w. find_request (db w) i)) (\<lambda>row. case row of
       None \<Rightarrow> ret (Reply 404 (jerr ''Payment request not found''))
     | Some r \<Rightarrow>
       if pq_requester r \<noteq> uid then ret (Reply 404 (jerr ''Payment request not found''))
       else if pq_claimed r then ret (Reply 409 (jerr ''Payment request already paid''))
       else andThen (exec (\<lambda>w. set_request i (\<lambda>r. r\<lparr>pq_status := ''cancelled''\<rparr>) (db w)))
         (ret (Reply 200 (JObj [(''message'', JStr ''Payment request cancelled'')])))))"

text \<open>The status of the listing, its filter and its pages.\<close>

definition STATUS_SQL :: "int \<Rightarrow> pay_request \<Rightarrow> string" where
  "STATUS_SQL t r = (if pq_claimed r then ''paid'' else if pq_status r = ''cancelled'' then ''cancelled''
     else if pq_expires r \<le> t then ''expired'' else ''pending'')"

definition mine :: "int \<Rightarrow> database \<Rightarrow> string \<Rightarrow> string option \<Rightarrow> pay_request list" where
  "mine t d uid status = filter (\<lambda>r. pq_requester r = uid \<and> (\<not> given status \<or> STATUS_SQL t r = the status)) (pay_requests d)"

definition listMine :: "string \<Rightarrow> string option \<Rightarrow> int option \<Rightarrow> int option \<Rightarrow> (world, outcome) proc" where
  "listMine uid status page_param limit_param = handler (
     if given status \<and> the status \<notin> {''pending'', ''paid'', ''expired'', ''cancelled''} then ret (Reply 400 (jerr ''Invalid status filter''))
     else let page = max (case page_param of None \<Rightarrow> 1 | Some n \<Rightarrow> if n = 0 then 1 else n) 1;
              limit = min (max (case limit_param of None \<Rightarrow> 10 | Some n \<Rightarrow> if n = 0 then 10 else n) 1) 50 in
       bnd (select (\<lambda>w. length (mine (now w) (db w) uid status))) (\<lambda>total_rows.
       bnd (select (\<lambda>w. map (\<lambda>r. (r, STATUS_SQL (now w) r)) (take (nat limit) (drop (nat ((page - 1) * limit)) (sort_key (\<lambda>r. - pq_created r) (mine (now w) (db w) uid status)))))) (\<lambda>rows.
         ret (Reply 200 (JObj [(''requests'', JArr (map (\<lambda>(r, s). JObj [(''id'', JStr (pq_id r)), (''amount'', JStr (dec7_text (pq_amount r))), (''asset'', JStr (pq_asset r)),
             (''memo'', json_opt (pq_memo r)), (''claimed_tx_hash'', json_opt (pq_hash r)), (''status'', JStr s)]) rows)),
           (''page'', JNum (Fin (of_int page))), (''limit'', JNum (Fin (of_int limit))), (''total'', nat_json total_rows)])))))"

section \<open>The cleanup\<close>

definition CLEANUP_KEY :: string where "CLEANUP_KEY = ''lock:payment_request_cleanup''"

definition acquireCleanup :: "(world, bool) proc" where
  "acquireCleanup = bnd (gets redis_on) (\<lambda>r. if r then catch (redisSetNX CLEANUP_KEY (CJson (JStr ''1'')) 3600) (\<lambda>_. ret True) else ret True)"

definition releaseCleanup :: "(world, unit) proc" where
  "releaseCleanup = bnd (gets redis_on) (\<lambda>r. if r then catch (redisDel CLEANUP_KEY) (\<lambda>_. ret ()) else ret ())"

definition past_due :: "int \<Rightarrow> pay_request \<Rightarrow> bool" where
  "past_due t r \<longleftrightarrow> pq_expires r < t \<and> pq_status r = ''pending''"

definition expire_due :: "int \<Rightarrow> database \<Rightarrow> database" where
  "expire_due t d = d\<lparr>pay_requests := update_where (past_due t) (\<lambda>r. r\<lparr>pq_status := ''expired''\<rparr>) (pay_requests d)\<rparr>"

definition notify_expired :: "pay_request \<Rightarrow> (world, unit) proc" where
  "notify_expired r = ignore (bnd (select (\<lambda>w. user_by_id (db w) (pq_requester r))) (\<lambda>row. case row of
      None \<Rightarrow> ret ()
    | Some u \<Rightarrow> if u_email u = [] then ret ()
        else andThen tick (emit (Email (u_email u) ''payment_request_expired'' (JStr (dec7_text (pq_amount r) @ '' '' @ pq_asset r))))))"

text \<open>The move to the archive is one statement.\<close>

definition old_request :: "int \<Rightarrow> pay_request \<Rightarrow> bool" where
  "old_request t r \<longleftrightarrow> pq_expires r < t - 90 * 24 * 60 * 60 * 1000"

definition archive_old :: "int \<Rightarrow> database \<Rightarrow> jserr + database" where
  "archive_old t d = (let moved = filter (old_request t) (pay_requests d) in
     if \<not> distinct (map pq_id (archived_requests d @ moved)) then Inl uniqueViolation
     else Inr (d\<lparr>pay_requests := filter (\<lambda>r. \<not> old_request t r) (pay_requests d), archived_requests := archived_requests d @ moved\<rparr>))"

definition expire_step :: "(world, pay_request list) proc" where
  "expire_step = bnd (select (\<lambda>w. filter (past_due (now w)) (pay_requests (db w)))) (\<lambda>rows.
     andThen (modify (\<lambda>w. w\<lparr>db := expire_due (now w) (db w)\<rparr>)) (ret rows))"

definition cleanup_body :: "(world, unit) proc" where
  "cleanup_body = bnd expire_step (\<lambda>rows. andThen (forEach rows notify_expired) (execE (\<lambda>w. archive_old (now w) (db w))))"

definition cleanup_run :: "(world, unit) proc" where
  "cleanup_run = bnd acquireCleanup (\<lambda>acquired. if \<not> acquired then ret ()
     else andThen (catch cleanup_body (\<lambda>e. andThen releaseCleanup (throw e))) releaseCleanup)"

section \<open>Properties\<close>

text \<open>A request is paid exactly when it has the hash of a transaction that pays it.\<close>

definition paid_ok :: "payments_net \<Rightarrow> pay_request \<Rightarrow> bool" where
  "paid_ok hz r \<longleftrightarrow> pq_status r \<in> {''pending'', ''cancelled'', ''expired''} \<and>
     (if pq_claimed r then verifyIncomingPayment hz (pq_hash r) (pq_wallet r) (pq_asset r) (dec7_text (pq_amount r)) = Inr None else pq_hash r = None)"

definition requests_ok :: "payments_net \<Rightarrow> string list \<Rightarrow> database \<Rightarrow> bool" where
  "requests_ok hz acc d \<longleftrightarrow> distinct acc \<and> mset (map pq_id (pay_requests d @ archived_requests d)) = mset acc \<and>
     list_all (paid_ok hz) (pay_requests d) \<and> list_all (paid_ok hz) (archived_requests d)"

lemma requests_ok_distinct: "requests_ok hz acc d \<Longrightarrow> distinct (map pq_id (pay_requests d))"
  by (metis requests_ok_def distinct_append map_append mset_eq_imp_distinct_iff)

lemma requests_ok_same:
  "pay_requests d' = pay_requests d \<Longrightarrow> archived_requests d' = archived_requests d \<Longrightarrow> requests_ok hz acc d' = requests_ok hz acc d"
  by (simp add: requests_ok_def)

lemma wp_createRequest:
  "wp (createRequest domain i uid amount asset memo) (\<lambda>r v. archived_requests (db v) = archived_requests (db w) \<and>
     (if status_of r = Some 200 then \<exists>n pk. pay_requests (db v) = pay_requests (db w) @ [new_request i uid pk n asset memo (now w)]
      else pay_requests (db v) = pay_requests (db w))) (\<lambda>_ _. False) w"
  by (auto simp: createRequest_def insert_request_def wps split: option.split sum.split)

lemma find_request_mem: "find_request d i = Some r \<Longrightarrow> r \<in> set (pay_requests d) \<and> pq_id r = i"
  unfolding find_request_def by (drule find_SomeD) simp

lemma set_request_ok:
  assumes "requests_ok hz acc d" and "find_request d i = Some r" and "pq_id (f r) = pq_id r" and "paid_ok hz (f r)" and "\<And>x. pq_id (f x) = pq_id x"
  shows "requests_ok hz acc (set_request i f d)"
proof -
  have r: "r \<in> set (pay_requests d)" "pq_id r = i" using find_request_mem [OF assms(2)] by auto
  have "list_all (paid_ok hz) (pay_requests d)" using assms(1) by (simp add: requests_ok_def)
  from request_table.update_keeps(1) [where f = f and P = "paid_ok hz", OF requests_ok_distinct [OF assms(1)] this r assms(4)]
  have "list_all (paid_ok hz) (pay_requests (set_request i f d))" by (simp add: set_request_def)
  moreover have "map pq_id (pay_requests (set_request i f d)) = map pq_id (pay_requests d)"
    by (simp add: set_request_def update_where_def assms(5))
  moreover have "archived_requests (set_request i f d) = archived_requests d" by (simp add: set_request_def)
  ultimately show ?thesis using assms(1) by (simp add: requests_ok_def)
qed

lemma markClaimed_keeps: "keeps (\<lambda>w. requests_ok hz acc (db w)) (markClaimed hz uid i h)"
proof (rule keepsI, rule wp_snd [THEN iffD1])
  fix w :: world assume ok: "requests_ok hz acc (db w)"
  show "wp (markClaimed hz uid i h) (\<lambda>_ v. requests_ok hz acc (db v)) (\<lambda>_ v. requests_ok hz acc (db v)) w"
  proof (cases "find_request (db w) i")
    case None
    then show ?thesis using ok by (simp add: markClaimed_def wps)
  next
    case (Some r)
    have "paid_ok hz r" using ok find_request_mem [OF Some] by (auto simp: requests_ok_def list_all_iff)
    then have "requests_ok hz acc (set_request i (\<lambda>r. r\<lparr>pq_claimed := True, pq_hash := h\<rparr>) (db w))"
      if "verifyIncomingPayment hz h (pq_wallet r) (pq_asset r) (dec7_text (pq_amount r)) = Inr None"
      by (intro set_request_ok [OF ok Some]) (use that in \<open>simp_all add: paid_ok_def\<close>)
    then show ?thesis using ok Some
      by (auto simp: markClaimed_def wps split: sum.split option.split)
  qed
qed

lemma cancelRequest_keeps: "keeps (\<lambda>w. requests_ok hz acc (db w)) (cancelRequest uid i)"
proof (rule keepsI, rule wp_snd [THEN iffD1])
  fix w :: world assume ok: "requests_ok hz acc (db w)"
  show "wp (cancelRequest uid i) (\<lambda>_ v. requests_ok hz acc (db v)) (\<lambda>_ v. requests_ok hz acc (db v)) w"
  proof (cases "find_request (db w) i")
    case None
    then show ?thesis using ok by (simp add: cancelRequest_def wps)
  next
    case (Some r)
    have "paid_ok hz r" using ok find_request_mem [OF Some] by (auto simp: requests_ok_def list_all_iff)
    then have "requests_ok hz acc (set_request i (\<lambda>r. r\<lparr>pq_status := ''cancelled''\<rparr>) (db w))"
      by (intro set_request_ok [OF ok Some]) (auto simp: paid_ok_def)
    then show ?thesis using ok Some by (auto simp: cancelRequest_def wps)
  qed
qed

lemma expire_due_ok: "requests_ok hz acc d \<Longrightarrow> requests_ok hz acc (expire_due t d)"
proof -
  assume ok: "requests_ok hz acc d"
  have "paid_ok hz (x\<lparr>pq_status := ''expired''\<rparr>)" if "paid_ok hz x" for x
    using that by (simp add: paid_ok_def)
  then have "list_all (paid_ok hz) (update_where (past_due t) (\<lambda>r. r\<lparr>pq_status := ''expired''\<rparr>) (pay_requests d))"
    using ok by (intro list_all_update_where) (simp_all add: requests_ok_def)
  moreover have "map pq_id (update_where (past_due t) (\<lambda>r. r\<lparr>pq_status := ''expired''\<rparr>) (pay_requests d)) = map pq_id (pay_requests d)"
    by (simp add: update_where_def)
  ultimately show ?thesis using ok by (simp add: requests_ok_def expire_due_def)
qed

lemma archive_old_ok: "requests_ok hz acc d \<Longrightarrow> archive_old t d = Inr d' \<Longrightarrow> requests_ok hz acc d'"
proof -
  assume ok: "requests_ok hz acc d" and "archive_old t d = Inr d'"
  then have d': "d' = d\<lparr>pay_requests := filter (\<lambda>r. \<not> old_request t r) (pay_requests d), archived_requests := archived_requests d @ filter (old_request t) (pay_requests d)\<rparr>"
    by (auto simp: archive_old_def Let_def split: if_splits)
  have parts: "mset (map pq_id (filter (\<lambda>r. \<not> old_request t r) rs)) + mset (map pq_id (filter (old_request t) rs)) = mset (map pq_id rs)" for rs
    by (induction rs) auto
  have "mset (map pq_id (pay_requests d' @ archived_requests d')) =
      (mset (map pq_id (filter (\<lambda>r. \<not> old_request t r) (pay_requests d))) + mset (map pq_id (filter (old_request t) (pay_requests d)))) + mset (map pq_id (archived_requests d))"
    by (simp add: d')
  also have "\<dots> = mset (map pq_id (pay_requests d @ archived_requests d))" unfolding parts by simp
  finally have "mset (map pq_id (pay_requests d' @ archived_requests d')) = mset (map pq_id (pay_requests d @ archived_requests d))" .
  moreover have "list_all (paid_ok hz) (pay_requests d')" "list_all (paid_ok hz) (archived_requests d')"
    using ok by (auto simp: requests_ok_def d' list_all_iff)
  ultimately show ?thesis using ok unfolding requests_ok_def by metis
qed

lemma cleanup_keeps: "keeps (\<lambda>w. requests_ok hz acc (db w)) cleanup_run"
proof -
  have redis: "keeps (\<lambda>w. requests_ok hz acc (db w)) acquireCleanup" "keeps (\<lambda>w. requests_ok hz acc (db w)) releaseCleanup"
    by (auto simp: keeps_wp acquireCleanup_def releaseCleanup_def redisSetNX_def redisDel_def wps split: option.split)
  have expire: "keeps (\<lambda>w. requests_ok hz acc (db w)) expire_step"
    unfolding expire_step_def by (intro keep keeps_modify) (simp add: expire_due_ok)
  have archive: "keeps (\<lambda>w. requests_ok hz acc (db w)) (execE (\<lambda>w. archive_old (now w) (db w)))"
    by (rule keeps_execE) (rule archive_old_ok)
  show ?thesis
    unfolding cleanup_run_def cleanup_body_def notify_expired_def
    by (intro keep redis expire archive)
qed

lemma insert_request_ok:
  assumes "requests_ok hz acc d" and "i \<notin> set acc"
    and "pay_requests d' = pay_requests d @ [new_request i uid pk n asset memo t]" and "archived_requests d' = archived_requests d"
  shows "requests_ok hz (i # acc) d'"
proof -
  have "paid_ok hz (new_request i uid pk n asset memo t)" "pq_id (new_request i uid pk n asset memo t) = i"
    by (simp_all add: paid_ok_def new_request_def)
  then show ?thesis using assms by (simp add: requests_ok_def)
qed

inductive request_run :: "payments_net \<Rightarrow> world \<Rightarrow> string list \<Rightarrow> bool" for hz where
  Start: "pay_requests (db w) = [] \<Longrightarrow> archived_requests (db w) = [] \<Longrightarrow> request_run hz w []"
| Create: "request_run hz w acc \<Longrightarrow> i \<notin> set acc \<Longrightarrow> createRequest domain i uid amount asset memo w = (Inr r, v) \<Longrightarrow>
    request_run hz v (if status_of r = Some 200 then i # acc else acc)"
| Claim: "request_run hz w acc \<Longrightarrow> markClaimed hz uid i h w = (r, v) \<Longrightarrow> request_run hz v acc"
| Cancel: "request_run hz w acc \<Longrightarrow> cancelRequest uid i w = (r, v) \<Longrightarrow> request_run hz v acc"
| Cleanup: "request_run hz w acc \<Longrightarrow> cleanup_run w = (x, v) \<Longrightarrow> request_run hz v acc"
| Other: "request_run hz w acc \<Longrightarrow> pay_requests (db v) = pay_requests (db w) \<Longrightarrow> archived_requests (db v) = archived_requests (db w) \<Longrightarrow> request_run hz v acc"

text \<open>
  C11: over any history of requests, claims, cancellations, cleanups, failures and passing time, no payment request
  is lost or doubled between the table and the archive, and each is paid exactly when it carries the hash of a
  transaction that pays its wallet at least its amount.
\<close>

theorem requests_accounted_for:
  assumes "request_run hz w acc"
  shows "distinct acc \<and> mset (map pq_id (pay_requests (db w) @ archived_requests (db w))) = mset acc \<and>
    list_all (paid_ok hz) (pay_requests (db w) @ archived_requests (db w))"
proof -
  have "requests_ok hz acc (db w)"
    using assms
  proof (induction rule: request_run.induct)
    case (Start w)
    then show ?case by (simp add: requests_ok_def)
  next
    case (Create w acc i domain uid amount asset memo r v)
    from wp_run [OF wp_createRequest Create.hyps(3)] have out: "archived_requests (db v) = archived_requests (db w)"
      "if status_of r = Some 200 then \<exists>n pk. pay_requests (db v) = pay_requests (db w) @ [new_request i uid pk n asset memo (now w)]
      else pay_requests (db v) = pay_requests (db w)" by auto
    show ?case
    proof (cases "status_of r = Some 200")
      case True
      then obtain n pk where new: "pay_requests (db v) = pay_requests (db w) @ [new_request i uid pk n asset memo (now w)]" using out(2) unfolding True by (simp only: simp_thms if_True) blast
      from insert_request_ok [OF Create.IH Create.hyps(2) new out(1)] show ?thesis by (simp only: True simp_thms if_True)
    next
      case False
      then have "pay_requests (db v) = pay_requests (db w)" using out(2) by (simp only: if_False)
      from requests_ok_same [OF this out(1)] Create.IH show ?thesis by (simp only: False if_False)
    qed
  next
    case (Claim w acc uid i h r v)
    then show ?case using keepsD [OF markClaimed_keeps] by blast
  next
    case (Cancel w acc uid i r v)
    then show ?case using keepsD [OF cancelRequest_keeps] by blast
  next
    case (Cleanup w acc x v)
    then show ?case using keepsD [OF cleanup_keeps] by blast
  next
    case (Other w acc v)
    then show ?case using requests_ok_same by blast
  qed
  then show ?thesis by (simp add: requests_ok_def)
qed

definition demo_requests :: world where
  "demo_requests = demo_account\<lparr>db := (db demo_account)\<lparr>wallets := [\<lparr>w_id = ''k1'', w_user = ''u1'', w_public_key = ''GA'', w_secret = ''s'', w_default = True, w_created = 0\<rparr>]\<rparr>\<rparr>"

definition demo_horizon :: payments_net where
  "demo_horizon = \<lparr>hz_tx = (\<lambda>h. Inr True), hz_ops = (\<lambda>h. Inr [\<lparr>op_type = ''payment'', op_to = ''GA'', op_asset = None, op_amount = ''5''\<rparr>]), hz_issuer = Map.empty\<rparr>"

definition demo_asked :: world where
  "demo_asked = snd (createRequest ''https://x'' ''q1'' ''u1'' (Some ''5'') ''XLM'' None demo_requests)"

definition demo_paid :: world where
  "demo_paid = snd (markClaimed demo_horizon ''u1'' ''q1'' (Some (replicate 64 (CHR ''a''))) demo_asked)"

lemma requests_accounted_for_witness:
  "distinct [''q1''] \<and> mset (map pq_id (pay_requests (db demo_paid) @ archived_requests (db demo_paid))) = mset [''q1''] \<and>
    list_all (paid_ok demo_horizon) (pay_requests (db demo_paid) @ archived_requests (db demo_paid))"
proof (rule requests_accounted_for)
  have "request_run demo_horizon demo_requests []" by (rule request_run.Start) code_simp+
  moreover have ok: "case createRequest ''https://x'' ''q1'' ''u1'' (Some ''5'') ''XLM'' None demo_requests of (Inr r, v) \<Rightarrow> status_of r = Some 200 | _ \<Rightarrow> False" by code_simp
  then obtain r where "createRequest ''https://x'' ''q1'' ''u1'' (Some ''5'') ''XLM'' None demo_requests = (Inr r, demo_asked)" "status_of r = Some 200"
    by (cases "createRequest ''https://x'' ''q1'' ''u1'' (Some ''5'') ''XLM'' None demo_requests") (auto simp: demo_asked_def split: sum.splits)
  ultimately have "request_run demo_horizon demo_asked [''q1'']"
    using request_run.Create [of demo_horizon demo_requests "[]" "''q1''"] by fastforce
  moreover have "markClaimed demo_horizon ''u1'' ''q1'' (Some (replicate 64 (CHR ''a''))) demo_asked = (fst (markClaimed demo_horizon ''u1'' ''q1'' (Some (replicate 64 (CHR ''a''))) demo_asked), demo_paid)"
    by (simp add: demo_paid_def)
  ultimately show "request_run demo_horizon demo_paid [''q1'']" by (rule request_run.Claim)
qed

text \<open>One transaction answers every open request it covers: nothing records that its hash is used.\<close>

lemma one_payment_claims_two:
  assumes "find_request (db w) i = Some r" and "pq_requester r = uid" and "\<not> pq_claimed r" and "pq_status r \<noteq> ''cancelled''" and "now w < pq_expires r"
    and "find_request (db w) j = Some s" and "pq_wallet s = pq_wallet r" and "pq_asset s = pq_asset r" and "pq_amount s = pq_amount r"
    and "pq_claimed s" and "paid_ok hz s" and "faults w = []"
  shows "\<exists>b v. markClaimed hz uid i (pq_hash s) w = (Inr (Reply 200 b), v)"
proof -
  have "verifyIncomingPayment hz (pq_hash s) (pq_wallet r) (pq_asset r) (dec7_text (pq_amount r)) = Inr None"
    using assms(7-11) by (simp add: paid_ok_def)
  then have "wp (markClaimed hz uid i (pq_hash s)) (\<lambda>o' _. status_of o' = Some 200) (\<lambda>_ _. False) w"
    using assms(1-5,12) by (simp add: markClaimed_def wps)
  then show ?thesis by (auto simp: wp_def split: prod.splits sum.splits outcome.splits) (metis option.inject outcome.exhaust status_of.simps option.distinct(1))
qed

text \<open>A request that is paid is still pending in its status, so the cleanup expires it and writes to its creator.\<close>

lemma paid_request_expires:
  assumes "r \<in> set (pay_requests (db w))" and "pq_claimed r" and "pq_status r = ''pending''" and "pq_expires r < now w"
  shows "r \<in> set (filter (past_due (now w)) (pay_requests (db w))) \<and> r\<lparr>pq_status := ''expired''\<rparr> \<in> set (pay_requests (expire_due (now w) (db w)))"
proof
  have d: "past_due (now w) r" using assms by (simp add: past_due_def)
  then show "r \<in> set (filter (past_due (now w)) (pay_requests (db w)))" using assms(1) by simp
  then show "r\<lparr>pq_status := ''expired''\<rparr> \<in> set (pay_requests (expire_due (now w) (db w)))"
    using in_update_where [of r "pay_requests (db w)" "past_due (now w)" "\<lambda>r. r\<lparr>pq_status := ''expired''\<rparr>"] assms(1) d by (simp add: expire_due_def)
qed

end
