(* ===== verification/Savings.thy ===== *)
theory Savings
  imports Accounts Fees
begin

text \<open>
  Savings vaults (\<^verbatim>\<open>controllers/savingsController.js\<close>, \<^verbatim>\<open>utils/savingsPenalty.js\<close>): rows of the table only. The balance
  check is the export of \<^verbatim>\<open>paymentController.js\<close> and so a parameter, \<open>None\<close> when that module cannot be loaded. The text
  of a number in a column is read back as the decimal \<open>dec\<close>.
\<close>

section \<open>The penalty\<close>

text \<open>\<open>parseInt(process.env... || '1000', 10)\<close>.\<close>

definition PENALTY_BPS :: "string \<Rightarrow> jsnum" where
  "PENALTY_BPS v = parseInt (if v = [] then ''1000'' else v)"

definition calculateEarlyWithdrawalPenalty :: "string \<Rightarrow> string \<Rightarrow> jsnum" where
  "calculateEarlyWithdrawalPenalty bps amt = jdiv (jmul (parseFloat amt) (PENALTY_BPS bps)) (Fin 10000)"

section \<open>The handlers\<close>

definition SUPPORTED_ASSETS :: "string list" where "SUPPORTED_ASSETS = [''XLM'', ''USDC'']"

definition LOCK_DAYS :: "jsnum list" where "LOCK_DAYS = [Fin 7, Fin 30, Fin 90, Fin 180, Fin 365]"

definition locked_total :: "database \<Rightarrow> string \<Rightarrow> string \<Rightarrow> int" where
  "locked_total d uid asset = sum_list (map sv_amount (filter (\<lambda>v. sv_user v = uid \<and> sv_asset v = asset \<and> sv_status v = ''locked'') (vaults d)))"

definition insert_vault :: "vault \<Rightarrow> string \<Rightarrow> database \<Rightarrow> jserr + database" where
  "insert_vault v amt d = (case numeric_20_7 amt of Inl e \<Rightarrow> Inl e
     | Inr n \<Rightarrow> if sv_id v \<in> set (map sv_id (vaults d)) then Inl uniqueViolation
         else Inr (d\<lparr>vaults := vaults d @ [v\<lparr>sv_amount := n\<rparr>]\<rparr>))"

definition new_vault :: "string \<Rightarrow> string \<Rightarrow> string \<Rightarrow> int \<Rightarrow> int \<Rightarrow> vault" where
  "new_vault i uid asset days t = \<lparr>sv_id = i, sv_user = uid, sv_amount = 0, sv_asset = asset, sv_days = days,
     sv_unlock = t div 1000 + days * 24 * 60 * 60, sv_status = ''locked'', sv_early = False, sv_penalty = 0, sv_withdrawn = None, sv_created = t\<rparr>"

type_synonym balance_check = "string \<Rightarrow> jsnum \<Rightarrow> string \<Rightarrow> jserr + unit"

definition vault_json :: "vault \<Rightarrow> json" where
  "vault_json v = JObj [(''id'', JStr (sv_id v)), (''amount'', JStr (dec7_text (sv_amount v))), (''asset'', JStr (sv_asset v)),
     (''lock_period_days'', JNum (Fin (of_int (sv_days v)))), (''unlock_timestamp'', JStr (show_int (sv_unlock v))), (''status'', JStr (sv_status v))]"

definition store_vault :: "string \<Rightarrow> string \<Rightarrow> string \<Rightarrow> string \<Rightarrow> int \<Rightarrow> (world, outcome) proc" where
  "store_vault i uid amt asset days = andThen (execE (\<lambda>w. insert_vault (new_vault i uid asset days (now w)) amt (db w)))
     (bnd (gets (\<lambda>w. find (\<lambda>v. sv_id v = i) (vaults (db w)))) (\<lambda>row.
       ret (Reply 201 (JObj [(''vault'', case row of None \<Rightarrow> JNull | Some v \<Rightarrow> vault_json v), (''message'', JStr ''Savings vault created'')]))))"

definition loadError :: jserr where
  "loadError = (mkError ''Unexpected token'')\<lparr>err_name := ''SyntaxError''\<rparr>"

definition createVault :: "balance_check option \<Rightarrow> string \<Rightarrow> string \<Rightarrow> string option \<Rightarrow> string \<Rightarrow> string \<Rightarrow> (world, outcome) proc" where
  "createVault check i uid amt asset lock_period_days = handler (
     if \<not> given amt \<or> jle (parseFloat (the amt)) (Fin 0) then ret (Reply 400 (jerr ''Amount must be greater than 0''))
     else if asset \<notin> set SUPPORTED_ASSETS then ret (Reply 400 (jerr ''Asset must be one of XLM, USDC''))
     else if parseInt lock_period_days \<notin> set LOCK_DAYS then ret (Reply 400 (jerr ''Invalid lock period''))
     else bnd (select (\<lambda>w. default_wallet (db w) uid)) (\<lambda>wal. case wal of
       None \<Rightarrow> ret (Reply 404 (jerr ''Wallet not found''))
     | Some k \<Rightarrow> bnd (select (\<lambda>w. locked_total (db w) uid asset)) (\<lambda>held. case check of
         None \<Rightarrow> throw loadError
       | Some f \<Rightarrow> (case f (w_public_key k) (jadd (parseFloat (the amt)) (parseFloat (dec7_text held))) asset of
           Inl e \<Rightarrow> if err_status e = Some 400 then ret (Reply 400 (JObj ((''error'', JStr (err_message e)) # err_payload e))) else throw e
         | Inr _ \<Rightarrow> store_vault i uid (the amt) asset (case parseInt lock_period_days of Fin x \<Rightarrow> \<lfloor>x\<rfloor> | _ \<Rightarrow> 0)))))"

definition listVaults :: "string \<Rightarrow> (world, outcome) proc" where
  "listVaults uid = handler (bnd (select (\<lambda>w. sort_key (\<lambda>v. - sv_created v) (filter (\<lambda>v. sv_user v = uid) (vaults (db w))))) (\<lambda>vs.
     ret (Reply 200 (JObj [(''vaults'', JArr (map vault_json vs))]))))"

definition find_vault :: "database \<Rightarrow> string \<Rightarrow> string \<Rightarrow> vault option" where
  "find_vault d i uid = find (\<lambda>v. sv_id v = i \<and> sv_user v = uid) (vaults d)"

text \<open>The early flag, the penalty and the payout both handlers compute.\<close>

definition is_early :: "int \<Rightarrow> vault \<Rightarrow> bool" where
  "is_early t v \<longleftrightarrow> t div 1000 < sv_unlock v"

definition penalty_of :: "string \<Rightarrow> int \<Rightarrow> vault \<Rightarrow> jsnum" where
  "penalty_of bps t v = (if is_early t v then calculateEarlyWithdrawalPenalty bps (dec7_text (sv_amount v)) else Fin 0)"

definition payout_of :: "string \<Rightarrow> int \<Rightarrow> vault \<Rightarrow> jsnum" where
  "payout_of bps t v = jsub (parseFloat (dec7_text (sv_amount v))) (penalty_of bps t v)"

definition getWithdrawQuote :: "string \<Rightarrow> string \<Rightarrow> string \<Rightarrow> (world, outcome) proc" where
  "getWithdrawQuote bps uid i = handler (
     bnd (select (\<lambda>w. find_vault (db w) i uid)) (\<lambda>row. bnd (gets now) (\<lambda>t. case row of
       None \<Rightarrow> ret (Reply 404 (jerr ''Vault not found''))
     | Some v \<Rightarrow>
       if sv_status v = ''withdrawn'' then ret (Reply 400 (jerr ''Vault already withdrawn''))
       else ret (Reply 200 (JObj [(''vault_id'', JStr (sv_id v)), (''amount'', JStr (dec7_text (sv_amount v))), (''early_withdrawal'', JBool (is_early t v)),
         (''penalty_bps'', JNum (PENALTY_BPS bps)), (''penalty'', JNum (to_fixed7 (penalty_of bps t v))), (''payout'', JNum (to_fixed7 (payout_of bps t v))),
         (''unlock_timestamp'', JStr (show_int (sv_unlock v)))])))))"

text \<open>The conditional update; the penalty column takes the decimal of the number, at its scale.\<close>

definition set_withdrawn :: "int \<Rightarrow> int \<Rightarrow> bool \<Rightarrow> vault \<Rightarrow> vault" where
  "set_withdrawn t n early v = v\<lparr>sv_status := ''withdrawn'', sv_withdrawn := Some t, sv_early := early, sv_penalty := n\<rparr>"

definition take_vault :: "(rat \<Rightarrow> rat) \<Rightarrow> string \<Rightarrow> int \<Rightarrow> bool \<Rightarrow> jsnum \<Rightarrow> database \<Rightarrow> jserr + database" where
  "take_vault dec i t early pen d = (case pen of
     Fin x \<Rightarrow> Inr (d\<lparr>vaults := update_where (\<lambda>v. sv_id v = i \<and> sv_status v = ''locked'') (set_withdrawn t (fixed 7 (dec x)) early) (vaults d)\<rparr>)
   | _ \<Rightarrow> Inl numeric_error)"

text \<open>The text of \<open>PENALTY_BPS / 100\<close>: \<open>parseInt\<close> gives an integer or \<open>NaN\<close>.\<close>

definition percent_text :: "jsnum \<Rightarrow> string" where
  "percent_text v = (case v of
     Fin x \<Rightarrow> let n = \<lfloor>x\<rfloor>; a = \<bar>n\<bar>; r = a mod 100 in (if n < 0 then ''-'' else []) @ show_int (a div 100) @
       (if r = 0 then [] else if r mod 10 = 0 then ''.'' @ show_int (r div 10) else ''.'' @ padded 2 r)
   | _ \<Rightarrow> ''NaN'')"

definition withdraw_message :: "string \<Rightarrow> bool \<Rightarrow> string" where
  "withdraw_message bps early = (if early then ''Early withdrawal processed with '' @ percent_text (PENALTY_BPS bps) @ ''% penalty''
     else ''Vault withdrawn successfully'')"

definition withdraw :: "(rat \<Rightarrow> rat) \<Rightarrow> string \<Rightarrow> string \<Rightarrow> string \<Rightarrow> (world, outcome) proc" where
  "withdraw dec bps uid i = handler (
     bnd (select (\<lambda>w. find_vault (db w) i uid)) (\<lambda>row. bnd (gets now) (\<lambda>t. case row of
       None \<Rightarrow> ret (Reply 404 (jerr ''Vault not found''))
     | Some v \<Rightarrow>
       if sv_status v = ''withdrawn'' then ret (Reply 400 (jerr ''Vault already withdrawn''))
       else bnd (gets (\<lambda>w. list_ex (\<lambda>v. sv_id v = i \<and> sv_status v = ''locked'') (vaults (db w)))) (\<lambda>hit.
         andThen (execE (\<lambda>w. take_vault dec i t (is_early t v) (penalty_of bps t v) (db w)))
         (if \<not> hit then ret (Reply 400 (jerr ''Vault already withdrawn''))
          else ret (Reply 200 (JObj [(''message'', JStr (withdraw_message bps (is_early t v))),
            (''vault'', JObj [(''id'', JStr (sv_id v)), (''amount'', JStr (dec7_text (sv_amount v))), (''payout'', JNum (to_fixed7 (payout_of bps t v))),
              (''penalty'', JNum (to_fixed7 (penalty_of bps t v))), (''early_withdrawal'', JBool (is_early t v))])])))))))"

section \<open>Properties\<close>

text \<open>The vaults paid out, over any history of creations and withdrawals.\<close>

inductive vault_run :: "(rat \<Rightarrow> rat) \<Rightarrow> string \<Rightarrow> world \<Rightarrow> string list \<Rightarrow> bool" for dec bps where
  Start: "vault_run dec bps w []"
| Create: "vault_run dec bps w acc \<Longrightarrow> i \<notin> set acc \<Longrightarrow> createVault check i uid amt asset days w = (r, v) \<Longrightarrow> vault_run dec bps v acc"
| Paid: "vault_run dec bps w acc \<Longrightarrow> withdraw dec bps uid i w = (Inr r, v) \<Longrightarrow> status_of r = Some 200 \<Longrightarrow> vault_run dec bps v (i # acc)"
| Refused: "vault_run dec bps w acc \<Longrightarrow> withdraw dec bps uid i w = (r, v) \<Longrightarrow> vault_run dec bps v acc"
| Other: "vault_run dec bps w acc \<Longrightarrow> vaults (db v) = vaults (db w) \<Longrightarrow> vault_run dec bps v acc"

definition none_locked :: "string list \<Rightarrow> database \<Rightarrow> bool" where
  "none_locked acc d \<longleftrightarrow> filter (\<lambda>v. sv_id v \<in> set acc \<and> sv_status v = ''locked'') (vaults d) = []"

lemma none_locked_same: "vaults d' = vaults d \<Longrightarrow> none_locked acc d' = none_locked acc d"
  by (simp add: none_locked_def)

lemma none_locked_create:
  assumes "none_locked acc d" and "i \<notin> set acc" and "insert_vault (new_vault i uid asset days t) amt d = Inr d'"
  shows "none_locked acc d'"
proof -
  from assms(3) obtain n where "vaults d' = vaults d @ [(new_vault i uid asset days t)\<lparr>sv_amount := n\<rparr>]"
    by (auto simp: insert_vault_def split: sum.splits if_splits)
  then show ?thesis using assms(1,2) by (simp add: none_locked_def new_vault_def)
qed

lemma wp_createVault:
  assumes "none_locked acc (db w)" and "i \<notin> set acc"
  shows "wp (createVault check i uid amt asset days) (\<lambda>_ v. none_locked acc (db v)) (\<lambda>_ _. False) w"
proof -
  have store: "wp (store_vault i uid a asset k) (\<lambda>_ v. none_locked acc (db v)) (\<lambda>_ v. none_locked acc (db v)) x" if "none_locked acc (db x)" for a k x
    using that none_locked_create [OF that assms(2)] by (auto simp: store_vault_def wps split: sum.split)
  show ?thesis
    using assms(1) by (auto simp: createVault_def wps store split: option.split sum.split)
qed

lemma none_locked_take:
  assumes "none_locked acc d" and "take_vault dec i t early pen d = Inr d'"
  shows "none_locked (i # acc) d'"
proof -
  from assms(2) obtain f where f: "vaults d' = update_where (\<lambda>v. sv_id v = i \<and> sv_status v = ''locked'') f (vaults d)" "\<And>v. sv_status (f v) = ''withdrawn''"
    by (cases pen) (auto simp: take_vault_def set_withdrawn_def)
  have "filter (\<lambda>v. sv_id v \<in> set (i # acc) \<and> sv_status v = ''locked'') (vaults d')
      = filter (\<lambda>v. (sv_id v \<in> set (i # acc) \<and> sv_status v = ''locked'') \<and> \<not> (sv_id v = i \<and> sv_status v = ''locked'')) (vaults d)"
    unfolding f(1) by (rule filter_update_where_drop) (simp add: f(2))
  also have "\<dots> = []" using assms(1) by (auto simp: none_locked_def filter_empty_conv)
  finally show ?thesis by (simp add: none_locked_def)
qed

lemma wp_withdraw:
  assumes "none_locked acc (db w)"
  shows "wp (withdraw dec bps uid i) (\<lambda>r v. none_locked acc (db v) \<and> (status_of r = Some 200 \<longrightarrow> i \<notin> set acc \<and> none_locked (i # acc) (db v))) (\<lambda>_ _. False) w"
proof -
  have fresh: "i \<notin> set acc" if "list_ex (\<lambda>v. sv_id v = i \<and> sv_status v = ''locked'') (vaults (db w))"
    using that assms by (auto simp: none_locked_def filter_empty_conv list_ex_iff)
  have taken: "none_locked (i # acc) d \<and> none_locked acc d" if "take_vault dec i t early pen (db w) = Inr d" for t early pen d
    using none_locked_take [OF assms that] by (auto simp: none_locked_def filter_empty_conv)
  show ?thesis
    using assms fresh taken by (auto simp: withdraw_def wps split: option.split sum.split)
qed


definition demo_vault :: vault where
  "demo_vault = \<lparr>sv_id = ''v1'', sv_user = ''u1'', sv_amount = 1000000000, sv_asset = ''XLM'', sv_days = 7, sv_unlock = 0, sv_status = ''locked'',
     sv_early = False, sv_penalty = 0, sv_withdrawn = None, sv_created = 0\<rparr>"

definition demo_saver :: world where
  "demo_saver = demo_account\<lparr>db := (db demo_account)\<lparr>vaults := [demo_vault]\<rparr>\<rparr>"


text \<open>What the quote says is what a withdrawal at the same time charges and pays.\<close>

lemma quote_is_charged:
  assumes "find_vault (db w) i uid = Some v" and "sv_status v = ''locked''" and "faults w = []"
    and "penalty_of bps (now w) v = Fin x"
  shows "\<exists>q a. fst (getWithdrawQuote bps uid i w) = Inr (Reply 200 (JObj q)) \<and>
    fst (withdraw dec bps uid i w) = Inr (Reply 200 (JObj [(''message'', JStr (withdraw_message bps (is_early (now w) v))), (''vault'', JObj a)])) \<and>
    map_of q ''penalty'' = map_of a ''penalty'' \<and> map_of q ''payout'' = map_of a ''payout'' \<and> map_of q ''early_withdrawal'' = map_of a ''early_withdrawal''"
proof -
  have hit: "list_ex (\<lambda>v. sv_id v = i \<and> sv_status v = ''locked'') (vaults (db w))"
    using find_SomeD [OF assms(1) [unfolded find_vault_def]] assms(2) by (auto simp: list_ex_iff)
  show ?thesis
    using assms hit
    by (simp add: getWithdrawQuote_def withdraw_def handler_def catch_def bnd_def select_def andThen_def tick_def gets_def ret_def execE_def
        modify_def take_vault_def)
qed

end
