(* ===== verification/Webhooks.thy ===== *)
theory Webhooks
  imports Ssrf
begin

text \<open>
  Webhooks (\<^verbatim>\<open>controllers/webhookController.js\<close>, \<^verbatim>\<open>services/webhook.js\<close>, \<^verbatim>\<open>services/webhookEvents.js\<close>,
  \<^verbatim>\<open>utils/webhookSignature.js\<close>): the subscriptions of a user, the deliveries with their retries and log, the rotation of a
  secret and the signature header. Parameters (the record \<open>hook_env\<close>): the name service at a time, the MAC, the encryption of
  secrets, \<open>JSON.stringify\<close> and the identifiers of new rows; what the subscribers answer is a script in the state.
\<close>

section \<open>State\<close>

record hook =
  hk_id :: string
  hk_user :: string
  hk_url :: string
  hk_secret :: string
  hk_events :: "string list"
  hk_active :: bool
  hk_created :: int
  hk_previous :: "string option"
  hk_previous_expires :: "int option"

record hook_delivery =
  dv_id :: string
  dv_hook :: string
  dv_event :: string
  dv_url :: string
  dv_status :: string
  dv_code :: "nat option"
  dv_ms :: "int option"
  dv_attempt :: nat
  dv_max :: nat
  dv_error :: "string option"
  dv_payload :: json
  dv_created :: int
  dv_completed :: "int option"

text \<open>A request that was sent, with the connection it was pinned to and the answer. \<open>pt_job\<close> numbers the deliveries.\<close>

record post =
  pt_job :: nat
  pt_url :: string
  pt_address :: string
  pt_body :: string
  pt_signature :: string
  pt_answer :: "jserr + nat"

text \<open>A call of \<open>deliverWithRetry\<close>; a timer is such a call with the time it is due.\<close>

record delivery_job =
  jb_job :: nat
  jb_hook :: "string option"
  jb_url :: string
  jb_secrets :: "string list"
  jb_payload :: json
  jb_attempt :: nat

record hook_state =
  hs_hooks :: "hook list"
  hs_log :: "hook_delivery list"
  hs_now :: int
  hs_faults :: "bool list"
  hs_answers :: "(jserr + nat) list"
  hs_posts :: "post list"
  hs_timers :: "(int \<times> delivery_job) list"

record hook_env =
  he_resolver :: "int \<Rightarrow> resolver"
  he_cidrs :: string
  he_stringify :: "json \<Rightarrow> string"
  he_hmac :: "string \<Rightarrow> string \<Rightarrow> string"
  he_encrypt :: "string \<Rightarrow> jserr + string"
  he_decrypt :: "string \<Rightarrow> jserr + string"
  he_uuid :: "nat \<Rightarrow> string"
  he_overlap_hours :: int

type_synonym 'a hooks = "(hook_state, 'a) proc"

definition hook_query :: "unit hooks" where
  "hook_query = (\<lambda>s. (if hs_faults s \<noteq> [] \<and> hd (hs_faults s) then Inl (mkError ''Connection terminated unexpectedly'') else Inr (),
     s\<lparr>hs_faults := tl (hs_faults s)\<rparr>))"

definition hook_select :: "(hook_state \<Rightarrow> 'a) \<Rightarrow> 'a hooks" where
  "hook_select f = andThen hook_query (gets f)"

definition hook_exec :: "(hook_state \<Rightarrow> hook_state) \<Rightarrow> unit hooks" where
  "hook_exec f = andThen hook_query (modify f)"

section \<open>Events and signatures\<close>

definition WEBHOOK_EVENTS :: "string list" where
  "WEBHOOK_EVENTS = [''payment.sent'', ''payment.received'', ''payment.failed'', ''escrow.cancelled'', ''claimable_balance.expired'',
     ''claimable_balance.expiring_soon'']"

definition WEBHOOK_EVENT_DESCRIPTIONS :: "(string \<times> string) list" where
  "WEBHOOK_EVENT_DESCRIPTIONS = [(''payment.sent'', ''A payment you sent was submitted.''), (''payment.received'', ''A payment was received in your wallet.''),
     (''payment.failed'', ''A payment failed.''), (''escrow.cancelled'', ''An escrow was cancelled and funds returned.''),
     (''claimable_balance.expired'', ''A claimable balance expired.''), (''claimable_balance.expiring_soon'', ''A claimable balance is about to expire.'')]"

definition isValidEvent :: "string \<Rightarrow> bool" where
  "isValidEvent e \<longleftrightarrow> e \<in> set WEBHOOK_EVENTS"

definition buildSignatureHeader :: "hook_env \<Rightarrow> string list \<Rightarrow> string \<Rightarrow> string" where
  "buildSignatureHeader env secrets payload =
     (case map (\<lambda>s. ''sha256='' @ he_hmac env s payload) (filter (\<lambda>s. s \<noteq> []) secrets) of
        [] \<Rightarrow> [] | x # xs \<Rightarrow> x @ concat (map (\<lambda>y. '','' @ y) xs))"

text \<open>\<open>Buffer.from(s, 'hex')\<close>: the pairs of hexadecimal digits up to the first that is none.\<close>

fun hex_bytes :: "string \<Rightarrow> nat list" where
  "hex_bytes (a # b # s) = (case (radix_digit a, radix_digit b) of (Some x, Some y) \<Rightarrow> (16 * x + y) # hex_bytes s | _ \<Rightarrow> [])"
| "hex_bytes _ = []"

definition strip_sha :: "string \<Rightarrow> string" where
  "strip_sha s = (let t = trim s in if startsWith t ''sha256='' then drop 7 t else t)"

definition verifySignature :: "hook_env \<Rightarrow> string \<Rightarrow> string \<Rightarrow> string list \<Rightarrow> bool" where
  "verifySignature env payload header secrets =
     (header \<noteq> [] \<and> (let provided = map strip_sha (split_on (CHR '','') header) in
        list_ex (\<lambda>s. list_ex (\<lambda>sig. hex_bytes sig = hex_bytes (he_hmac env s payload)) provided) (filter (\<lambda>s. s \<noteq> []) secrets)))"

section \<open>Delivering\<close>

definition MAX_ATTEMPTS :: nat where "MAX_ATTEMPTS = 3"

text \<open>The foreign key of the log: without its subscription an entry is refused.\<close>

definition createDeliveryLog :: "hook_env \<Rightarrow> string option \<Rightarrow> string \<Rightarrow> string \<Rightarrow> nat \<Rightarrow> nat \<Rightarrow> json \<Rightarrow> string hooks" where
  "createDeliveryLog env hookId event url attempt maxAttempts payload = andThen hook_query (bnd (gets id) (\<lambda>s. case hookId of
     None \<Rightarrow> throw (mkError ''null value in column webhook_id'')
   | Some h \<Rightarrow> if h \<notin> hk_id ` set (hs_hooks s) then throw (mkError ''insert or update violates foreign key constraint'')
     else let d = \<lparr>dv_id = he_uuid env (length (hs_log s)), dv_hook = h, dv_event = event, dv_url = url, dv_status = ''pending'', dv_code = None,
         dv_ms = None, dv_attempt = attempt, dv_max = maxAttempts, dv_error = None, dv_payload = payload, dv_created = hs_now s, dv_completed = None\<rparr>
       in andThen (modify (\<lambda>s. s\<lparr>hs_log := hs_log s @ [d]\<rparr>)) (ret (dv_id d))))"

text \<open>\<open>v || null\<close>.\<close>

definition nonzero :: "'a::zero option \<Rightarrow> 'a option" where
  "nonzero v = (if v = Some 0 then None else v)"

definition updateDeliveryLog :: "string \<Rightarrow> string \<Rightarrow> nat option \<Rightarrow> int option \<Rightarrow> string option \<Rightarrow> unit hooks" where
  "updateDeliveryLog i status code ms err = hook_exec (\<lambda>s. s\<lparr>hs_log := update_where (\<lambda>d. dv_id d = i)
     (\<lambda>d. d\<lparr>dv_status := status, dv_code := nonzero code, dv_ms := nonzero ms, dv_error := (if err = Some [] then None else err),
        dv_completed := Some (hs_now s)\<rparr>) (hs_log s)\<rparr>)"

definition safeCreateDeliveryLog :: "hook_env \<Rightarrow> string option \<Rightarrow> string \<Rightarrow> string \<Rightarrow> nat \<Rightarrow> nat \<Rightarrow> json \<Rightarrow> string option hooks" where
  "safeCreateDeliveryLog env hookId event url attempt maxAttempts payload =
     catch (bnd (createDeliveryLog env hookId event url attempt maxAttempts payload) (\<lambda>i. ret (Some i))) (\<lambda>_. ret None)"

definition safeUpdateDeliveryLog :: "string option \<Rightarrow> string \<Rightarrow> nat option \<Rightarrow> int option \<Rightarrow> string option \<Rightarrow> unit hooks" where
  "safeUpdateDeliveryLog i status code ms err = (case i of
     None \<Rightarrow> ret () | Some i \<Rightarrow> if i = [] then ret () else ignore (updateDeliveryLog i status code ms err))"

text \<open>The row of the log a secret may have lapsed in: the previous one counts while it has not expired.\<close>

definition activeSecrets :: "hook_env \<Rightarrow> int \<Rightarrow> hook \<Rightarrow> jserr + string list" where
  "activeSecrets env t h = (case he_decrypt env (hk_secret h) of Inl e \<Rightarrow> Inl e
     | Inr s \<Rightarrow> (case (hk_previous h, hk_previous_expires h) of
         (Some p, Some x) \<Rightarrow> if p \<noteq> [] \<and> t < x then (case he_decrypt env p of Inl e \<Rightarrow> Inl e | Inr q \<Rightarrow> Inr [s, q]) else Inr [s]
       | _ \<Rightarrow> Inr [s]))"

definition event_of :: "json \<Rightarrow> string" where
  "event_of payload = (case field (Some payload) ''event'' of Some (JStr e) \<Rightarrow> e | _ \<Rightarrow> ''undefined'')"

text \<open>The answer to the next request, which goes over the pinned connection; an agent without TLS is refused before it is sent.\<close>

definition httpsPost :: "nat \<Rightarrow> string \<Rightarrow> string \<Rightarrow> string \<Rightarrow> agent_conn \<Rightarrow> nat hooks" where
  "httpsPost job url body signature agent = (\<lambda>s. if \<not> ac_tls agent then (Inl (typeError ''Protocol not supported. Expected https:''), s) else
     let a = (case hs_answers s of [] \<Rightarrow> Inl (mkError ''socket hang up'') | a # _ \<Rightarrow> a);
         s' = s\<lparr>hs_answers := tl (hs_answers s), hs_posts := hs_posts s @ [\<lparr>pt_job = job, pt_url = url, pt_address = ac_connects agent, pt_body = body,
           pt_signature = signature, pt_answer = a\<rparr>]\<rparr>
     in (case a of Inl e \<Rightarrow> Inl e
       | Inr c \<Rightarrow> if 300 \<le> c \<and> c < 400 then Inl (mkError (''Redirect blocked (HTTP '' @ show_nat c @ '') - follow redirects is disabled for security''))
           else if 200 \<le> c \<and> c < 300 then Inr c else Inl (mkError (''HTTP '' @ show_nat c)), s'))"

definition error_text :: "jserr \<Rightarrow> string" where
  "error_text e = (if startsWith (err_message e) ''Error:'' then dropWhile is_space (drop 6 (err_message e)) else err_message e)"

text \<open>After an attempt: the log, and after a failed one a timer until there were three.\<close>

definition log_delivered :: "string option \<Rightarrow> int \<Rightarrow> nat \<Rightarrow> unit hooks" where
  "log_delivered i start code = bnd (gets hs_now) (\<lambda>t. safeUpdateDeliveryLog i ''delivered'' (Some code) (Some (t - start)) None)"

definition next_try :: "int \<Rightarrow> delivery_job \<Rightarrow> (int \<times> delivery_job) list" where
  "next_try t j = (if jb_attempt j < MAX_ATTEMPTS - 1 then [(t + 2 ^ jb_attempt j * 1000, j\<lparr>jb_attempt := jb_attempt j + 1\<rparr>)] else [])"

definition log_failed :: "delivery_job \<Rightarrow> string option \<Rightarrow> int \<Rightarrow> jserr \<Rightarrow> unit hooks" where
  "log_failed j i start e = bnd (gets hs_now) (\<lambda>t. andThen (safeUpdateDeliveryLog i ''failed'' None (Some (t - start)) (Some (error_text e)))
     (modify (\<lambda>s. s\<lparr>hs_timers := hs_timers s @ next_try (hs_now s) j\<rparr>)))"

definition deliverWithRetry :: "hook_env \<Rightarrow> delivery_job \<Rightarrow> unit hooks" where
  "deliverWithRetry env j = bnd (gets hs_now) (\<lambda>t0. case validateOutboundUrl (he_resolver env t0) (he_cidrs env) (jb_url j) of
     Inl _ \<Rightarrow> bnd (safeCreateDeliveryLog env (jb_hook j) (event_of (jb_payload j)) (jb_url j) (jb_attempt j + 1) MAX_ATTEMPTS (jb_payload j)) (\<lambda>i.
       safeUpdateDeliveryLog i ''failed'' None None (Some ''SSRF validation failed''))
   | Inr (_, agent) \<Rightarrow> let body = he_stringify env (jb_payload j) in
     bnd (safeCreateDeliveryLog env (jb_hook j) (event_of (jb_payload j)) (jb_url j) (jb_attempt j + 1) MAX_ATTEMPTS (jb_payload j)) (\<lambda>i.
     bnd (gets hs_now) (\<lambda>start.
       catch (bnd (httpsPost (jb_job j) (jb_url j) body (buildSignatureHeader env (jb_secrets j) body) agent) (log_delivered i start))
         (log_failed j i start))))"

definition find_hook :: "string \<Rightarrow> hook_state \<Rightarrow> hook option" where
  "find_hook i s = find (\<lambda>h. hk_id h = i) (hs_hooks s)"

definition find_delivery :: "string \<Rightarrow> hook_state \<Rightarrow> hook_delivery option" where
  "find_delivery i s = find (\<lambda>d. dv_id d = i) (hs_log s)"

text \<open>\<open>{ ...payload, event }\<close>.\<close>

definition with_event :: "json \<Rightarrow> string \<Rightarrow> json" where
  "with_event p e = (case p of
     JObj fs \<Rightarrow> JObj (if ''event'' \<in> fst ` set fs then map (\<lambda>(k, v). if k = ''event'' then (k, JStr e) else (k, v)) fs else fs @ [(''event'', JStr e)])
   | _ \<Rightarrow> JObj [(''event'', JStr e)])"

definition retryDelivery :: "hook_env \<Rightarrow> nat \<Rightarrow> string \<Rightarrow> unit hooks" where
  "retryDelivery env job i = bnd (hook_select (\<lambda>s. case find_delivery i s of None \<Rightarrow> None
       | Some d \<Rightarrow> if dv_status d = ''failed'' then (case find_hook (dv_hook d) s of None \<Rightarrow> None | Some h \<Rightarrow> Some (d, h, hs_now s)) else None))
     (\<lambda>r. case r of None \<Rightarrow> throw (mkError ''Delivery not found or not failed'')
      | Some (d, h, t) \<Rightarrow> bnd (lift (activeSecrets env t h)) (\<lambda>ss.
          deliverWithRetry env \<lparr>jb_job = job, jb_hook = Some (dv_hook d), jb_url = hk_url h, jb_secrets = ss,
            jb_payload = with_event (dv_payload d) (dv_event d), jb_attempt = 0\<rparr>))"

text \<open>The query of \<open>deliver\<close> names \<open>userId\<close>, which is not defined.\<close>

definition deliver :: "string \<Rightarrow> json \<Rightarrow> unit hooks" where
  "deliver event data = (if \<not> isValidEvent event
     then throw (mkError (''Unknown webhook event \"'' @ event @ ''\" - add it to services/webhookEvents.js''))
     else throw (referenceError ''userId is not defined''))"

section \<open>Subscriptions\<close>

definition validateWebhookUrl :: "hook_env \<Rightarrow> string option \<Rightarrow> outcome option hooks" where
  "validateWebhookUrl env url = gets (\<lambda>s. let rs = he_resolver env (hs_now s) in case url of
     None \<Rightarrow> Some (Reply 400 (jerr ''Invalid URL format''))
   | Some u \<Rightarrow> (case rs_parse rs u of None \<Rightarrow> Some (Reply 400 (jerr ''Invalid URL format''))
       | Some (protocol, _) \<Rightarrow>
         if protocol \<noteq> ''https:'' then Some (Reply 400 (jerr ''Webhook URL must use HTTPS''))
         else (case validateOutboundUrl rs (he_cidrs env) u of
             Inl _ \<Rightarrow> Some (Reply 400 (JObj [(''error'', JStr ''SSRF_BLOCKED''), (''message'', JStr ''The provided URL resolves to a restricted network range.'')]))
           | Inr _ \<Rightarrow> None)))"

definition join_comma :: "string list \<Rightarrow> string" where
  "join_comma xs = (case xs of [] \<Rightarrow> [] | y # ys \<Rightarrow> y @ concat (map (\<lambda>z. '', '' @ z) ys))"

definition invalid_events :: "string list option \<Rightarrow> outcome option" where
  "invalid_events events = (let bad = filter (\<lambda>e. \<not> isValidEvent e) (case events of Some es \<Rightarrow> es | None \<Rightarrow> []) in
     if bad = [] then None else Some (Reply 400 (jerr (''Invalid events: '' @ join_comma bad))))"

definition hook_json :: "hook \<Rightarrow> (string \<times> json) list" where
  "hook_json h = [(''id'', JStr (hk_id h)), (''url'', JStr (hk_url h)), (''events'', JArr (map JStr (hk_events h))), (''active'', JBool (hk_active h)),
     (''created_at'', JStr (toISOString (hk_created h)))]"

text \<open>\<open>secret\<close> is the random secret a request draws, \<open>i\<close> the identifier of the new row.\<close>

definition createHook :: "hook_env \<Rightarrow> string \<Rightarrow> string \<Rightarrow> string \<Rightarrow> string option \<Rightarrow> string list option \<Rightarrow> outcome hooks" where
  "createHook env i secret uid url events = handler (bnd (validateWebhookUrl env url) (\<lambda>bad. case bad of Some r \<Rightarrow> ret r
   | None \<Rightarrow> (case invalid_events events of Some r \<Rightarrow> ret r
     | None \<Rightarrow> bnd (lift (he_encrypt env secret)) (\<lambda>sealed. bnd (gets hs_now) (\<lambda>t.
         let h = \<lparr>hk_id = i, hk_user = uid, hk_url = the url, hk_secret = sealed, hk_events = (case events of Some es \<Rightarrow> es | None \<Rightarrow> []),
           hk_active = True, hk_created = t, hk_previous = None, hk_previous_expires = None\<rparr> in
         andThen (hook_exec (\<lambda>s. s\<lparr>hs_hooks := hs_hooks s @ [h]\<rparr>)) (ret (Reply 201 (JObj (hook_json h @ [(''secret'', JStr secret)])))))))))"

definition masked :: "hook_env \<Rightarrow> hook \<Rightarrow> json" where
  "masked env h = (if hk_secret h = [] then JNull
     else case he_decrypt env (hk_secret h) of Inr p \<Rightarrow> JStr (take 4 p @ ''****'') | Inl _ \<Rightarrow> JStr ''****'')"

definition listHooks :: "hook_env \<Rightarrow> string \<Rightarrow> outcome hooks" where
  "listHooks env uid = handler (bnd (hook_select (\<lambda>s. sort_key (\<lambda>h. - hk_created h) (filter (\<lambda>h. hk_user h = uid) (hs_hooks s)))) (\<lambda>hs.
     ret (Reply 200 (JObj [(''webhooks'', JArr (map (\<lambda>h. JObj (hook_json h @ [(''secret_masked'', masked env h)])) hs))]))))"

definition owned_hook :: "string \<Rightarrow> string \<Rightarrow> hook_state \<Rightarrow> hook option" where
  "owned_hook uid i s = (case find_hook i s of Some h \<Rightarrow> if hk_user h = uid then Some h else None | None \<Rightarrow> None)"

definition owned_delivery :: "string \<Rightarrow> hook_state \<Rightarrow> hook_delivery \<Rightarrow> bool" where
  "owned_delivery uid s d \<longleftrightarrow> owned_hook uid (dv_hook d) s \<noteq> None"

definition num_or_null :: "int option \<Rightarrow> json" where
  "num_or_null n = (case n of Some x \<Rightarrow> JNum (Fin (of_int x)) | None \<Rightarrow> JNull)"

definition delivery_json :: "hook_delivery \<Rightarrow> json" where
  "delivery_json d = JObj [(''id'', JStr (dv_id d)), (''webhook_id'', JStr (dv_hook d)), (''event_type'', JStr (dv_event d)), (''target_url'', JStr (dv_url d)),
     (''status_code'', num_or_null (map_option int (dv_code d))), (''response_time_ms'', num_or_null (dv_ms d)), (''status'', JStr (dv_status d)),
     (''attempt'', num_or_null (Some (int (dv_attempt d)))), (''max_attempts'', num_or_null (Some (int (dv_max d)))),
     (''error_message'', case dv_error d of Some e \<Rightarrow> JStr e | None \<Rightarrow> JNull), (''created_at'', JStr (toISOString (dv_created d))),
     (''completed_at'', case dv_completed d of Some t \<Rightarrow> JStr (toISOString t) | None \<Rightarrow> JNull)]"

definition listDeliveries :: "string \<Rightarrow> string option \<Rightarrow> outcome hooks" where
  "listDeliveries uid hookId = handler (bnd (hook_select (\<lambda>s. take 100 (sort_key (\<lambda>d. - dv_created d)
       (filter (\<lambda>d. owned_delivery uid s d \<and> (case hookId of Some i \<Rightarrow> i = [] \<or> dv_hook d = i | None \<Rightarrow> True)) (hs_log s))))) (\<lambda>ds.
     ret (Reply 200 (JObj [(''deliveries'', JArr (map delivery_json ds))]))))"

definition rotated :: "int \<Rightarrow> int \<Rightarrow> string \<Rightarrow> string \<Rightarrow> hook \<Rightarrow> hook" where
  "rotated t hours sealed old h = h\<lparr>hk_secret := sealed, hk_previous := Some old, hk_previous_expires := Some (t + hours * 3600000)\<rparr>"

definition rotateSecret :: "hook_env \<Rightarrow> string \<Rightarrow> string \<Rightarrow> string \<Rightarrow> outcome hooks" where
  "rotateSecret env secret uid i = handler (bnd (hook_select (owned_hook uid i)) (\<lambda>r. case r of
     None \<Rightarrow> ret (Reply 404 (jerr ''Webhook not found''))
   | Some h \<Rightarrow> bnd (lift (he_encrypt env secret)) (\<lambda>sealed. bnd (gets hs_now) (\<lambda>t.
       let h' = rotated t (he_overlap_hours env) sealed (hk_secret h) h in
       andThen (hook_exec (\<lambda>s. s\<lparr>hs_hooks := update_where (\<lambda>h. hk_id h = i) (rotated t (he_overlap_hours env) sealed (hk_secret h)) (hs_hooks s)\<rparr>))
         (ret (Reply 200 (JObj (hook_json h' @ [(''previous_secret_expires_at'', JStr (toISOString (t + he_overlap_hours env * 3600000))),
           (''secret'', JStr secret), (''rotation_overlap_hours'', JNum (Fin (of_int (he_overlap_hours env))))]))))))))"

definition retryHook :: "hook_env \<Rightarrow> nat \<Rightarrow> string \<Rightarrow> string \<Rightarrow> outcome hooks" where
  "retryHook env job uid i = handler (bnd (hook_select (\<lambda>s. case find_delivery i s of Some d \<Rightarrow> owned_delivery uid s d | None \<Rightarrow> False)) (\<lambda>b.
     if \<not> b then ret (Reply 404 (jerr ''Delivery not found or not owned by user''))
     else andThen (retryDelivery env job i) (ret (Reply 200 (JObj [(''message'', JStr ''Retry initiated'')])))))"

text \<open>\<open>COALESCE\<close> keeps what is not given; an empty URL counts as given only for the check.\<close>

definition patched :: "string option \<Rightarrow> string list option \<Rightarrow> bool option \<Rightarrow> hook \<Rightarrow> hook" where
  "patched url events active h = h\<lparr>hk_url := (case url of Some u \<Rightarrow> u | None \<Rightarrow> hk_url h), hk_events := (case events of Some es \<Rightarrow> es | None \<Rightarrow> hk_events h),
     hk_active := (case active of Some b \<Rightarrow> b | None \<Rightarrow> hk_active h)\<rparr>"

definition updateHook :: "hook_env \<Rightarrow> string \<Rightarrow> string \<Rightarrow> string option \<Rightarrow> string list option \<Rightarrow> bool option \<Rightarrow> outcome hooks" where
  "updateHook env uid i url events active = handler (bnd (hook_select (owned_hook uid i)) (\<lambda>r. case r of
     None \<Rightarrow> ret (Reply 404 (jerr ''Webhook not found''))
   | Some h \<Rightarrow> bnd (if url = None then ret None else validateWebhookUrl env url) (\<lambda>bad. case bad of Some r \<Rightarrow> ret r
   | None \<Rightarrow> (case invalid_events events of Some r \<Rightarrow> ret r
     | None \<Rightarrow> andThen (hook_exec (\<lambda>s. s\<lparr>hs_hooks := update_where (\<lambda>h. hk_id h = i \<and> hk_user h = uid) (patched url events active) (hs_hooks s)\<rparr>))
         (ret (Reply 200 (JObj (hook_json (patched url events active h)))))))))"

definition listEvents :: outcome where
  "listEvents = Reply 200 (JObj [(''events'', JArr (map (\<lambda>e. JObj [(''name'', JStr e),
     (''description'', case map_of WEBHOOK_EVENT_DESCRIPTIONS e of Some d \<Rightarrow> JStr d | None \<Rightarrow> JNull)]) WEBHOOK_EVENTS))])"

section \<open>Signatures\<close>

definition hex_text :: "string \<Rightarrow> bool" where
  "hex_text s \<longleftrightarrow> list_all (\<lambda>c. radix_digit c \<noteq> None) s"

lemma radix_none: "radix_digit (CHR '','') = None" "radix_digit (CHR '' '') = None"
  by code_simp+

lemma radix_not_space: "radix_digit c \<noteq> None \<Longrightarrow> \<not> is_space c"
  by (auto simp: radix_digit_def is_space_def lower_char_def Let_def split: if_splits)

lemma hex_no_comma: "hex_text s \<Longrightarrow> CHR '','' \<notin> set s"
  using radix_none(1) by (auto simp: hex_text_def list_all_iff)

lemma trim_plain: "(\<And>c. c \<in> set s \<Longrightarrow> \<not> is_space c) \<Longrightarrow> trim s = s"
proof -
  assume s: "\<And>c. c \<in> set s \<Longrightarrow> \<not> is_space c"
  have "dropWhile is_space t = t" if "set t = set s" for t using that s by (cases t) auto
  from this [of s] this [of "rev s"] show ?thesis by (simp add: trim_def)
qed

lemma strip_sha_header: "hex_text h \<Longrightarrow> strip_sha (''sha256='' @ h) = h"
proof -
  assume h: "hex_text h"
  have "\<not> is_space c" if "c \<in> set (''sha256='' @ h)" for c
  proof (cases "c \<in> set h")
    case True
    then show ?thesis using h radix_not_space by (auto simp: hex_text_def list_all_iff)
  next
    case False
    then have "c \<in> set ''sha256=''" using that by auto
    then show ?thesis by (auto simp: is_space_def Let_def)
  qed
  then have "trim (''sha256='' @ h) = ''sha256='' @ h" by (rule trim_plain)
  then show ?thesis by (simp add: strip_sha_def startsWith_def Let_def)
qed

lemma split_commas:
  "(\<And>x. x \<in> set (y # ys) \<Longrightarrow> CHR '','' \<notin> set x) \<Longrightarrow> split_on (CHR '','') (y @ concat (map (\<lambda>z. CHR '','' # z) ys)) = y # ys"
proof (induction ys arbitrary: y)
  case (Cons z ys)
  then show ?case using split_on_append [of "CHR '',''" y] by simp
qed (simp add: split_on_single)

text \<open>
  C38: A delivery is accepted by a receiver exactly when the MAC of the receiver's secret is that of one of the secrets the delivery
  was signed with: by everyone who holds the current or the previous secret of a rotation, and by others only on a collision.
\<close>

theorem signature_accepted:
  assumes "\<And>s. hex_text (he_hmac env s payload)"
  shows "verifySignature env payload (buildSignatureHeader env secrets payload) [receiver] \<longleftrightarrow>
    receiver \<noteq> [] \<and> (\<exists>s \<in> set secrets. s \<noteq> [] \<and> hex_bytes (he_hmac env s payload) = hex_bytes (he_hmac env receiver payload))"
proof (cases "filter (\<lambda>s. s \<noteq> []) secrets")
  case Nil
  then have "\<forall>s \<in> set secrets. s = []" by (simp add: filter_empty_conv)
  then show ?thesis using Nil by (auto simp: buildSignatureHeader_def verifySignature_def)
next
  case (Cons x xs)
  define part where "part = (\<lambda>s. ''sha256='' @ he_hmac env s payload)"
  have header: "buildSignatureHeader env secrets payload = part x @ concat (map (\<lambda>z. CHR '','' # z) (map part xs))"
    by (simp add: buildSignatureHeader_def Cons o_def part_def)
  have no: "CHR '','' \<notin> set (part s)" for s using hex_no_comma [OF assms] by (simp add: part_def)
  have split: "split_on (CHR '','') (buildSignatureHeader env secrets payload) = part x # map part xs"
    unfolding header by (rule split_commas) (use no in auto)
  have strip: "strip_sha (part s) = he_hmac env s payload" for s
    unfolding part_def by (rule strip_sha_header [OF assms])
  have "{s \<in> set secrets. s \<noteq> []} = set (x # xs)" using Cons by (metis set_filter)
  then have some: "(\<exists>s \<in> set secrets. s \<noteq> [] \<and> P s) \<longleftrightarrow> P x \<or> (\<exists>s \<in> set xs. P s)" for P by auto
  have "buildSignatureHeader env secrets payload \<noteq> []" by (simp add: header part_def)
  then show ?thesis unfolding verifySignature_def split some by (auto simp: list_ex_iff strip)
qed

section \<open>Attempts\<close>

definition job_posts :: "nat \<Rightarrow> hook_state \<Rightarrow> post list" where
  "job_posts k s = filter (\<lambda>p. pt_job p = k) (hs_posts s)"

definition accepted :: "post \<Rightarrow> bool" where
  "accepted p = (case pt_answer p of Inr c \<Rightarrow> 200 \<le> c \<and> c < 300 | Inl _ \<Rightarrow> False)"

definition guarded :: "hook_env \<Rightarrow> post \<Rightarrow> bool" where
  "guarded env p \<longleftrightarrow> (\<exists>t x a. validateOutboundUrl (he_resolver env t) (he_cidrs env) (pt_url p) = Inr (x, a) \<and> ac_connects a = pt_address p)"

definition fresh_job :: "nat \<Rightarrow> hook_state \<Rightarrow> bool" where
  "fresh_job k s \<longleftrightarrow> job_posts k s = [] \<and> (\<forall>(t, j) \<in> set (hs_timers s). jb_job j \<noteq> k)"

text \<open>A life of the module: deliveries, retries asked for, timers that fire, and anything that sends nothing.\<close>

inductive hook_run :: "hook_env \<Rightarrow> hook_state \<Rightarrow> bool" for env where
  started: "hs_posts s = [] \<Longrightarrow> hs_timers s = [] \<Longrightarrow> hook_run env s"
| delivered: "hook_run env s \<Longrightarrow> fresh_job (jb_job j) s \<Longrightarrow> jb_attempt j = 0 \<Longrightarrow> hook_run env (snd (deliverWithRetry env j s))"
| retried: "hook_run env s \<Longrightarrow> fresh_job k s \<Longrightarrow> hook_run env (snd (retryHook env k uid i s))"
| fired: "hook_run env s \<Longrightarrow> (t, j) \<in> set (hs_timers s) \<Longrightarrow> t \<le> hs_now s \<Longrightarrow>
    hook_run env (snd (deliverWithRetry env j (s\<lparr>hs_timers := remove1 (t, j) (hs_timers s)\<rparr>)))"
| other: "hook_run env s \<Longrightarrow> hs_posts s' = hs_posts s \<Longrightarrow> hs_timers s' = hs_timers s \<Longrightarrow> hook_run env s'"

definition sends :: "post list \<Rightarrow> (int \<times> delivery_job) list \<Rightarrow> int \<Rightarrow> hook_state \<Rightarrow> bool" where
  "sends P T t s \<longleftrightarrow> hs_posts s = P \<and> hs_timers s = T \<and> hs_now s = t"

lemma sends_query [keep]: "keeps (sends P T t) hook_query"
  by (simp add: hook_query_def keeps_def sends_def)

lemma sends_exec [keep]: "(\<And>s. sends P T t s \<Longrightarrow> sends P T t (f s)) \<Longrightarrow> keeps (sends P T t) (hook_exec f)"
  unfolding hook_exec_def by (intro keep keeps_modify) blast+

lemma sends_select [keep]: "keeps (sends P T t) (hook_select f)"
  unfolding hook_select_def by (intro keep)

lemma sends_create [keep]: "keeps (sends P T t) (safeCreateDeliveryLog env h e u a m p)"
  unfolding safeCreateDeliveryLog_def createDeliveryLog_def Let_def by (intro keep keeps_modify) (simp add: sends_def)

lemma sends_update [keep]: "keeps (sends P T t) (safeUpdateDeliveryLog i st c ms e)"
  unfolding safeUpdateDeliveryLog_def updateDeliveryLog_def by (intro keep) (simp add: sends_def)

text \<open>What an attempt adds: nothing, a request, a timer for the next one.\<close>

definition attempt_effect :: "hook_env \<Rightarrow> delivery_job \<Rightarrow> hook_state \<Rightarrow> hook_state \<Rightarrow> bool" where
  "attempt_effect env j s s' \<longleftrightarrow>
     hs_posts s' = hs_posts s \<and> (hs_timers s' = hs_timers s \<or> hs_timers s' = hs_timers s @ next_try (hs_now s) j) \<or>
     (\<exists>p. hs_posts s' = hs_posts s @ [p] \<and> pt_job p = jb_job j \<and> guarded env p \<and>
        hs_timers s' = (if accepted p then hs_timers s else hs_timers s @ next_try (hs_now s) j))"

lemma ignore_returns: "\<exists>s'. ignore m s = (Inr (), s')"
  by (simp add: ignore_def catch_def bnd_def ret_def split: prod.split sum.split)

lemma safe_update_returns: "\<exists>s'. safeUpdateDeliveryLog i st c ms e s = (Inr (), s')"
  by (cases i) (simp_all add: safeUpdateDeliveryLog_def ret_def ignore_returns)

lemma wp_update:
  assumes "sends P T t s" "\<And>s'. sends P T t s' \<Longrightarrow> Q () s'"
  shows "wp (safeUpdateDeliveryLog i st c ms e) Q E s"
proof -
  obtain s' where s': "safeUpdateDeliveryLog i st c ms e s = (Inr (), s')" using safe_update_returns by blast
  then have "sends P T t s'" using sends_update [of P T t i st c ms e] assms(1) unfolding keeps_def by (metis snd_conv)
  then show ?thesis by (simp add: wp_def s' assms(2))
qed

lemma wp_delivered: "sends P T t s \<Longrightarrow> wp (log_delivered i start code) (\<lambda>_ s'. sends P T t s') (\<lambda>_ _. False) s"
  unfolding log_delivered_def wps by (rule wp_update)

lemma wp_failed: "sends P T t s \<Longrightarrow> wp (log_failed j i start e) (\<lambda>_ s'. sends P (T @ next_try t j) t s') (\<lambda>_ _. False) s"
  unfolding log_failed_def wps by (rule wp_update, assumption) (auto simp: sends_def)

lemma wp_httpsPost:
  assumes s: "sends P T t s" and ok: "validateOutboundUrl (he_resolver env u) (he_cidrs env) url = Inr (x, a)"
    and sent: "\<And>c p s'. sends (P @ [p]) T t s' \<Longrightarrow> pt_job p = k \<Longrightarrow> guarded env p \<Longrightarrow> accepted p \<Longrightarrow> Q c s'"
    and refused: "\<And>e p s'. sends (P @ [p]) T t s' \<Longrightarrow> pt_job p = k \<Longrightarrow> guarded env p \<Longrightarrow> \<not> accepted p \<Longrightarrow> E e s'"
    and unsent: "\<And>e s'. sends P T t s' \<Longrightarrow> E e s'"
  shows "wp (httpsPost k url body sig a) Q E s"
proof (cases "ac_tls a")
  case False
  then show ?thesis using unsent [OF s] by (simp add: wp_def httpsPost_def)
next
  case True
  define ans where "ans = (case hs_answers s of [] \<Rightarrow> Inl (mkError ''socket hang up'') | r # _ \<Rightarrow> r)"
  define p where "p = \<lparr>pt_job = k, pt_url = url, pt_address = ac_connects a, pt_body = body, pt_signature = sig, pt_answer = ans\<rparr>"
  define s1 where "s1 = s\<lparr>hs_answers := tl (hs_answers s), hs_posts := hs_posts s @ [p]\<rparr>"
  have s1: "sends (P @ [p]) T t s1" using s by (simp add: s1_def sends_def)
  have p: "pt_job p = k" "guarded env p" using ok by (auto simp: guarded_def p_def)
  have post: "httpsPost k url body sig a s = (case ans of Inl e \<Rightarrow> Inl e
     | Inr c \<Rightarrow> if 300 \<le> c \<and> c < 400 then Inl (mkError (''Redirect blocked (HTTP '' @ show_nat c @ '') - follow redirects is disabled for security''))
         else if 200 \<le> c \<and> c < 300 then Inr c else Inl (mkError (''HTTP '' @ show_nat c)), s1)"
    using True by (simp add: httpsPost_def Let_def ans_def p_def s1_def)
  show ?thesis
  proof (cases "accepted p")
    case True
    then show ?thesis using sent [OF s1 p True] by (auto simp: wp_def post accepted_def p_def split: sum.splits)
  next
    case False
    then have "\<exists>e. httpsPost k url body sig a s = (Inl e, s1)"
      by (cases ans) (auto simp: post accepted_def p_def)
    then obtain e where "httpsPost k url body sig a s = (Inl e, s1)" ..
    then show ?thesis using refused [OF s1 p False] by (simp add: wp_def)
  qed
qed

lemma deliver_effect: "attempt_effect env j s (snd (deliverWithRetry env j s))"
proof -
  let ?P = "hs_posts s" and ?T = "hs_timers s" and ?t = "hs_now s"
  let ?Q = "\<lambda>s'. attempt_effect env j s s'"
  have s: "sends ?P ?T ?t s" by (simp add: sends_def)
  have same: "?Q s'" if "sends ?P ?T ?t s'" for s' using that by (simp add: attempt_effect_def sends_def)
  have "wp (deliverWithRetry env j) (\<lambda>_. ?Q) (\<lambda>_. ?Q) s"
  proof (cases "validateOutboundUrl (he_resolver env ?t) (he_cidrs env) (jb_url j)")
    case (Inl e)
    show ?thesis unfolding deliverWithRetry_def wps Inl sum.case
      by (rule wp_keeps [OF sends_create s]) (auto intro: wp_update same)
  next
    case (Inr r)
    obtain x a where r: "r = (x, a)" by (cases r)
    show ?thesis unfolding deliverWithRetry_def wps Inr r sum.case prod.case Let_def
      apply (rule wp_keeps [OF sends_create s])
       apply (rule wp_httpsPost [where env = env])
           apply assumption
          apply (rule Inr [unfolded r])
         apply (rule wp_mono [OF wp_delivered], assumption)
          apply (auto simp: attempt_effect_def sends_def) [1]
         apply simp
        apply (rule wp_mono [OF wp_failed], assumption)
         apply (auto simp: attempt_effect_def sends_def) [1]
        apply simp
       apply (rule wp_mono [OF wp_failed], assumption)
        apply (auto simp: attempt_effect_def sends_def) [1]
       apply simp
      apply (rule same)
      apply assumption
      done
  qed
  then show ?thesis by (simp add: wp_snd)
qed

text \<open>A retry that is asked for delivers once, or sends nothing.\<close>

lemma retryHook_effect:
  "\<exists>j. jb_job j = k \<and> jb_attempt j = 0 \<and> attempt_effect env j s (snd (retryHook env k uid i s))"
proof -
  let ?none = "\<lambda>s'. hs_posts s' = hs_posts s \<and> hs_timers s' = hs_timers s \<and> hs_now s' = hs_now s"
  let ?Q = "\<lambda>s'. \<exists>j. jb_job j = k \<and> jb_attempt j = 0 \<and> attempt_effect env j s s'"
  have none: "?Q s'" if "sends (hs_posts s) (hs_timers s) (hs_now s) s'" for s'
    by (rule exI [where x = "\<lparr>jb_job = k, jb_hook = None, jb_url = [], jb_secrets = [], jb_payload = JNull, jb_attempt = 0\<rparr>"])
      (use that in \<open>simp add: attempt_effect_def sends_def\<close>)
  have s: "sends (hs_posts s) (hs_timers s) (hs_now s) s" by (simp add: sends_def)
  have from_here: "attempt_effect env j s s''" if "sends (hs_posts s) (hs_timers s) (hs_now s) s'" "attempt_effect env j s' s''" for j s' s''
    using that unfolding attempt_effect_def sends_def by (elim conjE) (simp only:)
  have go: "wp (deliverWithRetry env j) (\<lambda>_. ?Q) (\<lambda>_. ?Q) s'"
    if "sends (hs_posts s) (hs_timers s) (hs_now s) s'" "jb_job j = k" "jb_attempt j = 0" for j s'
    using from_here [OF that(1) deliver_effect] that(2,3) by (auto simp: wp_snd)
  have "wp (retryHook env k uid i) (\<lambda>_. ?Q) (\<lambda>_. ?Q) s"
    unfolding retryHook_def retryDelivery_def wps
    apply (rule wp_keeps [OF sends_select s])
     apply (auto simp: wps none split: option.split sum.split intro!: wp_keeps [OF sends_select] go)
    done
  then show ?thesis by (simp add: wp_snd)
qed

text \<open>A job with a timer has made at most as many attempts as its number, all failed; any job at most three, the last at most accepted.\<close>

definition hooks_ok :: "hook_env \<Rightarrow> hook_state \<Rightarrow> bool" where
  "hooks_ok env s \<longleftrightarrow> distinct (map (jb_job \<circ> snd) (hs_timers s)) \<and> (\<forall>p \<in> set (hs_posts s). guarded env p) \<and>
     (\<forall>(t, j) \<in> set (hs_timers s). jb_attempt j \<le> 2 \<and> length (job_posts (jb_job j) s) \<le> jb_attempt j \<and>
        (\<forall>p \<in> set (job_posts (jb_job j) s). \<not> accepted p)) \<and>
     (\<forall>k. length (job_posts k s) \<le> 3 \<and> (\<forall>p \<in> set (butlast (job_posts k s)). \<not> accepted p))"

text \<open>An attempt of a job without a timer, whose attempts so far failed.\<close>

lemma job_posts_add: "hs_posts s' = hs_posts s @ [p] \<Longrightarrow> job_posts k s' = job_posts k s @ (if pt_job p = k then [p] else [])"
  by (simp add: job_posts_def)

lemma job_posts_same: "hs_posts s' = hs_posts s \<Longrightarrow> job_posts k s' = job_posts k s"
  by (simp add: job_posts_def)

lemma hooks_ok_same: "hooks_ok env s \<Longrightarrow> hs_posts s' = hs_posts s \<Longrightarrow> hs_timers s' = hs_timers s \<Longrightarrow> hooks_ok env s'"
  by (simp add: hooks_ok_def job_posts_def)

lemma hooks_ok_timer:
  assumes ok: "hooks_ok env s" and new: "\<forall>(t, i) \<in> set (hs_timers s). jb_job i \<noteq> jb_job j"
    and n: "length (job_posts (jb_job j) s) \<le> jb_attempt j + 1" "\<forall>p \<in> set (job_posts (jb_job j) s). \<not> accepted p"
    and s': "hs_posts s' = hs_posts s" "hs_timers s' = hs_timers s @ next_try t j"
  shows "hooks_ok env s'"
proof -
  note same = job_posts_same [OF s'(1)]
  have "distinct (map (jb_job \<circ> snd) (hs_timers s'))"
    using ok new by (auto simp: hooks_ok_def s'(2) next_try_def)
  moreover have "\<forall>(u, i) \<in> set (hs_timers s'). jb_attempt i \<le> 2 \<and> length (job_posts (jb_job i) s') \<le> jb_attempt i \<and>
        (\<forall>p \<in> set (job_posts (jb_job i) s'). \<not> accepted p)"
    using ok n by (auto simp: hooks_ok_def s'(2) next_try_def same MAX_ATTEMPTS_def)
  ultimately show ?thesis using ok by (simp add: hooks_ok_def same s'(1))
qed

lemma hooks_ok_post:
  assumes ok: "hooks_ok env s" and new: "\<forall>(t, i) \<in> set (hs_timers s). jb_job i \<noteq> pt_job p"
    and n: "length (job_posts (pt_job p) s) \<le> 2" "\<forall>q \<in> set (job_posts (pt_job p) s). \<not> accepted q" and g: "guarded env p"
    and s': "hs_posts s' = hs_posts s @ [p]" "hs_timers s' = hs_timers s"
  shows "hooks_ok env s'"
proof -
  note add = job_posts_add [OF s'(1)]
  have "\<forall>(u, i) \<in> set (hs_timers s'). jb_attempt i \<le> 2 \<and> length (job_posts (jb_job i) s') \<le> jb_attempt i \<and>
        (\<forall>p \<in> set (job_posts (jb_job i) s'). \<not> accepted p)"
  proof (clarify, intro conjI)
    fix u i assume i: "(u, i) \<in> set (hs_timers s')"
    then have "jb_job i \<noteq> pt_job p" using new by (auto simp: s'(2))
    then have same: "job_posts (jb_job i) s' = job_posts (jb_job i) s" by (simp add: add)
    have "jb_attempt i \<le> 2 \<and> length (job_posts (jb_job i) s) \<le> jb_attempt i \<and> (\<forall>p \<in> set (job_posts (jb_job i) s). \<not> accepted p)"
      using ok i unfolding hooks_ok_def s'(2) by blast
    then show "jb_attempt i \<le> 2" "length (job_posts (jb_job i) s') \<le> jb_attempt i" "\<forall>p \<in> set (job_posts (jb_job i) s'). \<not> accepted p"
      unfolding same by blast+
  qed
  moreover have "length (job_posts k s') \<le> 3 \<and> (\<forall>q \<in> set (butlast (job_posts k s')). \<not> accepted q)" for k
    using ok n by (cases "pt_job p = k") (simp_all add: hooks_ok_def add)
  ultimately show ?thesis using ok g by (simp add: hooks_ok_def s')
qed

lemma hooks_ok_attempt:
  assumes ok: "hooks_ok env s" and eff: "attempt_effect env j s s'"
    and new: "\<forall>(t, i) \<in> set (hs_timers s). jb_job i \<noteq> jb_job j"
    and n: "jb_attempt j \<le> 2" "length (job_posts (jb_job j) s) \<le> jb_attempt j" "\<forall>p \<in> set (job_posts (jb_job j) s). \<not> accepted p"
  shows "hooks_ok env s'"
  using eff unfolding attempt_effect_def
proof (elim disjE conjE exE)
  assume "hs_posts s' = hs_posts s" "hs_timers s' = hs_timers s"
  then show ?thesis by (rule hooks_ok_same [OF ok])
next
  assume "hs_posts s' = hs_posts s" "hs_timers s' = hs_timers s @ next_try (hs_now s) j"
  then show ?thesis using n(2,3) by (intro hooks_ok_timer [OF ok new, where t = "hs_now s"]) simp_all
next
  fix p assume p: "hs_posts s' = hs_posts s @ [p]" "pt_job p = jb_job j" "guarded env p"
    and t: "hs_timers s' = (if accepted p then hs_timers s else hs_timers s @ next_try (hs_now s) j)"
  define s1 where "s1 = s\<lparr>hs_posts := hs_posts s @ [p]\<rparr>"
  have s1: "hooks_ok env s1"
    by (rule hooks_ok_post [OF ok, where p = p]) (use p new n in \<open>auto simp: s1_def\<close>)
  have posts: "job_posts (jb_job j) s1 = job_posts (jb_job j) s @ [p]" using p(2) by (simp add: s1_def job_posts_def)
  show ?thesis
  proof (cases "accepted p")
    case True
    then show ?thesis using s1 p(1) t by (simp add: hooks_ok_def job_posts_def s1_def)
  next
    case False
    then show ?thesis
      by (intro hooks_ok_timer [OF s1, where j = j and t = "hs_now s"])
        (use new n p(1) t posts in \<open>auto simp: s1_def\<close>)
  qed
qed

text \<open>A job that is new starts from nothing.\<close>

lemma hooks_ok_new:
  assumes "hooks_ok env s" "fresh_job (jb_job j) s" "jb_attempt j = 0" "attempt_effect env j s s'"
  shows "hooks_ok env s'"
  by (rule hooks_ok_attempt [OF assms(1,4)]) (use assms(2,3) in \<open>simp_all add: fresh_job_def\<close>)

lemma hook_run_ok: "hook_run env s \<Longrightarrow> hooks_ok env s"
proof (induction rule: hook_run.induct)
  case (started s)
  then show ?case by (simp add: hooks_ok_def job_posts_def)
next
  case (delivered s j)
  show ?case by (rule hooks_ok_new [OF delivered.IH delivered.hyps(2,3) deliver_effect])
next
  case (retried s k uid i)
  obtain j where j: "jb_job j = k" "jb_attempt j = 0" "attempt_effect env j s (snd (retryHook env k uid i s))"
    using retryHook_effect by blast
  show ?case by (rule hooks_ok_new [OF retried.IH _ j(2,3)]) (simp add: j(1) retried.hyps(2))
next
  case (fired s t j)
  let ?s = "s\<lparr>hs_timers := remove1 (t, j) (hs_timers s)\<rparr>"
  have dist: "distinct (map (jb_job \<circ> snd) (hs_timers s))" using fired.IH by (simp add: hooks_ok_def)
  have rest: "set (remove1 (t, j) (hs_timers s)) = set (hs_timers s) - {(t, j)}"
    using dist by (simp add: distinct_map set_remove1_eq)
  have "inj_on (jb_job \<circ> snd) (set (hs_timers s))" using dist by (simp add: distinct_map)
  then have new: "\<forall>(u, i) \<in> set (hs_timers ?s). jb_job i \<noteq> jb_job j"
    using fired.hyps(2) by (fastforce simp: rest inj_on_def)
  have same: "job_posts k ?s = job_posts k s" for k by (simp add: job_posts_def)
  have "hooks_ok env ?s"
    using fired.IH dist by (auto simp: hooks_ok_def same rest distinct_map distinct_remove1 intro: inj_on_subset)
  moreover have "jb_attempt j \<le> 2" "length (job_posts (jb_job j) ?s) \<le> jb_attempt j" "\<forall>p \<in> set (job_posts (jb_job j) ?s). \<not> accepted p"
    using fired.IH fired.hyps(2) unfolding hooks_ok_def same by fastforce+
  ultimately show ?case using new by (intro hooks_ok_attempt [OF _ deliver_effect])
next
  case (other s s')
  show ?case by (rule hooks_ok_same [OF other.IH other.hyps(2,3)])
qed

text \<open>
  C23: Over any history a delivery is sent at most three times and never after it was accepted, and every request goes to
  an address that the guard on outbound requests had let through for its URL.
\<close>

theorem deliveries_bounded:
  assumes "hook_run env s"
  shows "length (job_posts k s) \<le> MAX_ATTEMPTS \<and> list_all (\<lambda>p. \<not> accepted p) (butlast (job_posts k s)) \<and> list_all (guarded env) (job_posts k s)"
  using hook_run_ok [OF assms] by (auto simp: hooks_ok_def MAX_ATTEMPTS_def list_all_iff job_posts_def)

text \<open>A subscriber that answers 500 and then 200.\<close>

definition demo_env :: hook_env where
  "demo_env = \<lparr>he_resolver = (\<lambda>_. \<lparr>rs_parse = (\<lambda>_. Some (''https:'', ''a.example'')), rs_v4 = (\<lambda>_. Inr []), rs_v6 = (\<lambda>_. Inr [''2600::1'']), rs_lookup = (\<lambda>_. Inr [])\<rparr>),
     he_cidrs = [], he_stringify = (\<lambda>_. ''{}''), he_hmac = (\<lambda>k m. if k = ''old'' then ''aa01'' else ''bb02''), he_encrypt = Inr, he_decrypt = Inr, he_uuid = show_nat,
     he_overlap_hours = 24\<rparr>"

definition demo_hook :: hook where
  "demo_hook = \<lparr>hk_id = ''h'', hk_user = ''u'', hk_url = ''https://a.example/'', hk_secret = ''old'', hk_events = [''payment.sent''], hk_active = True,
     hk_created = 0, hk_previous = None, hk_previous_expires = None\<rparr>"

definition demo_start :: hook_state where
  "demo_start = \<lparr>hs_hooks = [demo_hook], hs_log = [], hs_now = 0, hs_faults = [], hs_answers = [Inr 500, Inr 200], hs_posts = [], hs_timers = []\<rparr>"

definition demo_job :: delivery_job where
  "demo_job = \<lparr>jb_job = 0, jb_hook = Some ''h'', jb_url = ''https://a.example/'', jb_secrets = [''old''], jb_payload = JObj [(''event'', JStr ''payment.sent'')], jb_attempt = 0\<rparr>"

definition demo_first :: hook_state where
  "demo_first = snd (deliverWithRetry demo_env demo_job demo_start)"

definition demo_second :: hook_state where
  "demo_second = (let s = demo_first\<lparr>hs_now := 1000\<rparr>; j = demo_job\<lparr>jb_attempt := 1\<rparr> in
     snd (deliverWithRetry demo_env j (s\<lparr>hs_timers := remove1 (1000, j) (hs_timers s)\<rparr>)))"

lemma demo_values: "hs_timers demo_first = [(1000, demo_job\<lparr>jb_attempt := 1\<rparr>)]" "map pt_answer (job_posts 0 demo_second) = [Inr 500, Inr 200]"
  "map dv_status (hs_log demo_second) = [''failed'', ''delivered'']"
  by code_simp+

lemma demo_run: "hook_run demo_env demo_second"
proof -
  have "hook_run demo_env demo_first" unfolding demo_first_def
    by (rule hook_run.delivered [OF hook_run.started]) (simp_all add: demo_start_def demo_job_def fresh_job_def job_posts_def)
  then have "hook_run demo_env (demo_first\<lparr>hs_now := 1000\<rparr>)" by (rule hook_run.other) simp_all
  then show ?thesis unfolding demo_second_def Let_def
    by (rule hook_run.fired) (simp_all add: demo_values(1))
qed

lemma deliveries_bounded_witness:
  "map pt_answer (job_posts 0 demo_second) = [Inr 500, Inr 200] \<and> length (job_posts 0 demo_second) \<le> MAX_ATTEMPTS \<and>
   list_all (\<lambda>p. \<not> accepted p) (butlast (job_posts 0 demo_second)) \<and> list_all (guarded demo_env) (job_posts 0 demo_second)"
  using deliveries_bounded [OF demo_run, of 0] demo_values(2) by simp

lemma signature_accepted_witness:
  "verifySignature demo_env ''{}'' (buildSignatureHeader demo_env [''new'', ''old''] ''{}'') [''old''] \<longleftrightarrow>
    ''old'' \<noteq> [] \<and> (\<exists>s \<in> set [''new'', ''old'']. s \<noteq> [] \<and> hex_bytes (he_hmac demo_env s ''{}'') = hex_bytes (he_hmac demo_env ''old'' ''{}''))"
proof -
  have "hex_text (he_hmac demo_env s ''{}'')" for s
  proof -
    have "hex_text ''aa01''" "hex_text ''bb02''" by (simp_all add: hex_text_def radix_digit_def lower_char_def Let_def)
    moreover have "he_hmac demo_env s ''{}'' = (if s = ''old'' then ''aa01'' else ''bb02'')" by (simp add: demo_env_def)
    ultimately show ?thesis by presburger
  qed
  then show ?thesis by (rule signature_accepted)
qed

section \<open>Rotation and ownership\<close>

text \<open>After a rotation the old secret signs for the hours of the overlap, the new one from the start.\<close>

lemma rotation_overlap:
  assumes "he_decrypt env sealed = Inr new" and "he_decrypt env (hk_secret h) = Inr old" and "hk_secret h \<noteq> []"
  shows "activeSecrets env t' (rotated t (he_overlap_hours env) sealed (hk_secret h) h) =
    Inr (if t' < t + he_overlap_hours env * 3600000 then [new, old] else [new])"
  using assms by (simp add: activeSecrets_def rotated_def)

text \<open>A user changes only the own subscriptions.\<close>

definition others :: "string \<Rightarrow> hook list \<Rightarrow> hook list" where
  "others uid hs = filter (\<lambda>h. hk_user h \<noteq> uid) hs"

lemma find_hook_id: "find_hook i s = Some h \<Longrightarrow> h \<in> set (hs_hooks s) \<and> hk_id h = i"
  unfolding find_hook_def by (drule find_SomeD) simp

lemma others_update:
  assumes "\<And>h. h \<in> set hs \<Longrightarrow> p h \<Longrightarrow> hk_user h = uid" "\<And>h. hk_user (f h) = hk_user h"
  shows "others uid (update_where p f hs) = others uid hs"
  using assms(1) by (induction hs) (auto simp: others_def update_where_def assms(2))

lemma owned_hook_id: "owned_hook uid i s = Some h \<Longrightarrow> h \<in> set (hs_hooks s) \<and> hk_id h = i \<and> hk_user h = uid"
  using find_hook_id by (auto simp: owned_hook_def split: option.splits if_splits)

abbreviation "others_kept uid A \<equiv> (\<lambda>s. others uid (hs_hooks s) = A \<and> distinct (map hk_id (hs_hooks s)))"

lemma keeps_hook_query [keep]: "(\<And>s f. I (s\<lparr>hs_faults := f\<rparr>) = I s) \<Longrightarrow> keeps I hook_query"
  by (simp add: hook_query_def keeps_def)

lemma keeps_hook_select: "(\<And>s f. I (s\<lparr>hs_faults := f\<rparr>) = I s) \<Longrightarrow> keeps I (hook_select f)"
  unfolding hook_select_def by (intro keep) auto

lemma ids_update: "(\<And>h. hk_id (f h) = hk_id h) \<Longrightarrow> map hk_id (update_where p f hs) = map hk_id hs"
  by (induction hs) (auto simp: update_where_def)

lemma wp_hook_query: "wp hook_query Q E s = (if hs_faults s \<noteq> [] \<and> hd (hs_faults s)
    then E (mkError ''Connection terminated unexpectedly'') (s\<lparr>hs_faults := tl (hs_faults s)\<rparr>) else Q () (s\<lparr>hs_faults := tl (hs_faults s)\<rparr>))"
  by (simp add: wp_def hook_query_def)

lemma others_patched: "others uid (update_where (\<lambda>h. hk_id h = i \<and> hk_user h = uid) (patched url events active) hs) = others uid hs"
  by (rule others_update) (simp_all add: patched_def)

lemma update_keeps_others: "keeps (others_kept uid A) (updateHook env uid i url events active)"
  unfolding updateHook_def validateWebhookUrl_def hook_exec_def
  by (intro keep keeps_hook_select keeps_modify) (simp_all add: others_patched ids_update patched_def)

lemma rotate_keeps_others:
  assumes "others_kept uid A s"
  shows "others_kept uid A (snd (rotateSecret env secret uid i s))"
proof (cases "owned_hook uid i s")
  case None
  then have "wp (rotateSecret env secret uid i) (\<lambda>_. others_kept uid A) (\<lambda>_. others_kept uid A) s"
    using assms by (simp add: rotateSecret_def hook_select_def wps wp_hook_query owned_hook_def find_hook_def)
  then show ?thesis by (simp only: wp_snd)
next
  case (Some h)
  have own: "hk_user g = uid" if "g \<in> set (hs_hooks s)" "hk_id g = i" for g
    using owned_hook_id [OF Some] that assms by (metis distinct_map inj_on_eq_iff)
  have up: "others uid (update_where (\<lambda>h. hk_id h = i) (rotated t n x y) (hs_hooks s)) = A" for t n x y
    using assms others_update [of "hs_hooks s" "\<lambda>h. hk_id h = i" uid "rotated t n x y"] own by (simp add: rotated_def)
  have ids: "map hk_id (update_where (\<lambda>h. hk_id h = i) (rotated t n x y) (hs_hooks s)) = map hk_id (hs_hooks s)" for t n x y
    by (rule ids_update) (simp add: rotated_def)
  have "owned_hook uid i (s\<lparr>hs_faults := f\<rparr>) = Some h" for f
    using Some by (simp add: owned_hook_def find_hook_def)
  then have "wp (rotateSecret env secret uid i) (\<lambda>_. others_kept uid A) (\<lambda>_. others_kept uid A) s"
    using assms by (cases "he_encrypt env secret") (simp_all add: rotateSecret_def hook_select_def hook_exec_def wps wp_hook_query up ids Let_def)
  then show ?thesis by (simp only: wp_snd)
qed

text \<open>Nothing is ever delivered: the query of \<open>deliver\<close> fails for every event.\<close>

lemma deliver_always_fails: "\<exists>e. deliver event data s = (Inl e, s)"
  by (auto simp: deliver_def throw_def)

end
