(* ===== verification/Horizon.thy ===== *)
theory Horizon
  imports Retry Assets
begin

text \<open>
  The client of the Stellar network (\<^verbatim>\<open>services/stellar.js\<close>, \<^verbatim>\<open>utils/horizonSchemas.js\<close>): the answers of a Horizon
  server and their schemas, the fallback server with its monitor, and the retries of a call. The two servers and
  the network behind them are the record \<open>stellar_net\<close>, over any state \<open>'l\<close> of the network: a server is asked a
  \<open>request\<close>, answers with JSON or an error, and the network moves on. A transaction is what the code hands to the
  builder of the SDK: the account as it was loaded, the fee, the operations and the memo.
\<close>

section \<open>Transactions\<close>

datatype memo = MemoText string | MemoId string | MemoHash string | MemoReturn string

datatype predicate = BeforeAbsoluteTime string | PredNot predicate

datatype stellar_op =
    Payment string asset string
  | CreateClaimableBalance asset string "(string \<times> predicate) list"
  | BumpSequence string
  | PathStrictSend asset string string asset string "asset list"
  | PathStrictReceive asset string string asset string "asset list"
  | ChangeTrust asset "string option"
  | SetSigner string nat "(nat \<times> nat \<times> nat) option"
  | ClearInflation
  | AccountMerge string
  | Clawback asset string string
  | SetFlags "jsnum option" "jsnum option"
  | ManageData string "string option"

text \<open>\<open>tx_copied\<close>: the account went through a schema, so it is a plain copy of what the SDK loaded.\<close>

record tx =
  tx_account :: json
  tx_copied :: bool
  tx_fee :: jsnum
  tx_ops :: "stellar_op list"
  tx_memo :: "memo option"
  tx_key :: string
  tx_built :: int

datatype request = LoadAccount string | BaseFee | FeeStats | Submit tx | Effects string
  | SendPaths asset string asset | ReceivePaths asset asset string | LatestLedger | AccountTransactions string nat
  | AccountPayments string nat "string option"

record 'l stellar_net =
  sn_ask :: "bool \<Rightarrow> request \<Rightarrow> 'l \<Rightarrow> (jserr + json) \<times> 'l"
  sn_now :: "'l \<Rightarrow> int"
  sn_wait :: "int \<Rightarrow> 'l \<Rightarrow> 'l"
  sn_build :: "tx \<Rightarrow> jserr option"
  sn_decrypt :: "string \<Rightarrow> jserr + string"
  sn_issuer :: "string \<Rightarrow> string option"
  sn_fallback :: bool
  sn_jitter :: nat
  sn_parse_date :: "string \<Rightarrow> int option"
  sn_threshold :: int
  sn_repeat :: int

text \<open>What the module keeps: \<open>fallbackActivatedAt\<close>, \<open>lastFallbackAlertAt\<close>, and the alerts logged.\<close>

record 'l client =
  cl_net :: 'l
  cl_fallback :: "int option"
  cl_alerted :: "int option"
  cl_alerts :: "int list"

type_synonym ('l, 'a) call = "('l client, 'a) proc"

definition clock :: "'l stellar_net \<Rightarrow> ('l, int) call" where
  "clock env = gets (\<lambda>c. sn_now env (cl_net c))"

definition ask :: "'l stellar_net \<Rightarrow> bool \<Rightarrow> request \<Rightarrow> ('l, json) call" where
  "ask env fb q = (\<lambda>c. case sn_ask env fb q (cl_net c) of (r, l) \<Rightarrow> (r, c\<lparr>cl_net := l\<rparr>))"

section \<open>Errors\<close>

text \<open>The fields of an error object; \<open>response\<close> is what Horizon answered.\<close>

definition err_field :: "jserr \<Rightarrow> string \<Rightarrow> json option" where
  "err_field e k = map_of (err_payload e) k"

definition response_status :: "jserr \<Rightarrow> nat option" where
  "response_status e = (case field (err_field e ''response'') ''status'' of Some (JNum (Fin x)) \<Rightarrow> Some (nat \<lfloor>x\<rfloor>) | _ \<Rightarrow> None)"

definition result_code :: "jserr \<Rightarrow> string option" where
  "result_code e = json_string (field (field (field (field (err_field e ''response'') ''data'') ''extras'') ''result_codes'') ''transaction'')"

definition contains_text :: "string \<Rightarrow> string \<Rightarrow> bool" where
  "contains_text s p = list_ex (\<lambda>n. take (length p) (drop n s) = p) [0..<Suc (length s)]"

definition networkCodes :: "string list" where
  "networkCodes = [''ECONNREFUSED'', ''ENOTFOUND'', ''ETIMEDOUT'', ''ECONNRESET'', ''ECONNABORTED'']"

definition isNetworkError :: "jserr \<Rightarrow> bool" where
  "isNetworkError e = (if truthy (err_field e ''response'') then False
     else if (case err_code e of Some c \<Rightarrow> c \<in> set networkCodes | None \<Rightarrow> False) then True
     else err_name e = ''NetworkError'' \<or> contains_text (toLowerCase (err_message e)) ''network'')"

definition isBadSeq :: "jserr \<Rightarrow> bool" where
  "isBadSeq e \<longleftrightarrow> result_code e = Some ''tx_bad_seq''"

text \<open>The error as \<^verbatim>\<open>utils/retry.js\<close> reads it.\<close>

definition call_err_of :: "jserr \<Rightarrow> call_err" where
  "call_err_of e = \<lparr>ce_status = err_status e, ce_response_status = response_status e, ce_tx_code = result_code e,
     ce_retry_after = json_string (field (field (err_field e ''response'') ''headers'') ''retry-after'')\<rparr>"

section \<open>Schemas\<close>

definition numeric_string :: "string \<Rightarrow> bool" where
  "numeric_string s = (let ds = takeWhile is_digit s; r = dropWhile is_digit s in
     ds \<noteq> [] \<and> (r = [] \<or> hd r = CHR ''.'' \<and> tl r \<noteq> [] \<and> list_all is_digit (tl r)))"

definition is_str :: "json option \<Rightarrow> bool" where
  "is_str v = (case v of Some (JStr _) \<Rightarrow> True | _ \<Rightarrow> False)"

definition optional :: "(json option \<Rightarrow> bool) \<Rightarrow> json option \<Rightarrow> bool" where
  "optional p v \<longleftrightarrow> v = None \<or> p v"

definition NumericStringSchema :: "json option \<Rightarrow> bool" where
  "NumericStringSchema v = (case v of Some (JStr s) \<Rightarrow> numeric_string s | _ \<Rightarrow> False)"

definition nonempty_str :: "json option \<Rightarrow> bool" where
  "nonempty_str v = (case v of Some (JStr s) \<Rightarrow> s \<noteq> [] | _ \<Rightarrow> False)"

definition asset_type_ok :: "json option \<Rightarrow> bool" where
  "asset_type_ok v = (case v of Some (JStr s) \<Rightarrow> s \<in> {''native'', ''credit_alphanum4'', ''credit_alphanum12''} | _ \<Rightarrow> False)"

definition is_obj :: "json option \<Rightarrow> bool" where
  "is_obj v = (case v of Some (JObj _) \<Rightarrow> True | _ \<Rightarrow> False)"

definition arr_of :: "(json option \<Rightarrow> bool) \<Rightarrow> json option \<Rightarrow> bool" where
  "arr_of p v = (case v of Some (JArr xs) \<Rightarrow> list_all (\<lambda>x. p (Some x)) xs | _ \<Rightarrow> False)"

definition BalanceEntrySchema :: "json option \<Rightarrow> bool" where
  "BalanceEntrySchema v \<longleftrightarrow> is_obj v \<and> asset_type_ok (field v ''asset_type'') \<and> NumericStringSchema (field v ''balance'') \<and>
     optional is_str (field v ''asset_code'') \<and> optional is_str (field v ''asset_issuer'') \<and> optional NumericStringSchema (field v ''limit'')"

definition AccountResponseSchema :: "json option \<Rightarrow> bool" where
  "AccountResponseSchema v \<longleftrightarrow> is_obj v \<and> nonempty_str (field v ''id'') \<and> arr_of BalanceEntrySchema (field v ''balances'') \<and>
     optional is_str (field v ''sequence'')"

definition TxHashSchema :: "json option \<Rightarrow> bool" where
  "TxHashSchema v = (case v of Some (JStr s) \<Rightarrow> length s = 64 \<and> list_all (\<lambda>c. is_digit c \<or> c \<in> set ''abcdef'') s | _ \<Rightarrow> False)"

definition LedgerSchema :: "json option \<Rightarrow> bool" where
  "LedgerSchema v = (case v of Some (JNum (Fin x)) \<Rightarrow> of_int \<lfloor>x\<rfloor> = x \<and> 0 < x | _ \<Rightarrow> False)"

definition TransactionSubmitResponseSchema :: "json option \<Rightarrow> bool" where
  "TransactionSubmitResponseSchema v \<longleftrightarrow> is_obj v \<and> TxHashSchema (field v ''hash'') \<and> LedgerSchema (field v ''ledger'')"

definition is_bool :: "json option \<Rightarrow> bool" where
  "is_bool v = (case v of Some (JBool _) \<Rightarrow> True | _ \<Rightarrow> False)"

definition TransactionRecordSchema :: "json option \<Rightarrow> bool" where
  "TransactionRecordSchema v \<longleftrightarrow> is_obj v \<and> nonempty_str (field v ''id'') \<and> TxHashSchema (field v ''hash'') \<and>
     nonempty_str (field v ''created_at'') \<and> is_bool (field v ''successful'') \<and> optional is_str (field v ''memo'')"

definition TransactionPageSchema :: "json option \<Rightarrow> bool" where
  "TransactionPageSchema v \<longleftrightarrow> is_obj v \<and> arr_of TransactionRecordSchema (field v ''records'')"

definition PathAssetSchema :: "json option \<Rightarrow> bool" where
  "PathAssetSchema v \<longleftrightarrow> is_obj v \<and> asset_type_ok (field v ''asset_type'') \<and> optional is_str (field v ''asset_code'') \<and>
     optional is_str (field v ''asset_issuer'')"

definition PathRecordSchema :: "json option \<Rightarrow> bool" where
  "PathRecordSchema v \<longleftrightarrow> is_obj v \<and> NumericStringSchema (field v ''destination_amount'') \<and> arr_of PathAssetSchema (field v ''path'')"

definition PathPageSchema :: "json option \<Rightarrow> bool" where
  "PathPageSchema v \<longleftrightarrow> is_obj v \<and> arr_of PathRecordSchema (field v ''records'')"

text \<open>The message lists the issues; the model keeps its label.\<close>

definition validateHorizonResponse :: "(json option \<Rightarrow> bool) \<Rightarrow> string \<Rightarrow> json \<Rightarrow> jserr + json" where
  "validateHorizonResponse schema label v = (if schema (Some v) then Inr v
     else Inl \<lparr>err_name = ''HorizonValidationError'', err_message = ''Horizon response validation failed for '' @ label,
       err_status = Some 502, err_code = None, err_payload = []\<rparr>)"

section \<open>The fallback server\<close>

definition markFallbackActive :: "'l stellar_net \<Rightarrow> ('l, unit) call" where
  "markFallbackActive env = modify (\<lambda>c. if cl_fallback c = None then c\<lparr>cl_fallback := Some (sn_now env (cl_net c))\<rparr> else c)"

definition markPrimaryHealthy :: "('l, unit) call" where
  "markPrimaryHealthy = modify (\<lambda>c. c\<lparr>cl_fallback := None, cl_alerted := None\<rparr>)"

definition getFallbackDurationMs :: "'l stellar_net \<Rightarrow> 'l client \<Rightarrow> int" where
  "getFallbackDurationMs env c = (case cl_fallback c of Some t \<Rightarrow> sn_now env (cl_net c) - t | None \<Rightarrow> 0)"

definition getHorizonEndpointStatus :: "'l stellar_net \<Rightarrow> 'l client \<Rightarrow> json" where
  "getHorizonEndpointStatus env c = JObj [(''node'', JStr (if cl_fallback c = None then ''primary'' else ''fallback'')),
     (''fallbackConfigured'', JBool (sn_fallback env)), (''fallbackActiveDurationMs'', JNum (Fin (of_int (getFallbackDurationMs env c)))),
     (''fallbackActivatedAt'', case cl_fallback c of Some t \<Rightarrow> JStr (toISOString t) | None \<Rightarrow> JNull),
     (''alertThresholdMs'', JNum (Fin (of_int (sn_threshold env)))), (''alertExceeded'', JBool (sn_threshold env < getFallbackDurationMs env c))]"

text \<open>Alerts when the fallback has been in use for longer than the threshold, and not again before \<open>sn_repeat\<close>.\<close>

definition checkFallbackDuration :: "'l stellar_net \<Rightarrow> ('l, bool) call" where
  "checkFallbackDuration env = (\<lambda>c.
     let t = sn_now env (cl_net c) in
     if cl_fallback c = None then (Inr False, c)
     else if getFallbackDurationMs env c \<le> sn_threshold env then (Inr False, c)
     else if (case cl_alerted c of Some a \<Rightarrow> t - a < sn_repeat env | None \<Rightarrow> False) then (Inr False, c)
     else (Inr True, c\<lparr>cl_alerted := Some t, cl_alerts := cl_alerts c @ [t]\<rparr>))"

definition bothDown :: "jserr \<Rightarrow> jserr \<Rightarrow> jserr" where
  "bothDown p f = mkError (''Both Horizon nodes are unavailable. Primary: '' @ err_message p @ ''. Fallback: '' @ err_message f)"

definition withFallback :: "'l stellar_net \<Rightarrow> (bool \<Rightarrow> ('l, 'a) call) \<Rightarrow> ('l, 'a) call" where
  "withFallback env fn = catch (bnd (fn False) (\<lambda>r. andThen markPrimaryHealthy (ret r)))
     (\<lambda>primaryErr. if \<not> isNetworkError primaryErr \<or> \<not> sn_fallback env then throw primaryErr
        else catch (bnd (fn True) (\<lambda>r. andThen (markFallbackActive env) (andThen (checkFallbackDuration env) (ret r))))
          (\<lambda>fallbackErr. throw (bothDown primaryErr fallbackErr)))"

definition horizon :: "'l stellar_net \<Rightarrow> request \<Rightarrow> ('l, json) call" where
  "horizon env q = withFallback env (\<lambda>fb. ask env fb q)"

section \<open>Retries of a stateful call\<close>

text \<open>\<open>setTimeout\<close> rounds a delay it cannot keep to one millisecond.\<close>

definition timeout_ms :: "jsnum \<Rightarrow> int" where
  "timeout_ms d = (case d of Fin x \<Rightarrow> if 1 \<le> \<lfloor>x\<rfloor> \<and> \<lfloor>x\<rfloor> \<le> 2147483647 then \<lfloor>x\<rfloor> else 1 | _ \<Rightarrow> 1)"

definition sleep :: "'l stellar_net \<Rightarrow> jsnum \<Rightarrow> ('l, unit) call" where
  "sleep env d = modify (\<lambda>c. c\<lparr>cl_net := sn_wait env (timeout_ms d) (cl_net c)\<rparr>)"

definition retry_delay_of :: "'l stellar_net \<Rightarrow> nat \<Rightarrow> nat \<Rightarrow> int \<Rightarrow> jserr \<Rightarrow> jsnum" where
  "retry_delay_of env baseDelay attempt t e = retry_delay \<lparr>rt_jitter = (\<lambda>_. sn_jitter env), rt_clock = (\<lambda>_. t), rt_parse_date = sn_parse_date env\<rparr>
     baseDelay attempt (call_err_of e)"

primrec retrying :: "'l stellar_net \<Rightarrow> nat \<Rightarrow> ('l, 'a) call \<Rightarrow> nat \<Rightarrow> nat \<Rightarrow> ('l, 'a) call" where
  "retrying env baseDelay fn attempt 0 = fn"
| "retrying env baseDelay fn attempt (Suc left) = catch fn (\<lambda>e.
     if \<not> isRetryable (call_err_of e) then throw e
     else bnd (clock env) (\<lambda>t. andThen (sleep env (retry_delay_of env baseDelay (Suc attempt) t e)) (retrying env baseDelay fn (Suc attempt) left)))"

definition backing_off :: "'l stellar_net \<Rightarrow> ('l, 'a) call \<Rightarrow> ('l, 'a) call" where
  "backing_off env fn = retrying env 500 fn 0 3"

definition with_retry :: "'l stellar_net \<Rightarrow> nat \<Rightarrow> ('l, 'a) call \<Rightarrow> ('l, 'a) call" where
  "with_retry env maxAttempts fn = retrying env 1000 fn 0 (maxAttempts - 1)"

section \<open>Rules of the calls\<close>

lemma wp_clock [wps]: "wp (clock env) Q E = (\<lambda>c. Q (sn_now env (cl_net c)) c)"
  by (simp add: clock_def wps)

lemma wp_ask [wps]: "wp (ask env fb q) Q E c = (case sn_ask env fb q (cl_net c) of
    (Inr v, l) \<Rightarrow> Q v (c\<lparr>cl_net := l\<rparr>) | (Inl e, l) \<Rightarrow> E e (c\<lparr>cl_net := l\<rparr>))"
  by (simp add: wp_def ask_def split: prod.split sum.split)

lemma wp_sleep [wps]: "wp (sleep env d) Q E = (\<lambda>c. Q () (c\<lparr>cl_net := sn_wait env (timeout_ms d) (cl_net c)\<rparr>))"
  by (simp add: sleep_def wps)

lemma checkFallbackDuration_net: "cl_net (snd (checkFallbackDuration env c)) = cl_net c"
  by (simp add: checkFallbackDuration_def Let_def)

lemma checkFallbackDuration_returns: "\<exists>b. fst (checkFallbackDuration env c) = Inr b"
  by (auto simp: checkFallbackDuration_def Let_def)

lemma wp_checkFallbackDuration:
  "(\<And>b c'. cl_net c' = cl_net c \<Longrightarrow> Q b c') \<Longrightarrow> wp (checkFallbackDuration env) Q E c"
  using checkFallbackDuration_net [of env c] checkFallbackDuration_returns [of env c]
  by (auto simp: wp_def split: prod.split)

text \<open>A claim about the network behind the client, for the server that answers.\<close>

lemma wp_withFallback:
  assumes "wp (fn False) (\<lambda>r c. Q r (cl_net c)) (\<lambda>e c. E e (cl_net c)) c"
    and "\<And>e c. E e (cl_net c) \<Longrightarrow> wp (fn True) (\<lambda>r c. Q r (cl_net c)) (\<lambda>e' c. E (bothDown e e') (cl_net c)) c"
  shows "wp (withFallback env fn) (\<lambda>r c. Q r (cl_net c)) (\<lambda>e c. E e (cl_net c)) c"
  unfolding withFallback_def
  apply (simp only: wps markPrimaryHealthy_def markFallbackActive_def)
  apply (rule wp_mono [OF assms(1)])
   apply simp
  apply clarsimp
  apply (rule wp_mono [OF assms(2)])
    apply assumption
   apply (auto intro!: wp_checkFallbackDuration)
  done

lemma keeps_withFallback:
  assumes "\<And>fb. keeps (\<lambda>c. I (cl_net c)) (fn fb)"
  shows "keeps (\<lambda>c. I (cl_net c)) (withFallback env fn)"
  using assms unfolding keeps_wp by (auto intro!: wp_withFallback)

lemma keeps_ask:
  assumes "\<And>fb l. I l \<Longrightarrow> I (snd (sn_ask env fb q l))"
  shows "keeps (\<lambda>c. I (cl_net c)) (ask env fb q)"
  using assms by (auto simp: keeps_def ask_def split: prod.split) (metis snd_conv)

lemma keeps_horizon:
  assumes "\<And>fb l. I l \<Longrightarrow> I (snd (sn_ask env fb q l))"
  shows "keeps (\<lambda>c. I (cl_net c)) (horizon env q)"
  unfolding horizon_def by (intro keeps_withFallback keeps_ask assms)

text \<open>Each attempt starts where the invariant holds, and an error leaves it so.\<close>

lemma wp_retrying:
  assumes "\<And>c. I c \<Longrightarrow> wp fn Q (\<lambda>e c. E e c \<and> I c) c" "\<And>c d. I c \<Longrightarrow> I (c\<lparr>cl_net := sn_wait env d (cl_net c)\<rparr>)" "I c"
  shows "wp (retrying env base fn attempt left) Q (\<lambda>e c. E e c \<and> I c) c"
  using assms(3)
proof (induction left arbitrary: attempt c)
  case 0
  then show ?case using assms(1) by simp
next
  case (Suc left)
  show ?case unfolding retrying.simps wps
    by (rule wp_mono [OF assms(1) [OF Suc.prems]]) (auto simp: wps intro: assms(2) Suc.IH)
qed

lemmas wp_backing_off = wp_retrying [where base = 500 and attempt = 0 and left = 3, folded backing_off_def]

lemma wp_with_retry:
  assumes "\<And>c. I c \<Longrightarrow> wp fn Q (\<lambda>e c. E e c \<and> I c) c" "\<And>c d. I c \<Longrightarrow> I (c\<lparr>cl_net := sn_wait env d (cl_net c)\<rparr>)" "I c"
  shows "wp (with_retry env n fn) Q (\<lambda>e c. E e c \<and> I c) c"
  unfolding with_retry_def by (rule wp_retrying [OF assms])

lemma keeps_retrying:
  assumes "keeps I fn" "\<And>c d. I c \<Longrightarrow> I (c\<lparr>cl_net := sn_wait env d (cl_net c)\<rparr>)"
  shows "keeps I (retrying env base fn attempt left)"
  using assms(1) unfolding keeps_wp
  by (auto intro!: wp_retrying [where E = "\<lambda>_ _. True", simplified] assms(2))

section \<open>The monitor\<close>

text \<open>A life of the module: calls of Horizon, checks of the timer, and the world moving on; the clock does not run back.\<close>

definition clock_forward :: "'l stellar_net \<Rightarrow> bool" where
  "clock_forward env \<longleftrightarrow> (\<forall>fb q l. sn_now env l \<le> sn_now env (snd (sn_ask env fb q l)))"

inductive monitor_run :: "'l stellar_net \<Rightarrow> 'l client \<Rightarrow> bool" for env where
  started: "monitor_run env \<lparr>cl_net = l, cl_fallback = None, cl_alerted = None, cl_alerts = []\<rparr>"
| asked: "monitor_run env c \<Longrightarrow> monitor_run env (snd (horizon env q c))"
| checked: "monitor_run env c \<Longrightarrow> monitor_run env (snd (checkFallbackDuration env c))"
| moved: "monitor_run env c \<Longrightarrow> sn_now env (cl_net c) \<le> sn_now env l \<Longrightarrow> monitor_run env (c\<lparr>cl_net := l\<rparr>)"

text \<open>Every alert so far is at least \<open>d\<close> before the next, and known or older than the fallback in use.\<close>

definition monitor_ok :: "'l stellar_net \<Rightarrow> 'l client \<Rightarrow> bool" where
  "monitor_ok env c \<longleftrightarrow> sorted_wrt (\<lambda>x y. x + min (sn_threshold env) (sn_repeat env) \<le> y) (cl_alerts c) \<and>
     (\<forall>x\<in>set (cl_alerts c). x \<le> sn_now env (cl_net c)) \<and>
     (case cl_alerted c of Some t \<Rightarrow> \<forall>x\<in>set (cl_alerts c). x \<le> t
        | None \<Rightarrow> (case cl_fallback c of Some t \<Rightarrow> \<forall>x\<in>set (cl_alerts c). x \<le> t | None \<Rightarrow> True))"

lemma monitor_ok_healthy: "monitor_ok env c \<Longrightarrow> monitor_ok env (c\<lparr>cl_fallback := None, cl_alerted := None\<rparr>)"
  by (simp add: monitor_ok_def)

lemma monitor_ok_active:
  "monitor_ok env c \<Longrightarrow> cl_fallback c = None \<Longrightarrow> monitor_ok env (c\<lparr>cl_fallback := Some (sn_now env (cl_net c))\<rparr>)"
  by (auto simp: monitor_ok_def split: option.splits)

lemma monitor_ok_moved: "monitor_ok env c \<Longrightarrow> sn_now env (cl_net c) \<le> sn_now env l \<Longrightarrow> monitor_ok env (c\<lparr>cl_net := l\<rparr>)"
  by (auto simp: monitor_ok_def split: option.splits intro: order_trans)

lemma monitor_ok_check: "monitor_ok env c \<Longrightarrow> monitor_ok env (snd (checkFallbackDuration env c))"
  by (fastforce simp: checkFallbackDuration_def Let_def monitor_ok_def getFallbackDurationMs_def sorted_wrt_append split: option.splits)

lemma keeps_monitor_horizon: "clock_forward env \<Longrightarrow> keeps (monitor_ok env) (horizon env q)"
  unfolding horizon_def withFallback_def markPrimaryHealthy_def markFallbackActive_def
  by (intro keep keeps_modify)
    (auto simp: keeps_def ask_def clock_forward_def intro!: monitor_ok_healthy monitor_ok_active monitor_ok_check
       monitor_ok_moved split: prod.split, (metis snd_conv)+)

lemma monitor_run_ok: "monitor_run env c \<Longrightarrow> clock_forward env \<Longrightarrow> monitor_ok env c"
proof (induction rule: monitor_run.induct)
  case (asked c q)
  then show ?case using keeps_monitor_horizon [of env q] by (simp add: keeps_def)
qed (auto intro: monitor_ok_check monitor_ok_moved, simp add: monitor_ok_def)

text \<open>
  C32: The alerts of a fallback in use are spaced: over any sequence of calls, checks and pauses each comes at least the
  threshold or the repeat interval after the one before, whichever is less.
\<close>

theorem alerts_spaced:
  assumes "monitor_run env c" "clock_forward env"
  shows "sorted_wrt (\<lambda>x y. x + min (sn_threshold env) (sn_repeat env) \<le> y) (cl_alerts c)"
  using monitor_run_ok [OF assms] by (simp add: monitor_ok_def)

text \<open>A primary server that is down, a fallback that answers, and a clock.\<close>

definition degraded_net :: "int stellar_net" where
  "degraded_net = \<lparr>sn_ask = (\<lambda>fb _ t. (if fb then Inr JNull else Inl ((mkError ''refused'')\<lparr>err_code := Some ''ECONNREFUSED''\<rparr>), t)),
     sn_now = id, sn_wait = (\<lambda>d t. t + d), sn_build = (\<lambda>_. None), sn_decrypt = Inr, sn_issuer = (\<lambda>_. None), sn_fallback = True,
     sn_jitter = 0, sn_parse_date = (\<lambda>_. None), sn_threshold = 900000, sn_repeat = 900000\<rparr>"

definition degraded_start :: "int client" where
  "degraded_start = \<lparr>cl_net = 0, cl_fallback = None, cl_alerted = None, cl_alerts = []\<rparr>"

definition degraded_run :: "int client" where
  "degraded_run = (let c = (snd (horizon degraded_net BaseFee (degraded_start\<lparr>cl_net := 5\<rparr>)))\<lparr>cl_net := 900006\<rparr>;
     c = (snd (checkFallbackDuration degraded_net c))\<lparr>cl_net := 1800005\<rparr>;
     c = (snd (checkFallbackDuration degraded_net c))\<lparr>cl_net := 1800006\<rparr>
     in snd (checkFallbackDuration degraded_net c))"

lemma degraded_clock: "sn_now degraded_net = id"
  by (simp add: degraded_net_def)

lemma degraded_values: "cl_alerts degraded_run = [900006, 1800006]" "cl_net (snd (horizon degraded_net BaseFee (degraded_start\<lparr>cl_net := 5\<rparr>))) = 5"
  by code_simp+

lemma degraded_reached: "monitor_run degraded_net degraded_run"
  unfolding degraded_run_def Let_def degraded_start_def
  by (intro monitor_run.intros)
    (simp_all add: degraded_values(2) [unfolded degraded_start_def, simplified] checkFallbackDuration_net degraded_clock)

lemma alerts_spaced_witness: "cl_alerts degraded_run = [900006, 1800006] \<and> sorted_wrt (\<lambda>x y. x + 900000 \<le> y) (cl_alerts degraded_run)"
  using alerts_spaced [OF degraded_reached] degraded_values(1) by (simp add: clock_forward_def degraded_net_def)

end
