(* ===== verification/Payments.thy ===== *)
theory Payments
  imports Horizon "HOL-Library.Word"
begin

text \<open>
  Sending money (\<^verbatim>\<open>services/stellar.js\<close>): memos, trustline checks, fees, single, batch and path payments, and the
  claimable balance that stands in for a payment the network refuses. \<open>enqueue\<close> of \<^verbatim>\<open>utils/txQueue.js\<close>, which
  runs the payments of a wallet one after another, is the theory \<open>TxQueue\<close>; here a payment runs alone.
\<close>

section \<open>Memos\<close>

text \<open>\<open>Buffer.byteLength(s, 'utf8')\<close> of 8-bit characters.\<close>

definition byte_length :: "string \<Rightarrow> nat" where
  "byte_length s = sum_list (map (\<lambda>c. if (of_char c :: nat) < 128 then 1 else 2) s)"

definition MEMO_ID_MAX :: int where "MEMO_ID_MAX = 2 ^ 64 - 1"

definition memoValidationError :: "string \<Rightarrow> jserr" where
  "memoValidationError m = withStatus 400 (mkError m)"

definition is_hex :: "char \<Rightarrow> bool" where
  "is_hex c \<longleftrightarrow> is_digit c \<or> c \<in> set ''abcdefABCDEF''"

definition strip_0x :: "string \<Rightarrow> string" where
  "strip_0x s = (if take 2 s = ''0x'' \<or> take 2 s = ''0X'' then drop 2 s else s)"

definition buildStellarMemo :: "string \<Rightarrow> string \<Rightarrow> jserr + memo option" where
  "buildStellarMemo m memoType =
     (if m = [] then Inr None
      else let type = toLowerCase (if memoType = [] then ''text'' else memoType) in
        if type = ''text'' then
          (if 28 < byte_length m then Inl (memoValidationError (''Text memo exceeds 28 bytes ('' @ show_nat (byte_length m) @
              '' bytes). Use memo_type=hash for longer memos like encrypted data.''))
           else Inr (Some (MemoText m)))
        else if type = ''id'' then
          (if \<not> list_all is_digit m then Inl (memoValidationError ''Memo ID must be a numeric string'')
           else if digits_val m < 0 \<or> MEMO_ID_MAX < digits_val m then Inl (memoValidationError ''Memo ID is out of range'')
           else Inr (Some (MemoId m)))
        else if type = ''hash'' \<or> type = ''return'' then
          (let hex = strip_0x m in
           if length hex \<noteq> 64 \<or> \<not> list_all is_hex hex then Inl (memoValidationError ''Memo hash must be exactly 64 hexadecimal characters'')
           else Inr (Some (if type = ''hash'' then MemoHash hex else MemoReturn hex)))
        else Inl (memoValidationError (''Unsupported memo type: '' @ memoType)))"

text \<open>\<open>memo ? buildStellarMemo(memo, memoType) : null\<close>.\<close>

definition memo_of :: "string option \<Rightarrow> string \<Rightarrow> jserr + memo option" where
  "memo_of m memoType = (case m of None \<Rightarrow> Inr None | Some s \<Rightarrow> buildStellarMemo s memoType)"

section \<open>Answers\<close>

definition get :: "json \<Rightarrow> string \<Rightarrow> json" where
  "get v k = (case field (Some v) k of Some x \<Rightarrow> x | None \<Rightarrow> JNull)"

definition load_account :: "'l stellar_net \<Rightarrow> string \<Rightarrow> ('l, json) call" where
  "load_account env pk = horizon env (LoadAccount pk)"

definition validated :: "(json option \<Rightarrow> bool) \<Rightarrow> string \<Rightarrow> ('l, json) call \<Rightarrow> ('l, json) call" where
  "validated schema label m = bnd m (\<lambda>raw. lift (validateHorizonResponse schema label raw))"

definition accountMissing :: jserr where
  "accountMissing = withStatus 400 (mkError ''Recipient account does not exist on the Stellar network.'')"

definition no_trustline :: "string \<Rightarrow> jserr" where
  "no_trustline code = withStatus 400 (mkError (''Recipient has no '' @ code @ '' trustline. They must add a trustline before receiving '' @ code @ ''.''))"

text \<open>\<open>balances.some(b => b.asset_code === code && b.asset_issuer === issuer)\<close>.\<close>

definition has_trustline :: "json \<Rightarrow> string \<times> string \<Rightarrow> jserr + bool" where
  "has_trustline acct a = (case field (Some acct) ''balances'' of
     Some (JArr bs) \<Rightarrow> Inr (list_ex (\<lambda>b. field (Some b) ''asset_code'' = Some (JStr (fst a)) \<and> field (Some b) ''asset_issuer'' = Some (JStr (snd a))) bs)
   | _ \<Rightarrow> Inl (typeError ''Cannot read properties of undefined''))"

definition missing_as_400 :: "jserr \<Rightarrow> jserr" where
  "missing_as_400 e = (if response_status e = Some 404 then accountMissing else e)"

definition require_trustline :: "json \<Rightarrow> asset \<Rightarrow> ('l, unit) call" where
  "require_trustline acct a = (case a of None \<Rightarrow> throw (no_trustline ''XLM'')
     | Some x \<Rightarrow> bnd (lift (has_trustline acct x)) (\<lambda>b. if b then ret () else throw (no_trustline (fst x))))"

text \<open>The account is loaded twice, the second time without its schema.\<close>

definition checkTrustline :: "'l stellar_net \<Rightarrow> string \<Rightarrow> asset \<Rightarrow> ('l, unit) call" where
  "checkTrustline env recipient a =
     bnd (catch (andThen (validated AccountResponseSchema ''loadAccount(recipient)'' (with_retry env 3 (load_account env recipient)))
            (with_retry env 3 (load_account env recipient)))
          (\<lambda>e. throw (missing_as_400 e)))
       (\<lambda>acct. require_trustline acct a)"

section \<open>Fees\<close>

definition stat_of :: "json \<Rightarrow> string \<Rightarrow> jsnum" where
  "stat_of fp k = parseInt (case field (Some fp) k of Some (JStr s) \<Rightarrow> s | _ \<Rightarrow> ''undefined'')"

text \<open>The percentiles 10, 50 and 90, which Horizon gives as texts.\<close>

definition fetchFeeStats :: "'l stellar_net \<Rightarrow> ('l, jsnum \<times> jsnum \<times> jsnum) call" where
  "fetchFeeStats env = bnd (with_retry env 3 (horizon env FeeStats)) (\<lambda>stats. case field (Some stats) ''fee_charged'' of
     None \<Rightarrow> throw (typeError ''Cannot read properties of undefined'')
   | Some JNull \<Rightarrow> throw (typeError ''Cannot read properties of null'')
   | Some fp \<Rightarrow> ret (stat_of fp ''p10'', stat_of fp ''p50'', stat_of fp ''p90''))"

definition base_fee :: "'l stellar_net \<Rightarrow> ('l, jsnum) call" where
  "base_fee env = bnd (horizon env BaseFee) (\<lambda>v. ret (json_number (Some v)))"

definition fetchFee :: "'l stellar_net \<Rightarrow> ('l, jsnum) call" where
  "fetchFee env = with_retry env 3 (base_fee env)"

definition feeForPriority :: "'l stellar_net \<Rightarrow> string \<Rightarrow> ('l, jsnum) call" where
  "feeForPriority env priority = catch (bnd (fetchFeeStats env) (\<lambda>(p10, p50, p90).
       ret (if priority = ''economy'' then p10 else if priority = ''priority'' then p90 else p50)))
     (\<lambda>_. with_retry env 3 (base_fee env))"

section \<open>Building and submitting\<close>

text \<open>\<open>builder.build(); transaction.sign(keypair)\<close>: the SDK may refuse, and nothing is submitted then.\<close>

definition build_tx :: "'l stellar_net \<Rightarrow> string \<Rightarrow> json \<Rightarrow> bool \<Rightarrow> jsnum \<Rightarrow> stellar_op list \<Rightarrow> memo option \<Rightarrow> ('l, tx) call" where
  "build_tx env key acct copied fee ops m = bnd (clock env) (\<lambda>t.
     let x = \<lparr>tx_account = acct, tx_copied = copied, tx_fee = fee, tx_ops = ops, tx_memo = m, tx_key = key, tx_built = t\<rparr> in
     case sn_build env x of Some e \<Rightarrow> throw e | None \<Rightarrow> ret x)"

section \<open>Claimable balances\<close>

definition created_balance :: "json \<Rightarrow> json option" where
  "created_balance effects = (case field (Some effects) ''records'' of
     Some (JArr rs) \<Rightarrow> (case find (\<lambda>x. field (Some x) ''type'' = Some (JStr ''claimable_balance_created'') \<and> truthy (field (Some x) ''balance_id'')) rs of
        Some x \<Rightarrow> field (Some x) ''balance_id'' | None \<Rightarrow> None)
   | _ \<Rightarrow> None)"

definition getEffectsForTransaction :: "'l stellar_net \<Rightarrow> string \<Rightarrow> ('l, json) call" where
  "getEffectsForTransaction env hash = with_retry env 3 (horizon env (Effects hash))"

definition no_balance_id :: "string \<Rightarrow> jserr" where
  "no_balance_id hash = withStatus 502 (mkError (''Horizon did not return a claimable balance ID for transaction '' @ hash))"

text \<open>\<open>left\<close> more attempts, of five.\<close>

primrec balance_id_from :: "'l stellar_net \<Rightarrow> string \<Rightarrow> nat \<Rightarrow> ('l, json) call" where
  "balance_id_from env hash 0 = throw (no_balance_id hash)"
| "balance_id_from env hash (Suc left) = bnd (getEffectsForTransaction env hash) (\<lambda>effects. case created_balance effects of
     Some i \<Rightarrow> ret i
   | None \<Rightarrow> andThen (if left = 0 then ret () else sleep env (Fin (200 * 2 ^ (4 - left)))) (balance_id_from env hash left))"

definition getClaimableBalanceIdForTransaction :: "'l stellar_net \<Rightarrow> string \<Rightarrow> ('l, json) call" where
  "getClaimableBalanceIdForTransaction env hash = balance_id_from env hash 5"

record payment =
  py_sender :: string
  py_secret :: string
  py_recipient :: string
  py_amount :: string
  py_asset :: string
  py_memo :: "string option"
  py_memo_type :: string
  py_priority :: string

definition claim_expiry :: "int \<Rightarrow> int \<Rightarrow> int" where
  "claim_expiry days t = (t + days * 24 * 60 * 60 * 1000) div 1000 * 1000"

definition claimants :: "string \<Rightarrow> string \<Rightarrow> int \<Rightarrow> (string \<times> predicate) list" where
  "claimants recipient sender expiry = (let p = BeforeAbsoluteTime (show_int (expiry div 1000)) in [(recipient, p), (sender, PredNot p)])"

definition submit_validated :: "'l stellar_net \<Rightarrow> (('l, json) call \<Rightarrow> ('l, json) call) \<Rightarrow> string \<Rightarrow> tx \<Rightarrow> ('l, json) call" where
  "submit_validated env again label x = validated TransactionSubmitResponseSchema label (again (horizon env (Submit x)))"

definition createClaimableBalance :: "'l stellar_net \<Rightarrow> int \<Rightarrow> payment \<Rightarrow> ('l, json) call" where
  "createClaimableBalance env days p =
     bnd (lift (asset_by_code (sn_issuer env) (py_asset p))) (\<lambda>a.
     bnd (lift (sn_decrypt env (py_secret p))) (\<lambda>key.
     bnd (clock env) (\<lambda>t.
     bnd (validated AccountResponseSchema ''loadAccount(sender)'' (with_retry env 3 (load_account env (py_sender p)))) (\<lambda>acct.
     bnd (fetchFee env) (\<lambda>fee.
     bnd (lift (memo_of (py_memo p) (py_memo_type p))) (\<lambda>m.
     bnd (build_tx env key acct True fee [CreateClaimableBalance a (py_amount p) (claimants (py_recipient p) (py_sender p) (claim_expiry days t))] m) (\<lambda>x.
     bnd (submit_validated env (with_retry env 3) ''submitTransaction(claimableBalance)'' x) (\<lambda>result.
     bnd (getClaimableBalanceIdForTransaction env (case get result ''hash'' of JStr h \<Rightarrow> h | _ \<Rightarrow> [])) (\<lambda>i.
       ret (JObj [(''transactionHash'', get result ''hash''), (''ledger'', get result ''ledger''), (''claimableBalanceId'', i),
         (''expiresAt'', JNum (Fin (of_int (claim_expiry days t)))), (''claimableAmount'', JStr (py_amount p))]))))))))))"

section \<open>One payment\<close>

definition MAX_SEQ_RETRIES :: nat where "MAX_SEQ_RETRIES = 3"
definition MAX_BATCH_OPERATIONS :: nat where "MAX_BATCH_OPERATIONS = 100"

definition memoRequiredError :: jserr where
  "memoRequiredError = (withStatus 400 (mkError ''The destination account requires a transaction memo. Please add a memo and retry.''))\<lparr>err_code := Some ''MEMO_REQUIRED''\<rparr>"

text \<open>One attempt: a fresh account, the fee, the transaction, its submission.\<close>

definition payment_attempt :: "'l stellar_net \<Rightarrow> payment \<Rightarrow> asset \<Rightarrow> string \<Rightarrow> ('l, json) call" where
  "payment_attempt env p a key =
     bnd (backing_off env (load_account env (py_sender p))) (\<lambda>acct.
     bnd (feeForPriority env (py_priority p)) (\<lambda>fee.
     bnd (lift (memo_of (py_memo p) (py_memo_type p))) (\<lambda>m.
     bnd (build_tx env key acct False fee [Payment (py_recipient p) a (py_amount p)] m) (\<lambda>x.
     bnd (submit_validated env (backing_off env) ''submitTransaction(payment)'' x) (\<lambda>result.
       ret (JObj [(''transactionHash'', get result ''hash''), (''ledger'', get result ''ledger''), (''type'', JStr ''payment''),
         (''successful'', get result ''successful'')]))))))"

text \<open>The transaction that was refused by a result code is replaced by a claimable balance.\<close>

definition refused_payment :: "'l stellar_net \<Rightarrow> int \<Rightarrow> payment \<Rightarrow> jserr \<Rightarrow> ('l, json) call" where
  "refused_payment env days p e =
     (if response_status e = Some 400 \<and> result_code e = Some ''tx_failed'' then
        bnd (createClaimableBalance env days p) (\<lambda>r. ret (case r of JObj fs \<Rightarrow> JObj (fs @ [(''type'', JStr ''claimable_balance'')]) | v \<Rightarrow> v))
      else throw e)"

text \<open>The loop with \<open>left\<close> attempts to go; \<open>exhausted\<close> is what follows it.\<close>

primrec send_loop :: "'l stellar_net \<Rightarrow> int \<Rightarrow> payment \<Rightarrow> asset \<Rightarrow> string \<Rightarrow> (jserr option \<Rightarrow> ('l, json) call) \<Rightarrow> nat \<Rightarrow> jserr option \<Rightarrow> ('l, json) call" where
  "send_loop env days p a key exhausted 0 lastErr = exhausted lastErr"
| "send_loop env days p a key exhausted (Suc left) lastErr = catch (payment_attempt env p a key) (\<lambda>e.
     if isBadSeq e \<and> left \<noteq> 0 then send_loop env days p a key exhausted left (Some e)
     else refused_payment env days p e)"

definition recoverSequence :: "'l stellar_net \<Rightarrow> string \<Rightarrow> string \<Rightarrow> ('l, json) call" where
  "recoverSequence env pk key = bnd (load_account env pk) (\<lambda>acct. bnd (base_fee env) (\<lambda>fee.
     bnd (build_tx env key acct False fee [BumpSequence (case get acct ''sequence'' of JStr s \<Rightarrow> s | _ \<Rightarrow> [])] None) (\<lambda>x.
       horizon env (Submit x))))"

text \<open>After the loop: a bump of the sequence number and one more attempt.\<close>

definition after_bump :: "'l stellar_net \<Rightarrow> payment \<Rightarrow> asset \<Rightarrow> string \<Rightarrow> jserr option \<Rightarrow> ('l, json) call" where
  "after_bump env p a key lastErr = (case lastErr of
     None \<Rightarrow> throw (typeError ''Cannot read properties of undefined'')
   | Some e \<Rightarrow> if \<not> isBadSeq e then throw e
     else bnd (recoverSequence env (py_sender p) key) (\<lambda>_.
     bnd (load_account env (py_sender p)) (\<lambda>acct.
     bnd (feeForPriority env (py_priority p)) (\<lambda>fee.
     bnd (lift (memo_of (py_memo p) (py_memo_type p))) (\<lambda>m.
     bnd (build_tx env key acct False fee [Payment (py_recipient p) a (py_amount p)] m) (\<lambda>x.
     bnd (horizon env (Submit x)) (\<lambda>result.
       ret (JObj [(''transactionHash'', get result ''hash''), (''ledger'', get result ''ledger''), (''type'', JStr ''payment'')]))))))))"

text \<open>\<open>memoRequired\<close> is \<open>checkMemoRequired\<close> of the recipient.\<close>

definition sendPaymentOnce :: "'l stellar_net \<Rightarrow> ('l, bool) call \<Rightarrow> int \<Rightarrow> payment \<Rightarrow> ('l, json) call" where
  "sendPaymentOnce env memoRequired days p = bnd memoRequired (\<lambda>b.
     if b \<and> (py_memo p = None \<or> py_memo p = Some []) then throw memoRequiredError
     else bnd (lift (asset_by_code (sn_issuer env) (py_asset p))) (\<lambda>a.
     andThen (if py_asset p \<noteq> ''XLM'' then checkTrustline env (py_recipient p) a else ret ())
     (bnd (lift (sn_decrypt env (py_secret p))) (\<lambda>key.
       send_loop env days p a key (after_bump env p a key) MAX_SEQ_RETRIES None))))"

section \<open>Batches\<close>

definition validateBatchRecipient :: "'l stellar_net \<Rightarrow> string \<Rightarrow> string \<Rightarrow> ('l, string) call" where
  "validateBatchRecipient env recipient code =
     bnd (catch (with_retry env 3 (load_account env recipient)) (\<lambda>e. throw (missing_as_400 e))) (\<lambda>acct.
     andThen (if code \<noteq> ''XLM'' then bnd (lift (asset_by_code (sn_issuer env) code)) (require_trustline acct) else ret ())
       (ret recipient))"

definition batch_attempt :: "'l stellar_net \<Rightarrow> payment \<Rightarrow> (string \<times> string) list \<Rightarrow> asset \<Rightarrow> string \<Rightarrow> ('l, json) call" where
  "batch_attempt env p recipients a key =
     bnd (backing_off env (load_account env (py_sender p))) (\<lambda>acct.
     bnd (backing_off env (base_fee env)) (\<lambda>fee.
     bnd (lift (memo_of (py_memo p) (py_memo_type p))) (\<lambda>m.
     bnd (build_tx env key acct False fee (map (\<lambda>(to, amt). Payment to a amt) recipients) m) (\<lambda>x.
     bnd (backing_off env (horizon env (Submit x))) (\<lambda>result.
       ret (JObj [(''transactionHash'', get result ''hash''), (''ledger'', get result ''ledger''), (''operationCount'', JNum (Fin (of_nat (length recipients))))]))))))"

primrec batch_loop :: "('l, json) call \<Rightarrow> nat \<Rightarrow> jserr option \<Rightarrow> ('l, json) call" where
  "batch_loop attempt 0 lastErr = (case lastErr of Some e \<Rightarrow> throw e | None \<Rightarrow> throw (mkError ''undefined''))"
| "batch_loop attempt (Suc left) lastErr = catch attempt (\<lambda>e.
     if isBadSeq e \<and> left \<noteq> 0 then batch_loop attempt left (Some e) else throw e)"

definition sendBatchPaymentOnce :: "'l stellar_net \<Rightarrow> payment \<Rightarrow> (string \<times> string) list \<Rightarrow> ('l, json) call" where
  "sendBatchPaymentOnce env p recipients =
     (if recipients = [] then throw (withStatus 400 (mkError ''At least one recipient is required.''))
      else if MAX_BATCH_OPERATIONS < length recipients then throw (withStatus 400 (mkError ''Batch payments support up to 100 recipients per transaction.''))
      else bnd (lift (asset_by_code (sn_issuer env) (py_asset p))) (\<lambda>a.
        bnd (lift (sn_decrypt env (py_secret p))) (\<lambda>key. batch_loop (batch_attempt env p recipients a key) MAX_SEQ_RETRIES None)))"

section \<open>Paths\<close>

text \<open>\<open>records.reduce((a, b) => better(a, b) ? a : b)\<close> on a list that is not empty.\<close>

definition reduce_best :: "(json \<Rightarrow> json \<Rightarrow> bool) \<Rightarrow> json list \<Rightarrow> json" where
  "reduce_best better rs = foldl (\<lambda>x y. if better x y then x else y) (hd rs) (tl rs)"

definition amount_of :: "string \<Rightarrow> json \<Rightarrow> jsnum" where
  "amount_of k r = (case field (Some r) k of Some (JStr s) \<Rightarrow> parseFloat s | _ \<Rightarrow> NaN)"

definition path_of :: "(json \<Rightarrow> json \<Rightarrow> bool) \<Rightarrow> string \<Rightarrow> json \<Rightarrow> (json \<times> json) option" where
  "path_of better k page = (case field (Some page) ''records'' of
     Some (JArr (r # rs)) \<Rightarrow> (let best = reduce_best better (r # rs) in Some (get best k, get best ''path'')) | _ \<Rightarrow> None)"

definition more_received :: "json \<Rightarrow> json \<Rightarrow> bool" where
  "more_received a b \<longleftrightarrow> jle (amount_of ''destination_amount'' b) (amount_of ''destination_amount'' a)"

definition less_spent :: "json \<Rightarrow> json \<Rightarrow> bool" where
  "less_spent a b \<longleftrightarrow> jle (amount_of ''source_amount'' a) (amount_of ''source_amount'' b)"

text \<open>The amount received with the best path, and the path.\<close>

definition findPaymentPath :: "'l stellar_net \<Rightarrow> string \<Rightarrow> string \<Rightarrow> string \<Rightarrow> ('l, (json \<times> json) option) call" where
  "findPaymentPath env sourceAsset sourceAmount destinationAsset =
     bnd (lift (asset_by_code (sn_issuer env) sourceAsset)) (\<lambda>src. bnd (lift (asset_by_code (sn_issuer env) destinationAsset)) (\<lambda>dst.
     bnd (validated PathPageSchema ''strictSendPaths'' (horizon env (SendPaths src sourceAmount dst))) (\<lambda>page.
       ret (path_of more_received ''destination_amount'' page))))"

definition findReceivePath :: "'l stellar_net \<Rightarrow> string \<Rightarrow> string \<Rightarrow> string \<Rightarrow> ('l, (json \<times> json) option) call" where
  "findReceivePath env sourceAsset destinationAsset destinationAmount =
     bnd (lift (asset_by_code (sn_issuer env) sourceAsset)) (\<lambda>src. bnd (lift (asset_by_code (sn_issuer env) destinationAsset)) (\<lambda>dst.
     bnd (validated PathPageSchema ''strictReceivePaths'' (horizon env (ReceivePaths src dst destinationAmount))) (\<lambda>page.
       ret (path_of less_spent ''source_amount'' page))))"

text \<open>A second call of \<open>fn\<close> after a refused sequence number.\<close>

definition withSequenceRecovery :: "('l, 'a) call \<Rightarrow> ('l, 'a) call" where
  "withSequenceRecovery fn = catch fn (\<lambda>e. if \<not> isBadSeq e then throw e else fn)"

text \<open>The bounds of a path payment: \<open>PathStrictSend\<close> spends exactly \<open>pp_amount\<close>, \<open>PathStrictReceive\<close> delivers it.\<close>

record path_payment =
  pp_sender :: string
  pp_secret :: string
  pp_recipient :: string
  pp_source :: string
  pp_dest :: string
  pp_amount :: string
  pp_limit :: string
  pp_path :: "asset list"
  pp_memo :: "string option"

definition path_memo :: "string option \<Rightarrow> memo option" where
  "path_memo m = (case m of None \<Rightarrow> None | Some s \<Rightarrow> if s = [] then None else Some (MemoText (take 28 s)))"

definition submit_answer :: "json \<Rightarrow> json" where
  "submit_answer result = JObj [(''transactionHash'', get result ''hash''), (''ledger'', get result ''ledger''), (''successful'', get result ''successful'')]"

definition sendPathPayment :: "'l stellar_net \<Rightarrow> path_payment \<Rightarrow> ('l, json) call" where
  "sendPathPayment env p =
     bnd (lift (asset_by_code (sn_issuer env) (pp_source p))) (\<lambda>src. bnd (lift (asset_by_code (sn_issuer env) (pp_dest p))) (\<lambda>dst.
     andThen (if pp_dest p \<noteq> ''XLM'' then checkTrustline env (pp_recipient p) dst else ret ())
     (bnd (lift (sn_decrypt env (pp_secret p))) (\<lambda>key.
       withSequenceRecovery
         (bnd (backing_off env (load_account env (pp_sender p))) (\<lambda>acct.
          bnd (backing_off env (base_fee env)) (\<lambda>fee.
          bnd (build_tx env key acct False fee [PathStrictSend src (pp_amount p) (pp_recipient p) dst (pp_limit p) (pp_path p)] (path_memo (pp_memo p))) (\<lambda>x.
          bnd (backing_off env (horizon env (Submit x))) (\<lambda>result. ret (submit_answer result))))))))))"

definition sendStrictReceivePathPayment :: "'l stellar_net \<Rightarrow> path_payment \<Rightarrow> ('l, json) call" where
  "sendStrictReceivePathPayment env p =
     bnd (lift (asset_by_code (sn_issuer env) (pp_source p))) (\<lambda>src. bnd (lift (asset_by_code (sn_issuer env) (pp_dest p))) (\<lambda>dst.
     andThen (if pp_dest p \<noteq> ''XLM'' then checkTrustline env (pp_recipient p) dst else ret ())
     (bnd (lift (sn_decrypt env (pp_secret p))) (\<lambda>key.
     bnd (load_account env (pp_sender p)) (\<lambda>acct.
     bnd (base_fee env) (\<lambda>fee.
     bnd (build_tx env key acct False fee [PathStrictReceive src (pp_limit p) (pp_recipient p) dst (pp_amount p) (pp_path p)] (path_memo (pp_memo p))) (\<lambda>x.
     bnd (validated TransactionSubmitResponseSchema ''submitTransaction(strictReceive)'' (horizon env (Submit x))) (\<lambda>result.
       ret (submit_answer result)))))))))"

section \<open>At most once\<close>

text \<open>
  What the client relies on: the transactions a ledger applied are observed by \<open>applied\<close>; only a submission applies one, the one
  submitted, and never twice; an answer is given only for an applied transaction (also for one applied before),
  a result code only for one that is not; and an account is loaded with a sequence number that no applied transaction used.
\<close>

definition lawful_answer :: "('l \<Rightarrow> tx list) \<Rightarrow> request \<Rightarrow> 'l \<Rightarrow> jserr + json \<Rightarrow> 'l \<Rightarrow> bool" where
  "lawful_answer applied q l r l' = (case q of
     Submit x \<Rightarrow> (applied l' = applied l \<or> x \<notin> set (applied l) \<and> applied l' = applied l @ [x]) \<and>
       (case r of Inr v \<Rightarrow> x \<in> set (applied l') | Inl e \<Rightarrow> result_code e = None \<or> x \<notin> set (applied l'))
   | LoadAccount pk \<Rightarrow> applied l' = applied l \<and>
       (case r of Inr acct \<Rightarrow> \<not> list_ex (\<lambda>x. tx_account x = acct) (applied l') | Inl e \<Rightarrow> True)
   | _ \<Rightarrow> applied l' = applied l)"

definition lawful :: "'l stellar_net \<Rightarrow> ('l \<Rightarrow> tx list) \<Rightarrow> bool" where
  "lawful env applied \<longleftrightarrow>
     (\<forall>fb q l. lawful_answer applied q l (fst (sn_ask env fb q l)) (snd (sn_ask env fb q l))) \<and>
     (\<forall>d l. applied (sn_wait env d l) = applied l)"

text \<open>What a payment makes the recipient have: the amount, or a balance only the recipient, later the sender, can claim.\<close>

definition delivers :: "payment \<Rightarrow> asset \<Rightarrow> tx \<Rightarrow> bool" where
  "delivers p a x \<longleftrightarrow> tx_ops x = [Payment (py_recipient p) a (py_amount p)] \<or>
     (\<exists>e. tx_ops x = [CreateClaimableBalance a (py_amount p) (claimants (py_recipient p) (py_sender p) e)])"

text \<open>The ledger when a payment is done, and when it failed: an error with a result code leaves it as it was.\<close>

definition paid :: "('l \<Rightarrow> tx list) \<Rightarrow> tx list \<Rightarrow> (tx \<Rightarrow> bool) \<Rightarrow> 'l \<Rightarrow> bool" where
  "paid applied A P l \<longleftrightarrow> (\<exists>x. P x \<and> x \<notin> set A \<and> applied l = A @ [x])"

definition perhaps :: "('l \<Rightarrow> tx list) \<Rightarrow> tx list \<Rightarrow> (tx \<Rightarrow> bool) \<Rightarrow> jserr \<Rightarrow> 'l \<Rightarrow> bool" where
  "perhaps applied A P e l \<longleftrightarrow> applied l = A \<or> result_code e = None \<and> paid applied A P l"

definition unmoved :: "('l \<Rightarrow> tx list) \<Rightarrow> tx list \<Rightarrow> 'l client \<Rightarrow> bool" where
  "unmoved applied A c \<longleftrightarrow> applied (cl_net c) = A"

lemma lawful_ask: "lawful env applied \<Longrightarrow> lawful_answer applied q l (fst (sn_ask env fb q l)) (snd (sn_ask env fb q l))"
  by (simp add: lawful_def)

lemma lawful_wait: "lawful env applied \<Longrightarrow> applied (sn_wait env d l) = applied l"
  by (simp add: lawful_def)

lemma result_code_mkError [simp]: "result_code (mkError m) = None"
  by (simp add: result_code_def err_field_def mkError_def json_string_def field_def)

lemma result_code_bothDown [simp]: "result_code (bothDown e f) = None"
  by (simp add: bothDown_def)

lemma result_code_invalid: "validateHorizonResponse schema label v = Inl e \<Longrightarrow> result_code e = None"
  by (auto simp: validateHorizonResponse_def result_code_def err_field_def json_string_def field_def split: if_splits)

subsection \<open>Reading\<close>

definition reads :: "request \<Rightarrow> bool" where
  "reads q = (case q of Submit x \<Rightarrow> False | _ \<Rightarrow> True)"

named_theorems reading \<open>calls that apply no transaction\<close>

lemma lawful_read: "lawful env applied \<Longrightarrow> reads q \<Longrightarrow> applied (snd (sn_ask env fb q l)) = applied l"
  using lawful_ask [of env applied q l fb] by (cases q) (simp_all add: lawful_answer_def reads_def)

lemma reads_horizon [reading]:
  assumes "lawful env applied" "reads q"
  shows "keeps (unmoved applied A) (horizon env q)"
  unfolding unmoved_def
  by (rule keeps_horizon [where I = "\<lambda>l. applied l = A"]) (simp add: lawful_read [OF assms])

lemma reads_simps [simp]: "reads (LoadAccount pk)" "reads BaseFee" "reads FeeStats" "reads (Effects h)"
  "reads (SendPaths src x dst)" "reads (ReceivePaths src dst x)"
  by (simp_all add: reads_def)

lemma unmoved_wait: "lawful env applied \<Longrightarrow> unmoved applied A c \<Longrightarrow> unmoved applied A (c\<lparr>cl_net := sn_wait env d (cl_net c)\<rparr>)"
  by (simp add: unmoved_def lawful_wait)

lemma reads_with_retry [reading]: "lawful env applied \<Longrightarrow> keeps (unmoved applied A) m \<Longrightarrow> keeps (unmoved applied A) (with_retry env n m)"
  unfolding with_retry_def by (rule keeps_retrying) (auto intro: unmoved_wait)

lemma reads_backing_off [reading]: "lawful env applied \<Longrightarrow> keeps (unmoved applied A) m \<Longrightarrow> keeps (unmoved applied A) (backing_off env m)"
  unfolding backing_off_def by (rule keeps_retrying) (auto intro: unmoved_wait)

lemma reads_sleep [reading]: "lawful env applied \<Longrightarrow> keeps (unmoved applied A) (sleep env d)"
  unfolding sleep_def by (rule keeps_modify) (rule unmoved_wait)

lemma reads_clock [reading]: "keeps I (clock env)"
  by (simp add: clock_def keep)

lemma reads_base_fee [reading]: "lawful env applied \<Longrightarrow> keeps (unmoved applied A) (base_fee env)"
  unfolding base_fee_def by (intro keep reading) simp_all

lemma reads_load [reading]: "lawful env applied \<Longrightarrow> keeps (unmoved applied A) (load_account env pk)"
  unfolding load_account_def by (intro keep reading) simp_all

lemma reads_validated [reading]: "keeps I m \<Longrightarrow> keeps I (validated schema label m)"
  unfolding validated_def by (intro keep)

lemma reads_fee_stats [reading]: "lawful env applied \<Longrightarrow> keeps (unmoved applied A) (fetchFeeStats env)"
  unfolding fetchFeeStats_def
  by (intro keep reading) (auto split: option.split json.split intro: keep)

lemma reads_fee [reading]: "lawful env applied \<Longrightarrow> keeps (unmoved applied A) (feeForPriority env priority)"
  unfolding feeForPriority_def by (intro keep reading) simp_all

lemma reads_fetchFee [reading]: "lawful env applied \<Longrightarrow> keeps (unmoved applied A) (fetchFee env)"
  unfolding fetchFee_def by (intro keep reading) simp_all

lemma reads_trustline [reading]: "lawful env applied \<Longrightarrow> keeps (unmoved applied A) (checkTrustline env to a)"
  unfolding checkTrustline_def require_trustline_def by (intro keep reading) simp_all

lemma reads_build [reading]: "keeps I (build_tx env key acct copied fee ops m)"
  unfolding build_tx_def by (intro keep reading)

subsection \<open>Loading an account\<close>

definition unused :: "tx list \<Rightarrow> json \<Rightarrow> bool" where
  "unused A acct \<longleftrightarrow> \<not> list_ex (\<lambda>x. tx_account x = acct) A"

lemma unused_tx: "unused A (tx_account x) \<Longrightarrow> x \<notin> set A"
  by (auto simp: unused_def list_ex_iff)

abbreviation "loads applied A m \<equiv> (\<forall>c. unmoved applied A c \<longrightarrow>
  wp m (\<lambda>acct c'. unused A acct \<and> unmoved applied A c') (\<lambda>e c'. unmoved applied A c') c)"

lemma loads_account: assumes "lawful env applied" shows "loads applied A (load_account env pk)"
proof (intro allI impI)
  fix c assume c: "unmoved applied A c"
  have ask: "wp (ask env fb (LoadAccount pk)) (\<lambda>acct c'. unused A acct \<and> applied (cl_net c') = A) (\<lambda>e c'. applied (cl_net c') = A) c'"
    if "applied (cl_net c') = A" for fb c'
    using lawful_ask [OF assms, of "LoadAccount pk" "cl_net c'" fb] that
    by (auto simp: wps lawful_answer_def unused_def split: prod.split sum.split)
  show "wp (load_account env pk) (\<lambda>acct c'. unused A acct \<and> unmoved applied A c') (\<lambda>e c'. unmoved applied A c') c"
    using c unfolding load_account_def horizon_def unmoved_def
    by (intro wp_withFallback [where Q = "\<lambda>acct l. unused A acct \<and> applied l = A" and E = "\<lambda>e l. applied l = A"] ask)
qed

lemma loads_again:
  assumes "lawful env applied" "loads applied A m"
  shows "loads applied A (with_retry env n m)" "loads applied A (backing_off env m)"
  using assms unfolding with_retry_def backing_off_def
  by (auto intro!: wp_retrying [where E = "\<lambda>_ _. True" and I = "unmoved applied A", simplified] unmoved_wait)

lemma loads_validated: "loads applied A m \<Longrightarrow> loads applied A (validated schema label m)"
  unfolding validated_def wps validateHorizonResponse_def
  apply (intro allI impI)
  apply (drule spec, drule (1) mp)
  apply (erule wp_mono)
   apply simp_all
  done

subsection \<open>Submitting\<close>

lemma submits_once:
  assumes law: "lawful env applied" and new: "x \<notin> set A" and P: "P x"
    and c: "unmoved applied A c \<or> paid applied A ((=) x) (cl_net c)"
  shows "wp (horizon env (Submit x)) (\<lambda>_ c'. paid applied A ((=) x) (cl_net c')) (\<lambda>e c'. perhaps applied A ((=) x) e (cl_net c')) c"
proof -
  have ask: "wp (ask env fb (Submit x)) (\<lambda>_ c'. paid applied A ((=) x) (cl_net c')) (\<lambda>e c'. perhaps applied A ((=) x) e (cl_net c')) c'"
    if "unmoved applied A c' \<or> paid applied A ((=) x) (cl_net c')" for fb c'
    using lawful_ask [OF law, of "Submit x" "cl_net c'" fb] that new
    by (auto simp: wps lawful_answer_def paid_def perhaps_def unmoved_def split: prod.split sum.split)
  have again: "perhaps applied A ((=) x) (bothDown e e') l" if "perhaps applied A ((=) x) e' l" for e e' l
    using that by (simp add: perhaps_def) blast
  show ?thesis unfolding horizon_def
    apply (rule wp_withFallback)
     apply (rule ask [OF c])
    apply (rule wp_mono [OF ask])
      apply (auto simp: perhaps_def unmoved_def intro: again)
    done
qed

text \<open>The conclusion of an attempt that starts on the ledger \<open>A\<close>.\<close>

abbreviation "attempts applied A P m \<equiv> (\<forall>c. unmoved applied A c \<longrightarrow>
  wp m (\<lambda>_ c'. paid applied A P (cl_net c')) (\<lambda>e c'. perhaps applied A P e (cl_net c')) c)"

lemma perhaps_again: "perhaps applied A P e l \<Longrightarrow> applied l = A \<or> paid applied A P l"
  by (auto simp: perhaps_def)

lemma submits_again:
  assumes law: "lawful env applied" and new: "x \<notin> set A" and c: "unmoved applied A c"
  shows "wp (with_retry env n (horizon env (Submit x))) (\<lambda>_ c'. paid applied A ((=) x) (cl_net c')) (\<lambda>e c'. perhaps applied A ((=) x) e (cl_net c')) c"
    and "wp (backing_off env (horizon env (Submit x))) (\<lambda>_ c'. paid applied A ((=) x) (cl_net c')) (\<lambda>e c'. perhaps applied A ((=) x) e (cl_net c')) c"
proof -
  let ?I = "\<lambda>c. unmoved applied A c \<or> paid applied A ((=) x) (cl_net c)"
  have step: "wp (horizon env (Submit x)) (\<lambda>_ c'. paid applied A ((=) x) (cl_net c')) (\<lambda>e c'. perhaps applied A ((=) x) e (cl_net c') \<and> ?I c') c'"
    if "?I c'" for c'
    by (rule wp_mono [OF submits_once [OF law new TrueI that]]) (auto simp: perhaps_def unmoved_def)
  have wait: "?I (c'\<lparr>cl_net := sn_wait env d (cl_net c')\<rparr>)" if "?I c'" for c' d
    using that by (auto simp: unmoved_def paid_def lawful_wait [OF law])
  show "wp (with_retry env n (horizon env (Submit x))) (\<lambda>_ c'. paid applied A ((=) x) (cl_net c')) (\<lambda>e c'. perhaps applied A ((=) x) e (cl_net c')) c"
    unfolding with_retry_def
    by (rule wp_mono [OF wp_retrying [of ?I, OF step wait]]) (use c in auto)
  show "wp (backing_off env (horizon env (Submit x))) (\<lambda>_ c'. paid applied A ((=) x) (cl_net c')) (\<lambda>e c'. perhaps applied A ((=) x) e (cl_net c')) c"
    unfolding backing_off_def
    by (rule wp_mono [OF wp_retrying [of ?I, OF step wait]]) (use c in auto)
qed

lemma paid_mono: "paid applied A ((=) x) l \<Longrightarrow> P x \<Longrightarrow> paid applied A P l"
  by (auto simp: paid_def)

lemma perhaps_mono: "perhaps applied A ((=) x) e l \<Longrightarrow> P x \<Longrightarrow> perhaps applied A P e l"
  by (auto simp: perhaps_def intro: paid_mono)

lemma perhaps_unmoved: "unmoved applied A c \<Longrightarrow> perhaps applied A P e (cl_net c)"
  by (simp add: unmoved_def perhaps_def)

lemma submit_validated_once:
  assumes "wp (again (horizon env (Submit x))) (\<lambda>_ c'. paid applied A ((=) x) (cl_net c')) (\<lambda>e c'. perhaps applied A ((=) x) e (cl_net c')) c"
    and "P x"
  shows "wp (submit_validated env again label x) (\<lambda>_ c'. paid applied A P (cl_net c')) (\<lambda>e c'. perhaps applied A P e (cl_net c')) c"
  unfolding submit_validated_def validated_def wps
  by (rule wp_mono [OF assms(1)])
    (use assms(2) in \<open>auto simp: perhaps_def intro: paid_mono dest: result_code_invalid split: sum.split\<close>)

lemma wp_build: "wp (build_tx env key acct copied fee ops m) Q E c =
   (let x = \<lparr>tx_account = acct, tx_copied = copied, tx_fee = fee, tx_ops = ops, tx_memo = m, tx_key = key, tx_built = sn_now env (cl_net c)\<rparr>
    in case sn_build env x of Some e \<Rightarrow> E e c | None \<Rightarrow> Q x c)"
  by (simp add: build_tx_def wps Let_def split: option.split)

text \<open>A transaction built from a fresh account, the fee and the memo asked for in between, and submitted.\<close>

lemma built_once:
  assumes law: "lawful env applied" and acct: "unused A acct" and c: "unmoved applied A c"
    and fee: "keeps (unmoved applied A) feeOf"
    and P: "\<And>x. tx_ops x = ops \<Longrightarrow> tx_key x = key \<Longrightarrow> P x"
    and sub: "\<And>x c. x \<notin> set A \<Longrightarrow> P x \<Longrightarrow> unmoved applied A c \<Longrightarrow>
      wp (sub x) (\<lambda>_ c'. paid applied A P (cl_net c')) (\<lambda>e c'. perhaps applied A P e (cl_net c')) c"
    and k: "\<And>v c'. paid applied A P (cl_net c') \<Longrightarrow> wp (k v) (\<lambda>_ c'. paid applied A P (cl_net c')) (\<lambda>e c'. E e (cl_net c')) c'"
    and E: "\<And>e l. perhaps applied A P e l \<Longrightarrow> E e l"
  shows "wp (bnd feeOf (\<lambda>fee. bnd (lift memo) (\<lambda>m. bnd (build_tx env key acct copied fee ops m) (\<lambda>x. bnd (sub x) k))))
      (\<lambda>_ c'. paid applied A P (cl_net c')) (\<lambda>e c'. E e (cl_net c')) c"
proof -
  have body: "wp (build_tx env key acct copied f ops m) (\<lambda>x. wp (sub x) (\<lambda>v. wp (k v) (\<lambda>_ c'. paid applied A P (cl_net c')) (\<lambda>e c'. E e (cl_net c')))
      (\<lambda>e c'. E e (cl_net c'))) (\<lambda>e c'. E e (cl_net c')) c'"
    if "unmoved applied A c'" for f m c'
  proof -
    let ?x = "\<lparr>tx_account = acct, tx_copied = copied, tx_fee = f, tx_ops = ops, tx_memo = m, tx_key = key, tx_built = sn_now env (cl_net c')\<rparr>"
    have new: "?x \<notin> set A" by (rule unused_tx) (simp add: acct)
    have Px: "P ?x" by (rule P) simp_all
    have "wp (sub ?x) (\<lambda>v. wp (k v) (\<lambda>_ c'. paid applied A P (cl_net c')) (\<lambda>e c'. E e (cl_net c')))
        (\<lambda>e c'. E e (cl_net c')) c'"
      by (rule wp_mono [OF sub [OF new Px that]]) (auto intro: k E)
    then show ?thesis
      unfolding wp_build Let_def
      by (cases "sn_build env ?x") (simp_all add: E [OF perhaps_unmoved [OF that]])
  qed
  show ?thesis unfolding wps
  proof (rule wp_keeps [OF fee c])
    fix f c' assume c': "unmoved applied A c'"
    show "(case memo of Inl e \<Rightarrow> (\<lambda>c'. E e (cl_net c'))
      | Inr m \<Rightarrow> wp (build_tx env key acct copied f ops m) (\<lambda>x. wp (sub x) (\<lambda>v. wp (k v) (\<lambda>_ c'. paid applied A P (cl_net c')) (\<lambda>e c'. E e (cl_net c')))
      (\<lambda>e c'. E e (cl_net c'))) (\<lambda>e c'. E e (cl_net c'))) c'"
      by (cases memo) (simp_all only: sum.case body [OF c'] E [OF perhaps_unmoved [OF c']])
  qed (rule E [OF perhaps_unmoved])
qed

lemma payment_attempt_once:
  assumes "lawful env applied"
  shows "attempts applied A (delivers p a) (payment_attempt env p a key)"
proof (intro allI impI)
  fix c assume c: "unmoved applied A c"
  show "wp (payment_attempt env p a key) (\<lambda>_ c'. paid applied A (delivers p a) (cl_net c')) (\<lambda>e c'. perhaps applied A (delivers p a) e (cl_net c')) c"
    unfolding payment_attempt_def
    apply (subst wp_bnd)
    apply (rule wp_mono [OF loads_again(2) [OF assms loads_account [OF assms], rule_format, OF c]])
     apply (rule built_once [OF assms])
          apply (simp_all add: wps)
       apply (rule reads_fee [OF assms])
      apply (simp add: delivers_def)
     apply (rule submit_validated_once [where again = "backing_off env", OF submits_again(2) [OF assms]])
    apply (auto intro: perhaps_unmoved)
    done
qed

lemma reads_balance_id [reading]: "lawful env applied \<Longrightarrow> keeps (unmoved applied A) (balance_id_from env hash n)"
proof (induction n)
  case (Suc n)
  then show ?case unfolding balance_id_from.simps getEffectsForTransaction_def by (intro keep reading) simp_all
qed (simp add: keep)

text \<open>An error that may come after the transaction.\<close>

definition attempted :: "('l \<Rightarrow> tx list) \<Rightarrow> tx list \<Rightarrow> (tx \<Rightarrow> bool) \<Rightarrow> jserr \<Rightarrow> 'l \<Rightarrow> bool" where
  "attempted applied A P e l \<longleftrightarrow> applied l = A \<or> paid applied A P l"

lemma perhaps_attempted: "perhaps applied A P e l \<Longrightarrow> attempted applied A P e l"
  by (auto simp: perhaps_def attempted_def)

lemma attempted_unmoved: "unmoved applied A c \<Longrightarrow> attempted applied A P e (cl_net c)"
  by (simp add: unmoved_def attempted_def)

lemma reading_paid:
  assumes "\<And>B. keeps (unmoved applied B) m" "paid applied A P (cl_net c)"
  shows "wp m (\<lambda>_ c'. paid applied A P (cl_net c')) (\<lambda>e c'. attempted applied A P e (cl_net c')) c"
proof -
  obtain x where x: "P x" "x \<notin> set A" "unmoved applied (A @ [x]) c" using assms(2) by (auto simp: paid_def unmoved_def)
  then have "paid applied A P (cl_net c')" if "unmoved applied (A @ [x]) c'" for c'
    using that by (auto simp: paid_def unmoved_def)
  then show ?thesis by (intro wp_keeps [OF assms(1) x(3)]) (simp_all add: attempted_def)
qed

lemma claimable_balance_once:
  assumes law: "lawful env applied" and a: "asset_by_code (sn_issuer env) (py_asset p) = Inr a" and c: "unmoved applied A c"
  shows "wp (createClaimableBalance env days p) (\<lambda>_ c'. paid applied A (delivers p a) (cl_net c')) (\<lambda>e c'. attempted applied A (delivers p a) e (cl_net c')) c"
proof -
  let ?load = "validated AccountResponseSchema ''loadAccount(sender)'' (with_retry env 3 (load_account env (py_sender p)))"
  have load: "loads applied A ?load" by (intro loads_validated loads_again law loads_account)
  show ?thesis
    unfolding createClaimableBalance_def a
    apply (subst wp_bnd, simp only: wp_lift sum.case)
    apply (subst wp_bnd, simp only: wp_lift)
    apply (cases "sn_decrypt env (py_secret p)")
     apply (simp add: attempted_unmoved [OF c])
    apply (simp only: sum.case)
    apply (subst wp_bnd, simp only: wp_clock)
    apply (subst wp_bnd)
    apply (rule wp_mono [OF load [rule_format, OF c]])
     apply (rule built_once [OF law])
           apply simp_all
        apply (rule reads_fetchFee [OF law])
       apply (auto simp: delivers_def) [1]
      apply (rule submit_validated_once [where again = "with_retry env 3", OF submits_again(1) [OF law]])
        apply simp_all
      apply (subst wp_bnd)
     apply (rule wp_mono [OF reading_paid])
        apply (simp_all add: wps getClaimableBalanceIdForTransaction_def reads_balance_id [OF law] perhaps_attempted attempted_unmoved)
    done
qed

subsection \<open>The whole payment\<close>

lemma send_loop_once:
  assumes law: "lawful env applied" and a: "asset_by_code (sn_issuer env) (py_asset p) = Inr a" and c: "unmoved applied A c"
  shows "wp (send_loop env days p a key exhausted (Suc left) lastErr) (\<lambda>_ c'. paid applied A (delivers p a) (cl_net c'))
    (\<lambda>e c'. attempted applied A (delivers p a) e (cl_net c')) c"
  using c
proof (induction left arbitrary: c lastErr)
  case (0 c)
  have "wp (refused_payment env days p e) (\<lambda>_ c'. paid applied A (delivers p a) (cl_net c')) (\<lambda>e c'. attempted applied A (delivers p a) e (cl_net c')) c'"
    if "perhaps applied A (delivers p a) e (cl_net c')" for e c'
    using that claimable_balance_once [OF law a, of A c' days]
    by (auto simp: refused_payment_def wps perhaps_attempted perhaps_def unmoved_def)
  then show ?case
    unfolding send_loop.simps wps
    by (intro wp_mono [OF payment_attempt_once [OF law, rule_format, OF "0.prems"]]) simp_all
next
  case (Suc left c)
  have "wp (refused_payment env days p e) (\<lambda>_ c'. paid applied A (delivers p a) (cl_net c')) (\<lambda>e c'. attempted applied A (delivers p a) e (cl_net c')) c'"
    if "perhaps applied A (delivers p a) e (cl_net c')" for e c'
    using that claimable_balance_once [OF law a, of A c' days]
    by (auto simp: refused_payment_def wps perhaps_attempted perhaps_def unmoved_def)
  moreover have "unmoved applied A c'" if "perhaps applied A (delivers p a) e (cl_net c')" "isBadSeq e" for e c'
    using that by (simp add: perhaps_def unmoved_def isBadSeq_def)
  ultimately show ?case
    unfolding send_loop.simps(2) [of _ _ _ _ _ _ "Suc left"] wps
    by (intro wp_mono [OF payment_attempt_once [OF law, rule_format, OF Suc.prems]])
      (auto simp: wps simp del: send_loop.simps intro: Suc.IH)
qed

lemma sendPaymentOnce_once:
  assumes law: "lawful env applied" and memo: "keeps (unmoved applied A) memoRequired" and c: "unmoved applied A c"
  shows "wp (sendPaymentOnce env memoRequired days p)
    (\<lambda>_ c'. \<exists>a. asset_by_code (sn_issuer env) (py_asset p) = Inr a \<and> paid applied A (delivers p a) (cl_net c'))
    (\<lambda>e c'. unmoved applied A c' \<or> (\<exists>a. asset_by_code (sn_issuer env) (py_asset p) = Inr a \<and> paid applied A (delivers p a) (cl_net c'))) c"
proof (cases "asset_by_code (sn_issuer env) (py_asset p)")
  case (Inl e)
  show ?thesis unfolding sendPaymentOnce_def wps
    by (rule wp_keeps [OF memo c]) (simp_all add: Inl wps)
next
  case (Inr a)
  have loop: "wp (send_loop env days p a key ex MAX_SEQ_RETRIES None) (\<lambda>_ c'. paid applied A (delivers p a) (cl_net c'))
      (\<lambda>e c'. unmoved applied A c' \<or> paid applied A (delivers p a) (cl_net c')) c'" if "unmoved applied A c'" for key ex c'
    unfolding MAX_SEQ_RETRIES_def numeral_3_eq_3
    by (rule wp_mono [OF send_loop_once [OF law Inr that]]) (auto simp: attempted_def unmoved_def)
  have sent: "wp (bnd (lift (sn_decrypt env (py_secret p))) (\<lambda>key. send_loop env days p a key (after_bump env p a key) MAX_SEQ_RETRIES None))
      (\<lambda>_ c'. paid applied A (delivers p a) (cl_net c')) (\<lambda>e c'. unmoved applied A c' \<or> paid applied A (delivers p a) (cl_net c')) c'"
    if "unmoved applied A c'" for c'
    using that by (cases "sn_decrypt env (py_secret p)") (simp_all add: wps loop)
  show ?thesis unfolding sendPaymentOnce_def Inr
    apply (subst wp_bnd)
    apply (rule wp_keeps [OF memo c])
     apply (simp add: wps)
     apply (auto intro!: wp_keeps [OF reads_trustline [OF law]] sent [unfolded wps])
    done
qed

subsection \<open>Batches and paths\<close>

lemma wp_ret_paid: "paid applied A P (cl_net c) \<Longrightarrow> wp (ret v) (\<lambda>_ c'. paid applied A P (cl_net c')) E c"
  by (simp add: wps)

lemma submitted_once:
  assumes "lawful env applied" "x \<notin> set A" "P x" "unmoved applied A c"
  shows "wp (backing_off env (horizon env (Submit x))) (\<lambda>_ c'. paid applied A P (cl_net c')) (\<lambda>e c'. perhaps applied A P e (cl_net c')) c"
  by (rule wp_mono [OF submits_again(2) [OF assms(1,2,4)]]) (auto intro: paid_mono perhaps_mono assms(3))

lemma batch_attempt_once:
  assumes law: "lawful env applied"
  shows "attempts applied A (\<lambda>x. tx_ops x = map (\<lambda>(to, amt). Payment to a amt) rs) (batch_attempt env p rs a key)"
proof (intro allI impI)
  fix c assume c: "unmoved applied A c"
  let ?P = "\<lambda>x. tx_ops x = map (\<lambda>(to, amt). Payment to a amt) rs"
  show "wp (batch_attempt env p rs a key) (\<lambda>_ c'. paid applied A ?P (cl_net c')) (\<lambda>e c'. perhaps applied A ?P e (cl_net c')) c"
    unfolding batch_attempt_def
    apply (subst wp_bnd)
    apply (rule wp_mono [OF loads_again(2) [OF law loads_account [OF law], rule_format, OF c]])
     apply (rule built_once [OF law])
           apply simp_all
       apply (intro reading law)
      apply (rule submitted_once [OF law])
        apply (simp_all add: wp_ret_paid perhaps_unmoved)
    done
qed

lemma perhaps_bad_seq: "perhaps applied A P e (cl_net c) \<Longrightarrow> isBadSeq e \<Longrightarrow> unmoved applied A c"
  by (simp add: perhaps_def unmoved_def isBadSeq_def)

lemma batch_loop_once:
  assumes "attempts applied A P attempt" and "unmoved applied A c"
  shows "wp (batch_loop attempt (Suc left) lastErr) (\<lambda>_ c'. paid applied A P (cl_net c')) (\<lambda>e c'. perhaps applied A P e (cl_net c')) c"
  using assms(2)
proof (induction left arbitrary: c lastErr)
  case (0 c)
  show ?case unfolding batch_loop.simps wps
    by (rule wp_mono [OF assms(1) [rule_format, OF "0.prems"]]) simp_all
next
  case (Suc left c)
  show ?case unfolding batch_loop.simps(2) [of _ "Suc left"] wps
    by (rule wp_mono [OF assms(1) [rule_format, OF Suc.prems]])
      (auto simp: wps simp del: batch_loop.simps intro: Suc.IH perhaps_bad_seq)
qed

lemma sendBatchPaymentOnce_once:
  assumes law: "lawful env applied" and c: "unmoved applied A c"
  shows "wp (sendBatchPaymentOnce env p rs)
    (\<lambda>_ c'. \<exists>a. asset_by_code (sn_issuer env) (py_asset p) = Inr a \<and> rs \<noteq> [] \<and> length rs \<le> 100 \<and>
       paid applied A (\<lambda>x. tx_ops x = map (\<lambda>(to, amt). Payment to a amt) rs) (cl_net c'))
    (\<lambda>e c'. unmoved applied A c' \<or> (\<exists>a. asset_by_code (sn_issuer env) (py_asset p) = Inr a \<and> rs \<noteq> [] \<and> length rs \<le> 100 \<and>
       paid applied A (\<lambda>x. tx_ops x = map (\<lambda>(to, amt). Payment to a amt) rs) (cl_net c'))) c"
proof (cases "asset_by_code (sn_issuer env) (py_asset p)")
  case (Inr a)
  have "wp (batch_loop (batch_attempt env p rs a key) MAX_SEQ_RETRIES None)
      (\<lambda>_ c'. paid applied A (\<lambda>x. tx_ops x = map (\<lambda>(to, amt). Payment to a amt) rs) (cl_net c'))
      (\<lambda>e c'. unmoved applied A c' \<or> paid applied A (\<lambda>x. tx_ops x = map (\<lambda>(to, amt). Payment to a amt) rs) (cl_net c')) c" for key
    unfolding MAX_SEQ_RETRIES_def numeral_3_eq_3
    by (rule wp_mono [OF batch_loop_once [OF batch_attempt_once [OF law] c]]) (auto simp: perhaps_def unmoved_def)
  then show ?thesis using c
    by (cases "sn_decrypt env (py_secret p)") (auto simp: sendBatchPaymentOnce_def wps Inr MAX_BATCH_OPERATIONS_def elim!: wp_mono)
qed (use c in \<open>simp add: sendBatchPaymentOnce_def wps\<close>)

lemma sequence_recovery_once:
  assumes "attempts applied A P fn" "unmoved applied A c"
  shows "wp (withSequenceRecovery fn) (\<lambda>_ c'. paid applied A P (cl_net c')) (\<lambda>e c'. perhaps applied A P e (cl_net c')) c"
  unfolding withSequenceRecovery_def wps
  by (rule wp_mono [OF assms(1) [rule_format, OF assms(2)]]) (use assms(1) in \<open>auto simp: wps perhaps_bad_seq\<close>)

lemma path_attempt_once:
  assumes law: "lawful env applied"
  shows "attempts applied A (\<lambda>x. tx_ops x = ops) (bnd (backing_off env (load_account env pk)) (\<lambda>acct.
    bnd (backing_off env (base_fee env)) (\<lambda>fee. bnd (build_tx env key acct False fee ops m) (\<lambda>x.
    bnd (backing_off env (horizon env (Submit x))) (\<lambda>result. ret (submit_answer result))))))"
proof (intro allI impI)
  fix c assume c: "unmoved applied A c"
  note built = built_once [OF law, where memo = "Inr m", unfolded bnd_lift]
  show "wp (bnd (backing_off env (load_account env pk)) (\<lambda>acct.
    bnd (backing_off env (base_fee env)) (\<lambda>fee. bnd (build_tx env key acct False fee ops m) (\<lambda>x.
    bnd (backing_off env (horizon env (Submit x))) (\<lambda>result. ret (submit_answer result)))))) (\<lambda>_ c'. paid applied A (\<lambda>x. tx_ops x = ops) (cl_net c'))
    (\<lambda>e c'. perhaps applied A (\<lambda>x. tx_ops x = ops) e (cl_net c')) c"
    apply (subst wp_bnd)
    apply (rule wp_mono [OF loads_again(2) [OF law loads_account [OF law], rule_format, OF c]])
     apply (rule built)
          apply simp_all
       apply (intro reading law)
      apply (rule submitted_once [OF law])
        apply (simp_all add: wp_ret_paid perhaps_unmoved)
    done
qed

text \<open>The operation of a path payment.\<close>

lemma sendPathPayment_once:
  assumes law: "lawful env applied" and c: "unmoved applied A c"
    and assets: "asset_by_code (sn_issuer env) (pp_source p) = Inr src" "asset_by_code (sn_issuer env) (pp_dest p) = Inr dst"
  shows "wp (sendPathPayment env p)
    (\<lambda>_ c'. paid applied A (\<lambda>x. tx_ops x = [PathStrictSend src (pp_amount p) (pp_recipient p) dst (pp_limit p) (pp_path p)]) (cl_net c'))
    (\<lambda>e c'. perhaps applied A (\<lambda>x. tx_ops x = [PathStrictSend src (pp_amount p) (pp_recipient p) dst (pp_limit p) (pp_path p)]) e (cl_net c')) c"
    (is "wp _ ?Q ?E c")
proof -
  have sent: "wp (bnd (lift (sn_decrypt env (pp_secret p))) (\<lambda>key. withSequenceRecovery
         (bnd (backing_off env (load_account env (pp_sender p))) (\<lambda>acct.
          bnd (backing_off env (base_fee env)) (\<lambda>fee.
          bnd (build_tx env key acct False fee [PathStrictSend src (pp_amount p) (pp_recipient p) dst (pp_limit p) (pp_path p)] (path_memo (pp_memo p))) (\<lambda>x.
          bnd (backing_off env (horizon env (Submit x))) (\<lambda>result. ret (submit_answer result)))))))) ?Q ?E c'" if "unmoved applied A c'" for c'
    using that by (cases "sn_decrypt env (pp_secret p)")
      (simp_all add: wp_bnd [of "lift _"] wp_lift perhaps_unmoved sequence_recovery_once [OF path_attempt_once [OF law]])
  show ?thesis
    unfolding sendPathPayment_def assets bnd_lift wp_andThen
    using c by (auto simp: wps simp del: wp_bnd intro!: sent wp_keeps [OF reads_trustline [OF law] c] perhaps_unmoved)
qed

section \<open>A network for one transaction\<close>

definition toy_account :: json where
  "toy_account = JObj [(''id'', JStr ''GA''), (''sequence'', JStr ''1''), (''balances'', JArr [])]"

definition toy_ask :: "bool \<Rightarrow> request \<Rightarrow> tx option \<Rightarrow> (jserr + json) \<times> tx option" where
  "toy_ask fb q l = (case q of
     LoadAccount pk \<Rightarrow> (if l = None then Inr toy_account else Inl (mkError ''used''), l)
   | BaseFee \<Rightarrow> (Inr (JNum (Fin 100)), l)
   | Submit x \<Rightarrow> (case l of
        None \<Rightarrow> (Inr (JObj [(''hash'', JStr (replicate 64 (CHR ''a''))), (''ledger'', JNum (Fin 7))]), Some x)
      | Some y \<Rightarrow> (Inl (mkError ''used''), l))
   | _ \<Rightarrow> (Inl (withStatus 400 (mkError ''none'')), l))"

definition toy_net :: "(tx option) stellar_net" where
  "toy_net = \<lparr>sn_ask = toy_ask, sn_now = (\<lambda>_. 0), sn_wait = (\<lambda>_ l. l), sn_build = (\<lambda>_. None), sn_decrypt = Inr, sn_issuer = (\<lambda>_. None),
     sn_fallback = False, sn_jitter = 0, sn_parse_date = (\<lambda>_. None), sn_threshold = 900000, sn_repeat = 900000\<rparr>"

definition toy_applied :: "tx option \<Rightarrow> tx list" where
  "toy_applied l = (case l of None \<Rightarrow> [] | Some x \<Rightarrow> [x])"

definition toy_client :: "(tx option) client" where
  "toy_client = \<lparr>cl_net = None, cl_fallback = None, cl_alerted = None, cl_alerts = []\<rparr>"

definition toy_payment :: payment where
  "toy_payment = \<lparr>py_sender = ''GA'', py_secret = ''SA'', py_recipient = ''GB'', py_amount = ''5.0000000'', py_asset = ''XLM'',
     py_memo = Some ''rent'', py_memo_type = ''text'', py_priority = ''standard''\<rparr>"

lemma toy_lawful: "lawful toy_net toy_applied"
  by (auto simp: lawful_def lawful_answer_def toy_net_def toy_ask_def toy_applied_def result_code_def err_field_def mkError_def
      json_string_def field_def split: request.split option.split)

definition toy_sent :: tx where
  "toy_sent = \<lparr>tx_account = toy_account, tx_copied = False, tx_fee = Fin 100, tx_ops = [Payment ''GB'' None ''5.0000000''],
     tx_memo = Some (MemoText ''rent''), tx_key = ''SA'', tx_built = 0\<rparr>"

lemma toy_run: "cl_net (snd (sendPaymentOnce toy_net (ret False) 30 toy_payment toy_client)) = Some toy_sent"
  by code_simp

section \<open>What a payment leaves on the ledger\<close>

text \<open>
  C5: Sending a payment puts at most one transaction on the ledger, however often it loads, retries, resubmits or falls
  back to the second server, and that one pays the amount to the recipient or locks it for the recipient, later the
  sender. An answer means exactly one, and nothing is on the ledger where the asset is unknown.
\<close>

theorem paid_at_most_once:
  assumes "lawful env applied" and "keeps (unmoved applied (applied (cl_net c))) memoRequired"
  shows "case sendPaymentOnce env memoRequired days p c of (r, c') \<Rightarrow>
    (isl r \<and> applied (cl_net c') = applied (cl_net c)) \<or>
    (\<exists>a x. asset_by_code (sn_issuer env) (py_asset p) = Inr a \<and> delivers p a x \<and> x \<notin> set (applied (cl_net c)) \<and>
       applied (cl_net c') = applied (cl_net c) @ [x])"
  using sendPaymentOnce_once [OF assms, of c days p]
  by (auto simp: wp_def unmoved_def paid_def split: prod.splits sum.splits)

lemma paid_at_most_once_witness:
  "lawful toy_net toy_applied \<and>
   (case sendPaymentOnce toy_net (ret False) 30 toy_payment toy_client of (r, c') \<Rightarrow>
    (isl r \<and> toy_applied (cl_net c') = []) \<or>
    (\<exists>a x. asset_by_code (\<lambda>_. None) ''XLM'' = Inr a \<and> delivers toy_payment a x \<and> x \<notin> {} \<and> toy_applied (cl_net c') = [x])) \<and>
   toy_applied (cl_net (snd (sendPaymentOnce toy_net (ret False) 30 toy_payment toy_client))) = [toy_sent]"
proof -
  have "case sendPaymentOnce toy_net (ret False) 30 toy_payment toy_client of (r, c') \<Rightarrow>
    (isl r \<and> toy_applied (cl_net c') = toy_applied (cl_net toy_client)) \<or>
    (\<exists>a x. asset_by_code (sn_issuer toy_net) (py_asset toy_payment) = Inr a \<and> delivers toy_payment a x \<and>
       x \<notin> set (toy_applied (cl_net toy_client)) \<and> toy_applied (cl_net c') = toy_applied (cl_net toy_client) @ [x])"
    by (rule paid_at_most_once [OF toy_lawful keeps_ret])
  then show ?thesis using toy_lawful toy_run
    by (simp add: toy_applied_def toy_client_def toy_net_def toy_payment_def)
qed

text \<open>
  C24: A batch puts at most one transaction on the ledger, with one payment for each recipient in their order, of
  which there are between 1 and 100; an answer means it is there.
\<close>

theorem batch_all_at_once:
  assumes "lawful env applied"
  shows "case sendBatchPaymentOnce env p rs c of (r, c') \<Rightarrow>
    (isl r \<and> applied (cl_net c') = applied (cl_net c)) \<or>
    (\<exists>a x. asset_by_code (sn_issuer env) (py_asset p) = Inr a \<and> rs \<noteq> [] \<and> length rs \<le> 100 \<and>
       tx_ops x = map (\<lambda>(to, amt). Payment to a amt) rs \<and> applied (cl_net c') = applied (cl_net c) @ [x])"
  using sendBatchPaymentOnce_once [OF assms, of "applied (cl_net c)" c p rs]
  by (auto simp: wp_def unmoved_def paid_def split: prod.splits sum.splits)

lemma batch_all_at_once_witness:
  "case sendBatchPaymentOnce toy_net toy_payment [(''GB'', ''1''), (''GC'', ''2'')] toy_client of (r, c') \<Rightarrow>
    (isl r \<and> toy_applied (cl_net c') = []) \<or>
    (\<exists>x. tx_ops x = [Payment ''GB'' None ''1'', Payment ''GC'' None ''2''] \<and> toy_applied (cl_net c') = [x])"
  using batch_all_at_once [OF toy_lawful, where p = toy_payment and c = toy_client and rs = "[(''GB'', ''1''), (''GC'', ''2'')]"]
  by (auto simp: toy_applied_def toy_client_def toy_net_def toy_payment_def asset_by_code_def split: prod.splits)

section \<open>What never happens\<close>

text \<open>The bump of the sequence number after the loop is dead code: the last attempt of the loop throws.\<close>

lemma escalation_unreachable:
  "send_loop env days p a key exhausted (Suc left) lastErr = send_loop env days p a key exhausted' (Suc left) lastErr'"
proof (induction left arbitrary: lastErr lastErr')
  case (Suc left)
  have same: "send_loop env days p a key exhausted (Suc left) (Some e) = send_loop env days p a key exhausted' (Suc left) (Some e)" for e
    by (rule Suc.IH)
  show ?case by (subst (1 2) send_loop.simps(2)) (simp only: same)
qed (simp only: send_loop.simps(2) simp_thms if_False)

section \<open>Memos and paths\<close>

text \<open>
  C35: A memo that is built fits the network: a text of at most 28 bytes, an id that a 64-bit word holds exactly, or 32
  bytes in hexadecimal.
\<close>

theorem memo_fits:
  assumes "buildStellarMemo m ty = Inr (Some x)"
  shows "case x of MemoText s \<Rightarrow> byte_length s \<le> 28
    | MemoId s \<Rightarrow> uint (word_of_int (digits_val s) :: 64 word) = digits_val s
    | MemoHash h \<Rightarrow> length h = 64 \<and> list_all is_hex h
    | MemoReturn h \<Rightarrow> length h = 64 \<and> list_all is_hex h"
  using assms
  by (auto simp: buildStellarMemo_def Let_def MEMO_ID_MAX_def not_less word_of_int_inverse uint_word_of_int split: if_splits)

lemma memo_fits_witness: "uint (word_of_int (digits_val ''18446744073709551615'') :: 64 word) = digits_val ''18446744073709551615''"
proof -
  have "buildStellarMemo ''18446744073709551615'' ''id'' = Inr (Some (MemoId ''18446744073709551615''))" by code_simp
  from memo_fits [OF this] show ?thesis by simp
qed

lemma memo_text_limit:
  "buildStellarMemo ''12345678901234567890123456789'' [] = Inl (memoValidationError ''Text memo exceeds 28 bytes (29 bytes). Use memo_type=hash for longer memos like encrypted data.'')"
  by code_simp

lemma jle_total: "x \<noteq> NaN \<Longrightarrow> y \<noteq> NaN \<Longrightarrow> \<not> jle x y \<Longrightarrow> jle y x"
  by (cases x; cases y) (auto simp: jle_def)

lemma jle_trans: "jle x y \<Longrightarrow> jle y z \<Longrightarrow> jle x z"
  by (auto simp: jle_def intro: jlt_trans)

lemma jle_refl: "x \<noteq> NaN \<Longrightarrow> jle x x"
  by (simp add: jle_def)

lemma foldl_best:
  assumes "\<And>x. x \<in> set (r # rs) \<Longrightarrow> f x \<noteq> NaN"
  shows "let best = foldl (\<lambda>x y. if jle (f y) (f x) then x else y) r rs in best \<in> set (r # rs) \<and> (\<forall>x \<in> set (r # rs). jle (f x) (f best))"
  using assms
proof (induction rs arbitrary: r)
  case (Cons s rs)
  let ?m = "if jle (f s) (f r) then r else s"
  have m: "?m \<in> set (r # s # rs)" "jle (f r) (f ?m)" "jle (f s) (f ?m)"
    using Cons.prems [of r] Cons.prems [of s] by (auto intro: jle_refl jle_total)
  have "let best = foldl (\<lambda>x y. if jle (f y) (f x) then x else y) ?m rs in best \<in> set (?m # rs) \<and> (\<forall>x \<in> set (?m # rs). jle (f x) (f best))"
    by (rule Cons.IH) (use Cons.prems m in auto)
  then show ?case using m by (auto simp: Let_def intro: jle_trans split: if_splits)
qed (simp add: jle_refl)

lemma mk_number: "mk x \<noteq> NaN"
  by (simp add: mk_def Let_def)

lemma numeric_string_number: "numeric_string s \<Longrightarrow> parseFloat s \<noteq> NaN"
proof -
  assume "numeric_string s"
  then obtain d t where s: "s = d # t" "is_digit d" by (cases s) (auto simp: numeric_string_def Let_def split: if_splits)
  then have "\<not> is_space d" "d \<noteq> CHR ''-''" "d \<noteq> CHR ''+''" "d \<noteq> CHR ''I''"
    by (auto simp: is_digit_def is_space_def Let_def)
  then show ?thesis using s
    by (auto simp: parseFloat_def unsign_def JsText.signed_def decimal_prefix_def Let_def mk_number split: prod.split)
qed

text \<open>
  The path chosen for a payment is one that Horizon offered, and no other offers the recipient more.
\<close>

theorem best_path_chosen:
  assumes "PathPageSchema (Some page)" "field (Some page) ''records'' = Some (JArr rs)" "rs \<noteq> []"
  shows "\<exists>r \<in> set rs. path_of more_received ''destination_amount'' page = Some (get r ''destination_amount'', get r ''path'') \<and>
    (\<forall>x \<in> set rs. jle (amount_of ''destination_amount'' x) (amount_of ''destination_amount'' r))"
proof -
  obtain r qs where rs: "rs = r # qs" using assms(3) by (cases rs) auto
  have number: "amount_of ''destination_amount'' x \<noteq> NaN" if "x \<in> set (r # qs)" for x
  proof -
    have "PathRecordSchema (Some x)"
      using that assms(1,2) by (auto simp: rs PathPageSchema_def arr_of_def list_all_iff)
    then obtain d where "field (Some x) ''destination_amount'' = Some (JStr d)" "numeric_string d"
      by (auto simp: PathRecordSchema_def NumericStringSchema_def split: option.splits json.splits)
    then show ?thesis using numeric_string_number by (simp add: amount_of_def)
  qed
  have best: "reduce_best more_received rs \<in> set rs \<and>
      (\<forall>x \<in> set rs. jle (amount_of ''destination_amount'' x) (amount_of ''destination_amount'' (reduce_best more_received rs)))"
    unfolding rs reduce_best_def more_received_def list.sel
    by (rule foldl_best [of r qs "amount_of ''destination_amount''", unfolded Let_def]) (rule number)
  have path: "path_of more_received ''destination_amount'' page = Some (get (reduce_best more_received rs) ''destination_amount'',
      get (reduce_best more_received rs) ''path'')"
    by (simp add: path_of_def assms(2) rs Let_def)
  from best path show ?thesis by (intro bexI [where x = "reduce_best more_received rs"]) simp_all
qed

lemma best_path_chosen_witness:
  "path_of more_received ''destination_amount'' (JObj [(''records'', JArr [JObj [(''destination_amount'', JStr ''9''), (''path'', JArr [])],
     JObj [(''destination_amount'', JStr ''10''), (''path'', JArr [])]])]) = Some (JStr ''10'', JArr [])"
proof -
  let ?r = "JObj [(''destination_amount'', JStr ''9''), (''path'', JArr [])]" and ?s = "JObj [(''destination_amount'', JStr ''10''), (''path'', JArr [])]"
  have ok: "PathPageSchema (Some (JObj [(''records'', JArr [?r, ?s])]))" by code_simp
  have "amount_of ''destination_amount'' ?r = mk 9" "amount_of ''destination_amount'' ?s = mk 10"
    by (simp_all add: amount_of_def field_def parseFloat_def unsign_def is_space_def is_digit_def JsText.signed_def decimal_prefix_def exponent_def
      digits_val_def digit_val_def Let_def)
  moreover have "mk 9 = Fin 9" "mk 10 = Fin 10" using mk_int [of 9] mk_int [of 10] by simp_all
  ultimately have no: "\<not> jle (amount_of ''destination_amount'' ?s) (amount_of ''destination_amount'' ?r)" by simp
  show ?thesis using best_path_chosen [OF ok, of "[?r, ?s]"] no by (auto simp: field_def get_def)
qed

end
