(* ===== verification/StellarOps.thy ===== *)
theory StellarOps
  imports Payments
begin

text \<open>
  The other operations on accounts of the network (\<^verbatim>\<open>services/stellar.js\<close>): balances, trustlines, signers, flags, data
  entries, merge and clawback, the expiry of a claimable balance, and the text a secret key is stored as. What a claimable balance
  looks like and what the cipher does are parameters.
\<close>

section \<open>Reading an account\<close>

definition val :: "json option \<Rightarrow> json" where
  "val v = (case v of Some x \<Rightarrow> x | None \<Rightarrow> JNull)"

definition or_null :: "json option \<Rightarrow> json" where
  "or_null v = (if truthy v then val v else JNull)"

definition list_field :: "json \<Rightarrow> string \<Rightarrow> jserr + json list" where
  "list_field v k = (case field (Some v) k of Some (JArr xs) \<Rightarrow> Inr xs | _ \<Rightarrow> Inl (typeError ''Cannot read properties of undefined''))"

definition BASE_RESERVE :: jsnum where "BASE_RESERVE = Fin (1 / 2)"

text \<open>\<open>x.toFixed(7)\<close> below \<open>10 ^ 21\<close>.\<close>

definition toFixed7 :: "jsnum \<Rightarrow> string" where
  "toFixed7 x = (case x of Fin q \<Rightarrow> (if q < 0 then ''-'' else []) @ dec7_text \<bar>fixed 7 q\<bar> | NaN \<Rightarrow> ''NaN'' | PosInf \<Rightarrow> ''Infinity'' | NegInf \<Rightarrow> ''-Infinity'')"

text \<open>\<open>account.subentry_count || 0\<close>: a count that is given is a number.\<close>

definition num_subentries :: "json \<Rightarrow> jsnum" where
  "num_subentries acct = (case field (Some acct) ''subentry_count'' of Some (JNum x) \<Rightarrow> jor x (Fin 0) | _ \<Rightarrow> Fin 0)"

definition min_balance :: "json \<Rightarrow> jsnum" where
  "min_balance acct = jmul (jadd (Fin 2) (num_subentries acct)) BASE_RESERVE"

definition native_entry :: "jsnum \<Rightarrow> json \<Rightarrow> json" where
  "native_entry minBalance b = JObj [(''asset_type'', JStr ''native''), (''asset_code'', JStr ''XLM''), (''asset_issuer'', JNull), (''asset'', JStr ''XLM''),
     (''balance'', get b ''balance''), (''available_balance'', JStr (toFixed7 (jmax (Fin 0) (jsub (amount_of ''balance'' b) minBalance)))),
     (''min_balance'', JStr (toFixed7 minBalance)), (''minimum_balance_reserve'', JStr (toFixed7 minBalance))]"

definition asset_entry :: "json \<Rightarrow> json" where
  "asset_entry b = JObj [(''asset_type'', get b ''asset_type''), (''asset_code'', get b ''asset_code''), (''asset_issuer'', or_null (field (Some b) ''asset_issuer'')),
     (''asset'', get b ''asset_code''), (''balance'', get b ''balance''), (''limit'', or_null (field (Some b) ''limit'')),
     (''is_authorized'', case field (Some b) ''is_authorized'' of None \<Rightarrow> JBool True | Some JNull \<Rightarrow> JBool True | Some v \<Rightarrow> v)]"

definition balance_entry :: "jsnum \<Rightarrow> json \<Rightarrow> json" where
  "balance_entry minBalance b = (if field (Some b) ''asset_type'' = Some (JStr ''native'') then native_entry minBalance b else asset_entry b)"

definition loaded :: "'l stellar_net \<Rightarrow> string \<Rightarrow> string \<Rightarrow> ('l, json) call" where
  "loaded env label pk = validated AccountResponseSchema label (with_retry env 3 (load_account env pk))"

definition getBalance :: "'l stellar_net \<Rightarrow> string \<Rightarrow> ('l, json) call" where
  "getBalance env pk = catch
     (bnd (loaded env ''loadAccount'' pk) (\<lambda>acct. bnd (lift (list_field acct ''balances'')) (\<lambda>bs.
        ret (JObj [(''account_exists'', JBool True), (''num_subentries'', JNum (num_subentries acct)),
          (''balances'', JArr (map (balance_entry (min_balance acct)) bs))]))))
     (\<lambda>e. if response_status e = Some 404 then ret (JObj [(''account_exists'', JBool False), (''balances'', JArr [])]) else throw e)"

definition signer_entry :: "json \<Rightarrow> json" where
  "signer_entry s = JObj [(''key'', get s ''key''), (''weight'', get s ''weight''), (''type'', get s ''type'')]"

definition getAccountSigners :: "'l stellar_net \<Rightarrow> string \<Rightarrow> ('l, json) call" where
  "getAccountSigners env pk = bnd (loaded env ''loadAccount(signers)'' pk) (\<lambda>acct. bnd (lift (list_field acct ''signers'')) (\<lambda>ss.
     ret (JObj [(''signers'', JArr (map signer_entry ss)), (''thresholds'', get acct ''thresholds''),
       (''inflation_destination'', or_null (field (Some acct) ''inflation_destination''))])))"

text \<open>Through the primary server alone.\<close>

definition primary :: "'l stellar_net \<Rightarrow> request \<Rightarrow> ('l, json) call" where
  "primary env q = with_retry env 3 (ask env False q)"

definition getTrustlines :: "'l stellar_net \<Rightarrow> string \<Rightarrow> ('l, json) call" where
  "getTrustlines env pk = bnd (validated AccountResponseSchema ''loadAccount(trustlines)'' (primary env (LoadAccount pk))) (\<lambda>acct.
     bnd (lift (list_field acct ''balances'')) (\<lambda>bs.
       ret (JArr (map (\<lambda>b. JObj [(''asset'', get b ''asset_code''), (''issuer'', get b ''asset_issuer''), (''balance'', get b ''balance''), (''limit'', get b ''limit'')])
         (filter (\<lambda>b. field (Some b) ''asset_type'' \<noteq> Some (JStr ''native'')) bs)))))"

definition getAccountFlags :: "'l stellar_net \<Rightarrow> string \<Rightarrow> ('l, json) call" where
  "getAccountFlags env pk = bnd (with_retry env 3 (load_account env pk)) (\<lambda>acct.
     let flag = (\<lambda>k. (k, JBool (truthy (field (field (Some acct) ''flags'') k)))) in
     ret (JObj (map flag [''auth_required'', ''auth_revocable'', ''auth_immutable'', ''auth_clawback_enabled''])))"

text \<open>\<open>decode\<close> reads base64 as UTF-8.\<close>

definition getDataEntries :: "'l stellar_net \<Rightarrow> (string \<Rightarrow> string) \<Rightarrow> string \<Rightarrow> ('l, (string \<times> string) list) call" where
  "getDataEntries env decode pk = bnd (with_retry env 3 (load_account env pk)) (\<lambda>acct.
     ret (case field (Some acct) ''data_attr'' of
       Some (JObj fs) \<Rightarrow> map (\<lambda>(k, v). (k, decode (case v of JStr s \<Rightarrow> s | _ \<Rightarrow> []))) fs | _ \<Rightarrow> []))"

definition getTransactions :: "'l stellar_net \<Rightarrow> string \<Rightarrow> nat \<Rightarrow> ('l, json) call" where
  "getTransactions env pk limit = catch
     (bnd (validated TransactionPageSchema ''transactions.forAccount'' (horizon env (AccountTransactions pk limit))) (\<lambda>page.
      bnd (lift (list_field page ''records'')) (\<lambda>rs.
       ret (JArr (map (\<lambda>x. JObj [(''id'', get x ''id''), (''hash'', get x ''hash''), (''createdAt'', get x ''created_at''), (''memo'', get x ''memo''),
         (''successful'', get x ''successful'')]) rs)))))
     (\<lambda>_. ret (JArr []))"

text \<open>\<open>canary\<close>: the key given, that of the environment, or the well-known one.\<close>

definition detectTestnetReset :: "'l stellar_net \<Rightarrow> bool \<Rightarrow> string \<Rightarrow> ('l, bool) call" where
  "detectTestnetReset env isTestnet canary =
     (if \<not> isTestnet then ret False
      else catch (andThen (load_account env canary) (ret False))
        (\<lambda>e. if response_status e = Some 404 then ret True else throw e))"

text \<open>\<open>federation\<close> answers for the domain after the first star.\<close>

definition resolveFederationAddress :: "(string \<Rightarrow> string \<Rightarrow> jserr + string) \<Rightarrow> string \<Rightarrow> jserr + string" where
  "resolveFederationAddress federation address =
     (if CHR ''*'' \<notin> set address then Inr address
      else let domain = takeWhile (\<lambda>c. c \<noteq> CHR ''*'') (tl (dropWhile (\<lambda>c. c \<noteq> CHR ''*'') address)) in
        case federation domain address of Inr a \<Rightarrow> Inr a
        | Inl _ \<Rightarrow> Inl (withStatus 400 (mkError (''Failed to resolve federation address: '' @ address))))"

definition validateNetworkPassphrase :: "string \<Rightarrow> string \<Rightarrow> jserr + unit" where
  "validateNetworkPassphrase networkPassphrase txPassphrase =
     (if txPassphrase \<noteq> [] \<and> txPassphrase \<noteq> networkPassphrase
      then Inl (withStatus 400 (mkError (''Network passphrase mismatch. Transaction was signed for \"'' @ txPassphrase @
        ''\" but server is configured for \"'' @ networkPassphrase @ ''\". Check STELLAR_NETWORK environment variable.'')))
      else Inr ())"

section \<open>One operation on an account\<close>

text \<open>The steps every management call has: the account, the fee, one operation, its submission.\<close>

definition run_op :: "'l stellar_net \<Rightarrow> string \<Rightarrow> ('l, json) call \<Rightarrow> bool \<Rightarrow> ('l, jsnum) call \<Rightarrow> stellar_op \<Rightarrow> (tx \<Rightarrow> ('l, json) call) \<Rightarrow> ('l, json) call" where
  "run_op env key load copied feeOf op submit = bnd load (\<lambda>acct. bnd feeOf (\<lambda>fee. bnd (build_tx env key acct copied fee [op] None) submit))"

definition submit_op :: "'l stellar_net \<Rightarrow> tx \<Rightarrow> ('l, json) call" where
  "submit_op env x = with_retry env 3 (horizon env (Submit x))"

definition submit_primary :: "'l stellar_net \<Rightarrow> string \<Rightarrow> tx \<Rightarrow> ('l, json) call" where
  "submit_primary env label x = validated TransactionSubmitResponseSchema label (primary env (Submit x))"

definition primary_fee :: "'l stellar_net \<Rightarrow> ('l, jsnum) call" where
  "primary_fee env = bnd (primary env BaseFee) (\<lambda>v. ret (json_number (Some v)))"

definition hash_answer :: "json \<Rightarrow> json" where
  "hash_answer result = JObj [(''transactionHash'', get result ''hash'')]"

definition with_key :: "'l stellar_net \<Rightarrow> string \<Rightarrow> (string \<Rightarrow> ('l, 'a) call) \<Rightarrow> ('l, 'a) call" where
  "with_key env secret k = bnd (lift (sn_decrypt env secret)) k"

definition clearInflationDestination :: "'l stellar_net \<Rightarrow> string \<Rightarrow> string \<Rightarrow> ('l, json) call" where
  "clearInflationDestination env pk secret = with_key env secret (\<lambda>key.
     bnd (run_op env key (with_retry env 3 (load_account env pk)) False (fetchFee env) ClearInflation (submit_op env)) (\<lambda>r. ret (hash_answer r)))"

text \<open>An issuer that is given replaces the configured one.\<close>

definition addTrustline :: "'l stellar_net \<Rightarrow> string \<Rightarrow> string \<Rightarrow> string \<Rightarrow> string option \<Rightarrow> string option \<Rightarrow> ('l, json) call" where
  "addTrustline env pk secret code limit issuer =
     bnd (lift (case issuer of Some i \<Rightarrow> if i = [] then asset_by_code (sn_issuer env) code else Inr (Some (code, i)) | None \<Rightarrow> asset_by_code (sn_issuer env) code)) (\<lambda>a.
     with_key env secret (\<lambda>key. withSequenceRecovery
       (bnd (run_op env key (validated AccountResponseSchema ''loadAccount(trustline)'' (primary env (LoadAccount pk))) True (primary_fee env)
          (ChangeTrust a limit) (submit_primary env ''submitTransaction(addTrustline)'')) (\<lambda>r. ret (hash_answer r)))))"

definition removeTrustline :: "'l stellar_net \<Rightarrow> string \<Rightarrow> string \<Rightarrow> string \<Rightarrow> string option \<Rightarrow> ('l, json) call" where
  "removeTrustline env pk secret code issuer = addTrustline env pk secret code (Some ''0'') issuer"

definition set_signer :: "'l stellar_net \<Rightarrow> string \<Rightarrow> string \<Rightarrow> string \<Rightarrow> string \<Rightarrow> stellar_op \<Rightarrow> ('l, json) call" where
  "set_signer env loadLabel submitLabel pk secret op = with_key env secret (\<lambda>key.
     bnd (run_op env key (validated AccountResponseSchema loadLabel (primary env (LoadAccount pk))) True (primary_fee env) op
       (submit_primary env submitLabel)) (\<lambda>r. ret (hash_answer r)))"

text \<open>The thresholds are low, medium and high.\<close>

definition addAccountSigner :: "'l stellar_net \<Rightarrow> string \<Rightarrow> string \<Rightarrow> string \<Rightarrow> nat \<Rightarrow> ('l, json) call" where
  "addAccountSigner env pk secret signer weight =
     set_signer env ''loadAccount(multisig)'' ''submitTransaction(addSigner)'' pk secret (SetSigner signer weight (Some (1, 2, 2)))"

definition removeAccountSigner :: "'l stellar_net \<Rightarrow> string \<Rightarrow> string \<Rightarrow> string \<Rightarrow> nat \<Rightarrow> ('l, json) call" where
  "removeAccountSigner env pk secret signer remainingSigners =
     set_signer env ''loadAccount(removeSigner)'' ''submitTransaction(removeSigner)'' pk secret
       (SetSigner signer 0 (if 0 < remainingSigners then None else Some (1, 1, 1)))"

definition ledger_answer :: "json \<Rightarrow> json" where
  "ledger_answer result = JObj [(''transactionHash'', get result ''hash''), (''ledger'', get result ''ledger'')]"

definition mergeAccount :: "'l stellar_net \<Rightarrow> string \<Rightarrow> string \<Rightarrow> string \<Rightarrow> ('l, json) call" where
  "mergeAccount env pk secret destination = with_key env secret (\<lambda>key.
     bnd (run_op env key (loaded env ''loadAccount(merge)'' pk) True (fetchFee env) (AccountMerge destination)
       (submit_validated env (with_retry env 3) ''submitTransaction(merge)'')) (\<lambda>r. ret (ledger_answer r)))"

definition clawbackAsset :: "'l stellar_net \<Rightarrow> string \<Rightarrow> string \<Rightarrow> string \<Rightarrow> string \<Rightarrow> string \<Rightarrow> ('l, json) call" where
  "clawbackAsset env pk secret holder code amt = bnd (lift (asset_by_code (sn_issuer env) code)) (\<lambda>a. with_key env secret (\<lambda>key.
     bnd (run_op env key (loaded env ''loadAccount(clawback)'' pk) True (fetchFee env) (Clawback a holder amt)
       (submit_validated env (with_retry env 3) ''submitTransaction(clawback)'')) (\<lambda>r. ret (ledger_answer r))))"

definition setAccountFlags :: "'l stellar_net \<Rightarrow> string \<Rightarrow> string \<Rightarrow> jsnum option \<Rightarrow> jsnum option \<Rightarrow> ('l, json) call" where
  "setAccountFlags env pk secret setFlags clearFlags = with_key env secret (\<lambda>key.
     bnd (run_op env key (with_retry env 3 (load_account env pk)) False (fetchFee env) (SetFlags setFlags clearFlags)
       (submit_validated env (with_retry env 3) ''submitTransaction(setFlags)'')) (\<lambda>r. ret (hash_answer r)))"

definition setDataEntry :: "'l stellar_net \<Rightarrow> string \<Rightarrow> string \<Rightarrow> string \<Rightarrow> string option \<Rightarrow> ('l, json) call" where
  "setDataEntry env pk secret name value = with_key env secret (\<lambda>key.
     bnd (run_op env key (with_retry env 3 (load_account env pk)) False (fetchFee env) (ManageData name value) (submit_op env)) (\<lambda>r. ret (hash_answer r)))"

text \<open>Such an operation reaches the ledger at most once, signed with the key that was stored.\<close>

definition op_by :: "string \<Rightarrow> stellar_op \<Rightarrow> tx \<Rightarrow> bool" where
  "op_by key op x \<longleftrightarrow> tx_ops x = [op] \<and> tx_key x = key"

definition signed_op :: "'l stellar_net \<Rightarrow> string \<Rightarrow> stellar_op \<Rightarrow> tx \<Rightarrow> bool" where
  "signed_op env secret op x \<longleftrightarrow> tx_ops x = [op] \<and> sn_decrypt env secret = Inr (tx_key x)"

lemma run_op_once:
  assumes law: "lawful env applied" and load: "loads applied A load" and fee: "keeps (unmoved applied A) feeOf"
    and sub: "\<And>x c. x \<notin> set A \<Longrightarrow> op_by key op x \<Longrightarrow> unmoved applied A c \<Longrightarrow>
      wp (sub x) (\<lambda>_ c'. paid applied A (op_by key op) (cl_net c')) (\<lambda>e c'. perhaps applied A (op_by key op) e (cl_net c')) c"
  shows "attempts applied A (op_by key op) (run_op env key load copied feeOf op sub)"
proof (intro allI impI)
  fix c assume c: "unmoved applied A c"
  let ?P = "op_by key op"
  show "wp (run_op env key load copied feeOf op sub) (\<lambda>_ c'. paid applied A ?P (cl_net c')) (\<lambda>e c'. perhaps applied A ?P e (cl_net c')) c"
    unfolding run_op_def
    apply (subst wp_bnd)
    apply (rule wp_mono [OF load [rule_format, OF c]])
     apply (rule built_once [OF law, where memo = "Inr None" and k = ret, unfolded bnd_lift bnd_ret])
          apply (simp_all add: fee wps perhaps_unmoved op_by_def [of key op])
     apply (rule sub [unfolded op_by_def [of key op]])
       apply simp_all
    done
qed

lemma with_key_once:
  assumes "\<And>key. attempts applied A (op_by key op) (k key)" "unmoved applied A c"
  shows "wp (with_key env secret (\<lambda>key. bnd (k key) (\<lambda>r. ret (f r)))) (\<lambda>_ c'. paid applied A (signed_op env secret op) (cl_net c'))
    (\<lambda>e c'. perhaps applied A (signed_op env secret op) e (cl_net c')) c"
proof (cases "sn_decrypt env secret")
  case (Inr key)
  have "signed_op env secret op = op_by key op" by (auto simp: fun_eq_iff signed_op_def op_by_def Inr)
  then show ?thesis using assms(1) [of key] assms(2) by (auto simp: with_key_def Inr wps elim!: wp_mono)
qed (use assms(2) in \<open>simp add: with_key_def wps perhaps_unmoved\<close>)

text \<open>A merge and a clawback; a data entry.\<close>

lemma validated_op_once:
  assumes law: "lawful env applied" and c: "unmoved applied A c"
  shows "wp (with_key env secret (\<lambda>key. bnd (run_op env key (loaded env label pk) True (fetchFee env) op
       (submit_validated env (with_retry env 3) label')) (\<lambda>r. ret (f r))))
    (\<lambda>_ c'. paid applied A (signed_op env secret op) (cl_net c')) (\<lambda>e c'. perhaps applied A (signed_op env secret op) e (cl_net c')) c"
  apply (rule with_key_once [OF run_op_once [OF law] c])
    apply (unfold loaded_def, intro loads_validated loads_again law loads_account)
   apply (rule reads_fetchFee [OF law])
  apply (rule submit_validated_once [where again = "with_retry env 3", OF submits_again(1) [OF law]])
    apply simp_all
  done

lemma mergeAccount_once:
  assumes "lawful env applied" "unmoved applied A c"
  shows "wp (mergeAccount env pk secret destination) (\<lambda>_ c'. paid applied A (signed_op env secret (AccountMerge destination)) (cl_net c'))
    (\<lambda>e c'. perhaps applied A (signed_op env secret (AccountMerge destination)) e (cl_net c')) c"
  unfolding mergeAccount_def by (rule validated_op_once [OF assms])

lemma clawbackAsset_once:
  assumes "lawful env applied" "unmoved applied A c" "asset_by_code (sn_issuer env) code = Inr a"
  shows "wp (clawbackAsset env pk secret holder code amt) (\<lambda>_ c'. paid applied A (signed_op env secret (Clawback a holder amt)) (cl_net c'))
    (\<lambda>e c'. perhaps applied A (signed_op env secret (Clawback a holder amt)) e (cl_net c')) c"
  unfolding clawbackAsset_def assms(3) bnd_lift by (rule validated_op_once [OF assms(1,2)])

lemma setDataEntry_once:
  assumes law: "lawful env applied" and c: "unmoved applied A c"
  shows "wp (setDataEntry env pk secret name v) (\<lambda>_ c'. paid applied A (signed_op env secret (ManageData name v)) (cl_net c'))
    (\<lambda>e c'. perhaps applied A (signed_op env secret (ManageData name v)) e (cl_net c')) c"
  unfolding setDataEntry_def
  apply (rule with_key_once [OF run_op_once [OF law] c])
    apply (intro loads_again law loads_account)
   apply (rule reads_fetchFee [OF law])
  apply (unfold submit_op_def)
  apply (rule wp_mono [OF submits_again(1) [OF law]])
     apply (auto intro: paid_mono perhaps_mono)
  done

section \<open>The expiry of a claimable balance\<close>

definition first_some :: "('a \<Rightarrow> 'b option) \<Rightarrow> 'a list \<Rightarrow> 'b option" where
  "first_some f xs = fold (\<lambda>x r. case r of None \<Rightarrow> f x | Some y \<Rightarrow> Some y) xs None"

lemma first_some_simps [simp]: "first_some f [] = None" "first_some f (x # xs) = (case f x of None \<Rightarrow> first_some f xs | Some y \<Rightarrow> Some y)"
proof -
  have "fold (\<lambda>x r. case r of None \<Rightarrow> f x | Some y \<Rightarrow> Some y) xs (Some y) = Some y" for y
    by (induction xs) simp_all
  then show "first_some f (x # xs) = (case f x of None \<Rightarrow> first_some f xs | Some y \<Rightarrow> Some y)"
    by (simp add: first_some_def split: option.split)
qed (simp add: first_some_def)

lemma first_some_cong [fundef_cong]: "xs = ys \<Longrightarrow> (\<And>x. x \<in> set ys \<Longrightarrow> f x = g x) \<Longrightarrow> first_some f xs = first_some g ys"
  by (induction xs arbitrary: ys) (auto split: option.split)

text \<open>\<open>Array.isArray(v) ? v : [v]\<close>.\<close>

definition children :: "json option \<Rightarrow> json list" where
  "children v = (case v of Some (JArr xs) \<Rightarrow> xs | Some x \<Rightarrow> [x] | None \<Rightarrow> [])"

lemma field_size: "field (Some v) k = Some x \<Longrightarrow> size x < size v"
proof -
  assume "field (Some v) k = Some x"
  then obtain fs where v: "v = JObj fs" "(k, x) \<in> set fs"
    by (auto simp: field_def split: json.splits dest: map_of_SomeD)
  then show ?thesis
    using v size_list_estimation' [of "(k, x)" fs "size x" "size_prod (\<lambda>_. 0) size"] by (auto simp: v)
qed

text \<open>\<open>new Date(v).getTime()\<close> of a truthy value; \<open>parse\<close> reads a date text.\<close>

definition date_of :: "(string \<Rightarrow> int option) \<Rightarrow> json \<Rightarrow> int option" where
  "date_of parse v = (case v of JStr s \<Rightarrow> parse s | JNum (Fin x) \<Rightarrow> Some (if x < 0 then \<lceil>x\<rceil> else \<lfloor>x\<rfloor>) | JBool b \<Rightarrow> Some (if b then 1 else 0) | _ \<Rightarrow> None)"

function visitPredicate :: "(string \<Rightarrow> int option) \<Rightarrow> json \<Rightarrow> int option" where
  "visitPredicate parse p = (if \<not> is_obj (Some p) then None
     else if truthy (field (Some p) ''abs_before'') then date_of parse (get p ''abs_before'')
     else first_some (visitPredicate parse) (children (field (Some p) ''not'') @ children (field (Some p) ''and'') @ children (field (Some p) ''or'')))"
  by pat_completeness auto

lemma children_size: "x \<in> set (children (field (Some p) k)) \<Longrightarrow> size x < size p"
proof -
  assume x: "x \<in> set (children (field (Some p) k))"
  then obtain v where v: "field (Some p) k = Some v" by (cases "field (Some p) k") (auto simp: children_def)
  have "size x \<le> size v" using x v by (auto simp: children_def split: json.splits dest: size_list_estimation' [where f = size])
  with field_size [OF v] show ?thesis by simp
qed

termination visitPredicate
  by (relation "measure (\<lambda>(_, p). size p)") (auto dest: children_size)

declare visitPredicate.simps [simp del]

text \<open>A predicate given as a text is parsed; \<open>parse_json\<close> is \<open>JSON.parse\<close>.\<close>

definition claimant_expiry :: "(string \<Rightarrow> int option) \<Rightarrow> (string \<Rightarrow> json option) \<Rightarrow> json \<Rightarrow> int option" where
  "claimant_expiry parse parse_json c = (case field (Some c) ''predicate'' of
     Some (JStr s) \<Rightarrow> (case parse_json s of Some p \<Rightarrow> visitPredicate parse p | None \<Rightarrow> None)
   | Some p \<Rightarrow> visitPredicate parse p | None \<Rightarrow> None)"

definition getClaimableBalanceExpiry :: "(string \<Rightarrow> int option) \<Rightarrow> (string \<Rightarrow> json option) \<Rightarrow> json \<Rightarrow> int option" where
  "getClaimableBalanceExpiry parse parse_json b = first_some (claimant_expiry parse parse_json) (children (field (Some b) ''claimants''))"

text \<open>How the network shows the predicates the code creates: a time as its seconds read back.\<close>

fun shown :: "(string \<Rightarrow> string) \<Rightarrow> predicate \<Rightarrow> json" where
  "shown date_text (BeforeAbsoluteTime s) = JObj [(''abs_before'', JStr (date_text s)), (''abs_before_epoch'', JStr s)]"
| "shown date_text (PredNot p) = JObj [(''not'', shown date_text p)]"

definition shown_balance :: "(string \<Rightarrow> string) \<Rightarrow> (string \<times> predicate) list \<Rightarrow> json" where
  "shown_balance date_text cs = JObj [(''claimants'', JArr (map (\<lambda>(d, p). JObj [(''destination'', JStr d), (''predicate'', shown date_text p)]) cs))]"

lemma visit_shown: "date_text s \<noteq> [] \<Longrightarrow> visitPredicate parse (shown date_text (BeforeAbsoluteTime s)) = parse (date_text s)"
  by (simp add: visitPredicate.simps is_obj_def field_def get_def date_of_def)

text \<open>
  The expiry of a claimable balance the code created is read back from what the network shows of it, given that
  the time the network writes for a number of seconds is read as that time.
\<close>

theorem expiry_reads_back:
  assumes "n = claim_expiry days t div 1000" and "date_text (show_int n) \<noteq> []" and "parse (date_text (show_int n)) = Some (n * 1000)"
  shows "getClaimableBalanceExpiry parse parse_json (shown_balance date_text (claimants recipient sender (claim_expiry days t))) = Some (claim_expiry days t)"
proof -
  have "claim_expiry days t div 1000 * 1000 = claim_expiry days t" by (simp add: claim_expiry_def)
  then show ?thesis
    using assms visit_shown [of date_text "show_int n" parse]
    by (simp add: getClaimableBalanceExpiry_def shown_balance_def claimants_def Let_def field_def children_def claimant_expiry_def)
qed

lemma expiry_reads_back_witness:
  "getClaimableBalanceExpiry (\<lambda>s. if s = ''1970-01-31T00:00:01Z'' then Some 2592001000 else None) (\<lambda>_. None)
     (shown_balance (\<lambda>s. if s = ''2592001'' then ''1970-01-31T00:00:01Z'' else ''1970-01-01T00:00:00Z'') (claimants ''GB'' ''GA'' (claim_expiry 30 1234)))
   = Some (claim_expiry 30 1234)"
  by (rule expiry_reads_back [where n = 2592001]) (simp_all add: claim_expiry_def show_int_def show_nat_eval, code_simp)

section \<open>Secret keys at rest\<close>

text \<open>Bytes in hexadecimal; \<open>Buffer.from(s, 'hex')\<close> stops at the first pair that is none.\<close>

definition hex_digit :: "nat \<Rightarrow> char" where
  "hex_digit n = char_of (if n < 10 then 48 + n else 87 + n)"

definition to_hex :: "string \<Rightarrow> string" where
  "to_hex s = concat (map (\<lambda>c. let n = of_char c :: nat in [hex_digit (n div 16), hex_digit (n mod 16)]) s)"

fun from_hex :: "string \<Rightarrow> string" where
  "from_hex (a # b # s) = (case (radix_digit a, radix_digit b) of (Some x, Some y) \<Rightarrow> char_of (16 * x + y) # from_hex s | _ \<Rightarrow> [])"
| "from_hex _ = []"

text \<open>AES-256-CBC as \<open>encipher key iv plain\<close> and its inverse, which fails on a bad padding or size.\<close>

definition cipher_key :: "string \<Rightarrow> jserr + string" where
  "cipher_key secret = (let k = take 32 secret in if length k = 32 then Inr k else Inl ((mkError ''Invalid key length'')\<lparr>err_name := ''RangeError''\<rparr>))"

definition encryptPrivateKey :: "(string \<Rightarrow> string \<Rightarrow> string \<Rightarrow> string) \<Rightarrow> string \<Rightarrow> string \<Rightarrow> string \<Rightarrow> jserr + string" where
  "encryptPrivateKey encipher secret iv plain = (case cipher_key secret of Inl e \<Rightarrow> Inl e
     | Inr k \<Rightarrow> Inr (to_hex iv @ '':'' @ to_hex (encipher k iv plain)))"

definition split_colon :: "string \<Rightarrow> string \<times> string option" where
  "split_colon s = (let r = dropWhile (\<lambda>c. c \<noteq> CHR '':'') s in
     (takeWhile (\<lambda>c. c \<noteq> CHR '':'') s, if r = [] then None else Some (takeWhile (\<lambda>c. c \<noteq> CHR '':'') (tl r))))"

definition decryptPrivateKey :: "(string \<Rightarrow> string \<Rightarrow> string \<Rightarrow> jserr + string) \<Rightarrow> string \<Rightarrow> string \<Rightarrow> jserr + string" where
  "decryptPrivateKey decipher secret enc = (case split_colon enc of
     (iv, None) \<Rightarrow> Inl (typeError ''The first argument must be of type string'')
   | (iv, Some ct) \<Rightarrow> (case cipher_key secret of Inl e \<Rightarrow> Inl e | Inr k \<Rightarrow> decipher k (from_hex iv) (from_hex ct)))"

lemma radix_hex_digit: "n < 16 \<Longrightarrow> radix_digit (hex_digit n) = Some n"
  by (cases "n < 10") (auto simp: radix_digit_def hex_digit_def lower_char_def Let_def of_char_of)

lemma from_to_hex: "from_hex (to_hex s) = s"
proof (induction s)
  case (Cons c s)
  have "of_char c < (256 :: nat)" by simp
  then have "(of_char c :: nat) div 16 < 16" by (simp add: div_less_iff_less_mult)
  then show ?case using Cons by (simp add: to_hex_def Let_def radix_hex_digit)
qed (simp add: to_hex_def)

lemma to_hex_colon: "CHR '':'' \<notin> set (to_hex s)"
proof -
  have no: "(CHR '':'' = hex_digit n) = False" if "n < 16" for n
  proof -
    have "radix_digit (CHR '':'') = None" by code_simp
    then show ?thesis using radix_hex_digit [OF that] by (metis option.distinct(1))
  qed
  have high: "(of_char c :: nat) div 16 < 16" for c :: char
  proof -
    have "(of_char c :: nat) < 256" by simp
    then show ?thesis by (simp add: div_less_iff_less_mult)
  qed
  show ?thesis by (induction s) (simp_all add: to_hex_def Let_def no [OF high] no)
qed

text \<open>
  A secret key that is stored encrypted is read back, whatever the random bytes, given a key of at least 32
  characters and a cipher whose second half undoes the first.
\<close>

theorem secret_roundtrip:
  assumes "32 \<le> length secret" and "\<And>k iv p. decipher k iv (encipher k iv p) = Inr p"
  shows "\<exists>text. encryptPrivateKey encipher secret iv plain = Inr text \<and> decryptPrivateKey decipher secret text = Inr plain"
proof -
  have take: "takeWhile (\<lambda>c. c \<noteq> CHR '':'') (to_hex iv @ CHR '':'' # t) = to_hex iv"
    "dropWhile (\<lambda>c. c \<noteq> CHR '':'') (to_hex iv @ CHR '':'' # t) = CHR '':'' # t"
    "takeWhile (\<lambda>c. c \<noteq> CHR '':'') (to_hex iv) = to_hex iv" for iv t
    using to_hex_colon [of iv] by (auto simp: takeWhile_append dropWhile_append takeWhile_eq_all_conv dropWhile_eq_Nil_conv)
  show ?thesis using assms
    by (simp add: encryptPrivateKey_def decryptPrivateKey_def cipher_key_def Let_def split_colon_def take from_to_hex)
qed

lemma secret_roundtrip_witness:
  "\<exists>text. encryptPrivateKey (\<lambda>k iv p. iv @ p) (replicate 32 (CHR ''k'')) ''0123'' ''SB'' = Inr text \<and>
     decryptPrivateKey (\<lambda>k iv c. Inr (drop (length iv) c)) (replicate 32 (CHR ''k'')) text = Inr ''SB''"
  by (rule secret_roundtrip) simp_all

section \<open>Available balances\<close>

lemma fixed_max: "fixed 7 (max 0 r) = max 0 (fixed 7 r)"
proof -
  have "fixed 7 (0 :: rat) = 0" by (simp add: fixed_def floor_eq_iff)
  then show ?thesis using fixed_mono [of 0 r 7] fixed_mono [of r 0 7] by (auto simp: max_def)
qed

lemma toFixed7_stroops: "money n \<Longrightarrow> 0 \<le> n \<Longrightarrow> toFixed7 (stroops n) = dec7_text n"
  using dbl_mono [of 0 n] by (simp add: toFixed7_def stroops_dbl fixed_dbl)

lemma toFixed7_difference:
  assumes "money a" "money b" "money (a - b)"
  shows "toFixed7 (jmax (Fin 0) (jsub (stroops a) (stroops b))) = dec7_text (max 0 (a - b))"
proof -
  have "fixed 7 (rnd53 (dbl a - dbl b)) = a - b"
    using fixed_near [OF rnd_add_near [of a "- b"]] assms by simp
  moreover have "jmax (Fin 0) (Fin r) = Fin (max 0 r)" for r by (simp add: jmax_def max_def)
  ultimately show ?thesis
    by (simp add: jsub_stroops(1) [OF assms] toFixed7_def fixed_max)
qed

text \<open>
  C33: The available balance of a native account is exact to the stroop: the balance less half a lumen for each of the
  account, its subentries and one more, and never negative.
\<close>

theorem available_exact:
  assumes "field (Some acct) ''subentry_count'' = Some (JNum (Fin (of_nat k)))" and "k \<le> 1000"
    and "field (Some b) ''balance'' = Some (JStr (dec7_text n))" and "0 \<le> n" and "money n"
  shows "field (Some (native_entry (min_balance acct) b)) ''available_balance'' = Some (JStr (dec7_text (max 0 (n - (2 + int k) * 5000000)))) \<and>
    field (Some (native_entry (min_balance acct) b)) ''min_balance'' = Some (JStr (dec7_text ((2 + int k) * 5000000)))"
proof -
  define m where "m = (2 + int k) * 5000000"
  have m: "money m" "0 \<le> m" "money (n - m)" using assms(2,4,5) by (simp_all add: m_def money_def)
  have "num_subentries acct = Fin (of_int (int k))" by (simp add: num_subentries_def assms(1) jor_def)
  moreover have "mk (of_int (2 + int k)) = Fin (of_int (2 + int k))" using assms(2) by (intro mk_int) simp
  ultimately have "min_balance acct = mk (of_int (2 + int k) * (1 / 2))"
    by (simp add: min_balance_def BASE_RESERVE_def)
  also have "of_int (2 + int k) * (1 / 2) = (of_int m / 10 ^ 7 :: rat)" by (simp add: m_def)
  finally have min: "min_balance acct = stroops m" by (simp add: stroops_def)
  have amt: "amount_of ''balance'' b = stroops n" by (simp add: amount_of_def assms(3) parseFloat_dec7 [OF assms(4)])
  show ?thesis
    using toFixed7_difference [OF assms(5) m(1,3)] toFixed7_stroops [OF m(1,2)]
    by (simp add: native_entry_def field_def [of "Some (JObj _)"] min amt m_def)
qed

lemma available_exact_witness:
  "field (Some (native_entry (min_balance (JObj [(''subentry_count'', JNum (Fin 3))])) (JObj [(''balance'', JStr ''12.3000000'')]))) ''available_balance''
     = Some (JStr ''9.8000000'')"
proof -
  let ?acct = "JObj [(''subentry_count'', JNum (Fin 3))]" and ?b = "JObj [(''balance'', JStr ''12.3000000'')]"
  have t: "dec7_text 123000000 = ''12.3000000''" "dec7_text 98000000 = ''9.8000000''"
    by (simp_all add: dec7_text_def show_nat_eval) code_simp+
  have count: "field (Some ?acct) ''subentry_count'' = Some (JNum (Fin (of_nat 3)))" by (simp add: field_def)
  have bal: "field (Some ?b) ''balance'' = Some (JStr (dec7_text 123000000))" unfolding t by (simp add: field_def)
  have k: "(3 :: nat) \<le> 1000" "(0 :: int) \<le> 123000000" "money 123000000" by (simp_all add: money_def)
  have "max 0 (123000000 - (2 + int 3) * 5000000) = 98000000" by simp
  from available_exact [OF count k(1) bal k(2,3), unfolded this t] show ?thesis by (rule conjunct1)
qed

end
