(* ===== verification/Wallets.thy ===== *)
theory Wallets
  imports StellarOps Credentials Soroban
begin

text \<open>
  The wallets of a user (\<^verbatim>\<open>controllers/walletController.js\<close>): the list, its limit and its default, balances, the export of a
  secret key, signers, trustlines, data entries and the merge of an account. Here the database and the network client are
  used side by side: the record \<open>site\<close> holds both, with the columns of wallets only this controller reads and the tables
  \<open>wallet_signers\<close> and \<open>supported_assets\<close>. The picture of a QR code is a parameter.
\<close>

section \<open>State\<close>

record signer_row =
  sg_user :: string
  sg_key :: string
  sg_label :: "string option"
  sg_added :: int

record supported_asset =
  sa_code :: string
  sa_issuer :: "string option"
  sa_name :: string
  sa_icon :: "string option"
  sa_precision :: int
  sa_active :: bool

record 'l site =
  st_world :: world
  st_client :: "'l client"
  st_label :: "string \<Rightarrow> string"
  st_type :: "string \<Rightarrow> string"
  st_signers :: "signer_row list"
  st_assets :: "supported_asset list"

type_synonym ('l, 'a) site_proc = "('l site, 'a) proc"

definition on_db :: "(world, 'a) proc \<Rightarrow> ('l, 'a) site_proc" where
  "on_db m = (\<lambda>s. case m (st_world s) of (r, w) \<Rightarrow> (r, s\<lparr>st_world := w\<rparr>))"

definition on_net :: "('l, 'a) call \<Rightarrow> ('l, 'a) site_proc" where
  "on_net m = (\<lambda>s. case m (st_client s) of (r, c) \<Rightarrow> (r, s\<lparr>st_client := c\<rparr>))"

text \<open>A statement on the columns and tables beside the database record.\<close>

definition query :: "('l site \<Rightarrow> 'a) \<Rightarrow> ('l, 'a) site_proc" where
  "query f = andThen (on_db tick) (gets f)"

definition update :: "('l site \<Rightarrow> 'l site) \<Rightarrow> ('l, unit) site_proc" where
  "update f = andThen (on_db tick) (modify f)"

text \<open>\<open>Promise.all\<close> of two: both run, the first error is the result.\<close>

definition both :: "('w, 'a) proc \<Rightarrow> ('w, 'b) proc \<Rightarrow> ('w, 'a \<times> 'b) proc" where
  "both m n = (\<lambda>w. case m w of (r, v) \<Rightarrow> (case n v of (q, u) \<Rightarrow>
     (case r of Inl e \<Rightarrow> Inl e | Inr x \<Rightarrow> (case q of Inl e \<Rightarrow> Inl e | Inr y \<Rightarrow> Inr (x, y)), u)))"

fun mapEach :: "('a \<Rightarrow> ('w, 'b) proc) \<Rightarrow> 'a list \<Rightarrow> ('w, 'b list) proc" where
  "mapEach f [] = ret []"
| "mapEach f (x # xs) = bnd (f x) (\<lambda>y. bnd (mapEach f xs) (\<lambda>ys. ret (y # ys)))"

section \<open>Finding the wallet\<close>

definition own_wallet :: "database \<Rightarrow> string \<Rightarrow> string \<Rightarrow> wallet option" where
  "own_wallet d uid i = find (\<lambda>k. w_id k = i \<and> w_user k = uid) (wallets d)"

definition resolveWallet :: "string \<Rightarrow> string option \<Rightarrow> (world, wallet option) proc" where
  "resolveWallet uid wid = select (\<lambda>w. if given wid then own_wallet (db w) uid (the wid) else default_wallet (db w) uid)"

definition wallet_missing :: outcome where
  "wallet_missing = Reply 404 (jerr ''Wallet not found'')"

text \<open>The handlers that work on a resolved wallet.\<close>

definition with_wallet :: "string \<Rightarrow> string option \<Rightarrow> (wallet \<Rightarrow> ('l, outcome) site_proc) \<Rightarrow> ('l, outcome) site_proc" where
  "with_wallet uid wid k = bnd (on_db (resolveWallet uid wid)) (\<lambda>row. case row of None \<Rightarrow> ret wallet_missing | Some x \<Rightarrow> k x)"

text \<open>The query without an order: the model takes the rows in the order of the table.\<close>

definition getWalletRow :: "string \<Rightarrow> (world, wallet option) proc" where
  "getWalletRow uid = select (\<lambda>w. find (\<lambda>k. w_user k = uid) (wallets (db w)))"

definition flagged_wallet :: "string \<Rightarrow> (world, wallet option) proc" where
  "flagged_wallet uid = select (\<lambda>w. find (\<lambda>k. w_user k = uid \<and> w_default k) (wallets (db w)))"

section \<open>Balances\<close>

definition MULTI_ASSET_TTL :: int where "MULTI_ASSET_TTL = 10"
definition BALANCE_TTL :: int where "BALANCE_TTL = 30"

text \<open>\<open>{ ...v, ...fs }\<close>: a field that is there keeps its place.\<close>

definition fields_of :: "json \<Rightarrow> (string \<times> json) list" where
  "fields_of v = (case v of JObj fs \<Rightarrow> fs | _ \<Rightarrow> [])"

definition spread :: "json \<Rightarrow> (string \<times> json) list \<Rightarrow> json" where
  "spread v fs = JObj (fold (\<lambda>(k, x). AList.update k x) fs (fields_of v))"

definition asset_key :: "string \<Rightarrow> string option \<Rightarrow> string" where
  "asset_key code issuer = (if given issuer then code @ '':'' @ the issuer else code)"

definition fetchSupportedAssets :: "('l, string \<Rightarrow> supported_asset option) site_proc" where
  "fetchSupportedAssets = query (\<lambda>s. map_of (rev (map (\<lambda>a. (asset_key (sa_code a) (sa_issuer a), a)) (filter sa_active (st_assets s)))))"

definition enrich :: "(string \<Rightarrow> supported_asset option) \<Rightarrow> json \<Rightarrow> json" where
  "enrich assetMap b = (let code = (case field (Some b) ''asset_code'' of Some (JStr c) \<Rightarrow> c | _ \<Rightarrow> ''undefined'');
       meta = assetMap (asset_key code (json_string (field (Some b) ''asset_issuer''))) in
     spread b [(''display_name'', case meta of Some a \<Rightarrow> if sa_name a = [] then get b ''asset_code'' else JStr (sa_name a) | None \<Rightarrow> get b ''asset_code''),
       (''icon_url'', case meta of Some a \<Rightarrow> if given (sa_icon a) then JStr (the (sa_icon a)) else JNull | None \<Rightarrow> JNull),
       (''decimal_precision'', JNum (Fin (of_int (case meta of Some a \<Rightarrow> sa_precision a | None \<Rightarrow> 7)))),
       (''is_whitelisted'', JBool (meta \<noteq> None))])"

definition balance_key :: "string \<Rightarrow> string" where
  "balance_key pk = ''balance:'' @ pk"

definition cached_balance :: "string \<Rightarrow> (world, json option) proc" where
  "cached_balance pk = bnd (cacheGet (balance_key pk)) (\<lambda>hit. ret (case hit of Some (CJson v) \<Rightarrow> if truthy (Some v) then Some v else None | _ \<Rightarrow> None))"

definition wallet_head :: "wallet \<Rightarrow> string \<Rightarrow> json" where
  "wallet_head k label = JObj [(''id'', JStr (w_id k)), (''public_key'', JStr (w_public_key k)), (''label'', JStr label), (''is_default'', JBool (w_default k))]"

definition reply_wallet :: "wallet \<Rightarrow> json \<Rightarrow> bool \<Rightarrow> ('l, outcome) site_proc" where
  "reply_wallet k v hit = bnd (gets (\<lambda>s. st_label s (w_id k))) (\<lambda>label.
     ret (Reply 200 (spread (wallet_head k label) (fields_of v @ [(''cached'', JBool hit)]))))"

definition getWallet :: "'l stellar_net \<Rightarrow> string \<Rightarrow> string option \<Rightarrow> bool \<Rightarrow> ('l, outcome) site_proc" where
  "getWallet env uid wid forceRefresh = handler (with_wallet uid wid (\<lambda>k.
     bnd (if forceRefresh then ret None else on_db (cached_balance (w_public_key k))) (\<lambda>hit. case hit of
       Some v \<Rightarrow> reply_wallet k v True
     | None \<Rightarrow> bnd (both (on_net (getBalance env (w_public_key k))) fetchSupportedAssets) (\<lambda>(horizonData, assetMap).
         bnd (lift (list_field horizonData ''balances'')) (\<lambda>bs.
         let balanceData = spread horizonData [(''balances'', JArr (map (enrich assetMap) bs))] in
         andThen (on_db (cacheSet (balance_key (w_public_key k)) (CJson balanceData) MULTI_ASSET_TTL))
           (reply_wallet k balanceData False))))))"

text \<open>A balance that cannot be read counts as that of an account that does not exist.\<close>

definition listed_balance :: "'l stellar_net \<Rightarrow> string \<Rightarrow> ('l, json) site_proc" where
  "listed_balance env pk = bnd (on_db (cached_balance pk)) (\<lambda>hit. case hit of
     Some v \<Rightarrow> ret v
   | None \<Rightarrow> catch (bnd (on_net (getBalance env pk)) (\<lambda>v. andThen (on_db (cacheSet (balance_key pk) (CJson v) BALANCE_TTL)) (ret v)))
       (\<lambda>_. ret (JObj [(''account_exists'', JBool False), (''balances'', JArr [])])))"

definition sorted_wallets :: "database \<Rightarrow> string \<Rightarrow> wallet list" where
  "sorted_wallets d uid = sort_key (\<lambda>k. if w_default k then 0 else (1::nat)) (sort_key w_created (filter (\<lambda>k. w_user k = uid) (wallets d)))"

definition listWallets :: "'l stellar_net \<Rightarrow> string \<Rightarrow> ('l, outcome) site_proc" where
  "listWallets env uid = handler (bnd (query (\<lambda>s. map (\<lambda>k. (k, st_label s (w_id k))) (sorted_wallets (db (st_world s)) uid))) (\<lambda>rows.
     bnd (mapEach (\<lambda>(k, label). bnd (listed_balance env (w_public_key k)) (\<lambda>v.
         ret (spread (wallet_head k label) ((''created_at'', JStr (toISOString (w_created k))) # fields_of v)))) rows) (\<lambda>ws.
     ret (Reply 200 (JObj [(''wallets'', JArr ws)])))))"

section \<open>Creating a wallet, and the default\<close>

definition MAX_WALLETS_PER_USER :: nat where "MAX_WALLETS_PER_USER = 5"

text \<open>The transaction: the lock of the user, the count, the row. \<open>False\<close> says the limit was reached.\<close>

definition save_wallet :: "string \<Rightarrow> string \<Rightarrow> string \<times> string \<Rightarrow> (world, bool) proc" where
  "save_wallet uid i kp = transaction (\<lambda>_. None) (andThen tick
     (bnd (select (\<lambda>w. length (filter (\<lambda>k. w_user k = uid) (wallets (db w))))) (\<lambda>n.
       if MAX_WALLETS_PER_USER \<le> n then ret False
       else andThen (execE (\<lambda>w. insert_wallet \<lparr>w_id = i, w_user = uid, w_public_key = fst kp, w_secret = snd kp,
           w_default = False, w_created = now w\<rparr> (db w))) (ret True))))"

definition wallet_label :: "string option \<Rightarrow> string" where
  "wallet_label label = (let l = trim (case label of Some x \<Rightarrow> x | None \<Rightarrow> []) in if l = [] then ''Wallet'' else l)"

text \<open>\<open>keys\<close> is what the key pair made and encrypted gives.\<close>

definition createWalletHandler :: "jserr + string \<times> string \<Rightarrow> string \<Rightarrow> string \<Rightarrow> string option \<Rightarrow> ('l, outcome) site_proc" where
  "createWalletHandler keys i uid label = handler (bnd (lift keys) (\<lambda>kp. bnd (on_db (save_wallet uid i kp)) (\<lambda>saved.
     if \<not> saved then ret (Reply 400 (jerrc (''You can have at most '' @ show_nat MAX_WALLETS_PER_USER @ '' wallets per account.'') ''WALLET_LIMIT_REACHED''))
     else andThen (modify (\<lambda>s. s\<lparr>st_label := (st_label s)(i := wallet_label label)\<rparr>))
       (andThen (on_db (audit_log (Some uid) ''wallet_created'' (JObj [(''wallet_id'', JStr i)])))
       (ret (Reply 201 (JObj [(''message'', JStr ''Wallet created successfully''),
         (''wallet'', JObj [(''id'', JStr i), (''public_key'', JStr (fst kp)), (''label'', JStr (wallet_label label)), (''is_default'', JBool False)])])))))))"

text \<open>The index \<open>idx_wallets_one_default_per_user\<close>.\<close>

definition one_default :: "wallet list \<Rightarrow> bool" where
  "one_default ks \<longleftrightarrow> distinct (map w_user (filter w_default ks))"

definition put_wallets :: "wallet list \<Rightarrow> database \<Rightarrow> jserr + database" where
  "put_wallets ks d = (if one_default ks then Inr (d\<lparr>wallets := ks\<rparr>) else Inl uniqueViolation)"

definition clear_default :: "string \<Rightarrow> wallet list \<Rightarrow> wallet list" where
  "clear_default uid = update_where (\<lambda>k. w_user k = uid) (\<lambda>k. k\<lparr>w_default := False\<rparr>)"

definition mark_default :: "string \<Rightarrow> string \<Rightarrow> wallet list \<Rightarrow> wallet list" where
  "mark_default uid i = update_where (\<lambda>k. w_id k = i \<and> w_user k = uid) (\<lambda>k. k\<lparr>w_default := True\<rparr>)"

definition switch_default :: "string \<Rightarrow> string \<Rightarrow> (world, wallet option) proc" where
  "switch_default uid i = begun (bnd (select (\<lambda>w. own_wallet (db w) uid i)) (\<lambda>row. case row of
     None \<Rightarrow> ret None
   | Some _ \<Rightarrow> andThen (execE (\<lambda>w. put_wallets (clear_default uid (wallets (db w))) (db w)))
       (andThen (execE (\<lambda>w. put_wallets (mark_default uid i (wallets (db w))) (db w)))
         (gets (\<lambda>w. own_wallet (db w) uid i)))))"

text \<open>The connection is taken outside the \<open>try\<close>: when that fails the handler itself fails.\<close>

definition setDefaultWallet :: "string \<Rightarrow> string option \<Rightarrow> ('l, outcome) site_proc" where
  "setDefaultWallet uid wid = andThen (on_db tick) (handler (
     if \<not> given wid then ret (Reply 400 (jerr ''wallet_id is required''))
     else bnd (on_db (switch_default uid (the wid))) (\<lambda>row. case row of
       None \<Rightarrow> ret wallet_missing
     | Some k \<Rightarrow> andThen (on_db (audit_log (Some uid) ''wallet_default_changed'' (JObj [(''wallet_id'', JStr (the wid))])))
         (bnd (gets (\<lambda>s. st_label s (w_id k))) (\<lambda>label.
           ret (Reply 200 (JObj [(''wallet'', spread (wallet_head k label) [(''created_at'', JStr (toISOString (w_created k)))])])))))))"

definition getQRCode :: "(string \<Rightarrow> jserr + string) \<Rightarrow> string \<Rightarrow> string option \<Rightarrow> ('l, outcome) site_proc" where
  "getQRCode qr uid wid = handler (with_wallet uid wid (\<lambda>k. bnd (lift (qr (w_public_key k))) (\<lambda>qrDataUrl.
     ret (Reply 200 (JObj [(''qr_code'', JStr qrDataUrl), (''public_key'', JStr (w_public_key k))])))))"

definition getWalletTransactions :: outcome where
  "getWalletTransactions = Reply 410 (JObj [(''error'', JStr ''This endpoint has been removed. Use GET /api/payments/history instead.''),
     (''successor'', JStr ''/api/payments/history'')])"

section \<open>Confirming who asks\<close>

record confirmation =
  cf_password :: "string option"
  cf_totp :: "string option"
  cf_pin :: "string option"

text \<open>
  The checks before a key is exported and before an account is merged: the password, then the code of the authenticator or
  the PIN. \<open>None\<close> lets the request through; \<open>bad_totp\<close>, \<open>no_pin\<close> are the messages the two handlers differ in.
\<close>

definition confirmed :: "auth_env \<Rightarrow> string \<Rightarrow> string \<Rightarrow> string \<Rightarrow> string \<Rightarrow> confirmation \<Rightarrow> (world, outcome option) proc" where
  "confirmed auth action bad_totp no_pin uid q = (let refuse = (\<lambda>reason o'. andThen (audit_log (Some uid) action (JObj [(''reason'', JStr reason)])) (ret (Some o'))) in
     bnd (select (\<lambda>w. map_option (\<lambda>_. logins (db w) uid) (user_by_id (db w) uid))) (\<lambda>row. case row of
       None \<Rightarrow> ret (Some (Reply 404 (jerr ''User not found'')))
     | Some c \<Rightarrow> bnd (gets now) (\<lambda>t.
         if \<not> bcrypt_compare auth (the (cf_password q)) (lg_password c) then refuse ''invalid_password'' (Reply 401 (jerr ''Incorrect password''))
         else if lg_totp_enabled c then
           (if \<not> given (cf_totp q) then refuse ''missing_2fa'' (Reply 403 (jerr ''2FA verification required''))
            else if \<not> totp_verify auth (lg_totp_secret c) (the (cf_totp q)) t then refuse ''invalid_2fa'' (Reply 403 (jerr bad_totp))
            else ret None)
         else if \<not> given (lg_pin c) then ret (Some (Reply 403 (jerr no_pin)))
         else if \<not> given (cf_pin q) then refuse ''missing_pin'' (Reply 403 (jerr ''PIN verification required''))
         else if \<not> comparePIN auth (the (cf_pin q)) (the (lg_pin c)) then refuse ''invalid_pin'' (Reply 403 (jerr ''Invalid PIN''))
         else ret None)))"

definition exportKey :: "'l stellar_net \<Rightarrow> auth_env \<Rightarrow> string \<Rightarrow> string option \<Rightarrow> confirmation \<Rightarrow> ('l, outcome) site_proc" where
  "exportKey env auth uid wid q = handler (
     if \<not> given (cf_password q) then ret (Reply 400 (jerr ''Password is required''))
     else bnd (on_db (confirmed auth ''wallet_export_failed'' ''2FA verification required''
         ''A PIN or 2FA must be configured before exporting your secret key. Set up a PIN in Settings first.'' uid q)) (\<lambda>refusal. case refusal of
       Some o' \<Rightarrow> ret o'
     | None \<Rightarrow> with_wallet uid wid (\<lambda>k. bnd (lift (sn_decrypt env (w_secret k))) (\<lambda>secretKey.
         andThen (on_db (audit_log (Some uid) ''wallet_export'' (JObj [(''wallet_id'', JStr (w_id k))])))
           (ret (Reply 200 (JObj [(''secret_key'', JStr secretKey)])))))))"

text \<open>The row goes after the account is merged on the ledger.\<close>

definition delete_wallet :: "string \<Rightarrow> database \<Rightarrow> database" where
  "delete_wallet i d = d\<lparr>wallets := filter (\<lambda>k. w_id k \<noteq> i) (wallets d)\<rparr>"

definition merge_wallet_of :: "'l stellar_net \<Rightarrow> string \<Rightarrow> string \<Rightarrow> wallet \<Rightarrow> ('l, outcome) site_proc" where
  "merge_wallet_of env uid destination k =
     (if w_default k then ret (Reply 400 (jerr ''Cannot merge your default wallet. Set another wallet as default first.''))
      else if w_public_key k = destination then ret (Reply 400 (jerr ''Destination cannot be the same as the source account''))
      else bnd (on_net (mergeAccount env (w_public_key k) (w_secret k) destination)) (\<lambda>r.
        andThen (on_db (exec (\<lambda>w. delete_wallet (w_id k) (db w))))
        (andThen (on_db (audit_log (Some uid) ''account_merge'' (JObj [(''wallet_id'', JStr (w_id k)), (''destination'', JStr destination), (''transaction_hash'', get r ''transactionHash'')])))
        (ret (Reply 200 (JObj [(''message'', JStr ''Account merged successfully. The wallet has been permanently closed.''),
          (''transaction_hash'', get r ''transactionHash''), (''ledger'', get r ''ledger'')]))))))"

definition mergeWallet :: "'l stellar_net \<Rightarrow> auth_env \<Rightarrow> string \<Rightarrow> string option \<Rightarrow> string option \<Rightarrow> confirmation \<Rightarrow> ('l, outcome) site_proc" where
  "mergeWallet env auth uid wid destination q = handler (
     if \<not> given (cf_password q) then ret (Reply 400 (jerr ''Password is required''))
     else if \<not> given destination then ret (Reply 400 (jerr ''Destination address is required''))
     else bnd (on_db (confirmed auth ''wallet_merge_failed'' ''Invalid 2FA code''
         ''A PIN or 2FA must be configured before merging accounts. Set up a PIN in Settings first.'' uid q)) (\<lambda>refusal. case refusal of
       Some o' \<Rightarrow> ret o'
     | None \<Rightarrow> with_wallet uid wid (merge_wallet_of env uid (the destination))))"

section \<open>Business accounts and signers\<close>

definition set_type :: "string \<Rightarrow> string \<Rightarrow> ('l, unit) site_proc" where
  "set_type uid t = update (\<lambda>s. if user_by_id (db (st_world s)) uid = None then s else s\<lparr>st_type := (st_type s)(uid := t)\<rparr>)"

definition approval_error :: "jserr \<Rightarrow> jserr" where
  "approval_error e = withStatus 400 (if take 19 (err_message e) = ''Transaction failed:''
     then e\<lparr>err_message := ''Multisig approval transaction failed:'' @ drop 19 (err_message e)\<rparr> else e)"

text \<open>\<open>contract\<close>: whether \<open>MULTISIG_APPROVAL_CONTRACT_ID\<close> is set.\<close>

definition initMultisigApproval :: "soroban \<Rightarrow> bool \<Rightarrow> int \<Rightarrow> string \<Rightarrow> string \<Rightarrow> (world, string) proc" where
  "initMultisigApproval rpc contract timeoutMs pk secret =
     (if \<not> contract then throw (withStatus 500 (mkError ''MULTISIG_APPROVAL_CONTRACT_ID is not configured.''))
      else bnd (submitCall rpc approval_error ''register_business'' timeoutMs secret (\<lambda>key. RegisterBusiness key pk)) (\<lambda>(v, hash). ret hash))"

definition upgradeToBusinessAccount :: "soroban \<Rightarrow> bool \<Rightarrow> int \<Rightarrow> string \<Rightarrow> string option \<Rightarrow> ('l, outcome) site_proc" where
  "upgradeToBusinessAccount rpc contract timeoutMs uid wid = handler (with_wallet uid wid (\<lambda>k.
     bnd (on_db (initMultisigApproval rpc contract timeoutMs (w_public_key k) (w_secret k))) (\<lambda>hash.
       andThen (set_type uid ''business'')
       (andThen (on_db (audit_log (Some uid) ''upgrade_to_business'' (JObj [(''wallet_id'', JStr (w_id k)), (''transaction_hash'', JStr hash)])))
       (ret (Reply 200 (JObj [(''message'', JStr ''Account upgraded to business''), (''transaction_hash'', JStr hash)])))))))"

definition insert_signer :: "string \<Rightarrow> string \<Rightarrow> string option \<Rightarrow> ('l, unit) site_proc" where
  "insert_signer uid key label = update (\<lambda>s.
     if list_ex (\<lambda>g. sg_user g = uid \<and> sg_key g = key) (st_signers s) then s
     else s\<lparr>st_signers := st_signers s @ [\<lparr>sg_user = uid, sg_key = key, sg_label = (if given label then label else None), sg_added = now (st_world s)\<rparr>]\<rparr>)"

definition addSigner :: "'l stellar_net \<Rightarrow> string \<Rightarrow> string \<Rightarrow> string option \<Rightarrow> ('l, outcome) site_proc" where
  "addSigner env uid key label = handler (bnd (on_db (flagged_wallet uid)) (\<lambda>row. case row of
       None \<Rightarrow> ret wallet_missing
     | Some k \<Rightarrow> bnd (on_net (addAccountSigner env (w_public_key k) (w_secret k) key 1)) (\<lambda>r.
         andThen (insert_signer uid key label)
           (ret (Reply 201 (JObj [(''message'', JStr ''Signer added''), (''transaction_hash'', get r ''transactionHash'')]))))))"

definition removeSigner :: "'l stellar_net \<Rightarrow> string \<Rightarrow> string \<Rightarrow> ('l, outcome) site_proc" where
  "removeSigner env uid key = handler (bnd (on_db (flagged_wallet uid)) (\<lambda>row. case row of
       None \<Rightarrow> ret wallet_missing
     | Some k \<Rightarrow> bnd (query (\<lambda>s. length (filter (\<lambda>g. sg_user g = uid \<and> sg_key g \<noteq> key) (st_signers s)))) (\<lambda>remainingSigners.
         bnd (on_net (removeAccountSigner env (w_public_key k) (w_secret k) key remainingSigners)) (\<lambda>r.
         andThen (update (\<lambda>s. s\<lparr>st_signers := filter (\<lambda>g. \<not> (sg_user g = uid \<and> sg_key g = key)) (st_signers s)\<rparr>))
         (andThen (if remainingSigners = 0 then set_type uid ''personal'' else ret ())
           (ret (Reply 200 (JObj [(''message'', JStr ''Signer removed''), (''transaction_hash'', get r ''transactionHash'')]))))))))"

definition signer_json :: "signer_row \<Rightarrow> json" where
  "signer_json g = JObj [(''signer_public_key'', JStr (sg_key g)), (''label'', case sg_label g of Some l \<Rightarrow> JStr l | None \<Rightarrow> JNull),
     (''added_at'', JStr (toISOString (sg_added g)))]"

definition listSigners :: "string \<Rightarrow> ('l, outcome) site_proc" where
  "listSigners uid = handler (bnd (query (\<lambda>s. sort_key sg_added (filter (\<lambda>g. sg_user g = uid) (st_signers s)))) (\<lambda>rows.
     ret (Reply 200 (JObj [(''signers'', JArr (map signer_json rows))]))))"

definition getSignersFromHorizon :: "'l stellar_net \<Rightarrow> string \<Rightarrow> string option \<Rightarrow> ('l, outcome) site_proc" where
  "getSignersFromHorizon env uid wid = handler (with_wallet uid wid (\<lambda>k. bnd (on_net (getAccountSigners env (w_public_key k))) (\<lambda>v. ret (Reply 200 v))))"

section \<open>Trustlines, data entries and flags\<close>

definition listTrustlines :: "'l stellar_net \<Rightarrow> string \<Rightarrow> string option \<Rightarrow> ('l, outcome) site_proc" where
  "listTrustlines env uid wid = handler (with_wallet uid wid (\<lambda>k. bnd (on_net (getTrustlines env (w_public_key k))) (\<lambda>v.
     ret (Reply 200 (JObj [(''trustlines'', v)])))))"

definition or_none :: "string option \<Rightarrow> string option" where
  "or_none v = (if given v then v else None)"

definition whitelisted :: "string \<Rightarrow> string option \<Rightarrow> supported_asset \<Rightarrow> bool" where
  "whitelisted code issuer a \<longleftrightarrow> sa_code a = code \<and> sa_issuer a = issuer \<and> sa_active a"

definition addTrustlineHandler :: "'l stellar_net \<Rightarrow> string \<Rightarrow> string \<Rightarrow> string option \<Rightarrow> string option \<Rightarrow> string option \<Rightarrow> ('l, outcome) site_proc" where
  "addTrustlineHandler env uid asset issuer limit wid = handler (
     bnd (query (\<lambda>s. list_ex (whitelisted asset (or_none issuer)) (st_assets s))) (\<lambda>ok.
     if \<not> ok then ret (Reply 400 (jerrc (''Asset '' @ asset @ '' is not on the supported assets whitelist. Contact support to request it.'') ''ASSET_NOT_WHITELISTED''))
     else with_wallet uid wid (\<lambda>k. bnd (on_net (addTrustline env (w_public_key k) (w_secret k) asset limit (or_none issuer))) (\<lambda>r.
       ret (Reply 201 (JObj [(''message'', JStr ''Trustline added''), (''transaction_hash'', get r ''transactionHash'')]))))))"

definition still_held :: "jserr \<Rightarrow> bool" where
  "still_held e = (case field (field (field (field (err_field e ''response'') ''data'') ''extras'') ''result_codes'') ''operations'' of
     Some (JArr xs) \<Rightarrow> JStr ''op_invalid_limit'' \<in> set xs | Some (JStr s) \<Rightarrow> contains_text s ''op_invalid_limit'' | _ \<Rightarrow> False)"

definition removeTrustlineHandler :: "'l stellar_net \<Rightarrow> string \<Rightarrow> string \<Rightarrow> string option \<Rightarrow> string option \<Rightarrow> ('l, outcome) site_proc" where
  "removeTrustlineHandler env uid asset issuer wid = catch
     (with_wallet uid wid (\<lambda>k. bnd (on_net (removeTrustline env (w_public_key k) (w_secret k) asset (or_none issuer))) (\<lambda>r.
       ret (Reply 200 (JObj [(''message'', JStr ''Trustline removed''), (''transaction_hash'', get r ''transactionHash'')])))))
     (\<lambda>e. ret (if still_held e then Reply 400 (jerr ''Cannot remove trustline: account still holds a balance of this asset'') else NextErr e))"

definition ALLOWED_KEYS :: "string list" where
  "ALLOWED_KEYS = [''kyc_hash'', ''federation_address'', ''afripay_verified'', ''contact_email_hash'', ''profile_hash'']"

definition join_comma :: "string list \<Rightarrow> string" where
  "join_comma xs = (case xs of [] \<Rightarrow> [] | x # r \<Rightarrow> x @ concat (map (\<lambda>y. '', '' @ y) r))"

definition with_row :: "string \<Rightarrow> (wallet \<Rightarrow> ('l, outcome) site_proc) \<Rightarrow> ('l, outcome) site_proc" where
  "with_row uid k = bnd (on_db (getWalletRow uid)) (\<lambda>row. case row of None \<Rightarrow> ret wallet_missing | Some x \<Rightarrow> k x)"

definition listDataEntries :: "'l stellar_net \<Rightarrow> (string \<Rightarrow> string) \<Rightarrow> string \<Rightarrow> ('l, outcome) site_proc" where
  "listDataEntries env decode uid = handler (with_row uid (\<lambda>k. bnd (on_net (getDataEntries env decode (w_public_key k))) (\<lambda>es.
     ret (Reply 200 (JObj [(''entries'', JObj (map (\<lambda>(n, v). (n, JStr v)) es))])))))"

definition setEntry :: "'l stellar_net \<Rightarrow> string \<Rightarrow> string \<Rightarrow> string \<Rightarrow> ('l, outcome) site_proc" where
  "setEntry env uid key v = handler (
     if key \<notin> set ALLOWED_KEYS then ret (Reply 400 (jerr (''Key  @ key @  is not allowed. Permitted keys: '' @ join_comma ALLOWED_KEYS)))
     else with_row uid (\<lambda>k. bnd (on_net (setDataEntry env (w_public_key k) (w_secret k) key (Some v))) (\<lambda>r.
       ret (Reply 200 (JObj [(''message'', JStr ''Data entry set''), (''transactionHash'', get r ''transactionHash'')])))))"

definition deleteEntry :: "'l stellar_net \<Rightarrow> string \<Rightarrow> string \<Rightarrow> ('l, outcome) site_proc" where
  "deleteEntry env uid key = handler (
     if key \<notin> set ALLOWED_KEYS then ret (Reply 400 (jerr (''Key  @ key @  is not allowed.'')))
     else with_row uid (\<lambda>k. bnd (on_net (setDataEntry env (w_public_key k) (w_secret k) key None)) (\<lambda>r.
       ret (Reply 200 (JObj [(''message'', JStr ''Data entry deleted''), (''transactionHash'', get r ''transactionHash'')])))))"

definition getWalletFlags :: "'l stellar_net \<Rightarrow> string \<Rightarrow> string option \<Rightarrow> ('l, outcome) site_proc" where
  "getWalletFlags env uid wid = handler (with_wallet uid wid (\<lambda>k. bnd (on_net (getAccountFlags env (w_public_key k))) (\<lambda>flags.
     ret (Reply 200 (JObj [(''public_key'', JStr (w_public_key k)), (''flags'', flags)])))))"

definition clearInflationDestinationHandler :: "'l stellar_net \<Rightarrow> string \<Rightarrow> string option \<Rightarrow> ('l, outcome) site_proc" where
  "clearInflationDestinationHandler env uid wid = handler (with_wallet uid wid (\<lambda>k.
     bnd (on_net (clearInflationDestination env (w_public_key k) (w_secret k))) (\<lambda>r.
       andThen (on_db (audit_log (Some uid) ''clear_inflation_destination'' (JObj [(''wallet_id'', JStr (w_id k)), (''transaction_hash'', get r ''transactionHash'')])))
       (ret (Reply 200 (JObj [(''message'', JStr ''Inflation destination cleared''), (''transaction_hash'', get r ''transactionHash'')]))))))"

section \<open>Importing the history\<close>

text \<open>
  \<^verbatim>\<open>services/horizonService.js\<close>. The query for a record already imported names columns the table does not have, so the
  statements behind it are not reached. The loop over the pages of the network ends with its fuel as \<open>None\<close>.
\<close>

fun importBatch :: "json list \<Rightarrow> (world, nat) proc" where
  "importBatch [] = ret 0"
| "importBatch (r # rs) = (if \<not> truthy (field (Some r) ''transaction_hash'') then importBatch rs
     else bnd (selectCols ''transactions'' [''id'', ''stellar_transaction_id'', ''wallet_id''] (\<lambda>_. ())) (\<lambda>_. importBatch rs))"

definition page_of :: "'l stellar_net \<Rightarrow> string \<Rightarrow> string option \<Rightarrow> ('l, json option) site_proc" where
  "page_of env pk cursor = catch (bnd (on_net (ask env False (AccountPayments pk 200 cursor))) (\<lambda>v. ret (Some v)))
     (\<lambda>e. if response_status e = Some 404 then ret None else throw e)"

definition records_of :: "json \<Rightarrow> json list" where
  "records_of v = (case field (Some v) ''records'' of Some (JArr rs) \<Rightarrow> rs | _ \<Rightarrow> [])"

fun importWalletHistory :: "nat \<Rightarrow> 'l stellar_net \<Rightarrow> string \<Rightarrow> string option \<Rightarrow> nat \<Rightarrow> ('l, nat option) site_proc" where
  "importWalletHistory 0 env pk cursor totalImported = ret None"
| "importWalletHistory (Suc n) env pk cursor totalImported = bnd (page_of env pk cursor) (\<lambda>page.
     if (case page of None \<Rightarrow> True | Some v \<Rightarrow> records_of v = []) then ret (Some totalImported)
     else let rs = records_of (the page); next = json_string (field (Some (last rs)) ''paging_token'') in
       bnd (on_db (importBatch rs)) (\<lambda>imported.
         if length rs < 200 \<or> \<not> given next then ret (Some (totalImported + imported))
         else importWalletHistory n env pk next (totalImported + imported)))"

definition importTransactionHistory :: "nat \<Rightarrow> 'l stellar_net \<Rightarrow> string \<Rightarrow> string option \<Rightarrow> ('l, outcome option) site_proc" where
  "importTransactionHistory fuel env uid wid = catch (bnd (on_db (resolveWallet uid wid)) (\<lambda>row. case row of
       None \<Rightarrow> ret (Some wallet_missing)
     | Some k \<Rightarrow> bnd (importWalletHistory fuel env (w_public_key k) None 0) (\<lambda>r. case r of
         None \<Rightarrow> ret None
       | Some imported \<Rightarrow> ret (Some (Reply 200 (JObj [(''message'', JStr ''Import complete''), (''imported'', nat_json imported)]))))))
     (\<lambda>e. ret (Some (NextErr e)))"

section \<open>Reasoning about both sides\<close>

lemma wp_on_db [wps]: "wp (on_db m) Q E s = wp m (\<lambda>x w. Q x (s\<lparr>st_world := w\<rparr>)) (\<lambda>e w. E e (s\<lparr>st_world := w\<rparr>)) (st_world s)"
  by (simp add: wp_def on_db_def split: prod.split)

lemma wp_on_net [wps]: "wp (on_net m) Q E s = wp m (\<lambda>x c. Q x (s\<lparr>st_client := c\<rparr>)) (\<lambda>e c. E e (s\<lparr>st_client := c\<rparr>)) (st_client s)"
  by (simp add: wp_def on_net_def split: prod.split)

lemma keeps_on_db: "keeps I m \<Longrightarrow> keeps (\<lambda>s. I (st_world s)) (on_db m)"
proof (rule keepsI)
  fix s :: "'l site" assume "keeps I m" "I (st_world s)"
  then have "I (snd (m (st_world s)))" by (simp add: keeps_def)
  then show "I (st_world (snd (on_db m s)))" by (simp add: on_db_def case_prod_beta)
qed

lemma keeps_on_net [keep]: "keeps (\<lambda>s. I (st_world s)) (on_net m)"
  by (simp add: keeps_def on_net_def split: prod.split)

lemma keeps_update: "(\<And>s. st_world (f s) = st_world s) \<Longrightarrow> keeps I tick \<Longrightarrow> keeps (\<lambda>s. I (st_world s)) (update f)"
  unfolding update_def by (intro keep keeps_on_db keeps_modify) simp_all

lemma keeps_with_wallet: "keeps I (on_db (resolveWallet uid wid)) \<Longrightarrow> (\<And>k. keeps I (g k)) \<Longrightarrow> keeps I (with_wallet uid wid g)"
  unfolding with_wallet_def by (intro keep)

lemma keeps_begun:
  assumes "keeps (\<lambda>w. I (db w)) m"
  shows "keeps (\<lambda>w. I (db w)) (begun m)"
proof (rule keepsI)
  fix w :: world assume I: "I (db w)"
  have "wp (begun m) (\<lambda>_ v. I (db v)) (\<lambda>_ v. I (db v)) w"
    unfolding begun_def wps using I assms [unfolded keeps_wp, rule_format, of "ticked w"]
    by (auto simp: wps elim!: wp_mono)
  then show "I (db (snd (begun m w)))" by (simp add: wp_snd)
qed

lemma own_wallet_Some: "own_wallet d uid i = Some k \<Longrightarrow> k \<in> set (wallets d) \<and> w_id k = i \<and> w_user k = uid"
  unfolding own_wallet_def by (drule find_SomeD) simp

definition owns :: "database \<Rightarrow> string \<Rightarrow> string option \<Rightarrow> wallet \<Rightarrow> bool" where
  "owns d uid wid k \<longleftrightarrow> k \<in> set (wallets d) \<and> w_user k = uid \<and> (given wid \<longrightarrow> w_id k = the wid)"

lemma wp_resolveWallet:
  assumes "\<And>v. db v = db w \<Longrightarrow> now v = now w \<Longrightarrow> Q None v"
    and "\<And>k v. db v = db w \<Longrightarrow> now v = now w \<Longrightarrow> owns (db w) uid wid k \<Longrightarrow> Q (Some k) v"
    and "\<And>v. db v = db w \<Longrightarrow> now v = now w \<Longrightarrow> E dbError v"
  shows "wp (resolveWallet uid wid) Q E w"
proof -
  have "Q r (ticked w)" if "r = (if given wid then own_wallet (db w) uid (the wid) else default_wallet (db w) uid)" for r
  proof (cases r)
    case (Some k)
    then have "owns (db w) uid wid k" using that own_wallet_Some [of "db w" uid "the wid" k] default_wallet_Some [of "db w" uid k]
      by (auto simp: owns_def split: if_splits)
    then show ?thesis using assms(2) [of "ticked w"] Some by simp
  qed (use assms(1) [of "ticked w"] in simp)
  from this [OF refl] show ?thesis using assms(3) [OF ticked_sel(1,2)]
    by (cases "faulty w") (simp_all only: resolveWallet_def wp_select ticked_sel if_True if_False)
qed

section \<open>Who gets through the confirmation\<close>

definition confirms :: "auth_env \<Rightarrow> login_cols \<Rightarrow> int \<Rightarrow> confirmation \<Rightarrow> bool" where
  "confirms auth c t q \<longleftrightarrow> bcrypt_compare auth (the (cf_password q)) (lg_password c) \<and>
     (if lg_totp_enabled c then given (cf_totp q) \<and> totp_verify auth (lg_totp_secret c) (the (cf_totp q)) t
      else given (lg_pin c) \<and> given (cf_pin q) \<and> comparePIN auth (the (cf_pin q)) (the (lg_pin c)))"

text \<open>Only the audit log is written, and no answer of it is a success.\<close>

definition unchanged :: "world \<Rightarrow> world \<Rightarrow> bool" where
  "unchanged w v \<longleftrightarrow> wallets (db v) = wallets (db w) \<and> users (db v) = users (db w) \<and> logins (db v) = logins (db w) \<and> now v = now w"

lemma wp_confirmed:
  "wp (confirmed auth action bad_totp no_pin uid q)
     (\<lambda>r v. unchanged w v \<and> (case r of Some o' \<Rightarrow> status_of o' \<noteq> Some 200 | None \<Rightarrow> user_by_id (db w) uid \<noteq> None \<and> confirms auth (logins (db w) uid) (now w) q))
     (\<lambda>_ v. unchanged w v) w"
proof (cases "user_by_id (db w) uid")
  case (Some u)
  show ?thesis
    by (cases "lg_totp_enabled (logins (db w) uid)")
      (simp_all add: confirmed_def Let_def wps Some confirms_def unchanged_def)
qed (simp add: confirmed_def Let_def wps unchanged_def)

lemma owns_wallets: "wallets d' = wallets d \<Longrightarrow> owns d' = owns d"
  by (simp add: owns_def fun_eq_iff)

section \<open>Exporting a key\<close>

text \<open>What an export gives, and to whom.\<close>

definition discloses :: "'l stellar_net \<Rightarrow> auth_env \<Rightarrow> string \<Rightarrow> string option \<Rightarrow> confirmation \<Rightarrow> world \<Rightarrow> outcome \<Rightarrow> bool" where
  "discloses env auth uid wid q w r \<longleftrightarrow> (\<exists>k key. owns (db w) uid wid k \<and> sn_decrypt env (w_secret k) = Inr key \<and> r = Reply 200 (JObj [(''secret_key'', JStr key)])) \<and>
     given (cf_password q) \<and> user_by_id (db w) uid \<noteq> None \<and> confirms auth (logins (db w) uid) (now w) q"

lemma wp_exportKey:
  "wp (exportKey env auth uid wid q) (\<lambda>r s'. (status_of r = Some 200 \<longrightarrow> discloses env auth uid wid q (st_world s) r) \<and>
     unchanged (st_world s) (st_world s') \<and> st_client s' = st_client s) (\<lambda>_ _. False) s"
proof (cases "given (cf_password q)")
  case True
  let ?w = "st_world s"
  let ?Q = "\<lambda>r s'. (status_of r = Some 200 \<longrightarrow> discloses env auth uid wid q ?w r) \<and> unchanged ?w (st_world s') \<and> st_client s' = st_client s"
  have found: "wp (with_wallet uid wid (\<lambda>k. bnd (lift (sn_decrypt env (w_secret k))) (\<lambda>secretKey.
         andThen (on_db (audit_log (Some uid) ''wallet_export'' (JObj [(''wallet_id'', JStr (w_id k))])))
           (ret (Reply 200 (JObj [(''secret_key'', JStr secretKey)])))))) ?Q (\<lambda>_ s'. unchanged ?w (st_world s') \<and> st_client s' = st_client s) (s\<lparr>st_world := v\<rparr>)"
    if v: "unchanged ?w v" and c: "user_by_id (db ?w) uid \<noteq> None" "confirms auth (logins (db ?w) uid) (now ?w) q" for v
  proof -
    have same: "unchanged ?w u" if "db u = db v" "now u = now v" for u using that v by (simp add: unchanged_def)
    have owner: "owns (db v) = owns (db ?w)" by (rule owns_wallets) (use v in \<open>simp add: unchanged_def\<close>)
    show ?thesis unfolding with_wallet_def wp_bnd wp_on_db
    proof (rule wp_resolveWallet, goal_cases)
      case (2 k u)
      note same_u = same [of u]
      show ?case
      proof (cases "sn_decrypt env (w_secret k)")
        case (Inr key)
        then show ?thesis
          using 2 same_u c True by (auto simp: wps owner discloses_def unchanged_def)
      qed (use 2 same_u in \<open>simp add: wps\<close>)
    qed (simp_all add: wps wallet_missing_def same)
  qed
  show ?thesis
    unfolding exportKey_def wp_handler wp_if wp_bnd wp_on_db
    using True apply simp
    apply (rule wp_mono [OF wp_confirmed])
     apply (auto simp: wp_ret found split: option.splits)
    done
qed (simp add: exportKey_def wps unchanged_def)

text \<open>
  C6: A secret key is given out only of a wallet of the caller, the one named if one is named, after the password and the
  code of the authenticator, or the PIN where there is none; whatever fails, an export changes neither accounts nor the ledger.
\<close>

theorem key_disclosed_only:
  assumes "exportKey env auth uid wid q s = (r, s')"
  shows "(\<exists>o'. r = Inr o' \<and> (status_of o' = Some 200 \<longrightarrow> discloses env auth uid wid q (st_world s) o')) \<and>
    unchanged (st_world s) (st_world s') \<and> st_client s' = st_client s"
  using wp_exportKey [of env auth uid wid q s] assms by (simp add: wp_def split: sum.splits)

section \<open>Merging an account\<close>

text \<open>\<open>merged\<close>: one transaction that merges the account of the wallet, signed with its key, follows the ledger \<open>A\<close>.\<close>

definition merged :: "'l stellar_net \<Rightarrow> ('l \<Rightarrow> tx list) \<Rightarrow> tx list \<Rightarrow> string \<Rightarrow> wallet \<Rightarrow> 'l site \<Rightarrow> bool" where
  "merged env applied A destination k s \<longleftrightarrow> paid applied A (signed_op env (w_secret k) (AccountMerge destination)) (cl_net (st_client s))"

definition merge_result :: "'l stellar_net \<Rightarrow> auth_env \<Rightarrow> ('l \<Rightarrow> tx list) \<Rightarrow> tx list \<Rightarrow> string \<Rightarrow> string option \<Rightarrow> string option \<Rightarrow> confirmation
    \<Rightarrow> 'l site \<Rightarrow> outcome \<Rightarrow> 'l site \<Rightarrow> bool" where
  "merge_result env auth applied A uid wid destination q s r s' \<longleftrightarrow>
     (let d = db (st_world s); d' = db (st_world s') in
      wallets d' = wallets d \<and> unmoved applied A (st_client s') \<and> status_of r \<noteq> Some 200 \<or>
      (\<exists>k. owns d uid wid k \<and> \<not> w_default k \<and> w_public_key k \<noteq> the destination \<and>
         confirms auth (logins d uid) (now (st_world s)) q \<and> merged env applied A (the destination) k s' \<and>
         (wallets d' = wallets d \<and> status_of r \<noteq> Some 200 \<or> wallets d' = wallets (delete_wallet (w_id k) d))))"

lemma wp_merge_wallet_of:
  assumes law: "lawful env applied" and c: "unmoved applied A (st_client s)"
  shows "wp (merge_wallet_of env uid destination k)
    (\<lambda>r s'. let d = db (st_world s); d' = db (st_world s') in
      wallets d' = wallets d \<and> unmoved applied A (st_client s') \<and> status_of r \<noteq> Some 200 \<or>
      \<not> w_default k \<and> w_public_key k \<noteq> destination \<and> merged env applied A destination k s' \<and> wallets d' = wallets (delete_wallet (w_id k) d))
    (\<lambda>e s'. let d = db (st_world s); d' = db (st_world s') in wallets d' = wallets d \<and>
      (unmoved applied A (st_client s') \<or> \<not> w_default k \<and> w_public_key k \<noteq> destination \<and> merged env applied A destination k s')) s"
proof (cases "w_default k \<or> w_public_key k = destination")
  case False
  then show ?thesis
    unfolding merge_wallet_of_def Let_def
    apply (simp add: wp_bnd wp_on_net)
    apply (rule wp_mono [OF mergeAccount_once [OF law c]])
     apply (auto simp: wps merged_def delete_wallet_def perhaps_def unmoved_def)
    done
qed (use c in \<open>auto simp: merge_wallet_of_def wps Let_def\<close>)

lemma unchanged_merge:
  "unchanged (st_world s) v \<Longrightarrow> unmoved applied A (st_client s) \<Longrightarrow> status_of r \<noteq> Some 200 \<Longrightarrow>
   merge_result env auth applied A uid wid destination q s r (s\<lparr>st_world := v\<rparr>)"
  by (simp add: merge_result_def Let_def unchanged_def)

lemma wp_mergeWallet:
  assumes law: "lawful env applied" and c: "unmoved applied A (st_client s)"
  shows "wp (mergeWallet env auth uid wid destination q) (merge_result env auth applied A uid wid destination q s) (\<lambda>_ _. False) s"
proof (cases "given (cf_password q) \<and> given destination")
  case True
  let ?w = "st_world s" and ?R = "merge_result env auth applied A uid wid destination q s"
  have found: "wp (with_wallet uid wid (merge_wallet_of env uid (the destination))) ?R (\<lambda>e. ?R (NextErr e)) (s\<lparr>st_world := v\<rparr>)"
    if v: "unchanged ?w v" and q: "confirms auth (logins (db ?w) uid) (now ?w) q" for v
  proof -
    have same: "unchanged ?w u" if "db u = db v" "now u = now v" for u using that v by (simp add: unchanged_def)
    have owner: "owns (db v) = owns (db ?w)" by (rule owns_wallets) (use v in \<open>simp add: unchanged_def\<close>)
    show ?thesis unfolding with_wallet_def wp_bnd wp_on_db
    proof (rule wp_resolveWallet, goal_cases)
      case (2 k u)
      then have u: "wallets (db u) = wallets (db ?w)" and k: "owns (db ?w) uid wid k"
        using v by (simp_all add: unchanged_def owner)
      have "wp (merge_wallet_of env uid (the destination) k) ?R (\<lambda>e. ?R (NextErr e)) (s\<lparr>st_world := u\<rparr>)"
        by (rule wp_mono [OF wp_merge_wallet_of [OF law, of A]])
          (use c k q u in \<open>auto simp: merge_result_def Let_def delete_wallet_def\<close>)
      then show ?case by simp
    qed (simp_all add: wp_ret wallet_missing_def same c unchanged_merge)
  qed
  show ?thesis
    unfolding mergeWallet_def wp_handler wp_if wp_bnd wp_on_db
    using True apply simp
    apply (rule wp_mono [OF wp_confirmed])
     apply (auto simp: wp_ret found c unchanged_merge split: option.splits)
    done
qed (use c in \<open>auto simp: mergeWallet_def wps merge_result_def Let_def\<close>)

text \<open>
  C10: On a ledger that keeps its promises a merge follows the confirmation of the caller and closes a wallet of the caller that
  is not the default: one transaction signed with the key of that wallet merges its account into the destination, and
  only then its row may go. In every other case the wallets and the ledger are as they were.
\<close>

theorem merge_follows_ledger:
  assumes "lawful env applied" and "mergeWallet env auth uid wid destination q s = (r, s')"
  shows "\<exists>o'. r = Inr o' \<and> merge_result env auth applied (applied (cl_net (st_client s))) uid wid destination q s o' s'"
  using wp_mergeWallet [OF assms(1), of "applied (cl_net (st_client s))" s auth uid wid destination q] assms(2)
  by (simp add: wp_def unmoved_def split: sum.splits)

section \<open>The limit and the default\<close>

lemma one_default_append: "one_default (ks @ [k]) \<longleftrightarrow> one_default ks \<and> (w_default k \<longrightarrow> w_user k \<notin> w_user ` set (filter w_default ks))"
  by (auto simp: one_default_def)

lemma filter_swap: "filter P (filter Q xs) = filter Q (filter P xs)"
  by (induction xs) auto

lemma one_default_filter: "one_default ks \<Longrightarrow> one_default (filter P ks)"
  unfolding one_default_def filter_swap [of w_default P] by (rule distinct_map_filter)

definition of_user :: "string \<Rightarrow> wallet list \<Rightarrow> wallet list" where
  "of_user uid ks = filter (\<lambda>k. w_user k = uid) ks"

text \<open>What holds of the wallets at all times: they have users, at most five and at most one default each.\<close>

definition within_limits :: "database \<Rightarrow> bool" where
  "within_limits d \<longleftrightarrow> list_all (\<lambda>k. w_user k \<in> set (map u_id (users d))) (wallets d) \<and> one_default (wallets d) \<and>
     (\<forall>uid. length (of_user uid (wallets d)) \<le> MAX_WALLETS_PER_USER)"

lemma within_same: "wallets d' = wallets d \<Longrightarrow> set (map u_id (users d)) \<subseteq> set (map u_id (users d')) \<Longrightarrow> within_limits d \<Longrightarrow> within_limits d'"
  by (auto simp: within_limits_def list_all_iff)

lemma within_insert:
  assumes "within_limits d" "insert_wallet k d = Inr d'" "\<not> w_default k" "length (of_user (w_user k) (wallets d)) < MAX_WALLETS_PER_USER"
  shows "within_limits d'"
proof -
  have d': "d' = d\<lparr>wallets := wallets d @ [k]\<rparr>" by (rule insert_wallet_Inr [OF assms(2)])
  have "w_user k \<in> set (map u_id (users d))"
    using assms(2) by (force simp: insert_wallet_def user_by_id_def find_None_iff split: if_splits)
  then show ?thesis using assms(1,3,4) by (auto simp: within_limits_def d' one_default_append of_user_def Suc_le_eq)
qed

lemma within_delete:
  assumes "within_limits d"
  shows "within_limits (delete_wallet i d)"
proof -
  have "length (of_user uid (filter P ks)) \<le> length (of_user uid ks)" for uid P ks
    unfolding of_user_def filter_swap [of _ P] by (rule length_filter_le)
  from order_trans [OF this] have "length (of_user uid (filter P (wallets d))) \<le> MAX_WALLETS_PER_USER" for uid P
    using assms unfolding within_limits_def by blast
  then show ?thesis using assms
    by (auto simp: within_limits_def delete_wallet_def list_all_iff one_default_filter)
qed

lemma map_user_switch [simp]:
  "map w_user (clear_default uid ks) = map w_user ks" "map w_user (mark_default uid i ks) = map w_user ks"
  by (simp_all add: clear_default_def mark_default_def update_where_def)

lemma within_switch:
  assumes "within_limits d" "one_default ks" "map w_user ks = map w_user (wallets d)"
  shows "within_limits (d\<lparr>wallets := ks\<rparr>)"
proof -
  have count: "length (of_user uid xs) = count_list (map w_user xs) uid" for uid xs
    by (induction xs) (auto simp: of_user_def)
  have "list_all (\<lambda>k. w_user k \<in> S) xs = list_all (\<lambda>u. u \<in> S) (map w_user xs)" for S xs by (simp add: list.pred_map comp_def)
  from this [of _ ks] this [of _ "wallets d"] have "list_all (\<lambda>k. w_user k \<in> S) ks = list_all (\<lambda>k. w_user k \<in> S) (wallets d)" for S
    by (simp only: assms(3))
  then show ?thesis using assms by (simp add: within_limits_def count)
qed


lemma within_put: "put_wallets ks d = Inr d' \<Longrightarrow> map w_user ks = map w_user (wallets d) \<Longrightarrow> within_limits d \<Longrightarrow> within_limits d'"
  using within_switch [of d ks] by (simp add: put_wallets_def split: if_splits)

named_theorems limits \<open>operations that keep the limits\<close>

lemma limits_audit [limits]: "keeps (\<lambda>w. within_limits (db w)) (audit_log uid a x)"
  unfolding audit_log_def by (intro keep keeps_exec) (rule within_same; simp)

lemma limits_save [limits]: "keeps (\<lambda>w. within_limits (db w)) (save_wallet uid i kp)"
  unfolding save_wallet_def
proof (rule keeps_transaction, unfold keeps_wp, intro allI impI)
  fix w :: world assume w: "within_limits (db w)"
  show "wp (andThen tick (bnd (select (\<lambda>w. length (filter (\<lambda>k. w_user k = uid) (wallets (db w))))) (\<lambda>n.
       if MAX_WALLETS_PER_USER \<le> n then ret False
       else andThen (execE (\<lambda>w. insert_wallet \<lparr>w_id = i, w_user = uid, w_public_key = fst kp, w_secret = snd kp,
           w_default = False, w_created = now w\<rparr> (db w))) (ret True)))) (\<lambda>_ v. within_limits (db v)) (\<lambda>_ v. within_limits (db v)) w"
    using w by (auto simp: wps of_user_def split: sum.split intro: within_insert)
qed

lemma limits_switch [limits]: "keeps (\<lambda>w. within_limits (db w)) (switch_default uid i)"
  unfolding switch_default_def by (intro keeps_begun keep keeps_execE) (erule within_put; simp)+

lemma limits_confirmed [limits]: "keeps (\<lambda>w. within_limits (db w)) (confirmed auth action m1 m2 uid q)"
  unfolding keeps_wp
proof (intro allI impI)
  fix w :: world assume "within_limits (db w)"
  then have "within_limits (db v)" if "unchanged w v" for v
    using that by (intro within_same [of "db v" "db w"]) (simp_all add: unchanged_def)
  then show "wp (confirmed auth action m1 m2 uid q) (\<lambda>_ v. within_limits (db v)) (\<lambda>_ v. within_limits (db v)) w"
    by (intro wp_mono [OF wp_confirmed]) auto
qed

lemma limits_register [limits]: "keeps (\<lambda>w. within_limits (db w)) (register env ke rd q)"
  unfolding keeps_wp
proof (intro allI impI)
  fix w :: world assume w: "within_limits (db w)"
  have new: "within_limits (db v)" if "account_added env rd q w v" for v
  proof -
    obtain kp where v: "users (db v) = users (db w) @ [new_user rd q]" "wallets (db v) = wallets (db w) @ [new_wallet rd kp (now w)]"
      and fresh: "rd_user rd \<notin> set (map u_id (users (db w)))"
      using \<open>account_added env rd q w v\<close> by (auto simp: account_added_def)
    have none: "of_user (rd_user rd) (wallets (db w)) = []"
      using w fresh by (force simp: within_limits_def list_all_iff of_user_def filter_empty_conv)
    have "length (of_user uid (wallets (db v))) \<le> MAX_WALLETS_PER_USER" for uid
      using w none by (cases "uid = rd_user rd") (auto simp: within_limits_def v of_user_def new_wallet_def MAX_WALLETS_PER_USER_def)
    then show ?thesis using w by (auto simp: within_limits_def v list_all_iff one_default_append new_wallet_def)
  qed
  have same: "within_limits (db v)" if "same_accounts w v" for v
    by (rule within_same [OF _ _ w]) (use that in \<open>simp_all add: same_accounts_def\<close>)
  show "wp (register env ke rd q) (\<lambda>_ v. within_limits (db v)) (\<lambda>_ v. within_limits (db v)) w"
    by (rule wp_mono [OF wp_register]) (auto dest: new same)
qed

text \<open>The operations of a site that write wallets.\<close>

lemmas keeps_site = keep limits [THEN keeps_on_db] keeps_select [THEN keeps_on_db] keeps_tick [THEN keeps_on_db] keeps_with_wallet

abbreviation "bounded s \<equiv> within_limits (db (st_world s))"

lemma limits_create: "keeps bounded (createWalletHandler keys i uid label)"
  unfolding createWalletHandler_def by (intro keeps_site keeps_modify) simp_all

lemma limits_default: "keeps bounded (setDefaultWallet uid wid)"
  unfolding setDefaultWallet_def by (intro keeps_site)

lemma limits_merge: "keeps bounded (mergeWallet env auth uid wid destination q)"
  unfolding mergeWallet_def merge_wallet_of_def resolveWallet_def
  by (intro keeps_site keeps_on_db [OF keeps_exec] within_delete) (simp_all add: resolveWallet_def keeps_site)


text \<open>
  A run of the site: the handlers that write wallets, a registration, and any other step that leaves the wallets and
  loses no user.
\<close>

inductive site_run :: "'l site \<Rightarrow> bool" where
  Start: "wallets (db (st_world s)) = [] \<Longrightarrow> site_run s"
| Create: "site_run s \<Longrightarrow> site_run (snd (createWalletHandler keys i uid label s))"
| Default: "site_run s \<Longrightarrow> site_run (snd (setDefaultWallet uid wid s))"
| Merge: "site_run s \<Longrightarrow> site_run (snd (mergeWallet env auth uid wid destination q s))"
| Register: "site_run s \<Longrightarrow> site_run (snd (on_db (register auth ke rd rq) s))"
| Other: "site_run s \<Longrightarrow> wallets (db (st_world s')) = wallets (db (st_world s)) \<Longrightarrow>
    set (map u_id (users (db (st_world s)))) \<subseteq> set (map u_id (users (db (st_world s')))) \<Longrightarrow> site_run s'"

inductive_cases site_runE: "site_run s"

lemma site_run_bounded: "site_run s \<Longrightarrow> bounded s"
proof (induction rule: site_run.induct)
  case (Other s s')
  then show ?case by (intro within_same [of "db (st_world s')" "db (st_world s)"])
next
  case (Register s auth ke rd rq)
  then show ?case by (intro keeps_on_db [OF limits_register, unfolded keeps_def, rule_format])
next
  case (Start s)
  then show ?case by (simp add: within_limits_def one_default_def of_user_def)
qed (simp_all add: limits_create [unfolded keeps_def, rule_format] limits_default [unfolded keeps_def, rule_format]
    limits_merge [unfolded keeps_def, rule_format])

text \<open>
  C22: Whatever the requests and the failures, no user ever has more than five wallets or two default ones, and every wallet
  has a user.
\<close>

theorem wallets_limited:
  assumes "site_run s"
  shows "length (of_user uid (wallets (db (st_world s)))) \<le> MAX_WALLETS_PER_USER \<and>
    length (filter w_default (of_user uid (wallets (db (st_world s))))) \<le> 1 \<and>
    list_all (\<lambda>k. w_user k \<in> set (map u_id (users (db (st_world s))))) (wallets (db (st_world s)))"
proof -
  have "length (filter w_default (of_user uid ks)) \<le> 1" if "one_default ks" for ks
  proof -
    have swap: "filter w_default (of_user uid ks) = filter (\<lambda>k. w_user k = uid) (filter w_default ks)"
      unfolding of_user_def by (rule filter_swap)
    have "distinct (map w_user xs) \<Longrightarrow> length (filter (\<lambda>k. w_user k = uid) xs) \<le> 1" for xs
      by (induction xs) (auto simp: filter_empty_conv image_iff)
    from this [OF that [unfolded one_default_def]] show ?thesis unfolding swap .
  qed
  then show ?thesis using site_run_bounded [OF assms] by (auto simp: within_limits_def)
qed

section \<open>Switching the default\<close>

definition default_is :: "string \<Rightarrow> string \<Rightarrow> wallet list \<Rightarrow> wallet list \<Rightarrow> bool" where
  "default_is uid i ks ks' \<longleftrightarrow> list_all2 (\<lambda>k k'. k' = (if w_user k = uid then k\<lparr>w_default := (w_id k = i)\<rparr> else k)) ks ks'"

lemma default_is_switch: "default_is uid i ks (mark_default uid i (clear_default uid ks))"
  unfolding default_is_def mark_default_def clear_default_def update_where_def
  by (induction ks) auto

lemma own_switched: "own_wallet (d\<lparr>wallets := mark_default uid i (clear_default uid ks)\<rparr>) uid i = None \<longleftrightarrow> own_wallet (d\<lparr>wallets := ks\<rparr>) uid i = None"
  unfolding own_wallet_def mark_default_def clear_default_def update_where_def
  by (induction ks) auto

lemma wp_switch_default:
  "wp (switch_default uid i) (\<lambda>r v. case r of None \<Rightarrow> own_wallet (db w) uid i = None \<and> db v = db w
      | Some k \<Rightarrow> own_wallet (db w) uid i \<noteq> None \<and> default_is uid i (wallets (db w)) (wallets (db v)))
    (\<lambda>_ v. db v = db w) w"
  unfolding switch_default_def begun_def
  by (auto simp: wps put_wallets_def default_is_switch own_switched split: option.split)


text \<open>
  A wallet becomes the default of its user, and every other one of the user stops being it, only with the answer 200, and only
  if the caller has it; with any other answer, whatever fails, the wallets stay as they were.
\<close>

theorem default_switched:
  assumes "setDefaultWallet uid wid s = (r, s')"
  shows "if (\<exists>v. r = Inr (Reply 200 v)) then own_wallet (db (st_world s)) uid (the wid) \<noteq> None \<and>
      default_is uid (the wid) (wallets (db (st_world s))) (wallets (db (st_world s')))
    else wallets (db (st_world s')) = wallets (db (st_world s))"
proof -
  let ?ks = "wallets (db (st_world s))"
  let ?Q = "\<lambda>r s'. if \<exists>v. r = Reply 200 v then own_wallet (db (st_world s)) uid (the wid) \<noteq> None \<and> default_is uid (the wid) ?ks (wallets (db (st_world s')))
    else wallets (db (st_world s')) = ?ks"
  have "wp (setDefaultWallet uid wid) ?Q (\<lambda>_ s'. wallets (db (st_world s')) = ?ks) s"
    unfolding setDefaultWallet_def wp_andThen wp_handler wp_if wp_bnd wp_on_db wp_tick
    apply (simp add: wps)
    apply (intro impI wp_mono [OF wp_switch_default])
     apply (auto simp: wps wallet_missing_def own_wallet_def split: option.splits)
    done
  then show ?thesis using assms by (auto simp: wp_def split: sum.splits)
qed

section \<open>Data entries\<close>

definition entry_result :: "'l stellar_net \<Rightarrow> ('l \<Rightarrow> tx list) \<Rightarrow> tx list \<Rightarrow> string \<Rightarrow> string \<Rightarrow> string option \<Rightarrow> 'l site \<Rightarrow> outcome \<Rightarrow> 'l site \<Rightarrow> bool" where
  "entry_result env applied A uid key v s r s' \<longleftrightarrow> unmoved applied A (st_client s') \<and> status_of r \<noteq> Some 200 \<or>
     key \<in> set ALLOWED_KEYS \<and> (\<exists>k\<in>set (wallets (db (st_world s))). w_user k = uid \<and>
       paid applied A (signed_op env (w_secret k) (ManageData key v)) (cl_net (st_client s')))"

lemma wp_entry:
  assumes law: "lawful env applied" and c: "unmoved applied A (st_client s)" and key: "key \<in> set ALLOWED_KEYS"
  shows "wp (with_row uid (\<lambda>k. bnd (on_net (setDataEntry env (w_public_key k) (w_secret k) key v)) (\<lambda>r. ret (Reply 200 (b r)))))
    (entry_result env applied A uid key v s) (\<lambda>e. entry_result env applied A uid key v s (NextErr e)) s"
proof -
  let ?R = "entry_result env applied A uid key v s" and ?w = "st_world s"
  have entry: "wp (setDataEntry env (w_public_key k) (w_secret k) key v)
      (\<lambda>r c. ?R (Reply 200 (b r)) (s\<lparr>st_world := u, st_client := c\<rparr>)) (\<lambda>e c. ?R (NextErr e) (s\<lparr>st_world := u, st_client := c\<rparr>)) (st_client s)"
    if "k \<in> set (wallets (db ?w))" "w_user k = uid" for k u
    using that key by (intro wp_mono [OF setDataEntry_once [OF law c]]) (auto simp: entry_result_def perhaps_def unmoved_def)
  show ?thesis
    using entry c
    by (auto simp: with_row_def getWalletRow_def wps wallet_missing_def entry_result_def [of _ _ _ _ _ _ _ "NextErr dbError"]
        entry_result_def [of _ _ _ _ _ _ _ "Reply 404 (jerr ''Wallet not found'')"] split: option.split dest!: find_SomeD)
qed

text \<open>
  The data entries of an account change under the permitted keys only: setting or deleting an entry leaves the ledger as it was, or
  puts one transaction on it, signed with the key of a wallet of the caller, that manages just this entry.
\<close>

theorem data_entries_allowed:
  assumes "lawful env applied" and "request = setEntry env uid key v \<or> request = deleteEntry env uid key" and "request s = (r, s')"
  shows "\<exists>o'. r = Inr o' \<and> (entry_result env applied (applied (cl_net (st_client s))) uid key (Some v) s o' s' \<or>
    entry_result env applied (applied (cl_net (st_client s))) uid key None s o' s')"
proof -
  let ?A = "applied (cl_net (st_client s))"
  let ?R = "\<lambda>o' s'. entry_result env applied ?A uid key (Some v) s o' s' \<or> entry_result env applied ?A uid key None s o' s'"
  have c: "unmoved applied ?A (st_client s)" by (simp add: unmoved_def)
  have "wp request ?R (\<lambda>_ _. False) s"
  proof (cases "key \<in> set ALLOWED_KEYS")
    case True
    note entry = wp_entry [OF assms(1) c True]
    from assms(2) show ?thesis
      by (rule disjE) (auto simp: setEntry_def deleteEntry_def True wp_handler intro!: wp_mono [OF entry])
  next
    case False
    then show ?thesis using assms(2) c by (auto simp: setEntry_def deleteEntry_def wps entry_result_def)
  qed
  then show ?thesis using assms(3) by (simp add: wp_def split: sum.splits)
qed

section \<open>What the code does not do\<close>

text \<open>Without a default wallet, as a registration leaves a user, no signer is added or removed.\<close>

lemma signers_need_default:
  assumes "\<And>k. k \<in> set (wallets (db (st_world s))) \<Longrightarrow> w_user k = uid \<Longrightarrow> \<not> w_default k"
  shows "wp (addSigner env uid key label) (\<lambda>r s'. r \<in> {wallet_missing, NextErr dbError} \<and> st_client s' = st_client s) (\<lambda>_ _. False) s"
    and "wp (removeSigner env uid key) (\<lambda>r s'. r \<in> {wallet_missing, NextErr dbError} \<and> st_client s' = st_client s) (\<lambda>_ _. False) s"
proof -
  have none: "find (\<lambda>k. w_user k = uid \<and> w_default k) (wallets (db (st_world s))) = None"
    using assms by (auto simp: find_None_iff)
  show "wp (addSigner env uid key label) (\<lambda>r s'. r \<in> {wallet_missing, NextErr dbError} \<and> st_client s' = st_client s) (\<lambda>_ _. False) s"
    "wp (removeSigner env uid key) (\<lambda>r s'. r \<in> {wallet_missing, NextErr dbError} \<and> st_client s' = st_client s) (\<lambda>_ _. False) s"
    by (simp_all add: addSigner_def removeSigner_def flagged_wallet_def wps none)
qed

text \<open>The import of a history stores nothing: it fails at the first record that has a hash.\<close>

lemma importBatch_fails:
  assumes "r \<in> set rs" "truthy (field (Some r) ''transaction_hash'')" "faults w = []"
  shows "fst (importBatch rs w) = Inl (undefinedColumn ''stellar_transaction_id'')"
proof -
  have missing: "unknown ''transactions'' [''id'', ''stellar_transaction_id'', ''wallet_id''] = Some (undefinedColumn ''stellar_transaction_id'')"
    by code_simp
  show ?thesis using assms(1,2)
    by (induction rs) (auto simp: selectCols_def missing bnd_def andThen_def throw_def tick_def assms(3) split: prod.split)
qed

lemma importBatch_counts: "wp (importBatch rs) (\<lambda>n v. n = 0 \<and> db v = db w) (\<lambda>_ v. db v = db w) w"
proof (induction rs)
  case (Cons r rs)
  have missing: "unknown ''transactions'' [''id'', ''stellar_transaction_id'', ''wallet_id''] = Some (undefinedColumn ''stellar_transaction_id'')"
    by code_simp
  show ?case using Cons.IH by (simp add: selectCols_def missing wps)
qed (simp add: wps)

lemma import_stores_nothing:
  "wp (importWalletHistory n env pk cursor n0) (\<lambda>r s'. r \<in> {None, Some n0} \<and> db (st_world s') = db (st_world s)) (\<lambda>_ s'. db (st_world s') = db (st_world s)) s"
proof (induction n arbitrary: cursor s)
  case (Suc n)
  let ?Q = "\<lambda>r s'. r \<in> {None, Some n0} \<and> db (st_world s') = db (st_world s)" and ?E = "\<lambda>_ s'. db (st_world s') = db (st_world s)"
  have again: "wp (importWalletHistory n env pk next n0) ?Q ?E s'" if "db (st_world s') = db (st_world s)" for "next" s'
    using Suc.IH [of "next" s'] that by simp
  have batch: "wp (bnd (on_db (importBatch rs)) (\<lambda>imported. if b then ret (Some (n0 + imported)) else importWalletHistory n env pk next (n0 + imported))) ?Q ?E s'"
    if "db (st_world s') = db (st_world s)" for rs b "next" s'
    unfolding wp_bnd wp_on_db
    by (rule wp_mono [OF importBatch_counts]) (use that again in \<open>auto simp: wps\<close>)
  have page: "wp (page_of env pk cursor) ?E ?E s"
    by (simp add: page_of_def wps split: prod.split sum.split)
  show ?case
    unfolding importWalletHistory.simps Let_def
    apply (subst wp_bnd)
    apply (rule wp_mono [OF page])
     apply (simp only: wp_if wp_ret)
     apply (use batch in auto)
    done
qed (simp add: wps)

section \<open>A site at work\<close>

text \<open>A user as a registration leaves one, with a PIN: the only wallet is not the default.\<close>

definition demo_site :: "(tx option) site" where
  "demo_site = \<lparr>st_world = demo_account\<lparr>db := (db demo_account)\<lparr>logins := (\<lambda>_. fresh_login\<lparr>lg_password := ''right'', lg_pin := Some ''1234''\<rparr>),
       wallets := [\<lparr>w_id = ''w1'', w_user = ''u1'', w_public_key = ''GA'', w_secret = ''SA'', w_default = False, w_created = 0\<rparr>]\<rparr>\<rparr>,
     st_client = toy_client, st_label = (\<lambda>_. ''Main''), st_type = (\<lambda>_. ''personal''), st_signers = [], st_assets = []\<rparr>"

definition demo_confirmation :: confirmation where
  "demo_confirmation = \<lparr>cf_password = Some ''right'', cf_totp = None, cf_pin = Some ''1234''\<rparr>"

lemma key_disclosed_only_witness:
  "discloses toy_net demo_env ''u1'' None demo_confirmation (st_world demo_site) (Reply 200 (JObj [(''secret_key'', JStr ''SA'')]))"
proof -
  have run: "case fst (exportKey toy_net demo_env ''u1'' None demo_confirmation demo_site) of Inr (Reply n v) \<Rightarrow> n = 200 \<and> json_string (field (Some v) ''secret_key'') = Some ''SA''
      | _ \<Rightarrow> False" by code_simp
  obtain r s' where ex: "exportKey toy_net demo_env ''u1'' None demo_confirmation demo_site = (r, s')" by fastforce
  obtain v where v: "r = Inr (Reply 200 v)" "json_string (field (Some v) ''secret_key'') = Some ''SA''"
    using run [unfolded ex fst_conv] by (cases r) (auto split: outcome.splits)
  from key_disclosed_only [OF ex] have "discloses toy_net demo_env ''u1'' None demo_confirmation (st_world demo_site) (Reply 200 v)" by (simp add: v)
  moreover from this have "v = JObj [(''secret_key'', JStr ''SA'')]" using v(2) by (auto simp: discloses_def field_def json_string_def)
  ultimately show ?thesis by simp
qed

text \<open>The only wallet is merged away: the check of the default does not hold it back.\<close>

lemma merge_follows_ledger_witness:
  "\<exists>o' s'. mergeWallet toy_net demo_env ''u1'' None (Some ''GB'') demo_confirmation demo_site = (Inr o', s') \<and> status_of o' = Some 200 \<and>
     wallets (db (st_world s')) = [] \<and> merge_result toy_net demo_env toy_applied [] ''u1'' None (Some ''GB'') demo_confirmation demo_site o' s'"
proof -
  have run: "case mergeWallet toy_net demo_env ''u1'' None (Some ''GB'') demo_confirmation demo_site of
      (Inr o', s') \<Rightarrow> status_of o' = Some 200 \<and> wallets (db (st_world s')) = [] | _ \<Rightarrow> False" by code_simp
  obtain r s' where ex: "mergeWallet toy_net demo_env ''u1'' None (Some ''GB'') demo_confirmation demo_site = (r, s')" by fastforce
  have "toy_applied (cl_net (st_client demo_site)) = []" by (simp add: toy_applied_def demo_site_def toy_client_def)
  then show ?thesis using merge_follows_ledger [OF toy_lawful ex] run by (auto simp: ex split: sum.splits)
qed

definition demo_choice :: "(jserr + outcome) \<times> (tx option) site" where
  "demo_choice = setDefaultWallet ''u1'' (Some ''w1'') demo_site"

lemma demo_chosen: "case demo_choice of (Inr (Reply n v), s') \<Rightarrow> n = 200 \<and> map w_default (wallets (db (st_world s'))) = [True] | _ \<Rightarrow> False"
  by code_simp

lemma default_switched_witness:
  "own_wallet (db (st_world demo_site)) ''u1'' ''w1'' \<noteq> None \<and>
    default_is ''u1'' ''w1'' (wallets (db (st_world demo_site))) (wallets (db (st_world (snd demo_choice))))"
proof -
  obtain r s' where run: "demo_choice = (r, s')" by fastforce
  then have "setDefaultWallet ''u1'' (Some ''w1'') demo_site = (r, s')" by (simp add: demo_choice_def)
  from default_switched [OF this] show ?thesis
    using demo_chosen by (auto simp: run split: sum.splits outcome.splits)
qed

lemma wallets_limited_witness:
  "let ks = wallets (db (st_world (snd (createWalletHandler (Inr (''GC'', ''SC'')) ''w2'' ''u1'' None
      (demo_site\<lparr>st_world := demo_account\<rparr>))))) in map w_id ks = [''w2''] \<and> length (of_user ''u1'' ks) \<le> MAX_WALLETS_PER_USER"
proof -
  have run: "site_run (snd (createWalletHandler (Inr (''GC'', ''SC'')) ''w2'' ''u1'' None (demo_site\<lparr>st_world := demo_account\<rparr>)))"
    by (intro site_run.intros) (simp add: demo_account_def empty_db_def)
  have "map w_id (wallets (db (st_world (snd (createWalletHandler (Inr (''GC'', ''SC'')) ''w2'' ''u1'' None
      (demo_site\<lparr>st_world := demo_account\<rparr>)))))) = [''w2'']" by code_simp
  with wallets_limited [OF run, of "''u1''"] show ?thesis by (simp add: Let_def)
qed

lemma data_entries_allowed_witness:
  "\<exists>o' s'. setEntry toy_net ''u1'' ''kyc_hash'' ''x'' demo_site = (Inr o', s') \<and> status_of o' = Some 200 \<and>
     (entry_result toy_net toy_applied [] ''u1'' ''kyc_hash'' (Some ''x'') demo_site o' s' \<or>
      entry_result toy_net toy_applied [] ''u1'' ''kyc_hash'' None demo_site o' s')"
proof -
  have run: "case setEntry toy_net ''u1'' ''kyc_hash'' ''x'' demo_site of (Inr o', s') \<Rightarrow> status_of o' = Some 200 | _ \<Rightarrow> False" by code_simp
  obtain r s' where ex: "setEntry toy_net ''u1'' ''kyc_hash'' ''x'' demo_site = (r, s')" by fastforce
  have "toy_applied (cl_net (st_client demo_site)) = []" by (simp add: toy_applied_def demo_site_def toy_client_def)
  then show ?thesis using data_entries_allowed [OF toy_lawful disjI1 [OF refl] ex] run
    by (auto simp: ex split: sum.splits)
qed

end
