(* ===== verification/Spec2Isabelle.thy ===== *)
theory Spec2Isabelle
  imports Fees Escrow Fraud Compliance Ssrf Retry Lock TxQueue ChannelPool Idempotency Access Dispute PayChannel
    Loyalty Referral Credentials Rotation Contacts Requests Savings Webhooks Wallets
begin

text \<open>
  A verification development of the backend of the Cross-Border Payment App for Africa: the Express server under
  \<^verbatim>\<open>backend/src\<close>, with its tables in PostgreSQL (\<^verbatim>\<open>database/migrations\<close>), its cache and locks in Redis, and the payments,
  contracts and balances it keeps on the Stellar network. Paths below are relative to \<^verbatim>\<open>src/backend/src\<close>.

  The program. A request passes the authentication of \<^verbatim>\<open>middleware/auth.js\<close>, for some routes a step-up confirmation or an
  ownership check, and reaches a handler of \<^verbatim>\<open>controllers\<close>. Handlers read and write tables, ask the services for payments, escrows,
  disputes, channels, loyalty mints and webhooks, and answer. Jobs under \<^verbatim>\<open>jobs\<close> run on timers, some under the distributed lock.
  Every service that pays goes through \<^verbatim>\<open>services/stellar.js\<close> (Horizon, with a fallback server and retries) or
  \<^verbatim>\<open>config/soroban.js\<close> (contracts, with a confirmation poller).

  How it is modelled. \<open>Prelude\<close> has JSON values, JavaScript errors, the answers of a handler and the procedures handlers are
  made of: a procedure takes a state and returns an error or a value with the next state, \<open>catch\<close> and \<open>throw\<close> are the source's,
  and \<open>wp\<close> and \<open>keeps\<close> carry the proofs (weakest preconditions, and invariants through every constructor). \<open>JsNumber\<close> has the
  numbers: IEEE doubles as the rationals they denote, each operation rounding to 53 bits, with the exactness of amounts in stroops
  below \<open>2 ^ 28\<close> units. \<open>JsText\<close> has the readers of texts (\<open>Number\<close>, \<open>parseFloat\<close>, \<open>parseInt\<close>), truth values, fields of JSON
  values and dates. \<open>World\<close> has the tables as lists of records with their constraints, Redis, the in-process maps, the clock, and a
  script of failures: each database or Redis call takes one entry of \<open>faults\<close>, so a theorem over any state covers every
  pattern of failures.

  The components, in the order of the imports, with the code each models and what its lemmas show.
  \<open>Cache\<close> (\<^verbatim>\<open>utils/cache.js\<close>): expiry and keys that are used once.
  \<open>FeeConfig\<close>, \<open>Fees\<close> (\<^verbatim>\<open>services/feeConfigService.js\<close>, its controller and jobs, \<^verbatim>\<open>services/fees.js\<close>, \<^verbatim>\<open>services/feeDistributor.js\<close>): at
  most one active schedule under any history, and a fee and a net amount that add up to the gross, at the rate of the schedule.
  \<open>Soroban\<close>, \<open>Escrow\<close> (\<^verbatim>\<open>config/soroban.js\<close>, \<^verbatim>\<open>services/agentEscrow.js\<close>, \<^verbatim>\<open>controllers/agentEscrowController.js\<close>): the poller ends by its
  deadline; an escrow is completed only after its payout is confirmed, and never releases more than its amount.
  \<open>Fraud\<close>, \<open>Compliance\<close> (\<^verbatim>\<open>services/fraudDetection.js\<close>, \<^verbatim>\<open>services/amlScreening.js\<close>, \<^verbatim>\<open>controllers/kycController.js\<close>, \<^verbatim>\<open>services/kycAttestation.js\<close>,
  \<^verbatim>\<open>jobs/kycExpiryJob.js\<close>): the engine refines a first-match specification; large payments need a clear screening.
  \<open>Ssrf\<close> (\<^verbatim>\<open>utils/ssrf.js\<close>, \<^verbatim>\<open>utils/ssrfValidator.js\<close>, \<^verbatim>\<open>utils/pinnedAgent.js\<close>): the masks are the reserved ranges, and the address
  checked is the address used.
  \<open>Retry\<close>, \<open>Lock\<close>, \<open>TxQueue\<close>, \<open>ChannelPool\<close>, \<open>Idempotency\<close> (\<^verbatim>\<open>utils/retry.js\<close>, \<^verbatim>\<open>utils/distributedLock.js\<close>, \<^verbatim>\<open>utils/txQueue.js\<close>,
  \<^verbatim>\<open>services/channelAccountPool.js\<close>, \<^verbatim>\<open>middleware/idempotency.js\<close>): bounded retries, exclusion of locks and channel accounts, progress of
  the queue of a wallet, replay of stored answers.
  \<open>Access\<close>, \<open>Accounts\<close>, \<open>Credentials\<close>, \<open>Rotation\<close> (\<^verbatim>\<open>middleware\<close>, \<^verbatim>\<open>controllers/authController.js\<close>, \<^verbatim>\<open>services/pin.js\<close>, \<^verbatim>\<open>services/twofa.js\<close>,
  \<^verbatim>\<open>utils/tokens.js\<close>): who passes, what a login requires and how many guesses it allows, registration and reset that are all or nothing, one
  live refresh token for each family.
  \<open>Dispute\<close>, \<open>PayChannel\<close>, \<open>Loyalty\<close>, \<open>Referral\<close> (\<^verbatim>\<open>services/disputeResolution.js\<close>, \<^verbatim>\<open>services/paymentChannel.js\<close>, \<^verbatim>\<open>services/loyaltyToken.js\<close>,
  \<^verbatim>\<open>jobs/loyaltyMintJob.js\<close>, \<^verbatim>\<open>services/referralRewardService.js\<close> and their controllers): typed rows, conserved channel balances, bounded mints, one
  reward for each referee.
  \<open>Contacts\<close>, \<open>Requests\<close>, \<open>Savings\<close> (their controllers, \<^verbatim>\<open>jobs/paymentRequestCleanupJob.js\<close>): the CSV import reads back what was
  written, no request is lost, no vault is paid twice.
  \<open>Assets\<close>, \<open>Horizon\<close>, \<open>Payments\<close>, \<open>StellarOps\<close> (\<^verbatim>\<open>services/stellar.js\<close>, \<^verbatim>\<open>utils/horizonSchemas.js\<close>): the fallback server and its alerts; a
  payment, a batch or a path payment reaches the ledger at most once; memos fit; balances are exact.
  \<open>Wallets\<close> (\<^verbatim>\<open>controllers/walletController.js\<close>, \<^verbatim>\<open>services/horizonService.js\<close>): the tables and the network client side by side; a key is shown and
  an account merged only for its confirmed owner, the row follows the ledger, and no user exceeds five wallets or one default.
  \<open>Webhooks\<close> (\<^verbatim>\<open>services/webhook.js\<close>, \<^verbatim>\<open>controllers/webhookController.js\<close>, \<^verbatim>\<open>utils/webhookSignature.js\<close>): at most three attempts, each to a
  checked address, with signatures that survive a rotation.

  Interfaces. The locale \<open>expiring_store\<close> of \<open>Cache\<close> states what a store with expiry promises (a lookup after a store, single use) and is
  interpreted on Redis, the in-process map and the map of used keys; the locale \<open>table\<close> of \<open>World\<close> states what inserting, updating
  and looking up by identifier keep, and is interpreted on five tables.

  Bounds and fuel. Fuel bounds only the pages of a history import, which stops at its first record with a hash; all other loops recur over a list, over the attempts left (three of a payment, five looks for a
  claimable balance, four tries of \<open>retryWithBackoff\<close>) or with a measure (the poller of \<open>Soroban\<close> and the polling of
  \<open>ChannelPool\<close> by the time left, \<open>visitPredicate\<close> by the size of a predicate). Exactness of amounts is stated below \<open>2 ^ 28\<close>
  units, some 268 million, where a double is close enough to its decimal; the theorems name the bound (\<open>money\<close>).

  Parameters. Code that is not under \<^verbatim>\<open>src\<close> is an argument: the Stellar SDK and the two Horizon servers (\<open>stellar_net\<close>), the
  Soroban server (\<open>soroban\<close>), hashing, TOTP, ciphers and jwt (\<open>auth_env\<close>), the name service (\<open>resolver\<close>), providers of identity
  checks, and what a subscriber of a webhook answers. What is assumed of them is a named hypothesis: \<open>lawful\<close> (a ledger applies a transaction
  at most once, answers for it only when it did, and loads an account with a sequence number that is still unused), \<open>truthful\<close>,
  digests in hexadecimal, a cipher that undoes itself. A witness runs each theorem with such a hypothesis on a concrete instance.

  Order of events. A handler runs to its end before the next; where the interleaving is the point (the lock, the queue of a
  wallet, the channel pool, the race of two refreshes, the timers of webhooks) the steps are those of the event loop or of the
  transaction. Histories are inductive: any sequence of handlers, jobs, failures and pauses.

  Not modelled. \<^verbatim>\<open>controllers/paymentController.js\<close> and \<^verbatim>\<open>jobs/scheduledPaymentsJob.js\<close> do not parse (they are the result of a bad
  merge), so they have no meaning to model; what other modules import from them is a parameter. \<^verbatim>\<open>controllers/sessionController.js\<close> throws when it is
  loaded, save for its blacklist. Left out as input and output without decisions of their own: the transports of e-mail, SMS and push
  messages, metrics, logging, health pages, the validators of routes, file uploads and virus scans, the event listeners that copy ledger events
  into tables. Left out for now: the administration, analytics and anchor controllers, SEP-10 and SEP-31, the rate and country
  limits, prices and the exchange. Other languages and programs (the contracts in Rust, the pages of \<^verbatim>\<open>frontend\<close>) are outside; of
  the contracts the model keeps the calls the backend makes.
\<close>

end
